(* ===== verification/Rust_Prelude.thy ===== *)
theory Rust_Prelude
  imports Main "HOL-Library.Char_ord" "HOL-Library.List_Lexorder" "HOL-Library.Product_Lexorder"
    "HOL-Library.Sublist" "HOL-Library.Word"
begin

text \<open>
  What every component shares: the part of Rust's standard library that the modelled crates use.
  A Rust \<open>String\<close> is its UTF-8 bytes, so it is an Isabelle \<open>string\<close> (a list of 8-bit \<open>char\<close>):
  \<open>len\<close> is \<open>length\<close>, byte order is \<open>List_Lexorder\<close> over \<open>Char_ord\<close>, substring search is search on
  bytes, and the operations of \<open>str\<close> that count or strip characters decode the lead bytes.
  A \<open>HashMap\<close> is a map, a \<open>HashSet\<close> a set, \<open>usize\<close> counts of in-memory things are \<open>nat\<close>, and the
  fixed-width counters that the code adds to are words.
\<close>

type_synonym u8 = "8 word"
type_synonym u32 = "32 word"
type_synonym u64 = "64 word"

named_theorems str_simps \<open>evaluation of the string functions\<close>
named_theorems op_defs \<open>definitions of the operations a group of proofs unfolds\<close>

section \<open>Characters and bytes\<close>

definition nl :: char where "nl = CHR 0x0A"

definition sq :: char where "sq = CHR 0x27"

definition dq :: char where "dq = CHR 0x22"

definition quoted :: "string \<Rightarrow> string" where
  "quoted s = sq # s @ [sq]"

definition byte :: "char \<Rightarrow> nat" where
  "byte c = of_char c"

definition is_cont :: "char \<Rightarrow> bool" where
  "is_cont c \<longleftrightarrow> 128 \<le> byte c \<and> byte c < 192"

definition len_utf8 :: "char \<Rightarrow> nat" where
  "len_utf8 c =
     (if byte c < 128 then 1 else if byte c < 224 then 2 else if byte c < 240 then 3 else 4)"

lemma len_utf8_pos [simp]: "0 < len_utf8 c"
  by (simp add: len_utf8_def)

text \<open>\<open>s.chars().count()\<close> and \<open>s.chars().take(n).collect()\<close>.\<close>

definition char_count :: "string \<Rightarrow> nat" where
  "char_count s = length (filter (\<lambda>c. \<not> is_cont c) s)"

fun take_chars :: "nat \<Rightarrow> string \<Rightarrow> string" where
  "take_chars n [] = []"
| "take_chars n (c # cs) =
     (if is_cont c then c # take_chars n cs
      else case n of 0 \<Rightarrow> [] | Suc m \<Rightarrow> c # take_chars m cs)"

lemma char_count_Nil [simp]: "char_count [] = 0"
  by (simp add: char_count_def)

lemma char_count_Cons [simp]:
  "char_count (c # cs) = (if is_cont c then char_count cs else Suc (char_count cs))"
  by (simp add: char_count_def)

lemma char_count_append [simp]: "char_count (s @ t) = char_count s + char_count t"
  by (simp add: char_count_def)

lemma char_count_le_length: "char_count s \<le> length s"
  by (simp add: char_count_def)

lemma char_count_take_chars [simp]: "char_count (take_chars n s) = min n (char_count s)"
  by (induction n s rule: take_chars.induct) (auto split: nat.splits)

lemma take_chars_prefix: "prefix (take_chars n s) s"
  by (induction n s rule: take_chars.induct) (auto split: nat.splits)

lemma take_chars_all: "char_count s \<le> n \<Longrightarrow> take_chars n s = s"
  by (induction n s rule: take_chars.induct) (auto split: nat.splits if_splits)

definition is_ascii_digit :: "char \<Rightarrow> bool" where
  "is_ascii_digit c \<longleftrightarrow> 48 \<le> byte c \<and> byte c \<le> 57"

definition is_ascii_alphanumeric :: "char \<Rightarrow> bool" where
  "is_ascii_alphanumeric c \<longleftrightarrow>
     is_ascii_digit c \<or> (65 \<le> byte c \<and> byte c \<le> 90) \<or> (97 \<le> byte c \<and> byte c \<le> 122)"

definition ascii_lower :: "char \<Rightarrow> char" where
  "ascii_lower c = (if 65 \<le> byte c \<and> byte c \<le> 90 then char_of (byte c + 32) else c)"

definition to_ascii_lowercase :: "string \<Rightarrow> string" where
  "to_ascii_lowercase s = map ascii_lower s"

section \<open>Searching\<close>

text \<open>\<open>text.find(pat)\<close>: the first byte offset at which the pattern stands.\<close>

fun str_find :: "string \<Rightarrow> string \<Rightarrow> nat option" where
  "str_find [] p = (if p = [] then Some 0 else None)"
| "str_find (c # cs) p = (if prefix p (c # cs) then Some 0 else map_option Suc (str_find cs p))"

definition str_contains :: "string \<Rightarrow> string \<Rightarrow> bool" where
  "str_contains s p \<longleftrightarrow> str_find s p \<noteq> None"

lemma str_find_Some_prefix: "str_find s p = Some k \<Longrightarrow> k \<le> length s \<and> prefix p (drop k s)"
  by (induction s p arbitrary: k rule: str_find.induct) (auto split: if_splits)

lemma str_find_Some_least: "str_find s p = Some k \<Longrightarrow> j < k \<Longrightarrow> \<not> prefix p (drop j s)"
proof (induction s p arbitrary: k j rule: str_find.induct)
  case (1 p)
  then show ?case by (auto split: if_splits)
next
  case (2 c cs p)
  then show ?case by (cases j) (auto split: if_splits)
qed

lemma str_find_None: "str_find s p = None \<longleftrightarrow> (\<forall>k \<le> length s. \<not> prefix p (drop k s))"
proof (induction s p rule: str_find.induct)
  case (1 p)
  then show ?case by auto
next
  case (2 c cs p)
  show ?case
  proof (cases "prefix p (c # cs)")
    case True
    then show ?thesis by (auto intro!: exI [of _ 0])
  next
    case False
    have "(\<forall>k \<le> length (c # cs). \<not> prefix p (drop k (c # cs))) \<longleftrightarrow>
          (\<forall>k \<le> length cs. \<not> prefix p (drop k cs))"
      using False by (metis Suc_le_mono drop0 drop_Suc_Cons length_Cons not0_implies_Suc)
    with False 2 show ?thesis by simp
  qed
qed

lemma str_contains_iff: "str_contains s p \<longleftrightarrow> (\<exists>u v. s = u @ p @ v)"
proof
  assume "str_contains s p"
  then obtain k where k: "str_find s p = Some k"
    by (auto simp: str_contains_def)
  then obtain v where "drop k s = p @ v"
    using str_find_Some_prefix by (blast elim: prefixE)
  then have "s = take k s @ p @ v" by (metis append_take_drop_id)
  then show "\<exists>u v. s = u @ p @ v" by blast
next
  assume "\<exists>u v. s = u @ p @ v"
  then obtain u v where s: "s = u @ p @ v" by blast
  then have "prefix p (drop (length u) s)" and "length u \<le> length s" by simp_all
  then show "str_contains s p"
    unfolding str_contains_def using str_find_None by blast
qed

lemma str_contains_append_left: "str_contains s p \<Longrightarrow> str_contains (t @ s) p"
  by (metis append.assoc str_contains_iff)

lemma str_contains_append_right: "str_contains s p \<Longrightarrow> str_contains (s @ t) p"
  by (metis append.assoc str_contains_iff)

lemma str_contains_refl [simp]: "str_contains p p"
  using str_contains_iff by (metis append.left_neutral append.right_neutral)

definition strip_prefix :: "string \<Rightarrow> string \<Rightarrow> string option" where
  "strip_prefix p s = (if prefix p s then Some (drop (length p) s) else None)"

definition strip_suffix :: "string \<Rightarrow> string \<Rightarrow> string option" where
  "strip_suffix p s = (if suffix p s then Some (take (length s - length p) s) else None)"

text \<open>\<open>s.split_once(c)\<close>.\<close>

fun split_once :: "char \<Rightarrow> string \<Rightarrow> (string \<times> string) option" where
  "split_once d [] = None"
| "split_once d (c # cs) =
     (if c = d then Some ([], cs) else map_option (\<lambda>(a, b). (c # a, b)) (split_once d cs))"

text \<open>\<open>xs.iter().position(P)\<close>.\<close>

fun find_index :: "('a \<Rightarrow> bool) \<Rightarrow> 'a list \<Rightarrow> nat option" where
  "find_index P [] = None"
| "find_index P (x # xs) = (if P x then Some 0 else map_option Suc (find_index P xs))"

text \<open>\<open>s.replace(c, t)\<close> for a character \<open>c\<close> and \<open>s.eq_ignore_ascii_case(t)\<close>.\<close>

definition replace_char :: "char \<Rightarrow> string \<Rightarrow> string \<Rightarrow> string" where
  "replace_char c t s = concat (map (\<lambda>d. if d = c then t else [d]) s)"

definition eq_ignore_ascii_case :: "string \<Rightarrow> string \<Rightarrow> bool" where
  "eq_ignore_ascii_case s t \<longleftrightarrow> to_ascii_lowercase s = to_ascii_lowercase t"

section \<open>White space\<close>

text \<open>The UTF-8 encodings of the Unicode \<open>White_Space\<close> characters, which \<open>trim\<close> and
  \<open>split_whitespace\<close> use.\<close>

definition ws_chars :: "string list" where
  "ws_chars =
    [[CHR 0x20], [CHR 0x0A], [CHR 0x09], [CHR 0x0D], [CHR 0x0B], [CHR 0x0C],
     [CHR 0xC2, CHR 0x85], [CHR 0xC2, CHR 0xA0], [CHR 0xE1, CHR 0x9A, CHR 0x80],
     [CHR 0xE2, CHR 0x80, CHR 0x80], [CHR 0xE2, CHR 0x80, CHR 0x81],
     [CHR 0xE2, CHR 0x80, CHR 0x82], [CHR 0xE2, CHR 0x80, CHR 0x83],
     [CHR 0xE2, CHR 0x80, CHR 0x84], [CHR 0xE2, CHR 0x80, CHR 0x85],
     [CHR 0xE2, CHR 0x80, CHR 0x86], [CHR 0xE2, CHR 0x80, CHR 0x87],
     [CHR 0xE2, CHR 0x80, CHR 0x88], [CHR 0xE2, CHR 0x80, CHR 0x89],
     [CHR 0xE2, CHR 0x80, CHR 0x8A], [CHR 0xE2, CHR 0x80, CHR 0xA8],
     [CHR 0xE2, CHR 0x80, CHR 0xA9], [CHR 0xE2, CHR 0x80, CHR 0xAF],
     [CHR 0xE2, CHR 0x81, CHR 0x9F], [CHR 0xE3, CHR 0x80, CHR 0x80]]"

definition strip_one :: "string list \<Rightarrow> string \<Rightarrow> string option" where
  "strip_one ws s = map_option (\<lambda>w. drop (length w) s) (find (\<lambda>w. w \<noteq> [] \<and> prefix w s) ws)"

lemma strip_one_length: "strip_one ws s = Some r \<Longrightarrow> length r < length s"
  by (auto simp: strip_one_def find_Some_iff elim!: prefixE)

lemma strip_one_suffix: "strip_one ws s = Some r \<Longrightarrow> suffix r s"
  by (auto simp: strip_one_def suffix_drop)

function strip_start :: "string list \<Rightarrow> string \<Rightarrow> string" where
  "strip_start ws s = (case strip_one ws s of None \<Rightarrow> s | Some r \<Rightarrow> strip_start ws r)"
  by pat_completeness auto
termination
  by (relation "measure (\<lambda>(ws, s). length s)") (auto simp: strip_one_length)

declare strip_start.simps [simp del]

definition trim_start :: "string \<Rightarrow> string" where
  "trim_start s = strip_start ws_chars s"

definition trim_end :: "string \<Rightarrow> string" where
  "trim_end s = rev (strip_start (map rev ws_chars) (rev s))"

definition trim :: "string \<Rightarrow> string" where
  "trim s = trim_end (trim_start s)"

lemma strip_start_suffix: "suffix (strip_start ws s) s"
proof (induction ws s rule: strip_start.induct)
  case (1 ws s)
  show ?case
  proof (cases "strip_one ws s")
    case None
    then show ?thesis by (simp add: strip_start.simps [of ws s])
  next
    case (Some r)
    with "1.IH" have "suffix (strip_start ws r) r" by simp
    then have "suffix (strip_start ws r) s"
      using strip_one_suffix [OF Some] by (rule suffix_order.trans)
    with Some show ?thesis by (simp add: strip_start.simps [of ws s])
  qed
qed

lemma strip_one_strip_start: "strip_one ws (strip_start ws s) = None"
proof (induction ws s rule: strip_start.induct)
  case (1 ws s)
  then show ?case by (subst strip_start.simps) (auto split: option.splits)
qed

lemma strip_start_fix: "strip_one ws s = None \<Longrightarrow> strip_start ws s = s"
  by (subst strip_start.simps) simp

lemma strip_start_idem [simp]: "strip_start ws (strip_start ws s) = strip_start ws s"
  by (rule strip_start_fix) (rule strip_one_strip_start)

lemma strip_start_Nil [simp]: "strip_start ws [] = []"
  using strip_start_suffix [of ws "[]"] by simp

lemma trim_Nil [simp]: "trim [] = []"
  by (simp add: trim_def trim_start_def trim_end_def)

lemma strip_start_length: "length (strip_start ws s) \<le> length s"
  by (simp add: strip_start_suffix suffix_length_le)

lemma trim_end_idem [simp]: "trim_end (trim_end s) = trim_end s"
  by (simp add: trim_end_def)

lemma trim_end_prefix: "prefix (trim_end s) s"
  unfolding trim_end_def by (metis rev_rev_ident strip_start_suffix suffix_to_prefix)

text \<open>Words between white space (\<open>split_whitespace\<close>).\<close>

fun take_word :: "string \<Rightarrow> string" where
  "take_word [] = []"
| "take_word (c # cs) = (if strip_one ws_chars (c # cs) = None then c # take_word cs else [])"

lemma take_word_prefix: "prefix (take_word s) s"
  by (induction s rule: take_word.induct) auto

lemma take_word_pos: "s \<noteq> [] \<Longrightarrow> strip_one ws_chars s = None \<Longrightarrow> 0 < length (take_word s)"
  by (cases s) auto

function split_whitespace :: "string \<Rightarrow> string list" where
  "split_whitespace s =
     (let t = trim_start s in
      if t = [] then []
      else take_word t # split_whitespace (drop (length (take_word t)) t))"
  by pat_completeness auto
termination
proof (relation "measure length", simp)
  fix s t :: string
  assume "t = trim_start s" and "t \<noteq> []"
  then have "0 < length (take_word t)" and "length t \<le> length s"
    by (simp_all add: take_word_pos trim_start_def strip_one_strip_start strip_start_length
        del: length_greater_0_conv)
  with \<open>t \<noteq> []\<close> have "length (drop (length (take_word t)) t) < length s"
    unfolding length_drop by (metis diff_less dual_order.strict_trans1 length_greater_0_conv)
  then show "(drop (length (take_word t)) t, s) \<in> measure length" by simp
qed

declare split_whitespace.simps [simp del]

section \<open>Lines, joining, numbers\<close>

fun split_on :: "char \<Rightarrow> string \<Rightarrow> string list" where
  "split_on d [] = [[]]"
| "split_on d (c # cs) =
     (if c = d then [] # split_on d cs
      else case split_on d cs of [] \<Rightarrow> [[c]] | w # ws \<Rightarrow> (c # w) # ws)"

text \<open>\<open>str::lines\<close>: the last empty line is dropped; a carriage return is stripped where a line feed
  ends the line, and kept at the end of an unterminated last line.\<close>

definition strip_cr :: "string \<Rightarrow> string" where
  "strip_cr s = (if s \<noteq> [] \<and> last s = CHR 0x0D then butlast s else s)"

definition lines :: "string \<Rightarrow> string list" where
  "lines s =
     (let ls = split_on nl s
      in map strip_cr (butlast ls) @ (if last ls = [] then [] else [last ls]))"

fun join :: "string \<Rightarrow> string list \<Rightarrow> string" where
  "join sep [] = []"
| "join sep [s] = s"
| "join sep (s # t # ts) = s @ sep @ join sep (t # ts)"

lemma join_contains: "s \<in> set ss \<Longrightarrow> str_contains (join sep ss) s"
proof (induction sep ss rule: join.induct)
  case (3 sep x y ys)
  then show ?case
    by (auto intro: str_contains_append_left str_contains_append_right)
qed auto

definition digit_char :: "nat \<Rightarrow> char" where
  "digit_char d = char_of (48 + d)"

fun show_nat :: "nat \<Rightarrow> string" where
  "show_nat n = (if n < 10 then [digit_char n] else show_nat (n div 10) @ [digit_char (n mod 10)])"

declare show_nat.simps [simp del]

lemma show_nat_not_Nil [simp]: "show_nat n \<noteq> []"
  by (subst show_nat.simps) simp

lemma digit_char_inj: "a < 10 \<Longrightarrow> b < 10 \<Longrightarrow> digit_char a = digit_char b \<Longrightarrow> a = b"
proof -
  assume ab: "a < 10" "b < 10" and eq: "digit_char a = digit_char b"
  from eq have "(of_char (char_of (48 + a) :: char) :: nat) = of_char (char_of (48 + b) :: char)"
    by (simp add: digit_char_def)
  with ab show "a = b" by simp
qed

lemma show_nat_inj: "show_nat m = show_nat n \<Longrightarrow> m = n"
proof (induction m arbitrary: n rule: show_nat.induct)
  case (1 m)
  show ?case
  proof (cases "m < 10")
    case m: True
    then have len: "length (show_nat n) = 1"
      using "1.prems" by (metis One_nat_def length_Cons list.size(3) show_nat.simps)
    have n: "n < 10"
    proof (rule ccontr)
      assume "\<not> n < 10"
      then have "show_nat n = show_nat (n div 10) @ [digit_char (n mod 10)]"
        by (subst show_nat.simps) simp
      with len show False by simp
    qed
    with m "1.prems" have "digit_char m = digit_char n"
      by (simp add: show_nat.simps)
    with m n show ?thesis by (rule digit_char_inj)
  next
    case m: False
    then have sm: "show_nat m = show_nat (m div 10) @ [digit_char (m mod 10)]"
      by (subst show_nat.simps) simp
    have n: "\<not> n < 10"
    proof
      assume "n < 10"
      then have "length (show_nat n) = 1" by (subst show_nat.simps) simp
      with sm "1.prems" show False by simp
    qed
    then have sn: "show_nat n = show_nat (n div 10) @ [digit_char (n mod 10)]"
      by (subst show_nat.simps) simp
    from sm sn "1.prems" have "show_nat (m div 10) = show_nat (n div 10)"
      and "digit_char (m mod 10) = digit_char (n mod 10)"
      by simp_all
    with "1.IH" m have "m div 10 = n div 10" and "m mod 10 = n mod 10"
      by (simp_all add: digit_char_inj)
    then show ?thesis by (metis div_mult_mod_eq)
  qed
qed

section \<open>Options and lists\<close>

definition the_default :: "'a \<Rightarrow> 'a option \<Rightarrow> 'a" where
  "the_default d x = (case x of None \<Rightarrow> d | Some v \<Rightarrow> v)"

lemma the_default_simps [simp]: "the_default d None = d" "the_default d (Some v) = v"
  by (simp_all add: the_default_def)

text \<open>The \<open>?\<close> operator on a \<open>Result\<close>, an early error return.\<close>

definition ok_or_return :: "'e + 'a \<Rightarrow> ('a \<Rightarrow> 'e + 'b) \<Rightarrow> 'e + 'b" where
  "ok_or_return r f = (case r of Inl e \<Rightarrow> Inl e | Inr x \<Rightarrow> f x)"

lemma ok_or_return_simps [simp]:
  "ok_or_return (Inl e) f = Inl e" "ok_or_return (Inr x) f = f x"
  by (simp_all add: ok_or_return_def)

lemma ok_or_return_Inr_iff:
  "ok_or_return r f = Inr y \<longleftrightarrow> (\<exists>x. r = Inr x \<and> f x = Inr y)"
  by (cases r) auto

definition check_or :: "bool \<Rightarrow> 'e \<Rightarrow> 'e + unit" where
  "check_or b e = (if b then Inr () else Inl e)"

lemma check_or_Inr_iff [simp]: "check_or b e = Inr u \<longleftrightarrow> b"
  by (simp add: check_or_def)

text \<open>Order-preserving removal of duplicates, and \<open>push\<close> of what is not yet contained.\<close>

definition dedup_first :: "'a list \<Rightarrow> 'a list" where
  "dedup_first xs = rev (remdups (rev xs))"

lemma set_dedup_first [simp]: "set (dedup_first xs) = set xs"
  by (simp add: dedup_first_def)

lemma distinct_dedup_first [simp]: "distinct (dedup_first xs)"
  by (simp add: dedup_first_def)

fun push_missing :: "'a list \<Rightarrow> 'a list \<Rightarrow> 'a list" where
  "push_missing deps [] = deps"
| "push_missing deps (x # xs) = push_missing (if x \<in> set deps then deps else deps @ [x]) xs"

lemma set_push_missing [simp]: "set (push_missing deps xs) = set deps \<union> set xs"
  by (induction deps xs rule: push_missing.induct) auto

lemma distinct_push_missing: "distinct deps \<Longrightarrow> distinct (push_missing deps xs)"
  by (induction deps xs rule: push_missing.induct) auto

lemma push_missing_subset: "set xs \<subseteq> set deps \<Longrightarrow> push_missing deps xs = deps"
  by (induction deps xs rule: push_missing.induct) auto

lemma push_missing_prefix: "prefix deps (push_missing deps xs)"
proof (induction deps xs rule: push_missing.induct)
  case (2 deps x xs)
  have "prefix deps (if x \<in> set deps then deps else deps @ [x])" by simp
  then have "prefix deps (push_missing (if x \<in> set deps then deps else deps @ [x]) xs)"
    using 2 by (rule prefix_order.trans)
  then show ?case by (simp only: push_missing.simps)
qed simp

lemma find_map_of_key: "find (\<lambda>x. f x = k) xs = Some x \<Longrightarrow> x \<in> set xs \<and> f x = k"
  by (auto simp: find_Some_iff)

lemma find_key_None: "find (\<lambda>x. f x = k) xs = None \<longleftrightarrow> k \<notin> f ` set xs"
  by (auto simp: find_None_iff)

lemma find_key_distinct:
  "distinct (map f xs) \<Longrightarrow> x \<in> set xs \<Longrightarrow> find (\<lambda>y. f y = f x) xs = Some x"
  by (induction xs) (auto simp: rev_image_eqI)

lemma find_append:
  "find P (xs @ ys) = (case find P xs of None \<Rightarrow> find P ys | Some x \<Rightarrow> Some x)"
  by (induction xs) auto

text \<open>Update of the first element that a lookup by key finds (\<open>iter_mut().find\<close>).\<close>

fun update_first :: "('a \<Rightarrow> bool) \<Rightarrow> ('a \<Rightarrow> 'a) \<Rightarrow> 'a list \<Rightarrow> 'a list" where
  "update_first P f [] = []"
| "update_first P f (x # xs) = (if P x then f x # xs else x # update_first P f xs)"

lemma update_first_length [simp]: "length (update_first P f xs) = length xs"
  by (induction xs) auto

lemma update_first_none: "find P xs = None \<Longrightarrow> update_first P f xs = xs"
  by (induction xs) (auto split: if_splits)

lemma map_update_first [simp]: "(\<And>x. g (f x) = g x) \<Longrightarrow> map g (update_first P f xs) = map g xs"
  by (induction xs) auto

lemma update_first_distinct:
  "distinct (map key xs) \<Longrightarrow>
   update_first (\<lambda>x. key x = k) f xs = map (\<lambda>x. if key x = k then f x else x) xs"
proof (induction xs)
  case (Cons x xs)
  show ?case
  proof (cases "key x = k")
    case True
    with Cons.prems have "\<forall>y \<in> set xs. key y \<noteq> k" by (auto simp: image_iff)
    then have "map (\<lambda>y. if key y = k then f y else y) xs = xs"
      by (simp add: map_idI)
    with True show ?thesis by simp
  qed (use Cons in auto)
qed simp

lemma filter_sort_key: "sorted (map f xs) \<Longrightarrow> sorted (map f (filter P xs))"
  by (rule sorted_filter)

end
