(* ===== verification/Kahn.thy ===== *)
theory Kahn
  imports Rust_Prelude "HOL-Library.AList"
begin

text \<open>
  The worklist loop that both cycle detectors of \<open>jcode-plan\<close> run (\<open>TaskGraph::cycle_nodes\<close> in
  \<open>dag/mod.rs\<close>, \<open>cycle_item_ids\<close> in \<open>lib.rs\<close>): Kahn's algorithm over an in-degree table. The table
  is an association list (a \<open>HashMap\<close> has finitely many keys), the queue is a stack whose head is
  the end of the Rust \<open>Vec\<close>. The locale states what a caller must build (an in-degree table that
  counts the edges) and proves once what the loop leaves unvisited: exactly the ids that lie on a
  dependency cycle or downstream of one.
\<close>

section \<open>The loop\<close>

fun relax :: "string list \<Rightarrow> (string \<times> nat) list \<Rightarrow> string list \<Rightarrow> (string \<times> nat) list \<times> string list" where
  "relax [] deg q = (deg, q)"
| "relax (c # cs) deg q =
     (case map_of deg c of
        None \<Rightarrow> relax cs deg q
      | Some d \<Rightarrow>
          relax cs (AList.update c (d - 1) deg) (if d - 1 = 0 then c # q else q))"

lemma relax_dom: "fst ` set (fst (relax cs deg q)) = fst ` set deg"
proof (induction cs deg q rule: relax.induct)
  case (2 c cs deg q)
  show ?case
  proof (cases "map_of deg c")
    case None
    with 2 show ?thesis by simp
  next
    case (Some d)
    then have "c \<in> fst ` set deg" by (metis domI dom_map_of_conv_image_fst)
    with 2 Some show ?thesis by (simp add: dom_update insert_absorb)
  qed
qed simp

lemma relax_queue: "set (snd (relax cs deg q)) \<subseteq> set q \<union> fst ` set deg"
proof (induction cs deg q rule: relax.induct)
  case (2 c cs deg q)
  show ?case
  proof (cases "map_of deg c")
    case None
    with 2 show ?thesis by simp
  next
    case (Some d)
    then have c: "c \<in> fst ` set deg" by (metis domI dom_map_of_conv_image_fst)
    let ?deg = "AList.update c (d - 1) deg"
    let ?q = "if d - 1 = 0 then c # q else q"
    have "set (snd (relax cs ?deg ?q)) \<subseteq> set ?q \<union> fst ` set ?deg"
      using 2(2) Some by simp
    moreover have "fst ` set ?deg = fst ` set deg"
      using c by (simp add: dom_update insert_absorb)
    moreover have "set ?q \<subseteq> insert c (set q)" by auto
    ultimately have "set (snd (relax cs ?deg ?q)) \<subseteq> set q \<union> fst ` set deg"
      using c by blast
    with Some show ?thesis by simp
  qed
qed simp

function kahn_loop ::
  "(string \<Rightarrow> string list) \<Rightarrow> string set \<Rightarrow> string list \<Rightarrow> (string \<times> nat) list \<Rightarrow>
    string set \<times> (string \<times> nat) list" where
  "kahn_loop succs visited [] deg = (visited, deg)"
| "kahn_loop succs visited (x # q) deg =
     (if x \<in> visited then kahn_loop succs visited q deg
      else kahn_loop succs (insert x visited)
             (snd (relax (succs x) deg q)) (fst (relax (succs x) deg q)))"
  by pat_completeness auto
termination
proof (relation "measures [\<lambda>(s, v, q, d). card ((set q \<union> fst ` set d) - v), \<lambda>(s, v, q, d). length q]")
  fix succs :: "string \<Rightarrow> string list" and visited and x :: string and q and deg :: "(string \<times> nat) list"
  let ?a = "(set q \<union> fst ` set deg) - visited"
  let ?b = "(set (x # q) \<union> fst ` set deg) - visited"
  have "card ?a \<le> card ?b" by (rule card_mono) auto
  then show "((succs, visited, q, deg), succs, visited, x # q, deg)
      \<in> measures [\<lambda>(s, v, q, d). card ((set q \<union> fst ` set d) - v), \<lambda>(s, v, q, d). length q]"
    by (simp add: le_less)
next
  fix succs :: "string \<Rightarrow> string list" and visited and x :: string and q and deg :: "(string \<times> nat) list"
  assume x: "x \<notin> visited"
  let ?r = "relax (succs x) deg q"
  let ?a = "(set (snd ?r) \<union> fst ` set (fst ?r)) - insert x visited"
  let ?b = "(set (x # q) \<union> fst ` set deg) - visited"
  have "?a \<subseteq> ?b" using relax_queue [of "succs x" deg q] relax_dom [of "succs x" deg q] by auto
  moreover have "x \<in> ?b" and "x \<notin> ?a" using x by auto
  ultimately have "?a \<subset> ?b" by blast
  then have "card ?a < card ?b" by (rule psubset_card_mono [rotated]) simp
  then show "((succs, insert x visited, snd ?r, fst ?r), succs, visited, x # q, deg)
      \<in> measures [\<lambda>(s, v, q, d). card ((set q \<union> fst ` set d) - v), \<lambda>(s, v, q, d). length q]"
    by simp
qed simp

section \<open>Building the table\<close>

text \<open>\<open>entry(k).or_insert(0)\<close> and \<open>*entry(k).or_insert(0) += w\<close>.\<close>

definition ensure_entry :: "string \<Rightarrow> (string \<times> nat) list \<Rightarrow> (string \<times> nat) list" where
  "ensure_entry k deg = (if map_of deg k = None then AList.update k 0 deg else deg)"

definition add_degree :: "string \<Rightarrow> nat \<Rightarrow> (string \<times> nat) list \<Rightarrow> (string \<times> nat) list" where
  "add_degree k w deg = AList.update k (the_default 0 (map_of deg k) + w) deg"

lemma ensure_entry_distinct: "distinct (map fst deg) \<Longrightarrow> distinct (map fst (ensure_entry k deg))"
  by (simp add: ensure_entry_def distinct_update)

lemma add_degree_distinct: "distinct (map fst deg) \<Longrightarrow> distinct (map fst (add_degree k w deg))"
  by (simp add: add_degree_def distinct_update)

lemma fold_ensure_entry:
  "distinct (map fst deg) \<Longrightarrow> \<forall>v \<in> snd ` set deg. v = 0 \<Longrightarrow>
   distinct (map fst (fold (\<lambda>n. ensure_entry (f n)) ns deg)) \<and>
   (\<forall>c. map_of (fold (\<lambda>n. ensure_entry (f n)) ns deg) c =
      (if c \<in> f ` set ns \<union> fst ` set deg then Some 0 else None))"
proof (induction ns arbitrary: deg)
  case Nil
  then show ?case by (force simp: map_of_eq_None_iff dest: map_of_SomeD)
next
  case (Cons n ns)
  let ?d = "ensure_entry (f n) deg"
  have "fst ` set ?d = insert (f n) (fst ` set deg)"
    by (auto simp: ensure_entry_def dom_update map_of_eq_None_iff)
  moreover have "\<forall>v \<in> snd ` set ?d. v = 0"
  proof
    fix v assume "v \<in> snd ` set ?d"
    then obtain k where "(k, v) \<in> set ?d" by auto
    then have "map_of ?d k = Some v"
      using ensure_entry_distinct [OF Cons.prems(1)] by simp
    then show "v = 0"
      using Cons.prems(2) by (auto simp: ensure_entry_def update_conv' split: if_splits dest!: map_of_SomeD)
  qed
  ultimately show ?case
    using Cons.IH [of ?d] ensure_entry_distinct [OF Cons.prems(1)] by auto
qed

lemma fold_add_degree:
  "distinct (map fst deg) \<Longrightarrow>
   distinct (map fst (fold (\<lambda>n. add_degree (f n) (w n)) ns deg)) \<and>
   (\<forall>c. map_of (fold (\<lambda>n. add_degree (f n) (w n)) ns deg) c =
      (if c \<in> f ` set ns \<union> fst ` set deg
       then Some (the_default 0 (map_of deg c) + (\<Sum>n \<leftarrow> ns. if f n = c then w n else 0)) else None))"
proof (induction ns arbitrary: deg)
  case Nil
  then show ?case by (auto simp: map_of_eq_None_iff dest: map_of_SomeD split: option.splits)
next
  case (Cons n ns)
  let ?d = "add_degree (f n) (w n) deg"
  have "fst ` set ?d = insert (f n) (fst ` set deg)"
    by (simp add: add_degree_def dom_update)
  moreover have "the_default 0 (map_of ?d c) =
      the_default 0 (map_of deg c) + (if f n = c then w n else 0)" for c
    by (simp add: add_degree_def update_conv')
  ultimately show ?case
    using Cons.IH [of ?d] add_degree_distinct [OF Cons.prems] by (auto simp: add.assoc)
qed

text \<open>The table both detectors build: an entry per key, then the degrees summed per key.\<close>

lemma degree_table:
  assumes T: "T = fold (\<lambda>n. add_degree (f n) (w n)) ns (fold (\<lambda>n. ensure_entry (f n)) ns [])"
  shows "distinct (map fst T)"
    and "fst ` set T = f ` set ns"
    and "c \<in> f ` set ns \<Longrightarrow> map_of T c = Some (\<Sum>n \<leftarrow> ns. if f n = c then w n else 0)"
proof -
  let ?z = "fold (\<lambda>n. ensure_entry (f n)) ns []"
  have z: "distinct (map fst ?z)" "\<And>c. map_of ?z c = (if c \<in> f ` set ns then Some 0 else None)"
    using fold_ensure_entry [of "[]" f ns] by simp_all
  have zk: "fst ` set ?z = f ` set ns"
    unfolding dom_map_of_conv_image_fst [symmetric] using z(2) by (auto split: if_splits)
  note add = fold_add_degree [OF z(1), of f w ns]
  have m: "map_of T c = (if c \<in> f ` set ns
      then Some (\<Sum>n \<leftarrow> ns. if f n = c then w n else 0) else None)" for c
    unfolding T using conjunct2 [OF add, rule_format, of c] z(2) by (simp only: zk) simp
  show "distinct (map fst T)" unfolding T using add by (rule conjunct1)
  show "fst ` set T = f ` set ns"
    unfolding dom_map_of_conv_image_fst [symmetric] using m by (auto split: if_splits)
  show "c \<in> f ` set ns \<Longrightarrow> map_of T c = Some (\<Sum>n \<leftarrow> ns. if f n = c then w n else 0)"
    by (simp add: m)
qed

lemma zero_keys:
  "distinct (map fst deg) \<Longrightarrow>
   set (map fst (filter (\<lambda>(i, d). d = 0) deg)) = {c \<in> fst ` set deg. map_of deg c = Some (0::nat)}"
  by force

section \<open>Cycles and what they feed\<close>

definition on_or_below_cycle :: "(string \<times> string) set \<Rightarrow> string \<Rightarrow> bool" where
  "on_or_below_cycle R x \<longleftrightarrow> (\<exists>y. (y, y) \<in> R\<^sup>+ \<and> (y, x) \<in> R\<^sup>*)"

lemma acyclic_iff_no_cycle_below: "acyclic R \<longleftrightarrow> (\<forall>x. \<not> on_or_below_cycle R x)"
  by (auto simp: acyclic_def on_or_below_cycle_def)

lemma acc_not_below_cycle: "x \<in> Wellfounded.acc R \<Longrightarrow> \<not> on_or_below_cycle R x"
proof
  assume x: "x \<in> Wellfounded.acc R" and "on_or_below_cycle R x"
  then obtain y where y: "(y, y) \<in> R\<^sup>+" "(y, x) \<in> R\<^sup>*"
    by (auto simp: on_or_below_cycle_def)
  from x y(2) have "y \<in> Wellfounded.acc R" by (rule acc_downwards)
  then show False using y(1)
  proof (induction y rule: acc.induct)
    case (accI y)
    from accI.prems obtain z where "(y, z) \<in> R\<^sup>*" and zy: "(z, y) \<in> R"
      by (metis tranclD2)
    then have "(z, z) \<in> R\<^sup>+" by (metis rtrancl_into_trancl2)
    with accI.IH zy show False by blast
  qed
qed

lemma below_cycle_if_not_acc:
  assumes fin: "finite R" and x: "x \<notin> Wellfounded.acc R"
  shows "on_or_below_cycle R x"
proof (rule ccontr)
  assume no: "\<not> on_or_below_cycle R x"
  define S where "S = {(a, b). (a, b) \<in> R \<and> (b, x) \<in> R\<^sup>*}"
  have S_R: "S \<subseteq> R" by (auto simp: S_def)
  have "acyclic S"
  proof (rule acyclicI, rule allI, rule notI)
    fix y assume y: "(y, y) \<in> S\<^sup>+"
    then obtain z where "(z, y) \<in> S" by (metis tranclD2)
    then have "(y, x) \<in> R\<^sup>*" by (simp add: S_def)
    moreover have "(y, y) \<in> R\<^sup>+" using y S_R trancl_mono by blast
    ultimately show False using no by (auto simp: on_or_below_cycle_def)
  qed
  then have wf: "wf S" using fin S_R finite_acyclic_wf finite_subset by blast
  have "(b, x) \<in> R\<^sup>* \<Longrightarrow> b \<in> Wellfounded.acc R" for b
  proof (induction b rule: wf_induct_rule [OF wf])
    case (1 b)
    show ?case
    proof (rule accI)
      fix a assume a: "(a, b) \<in> R"
      then have "(a, b) \<in> S" and "(a, x) \<in> R\<^sup>*" using 1(2) by (auto simp: S_def)
      then show "a \<in> Wellfounded.acc R" by (rule 1(1))
    qed
  qed
  with x show False by blast
qed

lemma not_acc_iff: "finite R \<Longrightarrow> x \<notin> Wellfounded.acc R \<longleftrightarrow> on_or_below_cycle R x"
  using acc_not_below_cycle below_cycle_if_not_acc by blast

section \<open>The in-degree table\<close>

lemma relax_spec:
  assumes "set cs \<subseteq> known"
    and "\<forall>c \<in> known. map_of deg c = Some (n c)"
    and "\<forall>c. count_list cs c \<le> n c"
  shows "(\<forall>c \<in> known. map_of (fst (relax cs deg q)) c = Some (n c - count_list cs c)) \<and>
    set (snd (relax cs deg q)) = set q \<union> {c \<in> set cs. n c - count_list cs c = 0}"
  using assms
proof (induction cs arbitrary: deg n q)
  case (Cons a cs)
  let ?n = "n(a := n a - 1)"
  let ?deg = "AList.update a (n a - 1) deg"
  let ?q = "if n a - 1 = 0 then a # q else q"
  have a: "map_of deg a = Some (n a)" and apos: "0 < n a"
    using Cons.prems by (auto dest: spec [of _ a])
  have "\<forall>c \<in> known. map_of ?deg c = Some (?n c)"
    using Cons.prems by (simp add: update_conv')
  moreover have "\<forall>c. count_list cs c \<le> ?n c"
    using Cons.prems(3) apos by (metis One_nat_def Suc_pred count_list.simps(2) fun_upd_def Suc_le_mono Suc_eq_plus1)
  ultimately have IH: "(\<forall>c \<in> known. map_of (fst (relax cs ?deg ?q)) c = Some (?n c - count_list cs c)) \<and>
      set (snd (relax cs ?deg ?q)) = set ?q \<union> {c \<in> set cs. ?n c - count_list cs c = 0}"
    using Cons.prems(1) by (intro Cons.IH) auto
  have "set ?q \<union> {c \<in> set cs. ?n c - count_list cs c = 0} =
      set q \<union> {c \<in> set (a # cs). n c - count_list (a # cs) c = 0}"
  proof (cases "a \<in> set cs")
    case False
    then have "count_list cs a = 0" by (simp add: count_notin)
    with apos show ?thesis by auto
  qed (use apos in auto)
  moreover have "relax (a # cs) deg q = relax cs ?deg ?q" using a by simp
  moreover have "?n c - count_list cs c = n c - count_list (a # cs) c" for c by simp
  ultimately show ?case using IH by metis
qed simp

locale kahn_graph =
  fixes succs :: "string \<Rightarrow> string list"
    and deg0 :: "(string \<times> nat) list"
  assumes succs_known: "set (succs x) \<subseteq> fst ` set deg0"
    and deg0_counts: "c \<in> fst ` set deg0 \<Longrightarrow>
      map_of deg0 c = Some (\<Sum>d \<in> fst ` set deg0. count_list (succs d) c)"
begin

definition known :: "string set" where
  "known = fst ` set deg0"

definition edges :: "(string \<times> string) set" where
  "edges = {(d, c). d \<in> known \<and> c \<in> set (succs d)}"

definition loop_inv :: "string set \<Rightarrow> string list \<Rightarrow> (string \<times> nat) list \<Rightarrow> bool" where
  "loop_inv V q deg \<longleftrightarrow>
     V \<subseteq> known \<and> set q \<subseteq> known \<and> V \<subseteq> Wellfounded.acc edges \<and>
     (\<forall>c \<in> known. map_of deg c = Some (\<Sum>d \<in> known - V. count_list (succs d) c)) \<and>
     (\<forall>c \<in> known. (\<Sum>d \<in> known - V. count_list (succs d) c) = 0 \<longleftrightarrow> c \<in> V \<union> set q)"

lemma loop_invD:
  assumes "loop_inv V q deg" and "c \<in> known"
  shows "map_of deg c = Some (\<Sum>d \<in> known - V. count_list (succs d) c)"
    and "(\<Sum>d \<in> known - V. count_list (succs d) c) = 0 \<longleftrightarrow> c \<in> V \<union> set q"
  using assms unfolding loop_inv_def by blast+

lemma known_finite [simp]: "finite known"
  by (simp add: known_def)

lemma edges_finite: "finite edges"
proof (rule finite_subset)
  show "edges \<subseteq> known \<times> known" using succs_known by (auto simp: edges_def known_def)
qed simp

lemma edges_known: "(d, c) \<in> edges \<Longrightarrow> d \<in> known \<and> c \<in> known"
  using succs_known by (auto simp: edges_def known_def)

lemma no_pred_outside:
  "(\<Sum>d \<in> known - V. count_list (succs d) c) = 0 \<Longrightarrow> (d, c) \<in> edges \<Longrightarrow> d \<in> V"
  by (auto simp: edges_def count_list_0_iff)

lemma loop_inv_start:
  assumes "set q = {c \<in> known. map_of deg0 c = Some 0}"
  shows "loop_inv {} q deg0"
  using assms deg0_counts by (auto simp: loop_inv_def known_def)

lemma loop_inv_step:
  assumes inv: "loop_inv V (x # q) deg" and x: "x \<notin> V"
  shows "loop_inv (insert x V) (snd (relax (succs x) deg q)) (fst (relax (succs x) deg q))"
proof -
  let ?n = "\<lambda>c. if c \<in> known then \<Sum>d \<in> known - V. count_list (succs d) c else count_list (succs x) c"
  let ?m = "\<lambda>c. \<Sum>d \<in> known - insert x V. count_list (succs d) c"
  let ?r = "relax (succs x) deg q"
  have xk: "x \<in> known - V" using inv x by (simp add: loop_inv_def)
  have split: "(\<Sum>d \<in> known - V. count_list (succs d) c) = count_list (succs x) c + ?m c" for c
    using sum.remove [OF _ xk, of "\<lambda>d. count_list (succs d) c"]
    by (simp add: Diff_insert [symmetric] insert_Diff_if Diff_insert2 [symmetric])
  have le: "\<forall>c. count_list (succs x) c \<le> ?n c" by (simp add: split)
  have deg: "\<forall>c \<in> known. map_of deg c = Some (?n c)" using inv by (simp add: loop_inv_def)
  have r: "(\<forall>c \<in> known. map_of (fst ?r) c = Some (?n c - count_list (succs x) c)) \<and>
      set (snd ?r) = set q \<union> {c \<in> set (succs x). ?n c - count_list (succs x) c = 0}"
    by (rule relax_spec [OF _ deg le]) (use succs_known in \<open>auto simp: known_def\<close>)
  have mk: "?n c - count_list (succs x) c = ?m c" if "c \<in> known" for c
    using that by (simp add: split)
  have acc: "x \<in> Wellfounded.acc edges"
  proof (rule accI)
    fix d assume "(d, x) \<in> edges"
    moreover have "(\<Sum>d \<in> known - V. count_list (succs d) x) = 0"
      using inv xk by (auto simp: loop_inv_def)
    ultimately have "d \<in> V" by (rule no_pred_outside [rotated])
    then show "d \<in> Wellfounded.acc edges" using inv by (auto simp: loop_inv_def)
  qed
  have queue: "?m c = 0 \<longleftrightarrow> c \<in> insert x V \<union> set (snd ?r)" if c: "c \<in> known" for c
  proof -
    have old: "(count_list (succs x) c + ?m c = 0) = (c \<in> V \<union> set (x # q))"
      using inv c unfolding loop_inv_def split [symmetric] by blast
    have "(c \<in> set (snd ?r)) = (c \<in> set q \<or> (c \<in> set (succs x) \<and> ?m c = 0))"
      unfolding conjunct2 [OF r] Un_iff mem_Collect_eq mk [OF c] by (rule refl)
    moreover have "c \<in> set (succs x) \<longleftrightarrow> count_list (succs x) c \<noteq> 0"
      by (simp add: count_list_0_iff)
    moreover have "?m x = 0" if "c = x"
      using old that by simp
    ultimately show ?thesis using old by auto
  qed
  have known_r: "set (snd ?r) \<subseteq> known"
    using inv r succs_known by (auto simp: loop_inv_def known_def)
  have "\<forall>c \<in> known. map_of (fst ?r) c = Some (?m c)" using r mk by simp
  with inv xk acc queue known_r show ?thesis unfolding loop_inv_def by simp
qed

lemma loop_inv_skip: "loop_inv V (x # q) deg \<Longrightarrow> x \<in> V \<Longrightarrow> loop_inv V q deg"
  by (auto simp: loop_inv_def)

lemma loop_inv_kahn_loop:
  "loop_inv V q deg \<Longrightarrow>
   loop_inv (fst (kahn_loop succs V q deg)) [] (snd (kahn_loop succs V q deg))"
proof -
  have "s = succs \<Longrightarrow> loop_inv V q deg \<Longrightarrow>
      loop_inv (fst (kahn_loop s V q deg)) [] (snd (kahn_loop s V q deg))" for s
    by (induction s V q deg rule: kahn_loop.induct) (auto intro: loop_inv_step loop_inv_skip)
  then show "loop_inv V q deg \<Longrightarrow> ?thesis" by simp
qed

lemma loop_inv_final:
  assumes "loop_inv V [] deg"
  shows "V = known \<inter> Wellfounded.acc edges"
proof
  show "V \<subseteq> known \<inter> Wellfounded.acc edges" using assms unfolding loop_inv_def by blast
  have "c \<in> known \<longrightarrow> c \<in> V" if "c \<in> Wellfounded.acc edges" for c
    using that
  proof (induction c rule: acc.induct)
    case (accI c)
    show ?case
    proof
      assume c: "c \<in> known"
      have "count_list (succs d) c = 0" if d: "d \<in> known - V" for d
      proof -
        have "(d, c) \<notin> edges" using accI.IH d by blast
        with d show ?thesis by (simp add: edges_def count_list_0_iff)
      qed
      then have "(\<Sum>d \<in> known - V. count_list (succs d) c) = 0" by simp
      then show "c \<in> V" using loop_invD(2) [OF assms c] by simp
    qed
  qed
  then show "known \<inter> Wellfounded.acc edges \<subseteq> V" by blast
qed

theorem kahn_visited:
  assumes "set q = {c \<in> known. map_of deg0 c = Some 0}"
  shows "fst (kahn_loop succs {} q deg0) = {c \<in> known. \<not> on_or_below_cycle edges c}"
  using loop_inv_final [OF loop_inv_kahn_loop [OF loop_inv_start [OF assms]]]
    not_acc_iff [OF edges_finite] by auto

theorem kahn_degree:
  assumes "set q = {c \<in> known. map_of deg0 c = Some 0}" and "c \<in> known"
  shows "map_of (snd (kahn_loop succs {} q deg0)) c = Some 0 \<longleftrightarrow> \<not> on_or_below_cycle edges c"
proof -
  let ?V = "fst (kahn_loop succs {} q deg0)"
  have inv: "loop_inv ?V [] (snd (kahn_loop succs {} q deg0))"
    by (rule loop_inv_kahn_loop [OF loop_inv_start [OF assms(1)]])
  let ?sum = "\<Sum>d \<in> known - ?V. count_list (succs d) c"
  have "map_of (snd (kahn_loop succs {} q deg0)) c = Some ?sum"
    and "(?sum = 0) = (c \<in> ?V \<union> set [])"
    using loop_invD [OF inv assms(2)] by blast+
  moreover have "c \<in> ?V \<longleftrightarrow> \<not> on_or_below_cycle edges c"
    unfolding kahn_visited [OF assms(1)] using assms(2) by blast
  ultimately show ?thesis by simp
qed

end

end
