(* ===== verification/Rust_F64.thy ===== *)
theory Rust_F64
  imports Complex_Main "HOL-Library.Log_Nat" Rust_Prelude
begin

text \<open>
  The non-negative part of Rust's \<open>f64\<close> that the confidence parser computes with: IEEE binary64
  values as exact rationals, an infinity and a NaN, with round-to-nearest-even after every
  operation. The parser's tokens hold digits and dots only, so no value is negative.
\<close>

datatype f64 = Finite rat | Infinity | NaN

definition pow2 :: "int \<Rightarrow> rat" where
  "pow2 e = (if 0 \<le> e then 2 ^ nat e else 1 / 2 ^ nat (- e))"

text \<open>\<open>floor_log2\<close> of a positive rational, from the bit lengths of its parts.\<close>

definition floor_log2 :: "rat \<Rightarrow> int" where
  "floor_log2 q =
     (let (n, d) = quotient_of q; e = bitlen n - bitlen d
      in if pow2 e \<le> q then e else e - 1)"

definition round_half_even :: "rat \<Rightarrow> int" where
  "round_half_even q =
     (let f = \<lfloor>q\<rfloor>; r = q - of_int f
      in if r < 1 / 2 then f else if 1 / 2 < r then f + 1 else if even f then f else f + 1)"

text \<open>Rounding to 53 significant bits, with the subnormal exponent \<open>-1074\<close> and overflow at
  \<open>2^1024\<close>.\<close>

definition round_f64 :: "rat \<Rightarrow> f64" where
  "round_f64 q =
     (if q = 0 then Finite 0
      else let e = max (floor_log2 q - 52) (- 1074);
               v = of_int (round_half_even (q / pow2 e)) * pow2 e
           in if pow2 1024 \<le> v then Infinity else Finite v)"

fun f64_mul :: "f64 \<Rightarrow> f64 \<Rightarrow> f64" where
  "f64_mul (Finite a) (Finite b) = round_f64 (a * b)"
| "f64_mul Infinity (Finite b) = (if b = 0 then NaN else Infinity)"
| "f64_mul (Finite a) Infinity = (if a = 0 then NaN else Infinity)"
| "f64_mul Infinity Infinity = Infinity"
| "f64_mul _ _ = NaN"

fun f64_div :: "f64 \<Rightarrow> f64 \<Rightarrow> f64" where
  "f64_div (Finite a) (Finite b) =
     (if b = 0 then (if a = 0 then NaN else Infinity) else round_f64 (a / b))"
| "f64_div (Finite a) Infinity = Finite 0"
| "f64_div Infinity (Finite b) = Infinity"
| "f64_div _ _ = NaN"

fun f64_lt :: "f64 \<Rightarrow> f64 \<Rightarrow> bool" where
  "f64_lt (Finite a) (Finite b) = (a < b)"
| "f64_lt (Finite a) Infinity = True"
| "f64_lt _ _ = False"

fun f64_le :: "f64 \<Rightarrow> f64 \<Rightarrow> bool" where
  "f64_le (Finite a) (Finite b) = (a \<le> b)"
| "f64_le (Finite a) Infinity = True"
| "f64_le Infinity Infinity = True"
| "f64_le _ _ = False"

section \<open>Decimal tokens\<close>

fun digits_value :: "nat \<Rightarrow> string \<Rightarrow> nat" where
  "digits_value acc [] = acc"
| "digits_value acc (c # cs) = digits_value (10 * acc + (byte c - 48)) cs"

text \<open>\<open>token.parse::<f64>()\<close> on a token of digits and dots: one dot at most, one digit at least.\<close>

definition parse_f64 :: "string \<Rightarrow> f64 option" where
  "parse_f64 tok =
     (let ip = takeWhile is_ascii_digit tok;
          rest = dropWhile is_ascii_digit tok
      in case rest of
           [] \<Rightarrow> if ip = [] then None else Some (round_f64 (of_nat (digits_value 0 ip)))
         | c # fp \<Rightarrow>
             if c = CHR ''.'' \<and> list_all is_ascii_digit fp \<and> (ip \<noteq> [] \<or> fp \<noteq> [])
             then Some (round_f64 (of_nat (digits_value 0 (ip @ fp)) / 10 ^ length fp))
             else None)"

section \<open>Integers below \<open>2^53\<close> are exact\<close>

lemma pow2_nonneg [simp]: "0 \<le> e \<Longrightarrow> pow2 e = 2 ^ nat e"
  by (simp add: pow2_def)

lemma pow2_pos [simp]: "0 < pow2 e"
  by (simp add: pow2_def)

lemma round_half_even_int [simp]: "round_half_even (of_int i) = i"
  by (simp add: round_half_even_def Let_def)

lemma quotient_of_nat: "quotient_of (of_nat n) = (int n, 1)"
  using quotient_of_int [of "int n"] by simp

lemma bitlen_pow_le: "0 < n \<Longrightarrow> 2 ^ nat (bitlen n - 1) \<le> n"
  using bitlen_bounds [of n] by simp

lemma floor_log2_nat:
  assumes "0 < n" and "n < 2 ^ 53"
  shows "floor_log2 (of_nat n) \<le> 52"
proof -
  have "bitlen (int n) \<le> 53"
    using assms bitlen_le_iff_power [of "int n" 53] by simp
  have one: "bitlen 1 = 1" by (simp add: bitlen_alt_def)
  have "(of_nat n :: rat) = of_int (int n)" by simp
  then show ?thesis
    using \<open>bitlen (int n) \<le> 53\<close> one
    by (simp add: floor_log2_def Let_def quotient_of_nat)
qed

lemma round_f64_nat:
  assumes "n < 2 ^ 53"
  shows "round_f64 (of_nat n) = Finite (of_nat n)"
proof (cases "n = 0")
  case False
  define e where "e = max (floor_log2 (of_nat n) - 52) (- 1074)"
  have e: "e \<le> 0" "- 1074 \<le> e" using floor_log2_nat [of n] False assms by (auto simp: e_def)
  define k where "k = nat (- e)"
  have p: "pow2 e = 1 / 2 ^ k" using e by (cases "e = 0") (auto simp: pow2_def k_def)
  have "(of_nat n :: rat) / pow2 e = of_int (int n * 2 ^ k)" by (simp add: p)
  then have "of_int (round_half_even (of_nat n / pow2 e)) * pow2 e = (of_nat n :: rat)"
    by (simp add: p del: of_int_mult) (simp add: p)
  moreover have "\<not> (pow2 1024 :: rat) \<le> of_nat n"
  proof -
    have "(of_nat n :: rat) < 2 ^ 53" using assms by (metis of_nat_less_iff of_nat_numeral of_nat_power)
    also have "\<dots> \<le> pow2 1024" by simp
    finally show ?thesis by simp
  qed
  ultimately show ?thesis using False
    by (simp add: round_f64_def Let_def e_def [symmetric])
qed (simp add: round_f64_def)

end
