(* ===== verification/Dag_Model.thy ===== *)
theory Dag_Model
  imports Kahn Rust_F64
begin

text \<open>
  The data model of the task DAG engine (\<open>crates/jcode-plan/src/dag/mod.rs\<close>): modes, node kinds and
  statuses, the lenient confidence parser, handoff artifacts and their rendering, nodes, specs, the
  engine's errors with their messages, and the graph with its queries, cycle detection included.
  A graph keeps its nodes in insertion order; lookup by id is the first match, as in the code.
\<close>

section \<open>Modes, kinds, statuses\<close>

datatype mode = Deep | Light

definition requires_gates :: "mode \<Rightarrow> bool" where
  "requires_gates m \<longleftrightarrow> m = Deep"

datatype node_origin = OriginSeed | OriginExpand | OriginGap | OriginGate

datatype node_kind = Explore | Implement | Verify | Fix | Synthesize | Critique

fun is_gate_kind :: "node_kind \<Rightarrow> bool" where
  "is_gate_kind Critique = True"
| "is_gate_kind Verify = True"
| "is_gate_kind _ = False"

fun gate_kind :: "node_kind \<Rightarrow> node_kind" where
  "gate_kind Implement = Verify"
| "gate_kind Fix = Verify"
| "gate_kind _ = Critique"

lemma gate_kind_is_gate: "is_gate_kind (gate_kind k)"
  by (cases k) auto

datatype node_status = Queued | Running | Done | Failed

fun status_debug :: "node_status \<Rightarrow> string" where
  "status_debug Queued = ''Queued''"
| "status_debug Running = ''Running''"
| "status_debug Done = ''Done''"
| "status_debug Failed = ''Failed''"

section \<open>Confidence\<close>

datatype confidence_level = Low | Medium | High

fun confidence_rank :: "confidence_level \<Rightarrow> nat" where
  "confidence_rank Low = 0"
| "confidence_rank Medium = 1"
| "confidence_rank High = 2"

text \<open>The derived \<open>Ord\<close>: constructors in declaration order.\<close>

instantiation confidence_level :: linorder
begin

definition less_eq_confidence_level :: "confidence_level \<Rightarrow> confidence_level \<Rightarrow> bool" where
  "a \<le> b \<longleftrightarrow> confidence_rank a \<le> confidence_rank b"

definition less_confidence_level :: "confidence_level \<Rightarrow> confidence_level \<Rightarrow> bool" where
  "a < b \<longleftrightarrow> confidence_rank a < confidence_rank b"

instance
proof
  fix a b c :: confidence_level
  show "(a < b) = (a \<le> b \<and> \<not> b \<le> a)"
    by (auto simp: less_eq_confidence_level_def less_confidence_level_def)
  show "a \<le> a" by (simp add: less_eq_confidence_level_def)
  show "a \<le> b \<Longrightarrow> b \<le> c \<Longrightarrow> a \<le> c" by (simp add: less_eq_confidence_level_def)
  show "a \<le> b \<Longrightarrow> b \<le> a \<Longrightarrow> a = b"
    by (cases a; cases b) (simp_all add: less_eq_confidence_level_def)
  show "a \<le> b \<or> b \<le> a" by (auto simp: less_eq_confidence_level_def)
qed

end

fun confidence_as_str :: "confidence_level \<Rightarrow> string" where
  "confidence_as_str Low = ''low''"
| "confidence_as_str Medium = ''medium''"
| "confidence_as_str High = ''high''"

definition is_number_char :: "char \<Rightarrow> bool" where
  "is_number_char c \<longleftrightarrow> is_ascii_digit c \<or> c = CHR ''.''"

definition extract_leading_number :: "string \<Rightarrow> (f64 \<times> string \<times> string) option" where
  "extract_leading_number s =
     (let rest = dropWhile (\<lambda>c. \<not> is_number_char c) s
      in if rest = [] then None
         else let token = takeWhile is_number_char rest
              in map_option (\<lambda>v. (v, token, drop (length token) rest)) (parse_f64 token))"

definition negations :: "string list" where
  "negations = [''not high'', ''not confident'', ''not certain'', ''not sure'', ''no confidence'',
     ''unsure'', ''uncertain'']"

definition score_denominator :: "string \<Rightarrow> f64 option" where
  "score_denominator after =
     (let rest = (case strip_prefix ''/'' after of
            Some r \<Rightarrow> Some r
          | None \<Rightarrow> (case strip_prefix ''out of '' after of
              Some r \<Rightarrow> Some r
            | None \<Rightarrow> strip_prefix ''of '' after))
      in case Option.bind rest (\<lambda>r. extract_leading_number (trim_start r)) of
           None \<Rightarrow> None
         | Some (d, _, _) \<Rightarrow> if f64_lt (Finite 0) d then Some d else None)"

definition percent_rung :: "f64 \<Rightarrow> confidence_level" where
  "percent_rung percent =
     (if f64_lt percent (Finite 50) then Low
      else if f64_lt percent (Finite 80) then Medium else High)"

definition confidence_parse :: "string \<Rightarrow> confidence_level option" where
  "confidence_parse raw =
     (let normalized = to_ascii_lowercase (trim raw) in
      if normalized = [] then None
      else if list_ex (str_contains normalized) negations then Some Low
      else if str_contains normalized ''low'' then Some Low
      else if str_contains normalized ''med'' \<or> str_contains normalized ''moderate'' then Some Medium
      else if str_contains normalized ''high'' \<or> str_contains normalized ''certain''
        \<or> str_contains normalized ''confident'' then Some High
      else case extract_leading_number normalized of
          None \<Rightarrow> None
        | Some (value, raw_token, after) \<Rightarrow>
            Some (percent_rung
              (case score_denominator (trim_start after) of
                 Some denominator \<Rightarrow> f64_mul (f64_div value denominator) (Finite 100)
               | None \<Rightarrow>
                   if str_contains normalized ''%'' \<or> f64_lt (Finite 10) value then value
                   else if f64_le value (Finite 1) \<and> str_contains raw_token ''.''
                   then f64_mul value (Finite 100)
                   else f64_mul value (Finite 10))))"

section \<open>Handoff artifacts\<close>

record handoff_artifact =
  ha_findings :: string
  ha_evidence :: "string list"
  ha_edge_cases_considered :: "string list"
  ha_validation :: "string option"
  ha_open_questions :: "string list"
  ha_confidence :: "string option"
  ha_what_i_did_not_check :: "string list"

definition brief :: "string \<Rightarrow> handoff_artifact" where
  "brief findings =
     \<lparr>ha_findings = findings, ha_evidence = [], ha_edge_cases_considered = [],
      ha_validation = None, ha_open_questions = [], ha_confidence = None,
      ha_what_i_did_not_check = []\<rparr>"

definition artifact_confidence_level :: "handoff_artifact \<Rightarrow> confidence_level option" where
  "artifact_confidence_level a = Option.bind (ha_confidence a) confidence_parse"

definition render_section :: "handoff_artifact \<Rightarrow> string \<Rightarrow> string \<Rightarrow> string" where
  "render_section a i kind =
     ''## '' @ i @ '' ('' @ kind @ '')'' @ [nl] @
     (if trim (ha_findings a) \<noteq> [] then ha_findings a @ [nl] else []) @
     (if ha_evidence a \<noteq> [] then ''Evidence: '' @ join ''; '' (ha_evidence a) @ [nl] else []) @
     (if ha_edge_cases_considered a \<noteq> []
      then ''Edge cases considered: '' @ join ''; '' (ha_edge_cases_considered a) @ [nl] else []) @
     (case ha_validation a of None \<Rightarrow> [] | Some v \<Rightarrow> ''Validation: '' @ v @ [nl]) @
     (if ha_open_questions a \<noteq> []
      then ''Open questions: '' @ join ''; '' (ha_open_questions a) @ [nl] else []) @
     (case ha_confidence a of None \<Rightarrow> [] | Some c \<Rightarrow> ''Confidence: '' @ c @ [nl]) @
     (if ha_what_i_did_not_check a \<noteq> []
      then ''What was not checked: '' @ join ''; '' (ha_what_i_did_not_check a) @ [nl] else [])"

section \<open>Nodes, specs, errors\<close>

record task_node =
  tn_id :: string
  tn_content :: string
  tn_kind :: node_kind
  tn_status :: node_status
  tn_owner :: "string option"
  tn_parent :: "string option"
  tn_depends_on :: "string list"
  tn_expanded :: bool
  tn_is_gate :: bool
  tn_planner :: "string option"
  tn_priority :: u8
  tn_output :: "handoff_artifact option"
  tn_origin :: "node_origin option"

definition is_composite :: "task_node \<Rightarrow> bool" where
  "is_composite n \<longleftrightarrow> tn_expanded n"

definition is_done :: "task_node \<Rightarrow> bool" where
  "is_done n \<longleftrightarrow> tn_status n = Done"

definition node_is_terminal :: "task_node \<Rightarrow> bool" where
  "node_is_terminal n \<longleftrightarrow> tn_status n = Done \<or> tn_status n = Failed"

record node_spec =
  ns_id :: "string option"
  ns_content :: string
  ns_kind :: node_kind
  ns_depends_on :: "string list"
  ns_priority :: u8

definition node_spec_new :: "string \<Rightarrow> string \<Rightarrow> node_kind \<Rightarrow> node_spec" where
  "node_spec_new i content kind =
     \<lparr>ns_id = Some i, ns_content = content, ns_kind = kind, ns_depends_on = [], ns_priority = 0\<rparr>"

definition spec_depends_on :: "node_spec \<Rightarrow> string list \<Rightarrow> node_spec" where
  "spec_depends_on s deps = s\<lparr>ns_depends_on := deps\<rparr>"

definition spec_priority :: "node_spec \<Rightarrow> u8 \<Rightarrow> node_spec" where
  "spec_priority s p = s\<lparr>ns_priority := p\<rparr>"

datatype dag_error =
    UnknownNode string
  | DuplicateNode string
  | UnknownDependency string string
  | WouldCreateCycle "string list"
  | NotOwner string string
  | InvalidState string node_status
  | ThinArtifact string string
  | UnaddressedLowConfidence string "string list"
  | UncoveredSiblings string "string list"
  | StaleGateScope string "string list"
  | GateMisuse string

fun dag_error_display :: "dag_error \<Rightarrow> string" where
  "dag_error_display (UnknownNode i) = ''unknown node '' @ quoted i"
| "dag_error_display (DuplicateNode i) = ''duplicate node id '' @ quoted i"
| "dag_error_display (UnknownDependency n d) =
     ''node '' @ quoted n @ '' depends on unknown node '' @ quoted d"
| "dag_error_display (WouldCreateCycle ids) =
     ''operation would create a cycle among: '' @ join '', '' ids"
| "dag_error_display (NotOwner n actor) =
     ''actor '' @ quoted actor @ '' does not own node '' @ quoted n"
| "dag_error_display (InvalidState n s) =
     ''node '' @ quoted n @ '' is in invalid state '' @ status_debug s @ '' for this operation''"
| "dag_error_display (ThinArtifact n reason) =
     ''node '' @ quoted n @ '' artifact rejected: '' @ reason"
| "dag_error_display (UnaddressedLowConfidence gate nodes) =
     ''gate '' @ quoted gate @ '' cannot pass: sibling node(s) ['' @ join '', '' nodes @
     ''] completed with LOW confidence and the gate artifact does not address them. Either '' @
     ''inject_gap with follow-up nodes that shore up that work, or name each '' @
     ''id in your findings with why its low confidence is acceptable''"
| "dag_error_display (UncoveredSiblings gate nodes) =
     ''gate '' @ quoted gate @ '' cannot pass: completed node(s) ['' @ join '', '' nodes @
     ''] in its audit scope are not addressed in the gate artifact. A passing deep gate must '' @
     ''account for every node it audits: name each id in findings/open_questions with what '' @
     ''you checked, or inject_gap with follow-up nodes for anything shaky''"
| "dag_error_display (StaleGateScope gate pending) =
     ''gate '' @ quoted gate @ '' cannot pass: node(s) ['' @ join '', '' pending @
     ''] entered its audit scope after it was dispatched and are not finished. The gate'' @ [sq] @
     ''s view is stale; it re-runs after they drain''"
| "dag_error_display (GateMisuse msg) = ''gate misuse: '' @ msg"

section \<open>The graph\<close>

record task_graph =
  tg_mode :: mode
  tg_nodes :: "task_node list"

definition graph_new :: "mode \<Rightarrow> task_graph" where
  "graph_new m = \<lparr>tg_mode = m, tg_nodes = []\<rparr>"

definition get :: "task_graph \<Rightarrow> string \<Rightarrow> task_node option" where
  "get g i = find (\<lambda>n. tn_id n = i) (tg_nodes g)"

text \<open>An assignment through \<open>get_mut\<close>: the first node with the id is updated in place.\<close>

definition get_mut :: "task_graph \<Rightarrow> string \<Rightarrow> (task_node \<Rightarrow> task_node) \<Rightarrow> task_graph" where
  "get_mut g i f = g\<lparr>tg_nodes := update_first (\<lambda>n. tn_id n = i) f (tg_nodes g)\<rparr>"

definition contains :: "task_graph \<Rightarrow> string \<Rightarrow> bool" where
  "contains g i \<longleftrightarrow> list_ex (\<lambda>n. tn_id n = i) (tg_nodes g)"

definition graph_len :: "task_graph \<Rightarrow> nat" where
  "graph_len g = length (tg_nodes g)"

definition graph_is_empty :: "task_graph \<Rightarrow> bool" where
  "graph_is_empty g \<longleftrightarrow> tg_nodes g = []"

definition push :: "task_graph \<Rightarrow> task_node \<Rightarrow> task_graph" where
  "push g n = g\<lparr>tg_nodes := tg_nodes g @ [n]\<rparr>"

definition children_of :: "task_graph \<Rightarrow> string \<Rightarrow> task_node list" where
  "children_of g i = filter (\<lambda>n. tn_parent n = Some i \<and> \<not> tn_is_gate n) (tg_nodes g)"

definition gate_of :: "task_graph \<Rightarrow> string \<Rightarrow> task_node option" where
  "gate_of g i = find (\<lambda>n. tn_parent n = Some i \<and> tn_is_gate n) (tg_nodes g)"

definition output_level :: "task_node \<Rightarrow> confidence_level option" where
  "output_level n = Option.bind (tn_output n) artifact_confidence_level"

definition low_confidence_done_ids :: "task_graph \<Rightarrow> string list" where
  "low_confidence_done_ids g =
     map tn_id (filter (\<lambda>n. is_done n \<and> \<not> tn_is_gate n \<and> output_level n = Some Low) (tg_nodes g))"

definition all_terminal :: "task_graph \<Rightarrow> bool" where
  "all_terminal g \<longleftrightarrow> list_all node_is_terminal (tg_nodes g)"

abbreviation ids :: "task_graph \<Rightarrow> string list" where
  "ids g \<equiv> map tn_id (tg_nodes g)"

lemma contains_iff: "contains g i \<longleftrightarrow> i \<in> set (ids g)"
  by (auto simp: contains_def list_ex_iff)

lemma get_None_iff: "get g i = None \<longleftrightarrow> i \<notin> set (ids g)"
  by (simp add: get_def find_key_None)

lemma get_Some: "get g i = Some n \<Longrightarrow> n \<in> set (tg_nodes g) \<and> tn_id n = i"
  unfolding get_def by (rule find_map_of_key)

lemma get_distinct:
  "distinct (ids g) \<Longrightarrow> n \<in> set (tg_nodes g) \<Longrightarrow> get g (tn_id n) = Some n"
  unfolding get_def by (rule find_key_distinct)

lemma get_mut_mode [simp]: "tg_mode (get_mut g i f) = tg_mode g"
  by (simp add: get_mut_def)

lemma push_simps [simp]:
  "tg_mode (push g n) = tg_mode g" "tg_nodes (push g n) = tg_nodes g @ [n]"
  by (simp_all add: push_def)

lemma ids_get_mut [simp]: "(\<And>n. tn_id (f n) = tn_id n) \<Longrightarrow> ids (get_mut g i f) = ids g"
  by (simp add: get_mut_def)

lemma nodes_get_mut:
  "distinct (ids g) \<Longrightarrow>
   tg_nodes (get_mut g i f) = map (\<lambda>n. if tn_id n = i then f n else n) (tg_nodes g)"
  by (simp add: get_mut_def update_first_distinct)

section \<open>Cycle detection\<close>

definition unique_deps :: "string set \<Rightarrow> task_node \<Rightarrow> string list" where
  "unique_deps known n = remdups (filter (\<lambda>d. d \<in> known) (tn_depends_on n))"

definition indegrees :: "task_graph \<Rightarrow> (string \<times> nat) list" where
  "indegrees g =
     fold (\<lambda>n. add_degree (tn_id n) (length (unique_deps (set (ids g)) n))) (tg_nodes g)
       (fold (\<lambda>n. ensure_entry (tn_id n)) (tg_nodes g) [])"

definition dag_succs :: "task_graph \<Rightarrow> string \<Rightarrow> string list" where
  "dag_succs g x = map tn_id (filter (\<lambda>n. x \<in> set (tn_depends_on n)) (tg_nodes g))"

definition cycle_nodes :: "task_graph \<Rightarrow> string list" where
  "cycle_nodes g =
     (let queue = sort (map fst (filter (\<lambda>(i, d). d = 0) (indegrees g)));
          visited = fst (kahn_loop (dag_succs g) {} (rev queue) (indegrees g))
      in sort (filter (\<lambda>i. i \<notin> visited) (ids g)))"

end
