(* ===== verification/Dag_Cycles.thy ===== *)
theory Dag_Cycles
  imports Dag_Model
begin

text \<open>
  \<open>TaskGraph::cycle_nodes\<close> against the dependency relation of the graph: the interpretation of
  the worklist locale on the engine's in-degree table, and what the engine reads off it.
\<close>

definition dep_edges :: "task_graph \<Rightarrow> (string \<times> string) set" where
  "dep_edges g = {(d, tn_id n) | d n. n \<in> set (tg_nodes g) \<and> d \<in> set (tn_depends_on n) \<and>
     d \<in> set (ids g)}"

lemma indegrees_spec:
  "distinct (map fst (indegrees g))"
  "fst ` set (indegrees g) = set (ids g)"
  "c \<in> set (ids g) \<Longrightarrow> map_of (indegrees g) c =
     Some (\<Sum>n \<leftarrow> tg_nodes g. if tn_id n = c then length (unique_deps (set (ids g)) n) else 0)"
  using degree_table [OF indegrees_def] by auto

lemma count_dag_succs:
  "count_list (dag_succs g d) c =
     (\<Sum>n \<leftarrow> tg_nodes g. if tn_id n = c \<and> d \<in> set (tn_depends_on n) then 1 else 0)"
proof -
  have "count_list (map tn_id (filter (\<lambda>n. d \<in> set (tn_depends_on n)) ns)) c =
      (\<Sum>n \<leftarrow> ns. if tn_id n = c \<and> d \<in> set (tn_depends_on n) then 1 else 0)" for ns
    by (induction ns) auto
  then show ?thesis by (simp add: dag_succs_def)
qed

lemma sum_over_known:
  "finite known \<Longrightarrow>
   (\<Sum>d \<in> known. \<Sum>n \<leftarrow> ns. if tn_id n = c \<and> d \<in> set (tn_depends_on n) then 1 else 0) =
   (\<Sum>n \<leftarrow> ns. if tn_id n = c then length (unique_deps known n) else 0)"
proof (induction ns)
  case (Cons n ns)
  have "length (unique_deps known n) = card {d \<in> known. d \<in> set (tn_depends_on n)}"
    unfolding unique_deps_def length_remdups_card_conv by (rule arg_cong [of _ _ card]) auto
  moreover have "(\<Sum>d \<in> known. if tn_id n = c \<and> d \<in> set (tn_depends_on n) then 1 else 0) =
      (if tn_id n = c then card {d \<in> known. d \<in> set (tn_depends_on n)} else 0)"
    using Cons.prems by (simp add: sum.inter_filter [symmetric])
  ultimately show ?case using Cons by (simp add: sum.distrib)
qed simp

interpretation dag_kahn: kahn_graph "dag_succs g" "indegrees g" for g
proof unfold_locales
  fix x show "set (dag_succs g x) \<subseteq> fst ` set (indegrees g)"
    by (auto simp: indegrees_spec dag_succs_def)
next
  fix c assume "c \<in> fst ` set (indegrees g)"
  then show "map_of (indegrees g) c =
      Some (\<Sum>d \<in> fst ` set (indegrees g). count_list (dag_succs g d) c)"
    by (simp add: indegrees_spec count_dag_succs sum_over_known del: set_map)
qed

lemma dag_kahn_edges: "dag_kahn.edges g = dep_edges g"
  by (auto simp: dag_kahn.edges_def dag_kahn.known_def indegrees_spec dep_edges_def dag_succs_def)

lemma dep_edges_finite: "finite (dep_edges g)"
  using dag_kahn.edges_finite by (simp add: dag_kahn_edges)

lemma below_cycle_known: "on_or_below_cycle (dep_edges g) x \<Longrightarrow> x \<in> set (ids g)"
proof -
  assume "on_or_below_cycle (dep_edges g) x"
  then obtain y where "(y, y) \<in> (dep_edges g)\<^sup>+" "(y, x) \<in> (dep_edges g)\<^sup>*"
    by (auto simp: on_or_below_cycle_def)
  then have "(y, x) \<in> (dep_edges g)\<^sup>+" by simp
  then obtain z where "(z, x) \<in> dep_edges g" by (metis tranclD2)
  then show ?thesis by (auto simp: dep_edges_def)
qed

lemma cycle_nodes_set:
  "set (cycle_nodes g) = {x. on_or_below_cycle (dep_edges g) x}"
proof -
  have "set (rev (sort (map fst (filter (\<lambda>(i, d). d = 0) (indegrees g))))) =
      {c \<in> dag_kahn.known g. map_of (indegrees g) c = Some 0}"
    using zero_keys [OF indegrees_spec(1)] by (simp add: dag_kahn.known_def)
  from dag_kahn.kahn_visited [OF this] show ?thesis
    using below_cycle_known
    by (auto simp: cycle_nodes_def dag_kahn_edges dag_kahn.known_def indegrees_spec)
qed

lemma cycle_nodes_sorted: "sorted (cycle_nodes g)"
  by (simp add: cycle_nodes_def Let_def)

lemma cycle_nodes_Nil_iff: "cycle_nodes g = [] \<longleftrightarrow> acyclic (dep_edges g)"
proof -
  have "cycle_nodes g = [] \<longleftrightarrow> set (cycle_nodes g) = {}" by (rule set_empty [symmetric])
  then show ?thesis by (auto simp: cycle_nodes_set acyclic_iff_no_cycle_below)
qed

end
