(* ===== verification/Dag_Ops.thy ===== *)
theory Dag_Ops
  imports Dag_Cycles
begin

text \<open>
  The validated graph mutations of the engine (\<open>crates/jcode-plan/src/dag/ops.rs\<close>). An operation
  takes \<open>&mut graph\<close> and returns a \<open>Result\<close>, so it is a function from the graph to a pair of the
  graph afterwards and the result (\<open>Inl\<close> the error). The code works on a clone and assigns it at
  the end; \<open>commit\<close> is that assignment. A second lookup of a node that the function has already
  found cannot fail, so its error branch has no counterpart here.
\<close>

definition commit :: "'g \<Rightarrow> 'e + ('g \<times> 'a) \<Rightarrow> 'g \<times> ('e + 'a)" where
  "commit g r = (case r of Inl e \<Rightarrow> (g, Inl e) | Inr (g', x) \<Rightarrow> (g', Inr x))"

lemma commit_Inl: "snd (commit g r) = Inl e \<Longrightarrow> fst (commit g r) = g"
  by (auto simp: commit_def split: sum.splits prod.splits)

lemma commit_eq_Inr: "commit g r = (g', Inr x) \<longleftrightarrow> r = Inr (g', x)"
  by (auto simp: commit_def split: sum.splits prod.splits)

section \<open>Specs\<close>

definition validated_spec_id :: "node_spec \<Rightarrow> string \<Rightarrow> dag_error + string" where
  "validated_spec_id spec op =
     (case ns_id spec of
        None \<Rightarrow> Inl (GateMisuse (op @ '' specs must carry explicit ids''))
      | Some i \<Rightarrow>
          if trim i = [] then Inl (GateMisuse (op @ '' specs must carry non-empty ids''))
          else Inr i)"

definition spec_to_node :: "node_spec \<Rightarrow> string option \<Rightarrow> node_origin \<Rightarrow> task_node" where
  "spec_to_node spec parent origin =
     \<lparr>tn_id = the_default [] (ns_id spec), tn_content = ns_content spec, tn_kind = ns_kind spec,
      tn_status = Queued, tn_owner = None, tn_parent = parent,
      tn_depends_on = dedup_first (ns_depends_on spec), tn_expanded = False, tn_is_gate = False,
      tn_planner = None, tn_priority = ns_priority spec, tn_output = None,
      tn_origin = Some origin\<rparr>"

definition dependency_sets_equal :: "string list \<Rightarrow> string list \<Rightarrow> bool" where
  "dependency_sets_equal left right \<longleftrightarrow> set left = set right"

definition seed_specs_equivalent :: "node_spec \<Rightarrow> node_spec \<Rightarrow> bool" where
  "seed_specs_equivalent left right \<longleftrightarrow>
     ns_id left = ns_id right \<and> ns_content left = ns_content right \<and>
     ns_kind left = ns_kind right \<and> ns_priority left = ns_priority right \<and>
     dependency_sets_equal (ns_depends_on left) (ns_depends_on right)"

definition declared_dependencies :: "task_graph \<Rightarrow> task_node \<Rightarrow> string list" where
  "declared_dependencies g n =
     filter (\<lambda>d. case get g d of None \<Rightarrow> True | Some c \<Rightarrow> tn_parent c \<noteq> Some (tn_id n))
       (tn_depends_on n)"

definition seed_spec_matches_existing :: "task_graph \<Rightarrow> task_node \<Rightarrow> node_spec \<Rightarrow> bool" where
  "seed_spec_matches_existing g n spec \<longleftrightarrow>
     \<not> (tn_parent n \<noteq> None \<or> tn_is_gate n \<or> tn_origin n \<notin> {None, Some OriginSeed} \<or>
        tn_content n \<noteq> ns_content spec \<or> tn_kind n \<noteq> ns_kind spec \<or>
        tn_priority n \<noteq> ns_priority spec) \<and>
     dependency_sets_equal (declared_dependencies g n) (ns_depends_on spec)"

text \<open>\<open>indexes\<close> maps an id to the place of the one spec in \<open>unique_specs\<close> that carries it, so a
  lookup in it is a search of \<open>unique_specs\<close> by id.\<close>

fun collapse_replays :: "node_spec list \<Rightarrow> node_spec list \<Rightarrow> dag_error + node_spec list" where
  "collapse_replays unique_specs [] = Inr unique_specs"
| "collapse_replays unique_specs (spec # specs) =
     ok_or_return (validated_spec_id spec ''seed'') (\<lambda>i.
       case find (\<lambda>u. ns_id u = Some i) unique_specs of
         Some existing \<Rightarrow>
           if seed_specs_equivalent existing spec then collapse_replays unique_specs specs
           else Inl (DuplicateNode i)
       | None \<Rightarrow> collapse_replays (unique_specs @ [spec]) specs)"

text \<open>The dependency check all three batch operations run: the first unknown reference is the
  error.\<close>

fun check_dependencies :: "(string \<Rightarrow> bool) \<Rightarrow> node_spec list \<Rightarrow> dag_error + unit" where
  "check_dependencies known [] = Inr ()"
| "check_dependencies known (spec # specs) =
     (case find (\<lambda>d. \<not> known d) (ns_depends_on spec) of
        Some d \<Rightarrow> Inl (UnknownDependency (the_default [] (ns_id spec)) d)
      | None \<Rightarrow> check_dependencies known specs)"

fun validate_new_ids ::
  "task_graph \<Rightarrow> string \<Rightarrow> string set \<Rightarrow> node_spec list \<Rightarrow> dag_error + string list" where
  "validate_new_ids g op seen [] = Inr []"
| "validate_new_ids g op seen (spec # specs) =
     ok_or_return (validated_spec_id spec op) (\<lambda>i.
       if contains g i \<or> i \<in> seen then Inl (DuplicateNode i)
       else ok_or_return (validate_new_ids g op (insert i seen) specs) (\<lambda>is. Inr (i # is)))"

section \<open>Gates\<close>

definition gate_content :: "node_kind \<Rightarrow> string \<Rightarrow> string" where
  "gate_content kind parent =
     (case kind of
        Verify \<Rightarrow>
          ''Verify the work of '' @ quoted parent @
          '': run the declared acceptance checks (build, tests, lint). '' @
          ''If anything fails, emit fix nodes back into the graph; do not pass until they drain.''
      | _ \<Rightarrow>
          ''Critique the work of '' @ quoted parent @ '' adversarially. Read every child'' @ [sq] @
          ''s '' @ quoted ''what_i_did_not_check'' @
          '' and find unexplored gaps given this task'' @ [sq] @
          ''s stated scope. For each gap, emit a new child node; '' @
          ''do not pass until no gaps remain.'')"

definition root_gate_content :: "node_kind \<Rightarrow> string" where
  "root_gate_content kind =
     (case kind of
        Verify \<Rightarrow>
          ''Final plan-wide verify: run the acceptance checks for the whole '' @
          ''plan'' @ [sq] @ ''s declared scope (build, tests, lint) across everything the plan changed. If '' @
          ''anything fails, inject fix nodes; the plan cannot finish until they drain.''
      | _ \<Rightarrow>
          ''Final plan-wide critique: audit the ENTIRE plan adversarially before it may '' @
          ''finish. Read every completed node'' @ [sq] @ ''s artifact, especially each '' @
          quoted ''what_i_did_not_check'' @ '' and every open question, and hunt for whole facets the '' @
          ''plan never covered. For each gap, inject a new node; the plan cannot finish '' @
          ''until they drain.'')"

lemma finite_numbered: "finite {k. n \<le> k \<and> contains g (base @ show_nat k)}"
proof (rule finite_subset)
  show "{k. n \<le> k \<and> contains g (base @ show_nat k)} \<subseteq> (\<lambda>k. base @ show_nat k) -` set (ids g)"
    by (auto simp: contains_iff)
  show "finite ((\<lambda>k. base @ show_nat k) -` set (ids g))"
    by (rule finite_vimageI) (auto intro: injI dest: show_nat_inj)
qed

text \<open>The counter is a \<open>u32\<close> in the code; it passes the node count only after as many taken ids, so
  it never wraps.\<close>

function numbered_gate_id :: "task_graph \<Rightarrow> string \<Rightarrow> nat \<Rightarrow> string" where
  "numbered_gate_id g base n =
     (let candidate = base @ show_nat n
      in if \<not> contains g candidate then candidate else numbered_gate_id g base (Suc n))"
  by pat_completeness auto
termination
proof (relation "measure (\<lambda>(g, base, n). card {k. n \<le> k \<and> contains g (base @ show_nat k)})")
  fix g :: task_graph and base n x
  assume x: "x = base @ show_nat n" "\<not> \<not> contains g x"
  let ?a = "{k. Suc n \<le> k \<and> contains g (base @ show_nat k)}"
  let ?b = "{k. n \<le> k \<and> contains g (base @ show_nat k)}"
  have "?a \<subseteq> ?b" by auto
  moreover have "n \<in> ?b" and "n \<notin> ?a" using x by simp_all
  ultimately have "?a \<subset> ?b" by blast
  then show "((g, base, Suc n), g, base, n) \<in>
      measure (\<lambda>(g, base, n). card {k. n \<le> k \<and> contains g (base @ show_nat k)})"
    by (simp add: psubset_card_mono finite_numbered)
qed simp

declare numbered_gate_id.simps [simp del]

definition unique_gate_id :: "task_graph \<Rightarrow> string \<Rightarrow> string" where
  "unique_gate_id g node_id =
     (let base = node_id @ ''::gate''
      in if \<not> contains g base then base else numbered_gate_id g base 2)"

definition new_gate :: "string \<Rightarrow> string \<Rightarrow> node_kind \<Rightarrow> string option \<Rightarrow> string list \<Rightarrow> task_node" where
  "new_gate i content kind parent deps =
     \<lparr>tn_id = i, tn_content = content, tn_kind = kind, tn_status = Queued, tn_owner = None,
      tn_parent = parent, tn_depends_on = deps, tn_expanded = False, tn_is_gate = True,
      tn_planner = None, tn_priority = 0, tn_output = None, tn_origin = Some OriginGate\<rparr>"

definition is_root_work :: "task_node \<Rightarrow> bool" where
  "is_root_work n \<longleftrightarrow> tn_parent n = None \<and> \<not> tn_is_gate n"

definition is_root_gate :: "task_node \<Rightarrow> bool" where
  "is_root_gate n \<longleftrightarrow> tn_is_gate n \<and> tn_parent n = None"

definition widen_gate :: "string list \<Rightarrow> task_node \<Rightarrow> task_node" where
  "widen_gate root_ids gate =
     (let deps = push_missing (tn_depends_on gate) root_ids;
          widened = (deps \<noteq> tn_depends_on gate);
          gate = gate\<lparr>tn_depends_on := deps\<rparr>
      in if widened \<and> node_is_terminal gate then gate\<lparr>tn_status := Queued, tn_owner := None\<rparr>
         else gate)"

definition ensure_root_gate :: "task_graph \<Rightarrow> task_graph" where
  "ensure_root_gate g =
     (let root_ids = map tn_id (filter is_root_work (tg_nodes g)) in
      if root_ids = [] then g
      else case find is_root_gate (tg_nodes g) of
          Some gate \<Rightarrow> get_mut g (tn_id gate) (widen_gate root_ids)
        | None \<Rightarrow>
            let all_code = list_all (\<lambda>n. tn_kind n = Implement \<or> tn_kind n = Fix)
                  (filter is_root_work (tg_nodes g));
                gate_kind = (if all_code then Verify else Critique)
            in push g (new_gate (unique_gate_id g ''plan'') (root_gate_content gate_kind) gate_kind
                 None root_ids))"

section \<open>Seeding\<close>

fun stage_specs :: "task_graph \<Rightarrow> task_graph \<Rightarrow> node_spec list \<Rightarrow> dag_error + task_graph" where
  "stage_specs g staged [] = Inr staged"
| "stage_specs g staged (spec # specs) =
     (case get g (the_default [] (ns_id spec)) of
        Some existing \<Rightarrow>
          if seed_spec_matches_existing g existing spec then stage_specs g staged specs
          else Inl (DuplicateNode (the_default [] (ns_id spec)))
      | None \<Rightarrow> stage_specs g (push staged (spec_to_node spec None OriginSeed)) specs)"

definition check_acyclic :: "task_graph \<Rightarrow> dag_error + unit" where
  "check_acyclic g = (if cycle_nodes g \<noteq> [] then Inl (WouldCreateCycle (cycle_nodes g)) else Inr ())"

definition seed_staged :: "task_graph \<Rightarrow> node_spec list \<Rightarrow> dag_error + (task_graph \<times> unit)" where
  "seed_staged g specs =
     ok_or_return (collapse_replays [] specs) (\<lambda>unique_specs.
     ok_or_return (check_dependencies
         (\<lambda>d. Some d \<in> ns_id ` set unique_specs \<or> contains g d) unique_specs) (\<lambda>_.
     ok_or_return (stage_specs g g unique_specs) (\<lambda>staged0.
       let staged = (if requires_gates (tg_mode staged0) then ensure_root_gate staged0 else staged0)
       in ok_or_return (check_acyclic staged) (\<lambda>_. Inr (staged, ())))))"

definition seed :: "task_graph \<Rightarrow> node_spec list \<Rightarrow> task_graph \<times> (dag_error + unit)" where
  "seed g specs = commit g (seed_staged g specs)"

section \<open>Expanding\<close>

record expand_outcome =
  eo_child_ids :: "string list"
  eo_gate_id :: "string option"

definition check_owner :: "task_node \<Rightarrow> string \<Rightarrow> dag_error + unit" where
  "check_owner n actor = check_or (tn_owner n = Some actor) (NotOwner (tn_id n) actor)"

definition lookup :: "task_graph \<Rightarrow> string \<Rightarrow> dag_error + task_node" where
  "lookup g i = (case get g i of None \<Rightarrow> Inl (UnknownNode i) | Some n \<Rightarrow> Inr n)"

definition push_all :: "task_graph \<Rightarrow> task_node list \<Rightarrow> task_graph" where
  "push_all g ns = g\<lparr>tg_nodes := tg_nodes g @ ns\<rparr>"

text \<open>The parent becomes a composite join that waits for the children and the gate.\<close>

definition make_composite :: "string list \<Rightarrow> task_node \<Rightarrow> task_node" where
  "make_composite synth_deps n =
     n\<lparr>tn_expanded := True, tn_status := Queued,
       tn_planner := (if tn_planner n = None then tn_owner n else tn_planner n),
       tn_owner := None, tn_depends_on := push_missing (tn_depends_on n) synth_deps\<rparr>"

text \<open>The staged graph: the children, the gate that deep mode inserts, the parent as a join.\<close>

definition expand_build ::
  "task_graph \<Rightarrow> string \<Rightarrow> node_kind \<Rightarrow> node_spec list \<Rightarrow> string list \<Rightarrow> task_graph \<times> string option" where
  "expand_build g node_id parent_kind children child_ids =
     (let staged = push_all g (map (\<lambda>s. spec_to_node s (Some node_id) OriginExpand) children);
          gate_id = (if requires_gates (tg_mode staged) then Some (unique_gate_id staged node_id)
                     else None);
          kind = gate_kind parent_kind;
          staged = (case gate_id of None \<Rightarrow> staged
            | Some gid \<Rightarrow> push staged
                (new_gate gid (gate_content kind node_id) kind (Some node_id) child_ids));
          synth_deps = child_ids @ (case gate_id of None \<Rightarrow> [] | Some gid \<Rightarrow> [gid])
      in (get_mut staged node_id (make_composite synth_deps), gate_id))"

definition expand_staged ::
  "task_graph \<Rightarrow> string \<Rightarrow> string \<Rightarrow> node_spec list \<Rightarrow> dag_error + (task_graph \<times> expand_outcome)" where
  "expand_staged g node_id actor children =
     ok_or_return (lookup g node_id) (\<lambda>node.
     ok_or_return (check_owner node actor) (\<lambda>_.
     ok_or_return (check_or (\<not> tn_is_gate node)
         (GateMisuse (''gate node '' @ quoted node_id @ '' cannot be decomposed''))) (\<lambda>_.
     ok_or_return (check_or (\<not> (tn_expanded node \<or> tn_status node \<noteq> Running))
         (InvalidState node_id (tn_status node))) (\<lambda>_.
     ok_or_return (check_or (children \<noteq> [])
         (GateMisuse ''expand requires at least one child'')) (\<lambda>_.
     ok_or_return (validate_new_ids g ''expand'' {} children) (\<lambda>child_ids.
     ok_or_return (check_dependencies (\<lambda>d. d \<in> set child_ids \<or> contains g d) children) (\<lambda>_.
     case expand_build g node_id (tn_kind node) children child_ids of (staged, gate_id) \<Rightarrow>
       ok_or_return (check_acyclic staged) (\<lambda>_.
         Inr (staged, \<lparr>eo_child_ids = child_ids, eo_gate_id = gate_id\<rparr>)))))))))"

definition expand_node ::
  "task_graph \<Rightarrow> string \<Rightarrow> string \<Rightarrow> node_spec list \<Rightarrow> task_graph \<times> (dag_error + expand_outcome)" where
  "expand_node g node_id actor children = commit g (expand_staged g node_id actor children)"

section \<open>Mentions of a node id\<close>

definition is_id_char :: "char \<Rightarrow> bool" where
  "is_id_char c \<longleftrightarrow> is_ascii_alphanumeric c \<or> c \<in> {CHR ''-'', CHR ''_'', CHR ''.'', CHR '':''}"

text \<open>The boundary tests at a match of the id at byte \<open>begin\<close>. All id characters are ASCII, so the
  last character before and the first after are an id character exactly when that byte is.\<close>

definition mention_at :: "string \<Rightarrow> string \<Rightarrow> nat \<Rightarrow> bool" where
  "mention_at text i begin =
     (let before = take begin text;
          after = drop (begin + length i) text;
          before_ok = (begin = 0 \<or> \<not> is_id_char (last before));
          after_ok = (case after of
              [] \<Rightarrow> True
            | c # rest \<Rightarrow>
                if c = CHR ''.'' \<or> c = CHR '':''
                then (case rest of [] \<Rightarrow> True | c' # _ \<Rightarrow> \<not> is_id_char c')
                else \<not> is_id_char c)
      in before_ok \<and> after_ok)"

function mentions_from :: "string \<Rightarrow> string \<Rightarrow> nat \<Rightarrow> bool" where
  "mentions_from text i start =
     (case str_find (drop start text) i of
        None \<Rightarrow> False
      | Some pos \<Rightarrow>
          let begin = start + pos in
          if mention_at text i begin then True
          else let step = (case drop begin text of [] \<Rightarrow> 1 | c # _ \<Rightarrow> len_utf8 c);
                   start' = begin + step
               in if length text \<le> start' then False else mentions_from text i start')"
  by pat_completeness auto
termination
  by (relation "measure (\<lambda>(text, i, start). length text - start)")
    (auto split: list.splits simp: len_utf8_def)

declare mentions_from.simps [simp del]

definition mentions_node_id :: "string \<Rightarrow> string \<Rightarrow> bool" where
  "mentions_node_id text i \<longleftrightarrow> (if i = [] then False else mentions_from text i 0)"

section \<open>Completing\<close>

definition validate_artifact :: "mode \<Rightarrow> string \<Rightarrow> bool \<Rightarrow> handoff_artifact \<Rightarrow> dag_error + unit" where
  "validate_artifact m node_id is_gate a =
     (if \<not> requires_gates m then Inr ()
      else if is_gate then Inr ()
      else if trim (ha_findings a) = []
      then Inl (ThinArtifact node_id ''deep-mode artifact requires non-empty findings'')
      else if ha_what_i_did_not_check a = []
      then Inl (ThinArtifact node_id
        (''deep-mode artifact must list '' @ quoted ''what_i_did_not_check'' @ '' (use an explicit '' @
         quoted ''nothing, fully covered'' @ '' entry only when truly exhaustive)''))
      else if artifact_confidence_level a = None
      then Inl (ThinArtifact node_id
        (''deep-mode artifact must state a confidence of low, medium, or high '' @
         ''(honest '' @ quoted ''low'' @ '' is welcome: it routes follow-up work instead of '' @
         ''penalizing you)''))
      else Inr ())"

definition gate_coverage_enumeration_cap :: nat where
  "gate_coverage_enumeration_cap = 20"

definition gate_audit_scope :: "task_graph \<Rightarrow> task_node \<Rightarrow> task_node list" where
  "gate_audit_scope g gate =
     filter (\<lambda>n. \<not> tn_is_gate n) (List.map_filter (get g) (tn_depends_on gate))"

definition addressed :: "handoff_artifact \<Rightarrow> string \<Rightarrow> bool" where
  "addressed a i \<longleftrightarrow>
     mentions_node_id (ha_findings a) i \<or> list_ex (\<lambda>q. mentions_node_id q i) (ha_open_questions a)"

definition validate_gate_pass :: "task_graph \<Rightarrow> string \<Rightarrow> handoff_artifact \<Rightarrow> dag_error + unit" where
  "validate_gate_pass g gate_id a =
     (case get g gate_id of
        None \<Rightarrow> Inr ()
      | Some gate \<Rightarrow>
          let scope = gate_audit_scope g gate;
              pending = map tn_id (filter (\<lambda>n. \<not> is_done n) scope);
              confidence_debts = map tn_id (filter (\<lambda>n. \<not> addressed a (tn_id n))
                (filter (\<lambda>n. output_level n = Some Low) scope));
              uncovered =
                (if length scope \<le> gate_coverage_enumeration_cap
                 then map tn_id (filter (\<lambda>n. \<not> addressed a (tn_id n)) scope)
                 else map tn_id (filter (\<lambda>n. \<not> addressed a (tn_id n))
                   (filter (\<lambda>n. output_level n \<noteq> Some High) scope)))
          in if scope = [] then Inr ()
             else if pending \<noteq> [] then Inl (StaleGateScope gate_id pending)
             else if confidence_debts \<noteq> []
             then Inl (UnaddressedLowConfidence gate_id confidence_debts)
             else if uncovered \<noteq> [] then Inl (UncoveredSiblings gate_id uncovered)
             else Inr ())"

definition complete_staged ::
  "task_graph \<Rightarrow> string \<Rightarrow> string \<Rightarrow> handoff_artifact \<Rightarrow> dag_error + (task_graph \<times> unit)" where
  "complete_staged g node_id actor a =
     ok_or_return (lookup g node_id) (\<lambda>node.
     ok_or_return (check_owner node actor) (\<lambda>_.
     ok_or_return (check_or (tn_status node = Running) (InvalidState node_id (tn_status node))) (\<lambda>_.
     ok_or_return (validate_artifact (tg_mode g) node_id (tn_is_gate node) a) (\<lambda>_.
     ok_or_return
       (if tn_is_gate node \<and> requires_gates (tg_mode g) then validate_gate_pass g node_id a
        else Inr ()) (\<lambda>_.
       Inr (get_mut g node_id (\<lambda>n. n\<lparr>tn_status := Done, tn_output := Some a\<rparr>), ()))))))"

definition complete_node ::
  "task_graph \<Rightarrow> string \<Rightarrow> string \<Rightarrow> handoff_artifact \<Rightarrow> task_graph \<times> (dag_error + unit)" where
  "complete_node g node_id actor a = commit g (complete_staged g node_id actor a)"

section \<open>Failing, retrying, injecting\<close>

definition fail_staged :: "task_graph \<Rightarrow> string \<Rightarrow> string \<Rightarrow> dag_error + (task_graph \<times> unit)" where
  "fail_staged g node_id actor =
     ok_or_return (lookup g node_id) (\<lambda>node.
     ok_or_return (check_owner node actor) (\<lambda>_.
     ok_or_return (check_or (tn_status node = Running) (InvalidState node_id (tn_status node))) (\<lambda>_.
       Inr (get_mut g node_id (\<lambda>n. n\<lparr>tn_status := Failed\<rparr>), ()))))"

definition fail_node :: "task_graph \<Rightarrow> string \<Rightarrow> string \<Rightarrow> task_graph \<times> (dag_error + unit)" where
  "fail_node g node_id actor = commit g (fail_staged g node_id actor)"

definition requeue_staged :: "task_graph \<Rightarrow> string \<Rightarrow> dag_error + (task_graph \<times> unit)" where
  "requeue_staged g node_id =
     ok_or_return (lookup g node_id) (\<lambda>node.
     ok_or_return (check_or (tn_status node = Failed) (InvalidState node_id (tn_status node))) (\<lambda>_.
       Inr (get_mut g node_id (\<lambda>n. n\<lparr>tn_status := Queued, tn_owner := None\<rparr>), ())))"

definition requeue_failed :: "task_graph \<Rightarrow> string \<Rightarrow> task_graph \<times> (dag_error + unit)" where
  "requeue_failed g node_id = commit g (requeue_staged g node_id)"

definition requeue_gate :: "string list \<Rightarrow> task_node \<Rightarrow> task_node" where
  "requeue_gate new_ids gate =
     gate\<lparr>tn_status := Queued, tn_owner := None,
          tn_depends_on := push_missing (tn_depends_on gate) new_ids\<rparr>"

definition add_deps :: "string list \<Rightarrow> task_node \<Rightarrow> task_node" where
  "add_deps new_ids n = n\<lparr>tn_depends_on := push_missing (tn_depends_on n) new_ids\<rparr>"

definition inject_build ::
  "task_graph \<Rightarrow> string \<Rightarrow> string option \<Rightarrow> node_spec list \<Rightarrow> string list \<Rightarrow> task_graph" where
  "inject_build g gate_id parent new_nodes new_ids =
     (let staged = push_all g (map (\<lambda>s. spec_to_node s parent OriginGap) new_nodes);
          staged = get_mut staged gate_id (requeue_gate new_ids)
      in case parent of None \<Rightarrow> staged | Some p \<Rightarrow> get_mut staged p (add_deps new_ids))"

definition inject_staged ::
  "task_graph \<Rightarrow> string \<Rightarrow> string \<Rightarrow> node_spec list \<Rightarrow> dag_error + (task_graph \<times> string list)" where
  "inject_staged g gate_id actor new_nodes =
     ok_or_return (lookup g gate_id) (\<lambda>gate.
     ok_or_return (check_owner gate actor) (\<lambda>_.
     ok_or_return (check_or (tn_is_gate gate)
         (GateMisuse (''node '' @ quoted gate_id @
           '' is not a gate; use expand_node to decompose work''))) (\<lambda>_.
     ok_or_return (check_or (tn_status gate = Running) (InvalidState gate_id (tn_status gate))) (\<lambda>_.
     ok_or_return (check_or (new_nodes \<noteq> [])
         (GateMisuse ''inject_from_gate requires at least one new node'')) (\<lambda>_.
     ok_or_return (validate_new_ids g ''inject_from_gate'' {} new_nodes) (\<lambda>new_ids.
     ok_or_return (check_dependencies (\<lambda>d. d \<in> set new_ids \<or> contains g d) new_nodes) (\<lambda>_.
       let staged = inject_build g gate_id (tn_parent gate) new_nodes new_ids
       in ok_or_return (check_acyclic staged) (\<lambda>_. Inr (staged, new_ids)))))))))"

definition inject_from_gate ::
  "task_graph \<Rightarrow> string \<Rightarrow> string \<Rightarrow> node_spec list \<Rightarrow> task_graph \<times> (dag_error + string list)" where
  "inject_from_gate g gate_id actor new_nodes = commit g (inject_staged g gate_id actor new_nodes)"

end
