(* ===== verification/Dag_Schedule.thy ===== *)
theory Dag_Schedule
  imports Dag_Ops
begin

text \<open>
  The scheduler of the engine (\<open>crates/jcode-plan/src/dag/schedule.rs\<close>): which nodes are ready and
  in what order, dispatch to a worker, and the worker input that carries the artifacts of the
  completed dependencies forward.
\<close>

definition light_mode_suggested_workers :: nat where
  "light_mode_suggested_workers = 16"

definition deps_satisfied :: "task_graph \<Rightarrow> task_node \<Rightarrow> bool" where
  "deps_satisfied g n \<longleftrightarrow>
     list_all (\<lambda>d. case get g d of None \<Rightarrow> False | Some m \<Rightarrow> is_done m) (tn_depends_on n)"

definition is_ready :: "task_graph \<Rightarrow> task_node \<Rightarrow> bool" where
  "is_ready g n \<longleftrightarrow> tn_status n = Queued \<and> deps_satisfied g n"

text \<open>\<open>sort_by\<close> with priority first, then id; the comparison is lexicographic on the pair and the
  sort is stable, as \<open>sort_key\<close> is.\<close>

definition schedule_key :: "task_node \<Rightarrow> u8 \<times> string" where
  "schedule_key n = (tn_priority n, tn_id n)"

definition ready_nodes :: "task_graph \<Rightarrow> task_node list" where
  "ready_nodes g = sort_key schedule_key (filter (is_ready g) (tg_nodes g))"

definition assign_to :: "string \<Rightarrow> task_node \<Rightarrow> task_node" where
  "assign_to worker n = n\<lparr>tn_owner := Some worker, tn_status := Running\<rparr>"

definition dispatch :: "task_graph \<Rightarrow> string \<Rightarrow> string \<Rightarrow> task_graph \<times> bool" where
  "dispatch g node_id worker =
     (if (case get g node_id of None \<Rightarrow> False | Some n \<Rightarrow> is_ready g n)
      then (get_mut g node_id (assign_to worker), True)
      else (g, False))"

fun kind_label :: "node_kind \<Rightarrow> string" where
  "kind_label Explore = ''explore''"
| "kind_label Implement = ''implement''"
| "kind_label Verify = ''verify''"
| "kind_label Fix = ''fix''"
| "kind_label Synthesize = ''synthesize''"
| "kind_label Critique = ''critique''"

definition dep_section :: "task_node \<Rightarrow> string" where
  "dep_section d =
     nl # (case tn_output d of
         Some a \<Rightarrow> render_section a (tn_id d) (kind_label (tn_kind d))
       | None \<Rightarrow> ''## '' @ tn_id d @ '' ('' @ kind_label (tn_kind d) @ '')'' @ [nl])"

definition upstream_done :: "task_graph \<Rightarrow> task_node \<Rightarrow> task_node list" where
  "upstream_done g n = filter is_done (List.map_filter (get g) (tn_depends_on n))"

definition assemble_input :: "task_graph \<Rightarrow> string \<Rightarrow> string" where
  "assemble_input g node_id =
     (case get g node_id of
        None \<Rightarrow> []
      | Some n \<Rightarrow>
          if upstream_done g n = [] then tn_content n
          else tn_content n @ [nl, nl] @ ''# Inputs from completed dependencies'' @ [nl] @
            concat (map dep_section (upstream_done g n)))"

section \<open>Lemmas\<close>

lemma deps_satisfied_iff:
  "deps_satisfied g n \<longleftrightarrow> (\<forall>d \<in> set (tn_depends_on n). \<exists>m. get g d = Some m \<and> tn_status m = Done)"
  by (auto simp: deps_satisfied_def list_all_iff is_done_def split: option.splits)

lemma set_ready_nodes: "set (ready_nodes g) = {n \<in> set (tg_nodes g). is_ready g n}"
  by (simp add: ready_nodes_def)

lemma ready_nodes_sorted: "sorted (map schedule_key (ready_nodes g))"
  by (simp add: ready_nodes_def)

lemma distinct_ready_nodes: "distinct (ids g) \<Longrightarrow> distinct (map tn_id (ready_nodes g))"
proof -
  assume "distinct (ids g)"
  then have "inj_on tn_id (set (tg_nodes g))" "distinct (tg_nodes g)"
    by (simp_all add: distinct_map)
  then show ?thesis
    unfolding distinct_map ready_nodes_def by (auto intro: inj_on_subset)
qed

lemma dispatch_True:
  "dispatch g i w = (g', True) \<longleftrightarrow>
   (\<exists>n. get g i = Some n \<and> is_ready g n \<and> g' = get_mut g i (assign_to w))"
  by (auto simp: dispatch_def split: option.splits)

lemma dispatch_False: "dispatch g i w = (g', False) \<Longrightarrow> g' = g"
  by (auto simp: dispatch_def split: if_splits)

lemma set_upstream_done:
  "set (upstream_done g n) = {m. \<exists>d \<in> set (tn_depends_on n). get g d = Some m \<and> is_done m}"
  by (auto simp: upstream_done_def List.map_filter_def image_iff split: option.splits)

end
