(* ===== verification/Dag_Structure.thy ===== *)
theory Dag_Structure
  imports Dag_Schedule
begin

text \<open>
  The structural invariant of the engine's graphs and the abstract step that every operation
  implements. An operation rewrites nodes in place (identity fields kept, dependencies only added)
  and appends fresh queued nodes (\<open>grows\<close>); \<open>structure_ok\<close> is preserved by every such step that
  keeps the graph acyclic and hangs the fresh nodes under a composite, each audited by the one gate
  of its level. The operations are shown to be such steps in \<open>Dag_Steps\<close>.
\<close>

abbreviation nodes :: "task_graph \<Rightarrow> task_node set" where
  "nodes g \<equiv> set (tg_nodes g)"

abbreviation deep :: "task_graph \<Rightarrow> bool" where
  "deep g \<equiv> requires_gates (tg_mode g)"

lemma get_iff: "distinct (ids g) \<Longrightarrow> get g i = Some n \<longleftrightarrow> n \<in> nodes g \<and> tn_id n = i"
  using get_Some get_distinct by metis

lemma same_id: "distinct (ids g) \<Longrightarrow> m \<in> nodes g \<Longrightarrow> n \<in> nodes g \<Longrightarrow> tn_id m = tn_id n \<Longrightarrow> m = n"
  by (metis get_distinct option.inject)

section \<open>The invariant\<close>

definition work_ids :: "task_graph \<Rightarrow> string set" where
  "work_ids g = tn_id ` {n \<in> nodes g. \<not> tn_is_gate n}"

definition parents_ok :: "task_graph \<Rightarrow> bool" where
  "parents_ok g \<longleftrightarrow> (\<forall>n \<in> nodes g. \<forall>p. tn_parent n = Some p \<longrightarrow>
     (\<exists>q \<in> nodes g. tn_id q = p \<and> tn_expanded q \<and> \<not> tn_is_gate q \<and> tn_id n \<in> set (tn_depends_on q)))"

definition gates_ok :: "task_graph \<Rightarrow> bool" where
  "gates_ok g \<longleftrightarrow> (\<forall>n \<in> nodes g. tn_is_gate n \<longrightarrow>
     deep g \<and> \<not> tn_expanded n \<and> set (tn_depends_on n) \<subseteq> work_ids g)"

definition audited :: "task_graph \<Rightarrow> task_node \<Rightarrow> bool" where
  "audited g n \<longleftrightarrow>
     (\<exists>q \<in> nodes g. tn_is_gate q \<and> tn_parent q = tn_parent n \<and> tn_id n \<in> set (tn_depends_on q))"

definition one_gate :: "task_graph \<Rightarrow> bool" where
  "one_gate g \<longleftrightarrow> (\<forall>q \<in> nodes g. \<forall>r \<in> nodes g.
     tn_is_gate q \<longrightarrow> tn_is_gate r \<longrightarrow> tn_parent q = tn_parent r \<longrightarrow> q = r)"

definition structure_ok :: "task_graph \<Rightarrow> bool" where
  "structure_ok g \<longleftrightarrow>
     distinct (ids g) \<and>
     (\<forall>n \<in> nodes g. set (tn_depends_on n) \<subseteq> set (ids g)) \<and>
     acyclic (dep_edges g) \<and> parents_ok g \<and> gates_ok g \<and>
     (deep g \<longrightarrow> (\<forall>n \<in> nodes g. \<not> tn_is_gate n \<longrightarrow> audited g n)) \<and> one_gate g"

lemma structure_okD:
  assumes "structure_ok g"
  shows "distinct (ids g)"
    and "n \<in> nodes g \<Longrightarrow> set (tn_depends_on n) \<subseteq> set (ids g)"
    and "acyclic (dep_edges g)" and "parents_ok g" and "gates_ok g" and "one_gate g"
    and "deep g \<Longrightarrow> n \<in> nodes g \<Longrightarrow> \<not> tn_is_gate n \<Longrightarrow> audited g n"
  using assms by (auto simp: structure_ok_def)

lemma structure_ok_new: "structure_ok (graph_new m)"
  by (simp add: structure_ok_def graph_new_def dep_edges_def parents_ok_def gates_ok_def one_gate_def
      acyclic_def)

section \<open>The abstract step\<close>

definition keeps :: "task_node \<Rightarrow> task_node \<Rightarrow> bool" where
  "keeps n n' \<longleftrightarrow>
     tn_id n' = tn_id n \<and> tn_parent n' = tn_parent n \<and> tn_is_gate n' = tn_is_gate n \<and>
     tn_kind n' = tn_kind n \<and> tn_content n' = tn_content n \<and> tn_priority n' = tn_priority n \<and>
     tn_origin n' = tn_origin n \<and> set (tn_depends_on n) \<subseteq> set (tn_depends_on n') \<and>
     (tn_expanded n \<longrightarrow> tn_expanded n')"

definition fresh_node :: "task_node \<Rightarrow> bool" where
  "fresh_node m \<longleftrightarrow> tn_status m = Queued \<and> tn_owner m = None \<and> \<not> tn_expanded m \<and> tn_output m = None"

definition grows :: "task_graph \<Rightarrow> (task_node \<Rightarrow> task_node) \<Rightarrow> task_node list \<Rightarrow> task_graph \<Rightarrow> bool" where
  "grows g h news g' \<longleftrightarrow>
     tg_mode g' = tg_mode g \<and> tg_nodes g' = map h (tg_nodes g) @ news \<and>
     (\<forall>n \<in> nodes g. keeps n (h n)) \<and>
     distinct (map tn_id news) \<and> set (map tn_id news) \<inter> set (ids g) = {} \<and>
     (\<forall>m \<in> set news. fresh_node m)"

lemma keeps_refl [simp]: "keeps n n"
  by (simp add: keeps_def)

lemma keepsD:
  assumes "keeps n n'"
  shows "tn_id n' = tn_id n" "tn_parent n' = tn_parent n" "tn_is_gate n' = tn_is_gate n"
    "set (tn_depends_on n) \<subseteq> set (tn_depends_on n')" "tn_expanded n \<Longrightarrow> tn_expanded n'"
  using assms by (auto simp: keeps_def)

lemma growsD:
  assumes "grows g h news g'"
  shows "tg_mode g' = tg_mode g" and "tg_nodes g' = map h (tg_nodes g) @ news"
    and "n \<in> nodes g \<Longrightarrow> keeps n (h n)"
    and "distinct (map tn_id news)" and "set (map tn_id news) \<inter> set (ids g) = {}"
    and "m \<in> set news \<Longrightarrow> fresh_node m"
  using assms by (auto simp: grows_def)

lemma grows_nodes: "grows g h news g' \<Longrightarrow> nodes g' = h ` nodes g \<union> set news"
  by (simp add: grows_def)

lemma grows_ids: "grows g h news g' \<Longrightarrow> ids g' = ids g @ map tn_id news"
  by (auto simp: grows_def keeps_def)

lemma grows_cases:
  assumes "grows g h news g'" and "n' \<in> nodes g'"
  obtains n where "n \<in> nodes g" and "n' = h n" and "keeps n n'" | "n' \<in> set news" and "fresh_node n'"
  using assms by (auto simp: grows_def)

lemma grows_old: "grows g h news g' \<Longrightarrow> n \<in> nodes g \<Longrightarrow> h n \<in> nodes g' \<and> keeps n (h n)"
  by (auto simp: grows_def)

lemma grows_distinct: "grows g h news g' \<Longrightarrow> distinct (ids g) \<Longrightarrow> distinct (ids g')"
  using growsD(4,5) [of g h news g'] by (simp only: grows_ids distinct_append) blast

lemma grows_work_ids: "grows g h news g' \<Longrightarrow> work_ids g \<subseteq> work_ids g'"
proof
  fix i assume gr: "grows g h news g'" and "i \<in> work_ids g"
  then obtain n where "n \<in> nodes g" "\<not> tn_is_gate n" "i = tn_id n" by (auto simp: work_ids_def)
  with grows_old [OF gr] show "i \<in> work_ids g'"
    unfolding work_ids_def by (metis (mono_tags, lifting) image_eqI keepsD(1,3) mem_Collect_eq)
qed

lemma grows_get_old:
  assumes "grows g h news g'" and "distinct (ids g)" and "get g i = Some n"
  shows "get g' i = Some (h n)"
proof -
  from assms have n: "n \<in> nodes g" "tn_id n = i" by (auto dest: get_Some)
  with grows_old [OF assms(1)] have "h n \<in> nodes g'" "tn_id (h n) = i" by (simp_all add: keeps_def)
  with get_iff [OF grows_distinct [OF assms(1,2)]] show ?thesis by simp
qed

lemma grows_parents_ok:
  assumes gr: "grows g h news g'" and ok: "parents_ok g"
    and new: "\<And>m p. m \<in> set news \<Longrightarrow> tn_parent m = Some p \<Longrightarrow>
      \<exists>q \<in> nodes g. tn_id q = p \<and> \<not> tn_is_gate q \<and> tn_expanded (h q) \<and> tn_id m \<in> set (tn_depends_on (h q))"
  shows "parents_ok g'"
  unfolding parents_ok_def
proof (intro ballI allI impI)
  fix n' p assume n': "n' \<in> nodes g'" and p: "tn_parent n' = Some p"
  from gr n' show "\<exists>q \<in> nodes g'. tn_id q = p \<and> tn_expanded q \<and> \<not> tn_is_gate q \<and> tn_id n' \<in> set (tn_depends_on q)"
  proof (cases rule: grows_cases)
    case (1 n)
    then have "tn_parent n = Some p" "tn_id n = tn_id n'" using p by (simp_all add: keeps_def)
    with ok 1 obtain q where "q \<in> nodes g" "tn_id q = p" "tn_expanded q" "\<not> tn_is_gate q"
      "tn_id n' \<in> set (tn_depends_on q)"
      unfolding parents_ok_def by metis
    with grows_old [OF gr, of q] show ?thesis by (intro bexI [of _ "h q"]) (auto simp: keeps_def)
  next
    case 2
    from new [OF this(1) p] obtain q where q: "q \<in> nodes g" "tn_id q = p" "\<not> tn_is_gate q"
      "tn_expanded (h q)" "tn_id n' \<in> set (tn_depends_on (h q))"
      by blast
    with grows_old [OF gr q(1)] show ?thesis by (intro bexI [of _ "h q"]) (auto simp: keeps_def)
  qed
qed

lemma grows_gates_ok:
  assumes gr: "grows g h news g'" and ok: "gates_ok g"
    and old: "\<And>n. n \<in> nodes g \<Longrightarrow> tn_is_gate n \<Longrightarrow> tn_expanded (h n) = tn_expanded n \<and>
      set (tn_depends_on (h n)) \<subseteq> set (tn_depends_on n) \<union> work_ids g'"
    and new: "\<And>m. m \<in> set news \<Longrightarrow> tn_is_gate m \<Longrightarrow> deep g \<and> set (tn_depends_on m) \<subseteq> work_ids g'"
  shows "gates_ok g'"
  unfolding gates_ok_def
proof (intro ballI impI)
  fix n' assume n': "n' \<in> nodes g'" and gate: "tn_is_gate n'"
  note mode = growsD(1) [OF gr]
  from gr n' show "deep g' \<and> \<not> tn_expanded n' \<and> set (tn_depends_on n') \<subseteq> work_ids g'"
  proof (cases rule: grows_cases)
    case (1 n)
    then have "tn_is_gate n" using gate by (simp add: keeps_def)
    with ok old [OF 1(1)] 1 mode grows_work_ids [OF gr] show ?thesis
      unfolding gates_ok_def by fastforce
  next
    case 2
    with new [OF 2(1) gate] mode show ?thesis by (simp add: fresh_node_def)
  qed
qed

lemma grows_audited:
  assumes gr: "grows g h news g'" and "n \<in> nodes g" and "audited g n"
  shows "audited g' (h n)"
proof -
  from assms(3) obtain q where q: "q \<in> nodes g" "tn_is_gate q" "tn_parent q = tn_parent n"
    "tn_id n \<in> set (tn_depends_on q)"
    by (auto simp: audited_def)
  have "h q \<in> nodes g'" "keeps q (h q)" "keeps n (h n)" using grows_old [OF gr] q assms(2) by auto
  with q show ?thesis unfolding audited_def by (intro bexI [of _ "h q"]) (auto simp: keeps_def)
qed

lemma grows_one_gate:
  assumes gr: "grows g h news g'" and ok: "one_gate g"
    and old: "\<And>q r. q \<in> nodes g \<Longrightarrow> r \<in> set news \<Longrightarrow> tn_is_gate q \<Longrightarrow> tn_is_gate r \<Longrightarrow>
      tn_parent q \<noteq> tn_parent r"
    and new: "\<And>q r. q \<in> set news \<Longrightarrow> r \<in> set news \<Longrightarrow> tn_is_gate q \<Longrightarrow> tn_is_gate r \<Longrightarrow> q = r"
  shows "one_gate g'"
  unfolding one_gate_def
proof (intro ballI impI)
  fix q r assume q: "q \<in> nodes g'" and r: "r \<in> nodes g'"
    and gates: "tn_is_gate q" "tn_is_gate r" and par: "tn_parent q = tn_parent r"
  from gr q show "q = r"
  proof (cases rule: grows_cases)
    case (1 n)
    note n = this
    from gr r show ?thesis
    proof (cases rule: grows_cases)
      case (1 m)
      with n gates par have "tn_is_gate n" "tn_is_gate m" "tn_parent n = tn_parent m"
        by (metis keepsD(3) keepsD(2))+
      then have "n = m" using ok n(1) 1(1) unfolding one_gate_def by blast
      then show ?thesis using n(2) 1(2) by blast
    next
      case 2
      with n old gates par show ?thesis by (metis keepsD(2,3))
    qed
  next
    case 2
    note q = this
    from gr r show ?thesis
    proof (cases rule: grows_cases)
      case (1 m)
      with q old gates par show ?thesis by (metis keepsD(2,3))
    next
      case 2
      with q new gates show ?thesis by blast
    qed
  qed
qed

text \<open>One rule for every operation.\<close>

lemma structure_ok_grows:
  assumes ok: "structure_ok g" and gr: "grows g h news g'" and acy: "acyclic (dep_edges g')"
    and old_deps: "\<And>n. n \<in> nodes g \<Longrightarrow> set (tn_depends_on (h n)) \<subseteq> set (ids g')"
    and new_deps: "\<And>m. m \<in> set news \<Longrightarrow> set (tn_depends_on m) \<subseteq> set (ids g')"
    and new_parent: "\<And>m p. m \<in> set news \<Longrightarrow> tn_parent m = Some p \<Longrightarrow>
      \<exists>q \<in> nodes g. tn_id q = p \<and> \<not> tn_is_gate q \<and> tn_expanded (h q) \<and> tn_id m \<in> set (tn_depends_on (h q))"
    and old_gate: "\<And>n. n \<in> nodes g \<Longrightarrow> tn_is_gate n \<Longrightarrow> tn_expanded (h n) = tn_expanded n \<and>
      set (tn_depends_on (h n)) \<subseteq> set (tn_depends_on n) \<union> work_ids g'"
    and new_gate: "\<And>m. m \<in> set news \<Longrightarrow> tn_is_gate m \<Longrightarrow> deep g \<and> set (tn_depends_on m) \<subseteq> work_ids g'"
    and new_audit: "\<And>m. deep g \<Longrightarrow> m \<in> set news \<Longrightarrow> \<not> tn_is_gate m \<Longrightarrow> audited g' m"
    and gate_level: "\<And>q r. q \<in> nodes g \<Longrightarrow> r \<in> set news \<Longrightarrow> tn_is_gate q \<Longrightarrow> tn_is_gate r \<Longrightarrow>
      tn_parent q \<noteq> tn_parent r"
    and gate_once: "\<And>q r. q \<in> set news \<Longrightarrow> r \<in> set news \<Longrightarrow> tn_is_gate q \<Longrightarrow> tn_is_gate r \<Longrightarrow> q = r"
  shows "structure_ok g'"
  unfolding structure_ok_def
proof (intro conjI impI ballI)
  show "distinct (ids g')" using structure_okD(1) [OF ok] by (rule grows_distinct [OF gr])
  show "acyclic (dep_edges g')" by (rule acy)
  show "parents_ok g'" by (rule grows_parents_ok [OF gr structure_okD(4) [OF ok] new_parent])
  show "gates_ok g'" by (rule grows_gates_ok [OF gr structure_okD(5) [OF ok] old_gate new_gate])
  show "one_gate g'" by (rule grows_one_gate [OF gr structure_okD(6) [OF ok] gate_level gate_once])
next
  fix n' assume n': "n' \<in> nodes g'"
  with gr show "set (tn_depends_on n') \<subseteq> set (ids g')"
    by (cases rule: grows_cases) (use old_deps new_deps in auto)
next
  fix n' assume d: "deep g'" and n': "n' \<in> nodes g'" and w: "\<not> tn_is_gate n'"
  from d gr have d: "deep g" by (simp add: grows_def)
  from gr n' show "audited g' n'"
  proof (cases rule: grows_cases)
    case (1 n)
    with w have "\<not> tn_is_gate n" by (simp add: keeps_def)
    with structure_okD(7) [OF ok d] 1 grows_audited [OF gr] show ?thesis by blast
  next
    case 2
    with new_audit d w show ?thesis by blast
  qed
qed

text \<open>The special case of the operations that add neither nodes nor dependencies.\<close>

lemma dep_edges_cong:
  assumes "tg_nodes g' = map h (tg_nodes g)"
    and "\<And>n. n \<in> nodes g \<Longrightarrow> tn_id (h n) = tn_id n \<and> tn_depends_on (h n) = tn_depends_on n"
  shows "dep_edges g' = dep_edges g"
proof -
  have ns: "nodes g' = h ` nodes g" using assms(1) by simp
  have "ids g' = ids g" using assms by simp
  then show ?thesis using assms(2) unfolding dep_edges_def ns by (auto; metis image_eqI)
qed

lemma structure_ok_same_deps:
  assumes ok: "structure_ok g" and gr: "grows g h [] g'"
    and same: "\<And>n. n \<in> nodes g \<Longrightarrow> tn_depends_on (h n) = tn_depends_on n \<and> tn_expanded (h n) = tn_expanded n"
  shows "structure_ok g'"
proof (rule structure_ok_grows [OF ok gr])
  have "dep_edges g' = dep_edges g"
    using growsD(2,3) [OF gr] same by (intro dep_edges_cong [of _ h]) (auto simp: keeps_def)
  then show "acyclic (dep_edges g')" using structure_okD(3) [OF ok] by simp
  show "\<And>n. n \<in> nodes g \<Longrightarrow> set (tn_depends_on (h n)) \<subseteq> set (ids g')"
    using structure_okD(2) [OF ok] same by (simp add: grows_ids [OF gr])
qed (use same in auto)

section \<open>What the structure gives\<close>

lemma dep_edgeI: "n \<in> nodes g \<Longrightarrow> d \<in> set (tn_depends_on n) \<Longrightarrow> d \<in> set (ids g) \<Longrightarrow> (d, tn_id n) \<in> dep_edges g"
  by (auto simp: dep_edges_def)

lemma parent_edge:
  assumes "structure_ok g" and "n \<in> nodes g" and "tn_parent n = Some p"
  obtains q where "q \<in> nodes g" and "tn_id q = p" and "tn_expanded q" and "\<not> tn_is_gate q"
    and "(tn_id n, tn_id q) \<in> dep_edges g" and "tn_id n \<in> set (tn_depends_on q)"
  using structure_okD(4) [OF assms(1)] assms(2,3) unfolding parents_ok_def
  by (metis dep_edgeI image_eqI list.set_map)

lemma work_below_root_gate:
  assumes ok: "structure_ok g" and d: "deep g"
    and r: "r \<in> nodes g" "is_root_gate r"
  shows "n \<in> nodes g \<Longrightarrow> \<not> tn_is_gate n \<Longrightarrow> (tn_id n, tn_id r) \<in> (dep_edges g)\<^sup>+"
proof -
  have wf: "wf ((dep_edges g)\<inverse>)"
    using structure_okD(3) [OF ok] dep_edges_finite by (rule finite_acyclic_wf_converse [rotated])
  have "\<forall>n \<in> nodes g. tn_id n = i \<longrightarrow> \<not> tn_is_gate n \<longrightarrow> (i, tn_id r) \<in> (dep_edges g)\<^sup>+" for i
  proof (induction i rule: wf_induct_rule [OF wf])
    case (1 i)
    show ?case
    proof (intro ballI impI)
      fix n assume n: "n \<in> nodes g" "tn_id n = i" "\<not> tn_is_gate n"
      show "(i, tn_id r) \<in> (dep_edges g)\<^sup>+"
      proof (cases "tn_parent n")
        case None
        from structure_okD(7) [OF ok d n(1,3)] obtain q where q: "q \<in> nodes g" "tn_is_gate q"
          "tn_parent q = None" "i \<in> set (tn_depends_on q)"
          using None n by (auto simp: audited_def)
        then have "q = r" using structure_okD(6) [OF ok] r by (auto simp: one_gate_def is_root_gate_def)
        then have "(i, tn_id r) \<in> dep_edges g" using q n by (auto intro: dep_edgeI)
        then show ?thesis ..
      next
        case (Some p)
        from ok n(1) Some obtain q where q: "q \<in> nodes g" "\<not> tn_is_gate q" "(tn_id n, tn_id q) \<in> dep_edges g"
          by (rule parent_edge)
        with 1 n have "(tn_id q, tn_id r) \<in> (dep_edges g)\<^sup>+" by simp
        with q n show ?thesis by (metis trancl_into_trancl2)
      qed
    qed
  qed
  then show "n \<in> nodes g \<Longrightarrow> \<not> tn_is_gate n \<Longrightarrow> (tn_id n, tn_id r) \<in> (dep_edges g)\<^sup>+" by blast
qed

lemma gate_dep_work:
  "structure_ok g \<Longrightarrow> n \<in> nodes g \<Longrightarrow> tn_is_gate n \<Longrightarrow> m \<in> nodes g \<Longrightarrow>
   tn_id m \<in> set (tn_depends_on n) \<Longrightarrow> \<not> tn_is_gate m"
proof -
  assume ok: "structure_ok g" and n: "n \<in> nodes g" "tn_is_gate n" and m: "m \<in> nodes g"
    and dep: "tn_id m \<in> set (tn_depends_on n)"
  have "tn_id m \<in> work_ids g"
    using structure_okD(5) [OF ok] n dep by (auto simp: gates_ok_def)
  then obtain m' where "m' \<in> nodes g" "tn_id m' = tn_id m" "\<not> tn_is_gate m'" by (auto simp: work_ids_def)
  then show "\<not> tn_is_gate m" using same_id [OF structure_okD(1) [OF ok]] m by metis
qed

lemma no_dep_on_root_gate:
  assumes ok: "structure_ok g" and n: "n \<in> nodes g" and r: "r \<in> nodes g" "is_root_gate r"
  shows "tn_id r \<notin> set (tn_depends_on n)"
proof
  assume dep: "tn_id r \<in> set (tn_depends_on n)"
  have d: "deep g" using structure_okD(5) [OF ok] r by (auto simp: gates_ok_def is_root_gate_def)
  have "\<not> tn_is_gate n" using gate_dep_work [OF ok n _ r(1) dep] r(2) by (auto simp: is_root_gate_def)
  then have "(tn_id n, tn_id r) \<in> (dep_edges g)\<^sup>+" using work_below_root_gate [OF ok d r n] by simp
  moreover have "(tn_id r, tn_id n) \<in> dep_edges g" using n r dep by (auto intro: dep_edgeI)
  ultimately have "(tn_id r, tn_id r) \<in> (dep_edges g)\<^sup>+" by (metis trancl_into_trancl2)
  with structure_okD(3) [OF ok] show False by (simp add: acyclic_def)
qed

end
