(* ===== verification/Dag_Steps.thy ===== *)
theory Dag_Steps
  imports Dag_Structure
begin

text \<open>
  Every successful operation of \<open>ops.rs\<close> and \<open>schedule.rs\<close> written as an abstract step: what it
  checked, the in-place rewrite of the old nodes and the list of nodes it appended; and with it the
  preservation of the structural invariant, operation by operation.
\<close>

section \<open>In-place updates\<close>

definition at_id :: "string \<Rightarrow> (task_node \<Rightarrow> task_node) \<Rightarrow> task_node \<Rightarrow> task_node" where
  "at_id i f n = (if tn_id n = i then f n else n)"

lemma at_id_simps [simp]: "at_id (tn_id n) f n = f n" "tn_id n \<noteq> i \<Longrightarrow> at_id i f n = n"
  by (simp_all add: at_id_def)

lemma update_first_append:
  "find P xs \<noteq> None \<Longrightarrow> update_first P f (xs @ ys) = update_first P f xs @ ys"
  by (induction xs) auto

lemma get_mut_grown:
  assumes "distinct (ids g)" and "tg_nodes g1 = map h (tg_nodes g) @ news"
    and "\<And>n. tn_id (h n) = tn_id n" and "i \<in> set (ids g)"
  shows "tg_nodes (get_mut g1 i f) = map (\<lambda>n. at_id i f (h n)) (tg_nodes g) @ news"
proof -
  let ?old = "map h (tg_nodes g)"
  have ids: "map tn_id ?old = ids g" using assms(3) by simp
  have "find (\<lambda>n. tn_id n = i) ?old \<noteq> None"
    using assms(4) unfolding find_key_None ids [symmetric] by (simp add: image_image)
  moreover have "update_first (\<lambda>n. tn_id n = i) f ?old = map (at_id i f) ?old"
    using assms(1) update_first_distinct [of tn_id ?old i f] unfolding ids
    by (simp add: at_id_def [abs_def])
  ultimately show ?thesis
    unfolding get_mut_def using assms(2) by (simp add: update_first_append comp_def)
qed

lemma get_mut_nodes:
  "distinct (ids g) \<Longrightarrow> tg_nodes (get_mut g i f) = map (at_id i f) (tg_nodes g)"
  unfolding at_id_def [abs_def] by (rule nodes_get_mut)

text \<open>An update of one node that keeps its identity is a step with nothing appended.\<close>

lemma grows_get_mut:
  assumes "distinct (ids g)" and "\<And>n. n \<in> nodes g \<Longrightarrow> tn_id n = i \<Longrightarrow> keeps n (f n)"
  shows "grows g (at_id i f) [] (get_mut g i f)"
  using assms by (auto simp: grows_def get_mut_nodes at_id_def)

lemma structure_ok_get_mut:
  assumes "structure_ok g" and "\<And>n. keeps n (f n)"
    and "\<And>n. tn_depends_on (f n) = tn_depends_on n \<and> tn_expanded (f n) = tn_expanded n"
  shows "structure_ok (get_mut g i f)"
  using assms by (intro structure_ok_same_deps [OF assms(1) grows_get_mut [OF structure_okD(1)]])
    (auto simp: at_id_def)

section \<open>The checks on specs\<close>

abbreviation spec_id :: "node_spec \<Rightarrow> string" where
  "spec_id s \<equiv> the_default [] (ns_id s)"

lemma validated_spec_id_Inr:
  "validated_spec_id spec op = Inr i \<longleftrightarrow> ns_id spec = Some i \<and> trim i \<noteq> []"
  by (auto simp: validated_spec_id_def split: option.splits)

lemma validate_new_ids_Inr:
  "validate_new_ids g op seen specs = Inr is \<Longrightarrow>
   is = map spec_id specs \<and> distinct is \<and> set is \<inter> set (ids g) = {} \<and> set is \<inter> seen = {} \<and>
   (\<forall>s \<in> set specs. \<exists>i. ns_id s = Some i \<and> trim i \<noteq> [])"
proof (induction g op seen specs arbitrary: "is" rule: validate_new_ids.induct)
  case (2 g op seen spec specs)
  from "2.prems" obtain i js where i: "ns_id spec = Some i" "trim i \<noteq> []"
    "\<not> (contains g i \<or> i \<in> seen)" "validate_new_ids g op (insert i seen) specs = Inr js" "is = i # js"
    by (auto simp: ok_or_return_Inr_iff validated_spec_id_Inr split: if_splits)
  from "2.IH" [OF i(3,4)] have "js = map spec_id specs \<and> distinct js \<and>
      set js \<inter> set (ids g) = {} \<and> set js \<inter> insert i seen = {} \<and>
      (\<forall>s \<in> set specs. \<exists>i. ns_id s = Some i \<and> trim i \<noteq> [])" .
  moreover have "i \<notin> set (ids g)" "i \<notin> seen" using i(3) by (simp_all add: contains_iff)
  moreover have "spec_id spec = i" using i(1) by simp
  ultimately show ?case unfolding i(5) using i(1,2)
    by (simp only: list.set list.map distinct.simps) blast
qed simp

lemma check_dependencies_Inr:
  "check_dependencies known specs = Inr u \<longleftrightarrow>
   (\<forall>s \<in> set specs. \<forall>d \<in> set (ns_depends_on s). known d)"
  by (induction known specs rule: check_dependencies.induct)
    (auto simp: find_None_iff find_Some_iff dest: nth_mem split: option.splits)

lemma check_acyclic_Inr: "check_acyclic g = Inr u \<longleftrightarrow> acyclic (dep_edges g)"
  by (simp add: check_acyclic_def cycle_nodes_Nil_iff)

lemma spec_to_node_fields [simp]:
  "tn_id (spec_to_node s p orig) = spec_id s" "tn_parent (spec_to_node s p orig) = p"
  "set (tn_depends_on (spec_to_node s p orig)) = set (ns_depends_on s)"
  "\<not> tn_is_gate (spec_to_node s p orig)" "fresh_node (spec_to_node s p orig)"
  "tn_origin (spec_to_node s p orig) = Some orig" "tn_content (spec_to_node s p orig) = ns_content s"
  "tn_kind (spec_to_node s p orig) = ns_kind s" "tn_priority (spec_to_node s p orig) = ns_priority s"
  by (simp_all add: spec_to_node_def fresh_node_def)

lemma new_gate_fields [simp]:
  "tn_id (new_gate i c k p ds) = i" "tn_parent (new_gate i c k p ds) = p"
  "tn_depends_on (new_gate i c k p ds) = ds" "tn_is_gate (new_gate i c k p ds)"
  "fresh_node (new_gate i c k p ds)"
  by (simp_all add: new_gate_def fresh_node_def)

lemma numbered_gate_id_fresh: "\<not> contains g (numbered_gate_id g base n)"
  by (induction g base n rule: numbered_gate_id.induct)
    (subst numbered_gate_id.simps, simp add: Let_def)

lemma unique_gate_id_fresh: "unique_gate_id g i \<notin> set (ids g)"
  using numbered_gate_id_fresh by (simp add: unique_gate_id_def Let_def contains_iff)

lemma keeps_make_composite: "keeps n (make_composite ds n)"
  by (simp add: keeps_def make_composite_def)

lemma keeps_requeue_gate: "keeps n (requeue_gate ds n)"
  by (simp add: keeps_def requeue_gate_def)

lemma keeps_add_deps: "keeps n (add_deps ds n)"
  by (simp add: keeps_def add_deps_def)

lemma keeps_widen_gate: "keeps n (widen_gate ds n)"
  by (simp add: keeps_def widen_gate_def Let_def)

section \<open>Dispatch, completion, failure, retry\<close>

lemma structure_ok_dispatch: "structure_ok g \<Longrightarrow> structure_ok (fst (dispatch g i w))"
  by (auto simp: dispatch_def assign_to_def keeps_def intro!: structure_ok_get_mut)

definition finish_with :: "handoff_artifact \<Rightarrow> task_node \<Rightarrow> task_node" where
  "finish_with a n = n\<lparr>tn_status := Done, tn_output := Some a\<rparr>"

definition set_failed :: "task_node \<Rightarrow> task_node" where
  "set_failed n = n\<lparr>tn_status := Failed\<rparr>"

definition set_queued :: "task_node \<Rightarrow> task_node" where
  "set_queued n = n\<lparr>tn_status := Queued, tn_owner := None\<rparr>"

lemma lookup_Inr: "lookup g i = Inr n \<longleftrightarrow> get g i = Some n"
  by (auto simp: lookup_def split: option.splits)

lemma complete_staged_Inr:
  "complete_staged g i actor a = Inr (g', u) \<longleftrightarrow>
   (\<exists>n. get g i = Some n \<and> tn_owner n = Some actor \<and> tn_status n = Running \<and>
      validate_artifact (tg_mode g) i (tn_is_gate n) a = Inr () \<and>
      (tn_is_gate n \<and> deep g \<longrightarrow> validate_gate_pass g i a = Inr ()) \<and>
      g' = get_mut g i (finish_with a))"
  unfolding complete_staged_def ok_or_return_Inr_iff check_owner_def lookup_Inr finish_with_def [abs_def]
  by auto

lemma fail_staged_Inr:
  "fail_staged g i actor = Inr (g', u) \<longleftrightarrow>
   (\<exists>n. get g i = Some n \<and> tn_owner n = Some actor \<and> tn_status n = Running \<and>
      g' = get_mut g i set_failed)"
  unfolding fail_staged_def ok_or_return_Inr_iff check_owner_def lookup_Inr set_failed_def [abs_def]
  by auto

lemma requeue_staged_Inr:
  "requeue_staged g i = Inr (g', u) \<longleftrightarrow>
   (\<exists>n. get g i = Some n \<and> tn_status n = Failed \<and> g' = get_mut g i set_queued)"
  unfolding requeue_staged_def ok_or_return_Inr_iff lookup_Inr set_queued_def [abs_def] by auto

lemma structure_ok_node_update:
  "structure_ok g \<Longrightarrow> structure_ok (get_mut g i (finish_with a))"
  "structure_ok g \<Longrightarrow> structure_ok (get_mut g i set_failed)"
  "structure_ok g \<Longrightarrow> structure_ok (get_mut g i set_queued)"
  by (auto simp: finish_with_def set_failed_def set_queued_def keeps_def intro!: structure_ok_get_mut)

section \<open>Expansion\<close>

definition child_nodes :: "string option \<Rightarrow> node_origin \<Rightarrow> node_spec list \<Rightarrow> task_node list" where
  "child_nodes p orig specs = map (\<lambda>s. spec_to_node s p orig) specs"

lemma ids_child_nodes [simp]: "map tn_id (child_nodes p orig specs) = map spec_id specs"
  by (simp add: child_nodes_def)

lemma image_id_child_nodes [simp]: "tn_id ` set (child_nodes p orig specs) = spec_id ` set specs"
  by (metis ids_child_nodes list.set_map)

lemma child_nodesD:
  assumes "m \<in> set (child_nodes p orig specs)"
  shows "\<not> tn_is_gate m" and "tn_parent m = p" and "fresh_node m" and "tn_origin m = Some orig"
    and "tn_id m \<in> spec_id ` set specs"
    and "\<exists>s \<in> set specs. set (tn_depends_on m) = set (ns_depends_on s)"
  using assms by (auto simp: child_nodes_def)

definition expand_gates :: "task_graph \<Rightarrow> task_node \<Rightarrow> node_spec list \<Rightarrow> task_node list" where
  "expand_gates g n children =
     (if deep g
      then [new_gate (unique_gate_id (push_all g (child_nodes (Some (tn_id n)) OriginExpand children)) (tn_id n))
              (gate_content (gate_kind (tn_kind n)) (tn_id n)) (gate_kind (tn_kind n)) (Some (tn_id n))
              (map spec_id children)]
      else [])"

lemma push_all_simps [simp]:
  "tg_mode (push_all g ns) = tg_mode g" "tg_nodes (push_all g ns) = tg_nodes g @ ns"
  by (simp_all add: push_all_def)

lemma expand_staged_Inr:
  assumes ok: "structure_ok g" and res: "expand_staged g i actor children = Inr (g', out)"
  obtains n where "get g i = Some n" and "tn_owner n = Some actor" and "\<not> tn_is_gate n"
    and "\<not> tn_expanded n" and "tn_status n = Running" and "children \<noteq> []"
    and "\<forall>s \<in> set children. \<exists>j. ns_id s = Some j \<and> trim j \<noteq> []"
    and "distinct (map spec_id children)" and "set (map spec_id children) \<inter> set (ids g) = {}"
    and "\<forall>s \<in> set children. set (ns_depends_on s) \<subseteq> set (map spec_id children) \<union> set (ids g)"
    and "tg_mode g' = tg_mode g"
    and "tg_nodes g' =
      map (at_id i (make_composite (map spec_id children @ map tn_id (expand_gates g n children)))) (tg_nodes g) @
        child_nodes (Some i) OriginExpand children @ expand_gates g n children"
    and "acyclic (dep_edges g')"
    and "eo_child_ids out = map spec_id children"
    and "eo_gate_id out = (if deep g then Some (tn_id (hd (expand_gates g n children))) else None)"
proof -
  from res obtain n cids u where n: "get g i = Some n" "tn_owner n = Some actor" "\<not> tn_is_gate n"
      "\<not> (tn_expanded n \<or> tn_status n \<noteq> Running)" "children \<noteq> []"
    and v: "validate_new_ids g ''expand'' {} children = Inr cids"
    and c: "check_dependencies (\<lambda>d. d \<in> set cids \<or> contains g d) children = Inr u"
    and rest: "(case expand_build g i (tn_kind n) children cids of (staged, gate_id) \<Rightarrow>
       ok_or_return (check_acyclic staged) (\<lambda>_.
         Inr (staged, \<lparr>eo_child_ids = cids, eo_gate_id = gate_id\<rparr>))) = Inr (g', out)"
    unfolding expand_staged_def ok_or_return_Inr_iff check_owner_def lookup_Inr check_or_Inr_iff
    by blast
  have i: "tn_id n = i" "i \<in> set (ids g)" using n(1) get_None_iff by (auto dest: get_Some)
  note v' = validate_new_ids_Inr [OF v]
  have cids: "cids = map spec_id children" using v' by simp
  let ?gates = "expand_gates g n children"
  let ?staged = "push_all g (child_nodes (Some i) OriginExpand children @ ?gates)"
  let ?f = "make_composite (cids @ map tn_id ?gates)"
  from rest have g': "g' = get_mut ?staged i ?f" and acy: "acyclic (dep_edges g')"
    and out: "out = \<lparr>eo_child_ids = cids, eo_gate_id = (if deep g then Some (tn_id (hd ?gates)) else None)\<rparr>"
    unfolding Let_def expand_gates_def child_nodes_def cids i(1) expand_build_def
    by (auto simp: ok_or_return_Inr_iff check_acyclic_Inr push_all_def push_def split: if_splits)
  have nodes: "tg_nodes g' = map (at_id i ?f) (tg_nodes g) @ child_nodes (Some i) OriginExpand children @ ?gates"
    unfolding g' using get_mut_grown [OF structure_okD(1) [OF ok], of ?staged id _ i ?f] i by simp
  show thesis
    by (rule that [OF n(1,2,3)])
      (use n v' c nodes acy out g' in \<open>auto simp: cids check_dependencies_Inr contains_iff\<close>)
qed

lemma work_ids_child:
  assumes "set (child_nodes p orig specs) \<subseteq> nodes g"
  shows "set (map spec_id specs) \<subseteq> work_ids g"
proof
  fix i assume "i \<in> set (map spec_id specs)"
  then obtain s where "s \<in> set specs" "i = spec_id s" by auto
  moreover from this assms have "spec_to_node s p orig \<in> nodes g" by (auto simp: child_nodes_def)
  ultimately show "i \<in> work_ids g" unfolding work_ids_def by (intro image_eqI [of _ _ "spec_to_node s p orig"]) auto
qed

lemma structure_ok_expand:
  assumes ok: "structure_ok g" and res: "expand_staged g i actor children = Inr (g', out)"
  shows "structure_ok g'"
    and "\<exists>n. get g i = Some n \<and> grows g (at_id i (make_composite (map spec_id children @ map tn_id (expand_gates g n children))))
      (child_nodes (Some i) OriginExpand children @ expand_gates g n children) g'"
proof -
  from ok res obtain n where n: "get g i = Some n" "\<not> tn_is_gate n" "\<not> tn_expanded n" "children \<noteq> []"
    and dist: "distinct (map spec_id children)" "set (map spec_id children) \<inter> set (ids g) = {}"
    and deps: "\<forall>s \<in> set children. set (ns_depends_on s) \<subseteq> set (map spec_id children) \<union> set (ids g)"
    and g': "tg_mode g' = tg_mode g" "tg_nodes g' =
      map (at_id i (make_composite (map spec_id children @ map tn_id (expand_gates g n children)))) (tg_nodes g) @
        child_nodes (Some i) OriginExpand children @ expand_gates g n children"
    and acy: "acyclic (dep_edges g')"
    by (rule expand_staged_Inr)
  let ?cs = "child_nodes (Some i) OriginExpand children"
  let ?gs = "expand_gates g n children"
  let ?h = "at_id i (make_composite (map spec_id children @ map tn_id ?gs))"
  have ni: "n \<in> nodes g" "tn_id n = i" using n(1) by (auto dest: get_Some)
  have gate: "tn_is_gate m \<and> tn_parent m = Some i \<and> tn_depends_on m = map spec_id children \<and> fresh_node m \<and> deep g
      \<and> tn_id m \<notin> set (ids g) \<union> set (map spec_id children)" if "m \<in> set ?gs" for m
    using that unique_gate_id_fresh [of "push_all g (child_nodes (Some i) OriginExpand children)" i] ni(2)
    by (auto simp: expand_gates_def image_Un image_image child_nodes_def split: if_splits)
  have gr: "grows g ?h (?cs @ ?gs) g'"
    unfolding grows_def
  proof (intro conjI ballI)
    show "distinct (map tn_id (?cs @ ?gs))"
      unfolding map_append ids_child_nodes using dist(1) gate by (auto simp: expand_gates_def)
    show "set (map tn_id (?cs @ ?gs)) \<inter> set (ids g) = {}"
    proof -
      have "set (map tn_id ?gs) \<inter> set (ids g) = {}" using gate by fastforce
      then show ?thesis unfolding map_append ids_child_nodes set_append using dist(2) by blast
    qed
  qed (use g' gate in \<open>auto simp: at_id_def keeps_make_composite dest: child_nodesD\<close>)
  then show "\<exists>n. get g i = Some n \<and> grows g (at_id i (make_composite (map spec_id children @ map tn_id (expand_gates g n children))))
      (child_nodes (Some i) OriginExpand children @ expand_gates g n children) g'"
    using n(1) by blast
  note ids' = grows_ids [OF gr]
  have work: "set (map spec_id children) \<subseteq> work_ids g'"
    by (rule work_ids_child [of "Some i" OriginExpand]) (use g'(2) in auto)
  have hn: "set (tn_depends_on (?h n)) = set (tn_depends_on n) \<union> set (map tn_id (?cs @ ?gs))" "tn_expanded (?h n)"
    using ni by (simp_all add: at_id_def make_composite_def Un_assoc)
  have at: "?h m = m" if "m \<in> nodes g" "m \<noteq> n" for m
    using that ni same_id [OF structure_okD(1) [OF ok]] by (metis at_id_simps(2))
  show "structure_ok g'"
  proof (rule structure_ok_grows [OF ok gr acy])
    fix m assume m: "m \<in> nodes g"
    show "set (tn_depends_on (?h m)) \<subseteq> set (ids g')"
    proof (cases "m = n")
      case True
      then show ?thesis unfolding True hn(1) ids' using structure_okD(2) [OF ok ni(1)] by auto
    qed (use at m structure_okD(2) [OF ok m] in \<open>simp add: ids' le_supI1\<close>)
  next
    fix m assume m: "m \<in> set (?cs @ ?gs)"
    then show "set (tn_depends_on m) \<subseteq> set (ids g')"
    proof (cases "m \<in> set ?gs")
      case True
      with gate show ?thesis by (auto simp: ids')
    next
      case False
      with m obtain s where "s \<in> set children" "set (tn_depends_on m) = set (ns_depends_on s)"
        by (auto dest: child_nodesD)
      with deps show ?thesis by (auto simp: ids')
    qed
  next
    fix m p assume m: "m \<in> set (?cs @ ?gs)" and "tn_parent m = Some p"
    then have "p = i" using gate by (auto dest: child_nodesD)
    with m ni n hn show "\<exists>q \<in> nodes g. tn_id q = p \<and> \<not> tn_is_gate q \<and> tn_expanded (?h q) \<and> tn_id m \<in> set (tn_depends_on (?h q))"
      by (intro bexI [of _ n]) (auto dest: child_nodesD(5))
  next
    fix m assume "m \<in> nodes g" "tn_is_gate m"
    then show "tn_expanded (?h m) = tn_expanded m \<and> set (tn_depends_on (?h m)) \<subseteq> set (tn_depends_on m) \<union> work_ids g'"
      using at n(2) by (cases "m = n") auto
  next
    fix m assume "m \<in> set (?cs @ ?gs)" "tn_is_gate m"
    then show "deep g \<and> set (tn_depends_on m) \<subseteq> work_ids g'" using gate work by (auto dest: child_nodesD)
  next
    fix m assume "deep g" and m: "m \<in> set (?cs @ ?gs)" "\<not> tn_is_gate m"
    then obtain q where "q \<in> set ?gs" by (auto simp: expand_gates_def)
    moreover have "tn_parent m = Some i" "tn_id m \<in> set (map spec_id children)"
      using m gate by (auto dest: child_nodesD)
    ultimately show "audited g' m" using gate g' unfolding audited_def by (intro bexI [of _ q]) auto
  next
    fix q r assume q: "q \<in> nodes g" and r: "r \<in> set (?cs @ ?gs)" "tn_is_gate r"
    have "tn_parent r = Some i" using r gate by (auto dest: child_nodesD)
    moreover have "tn_parent q \<noteq> Some i"
      using parent_edge [OF ok q] n(3) ni same_id [OF structure_okD(1) [OF ok]] by metis
    ultimately show "tn_parent q \<noteq> tn_parent r" by simp
  next
    fix q r assume "q \<in> set (?cs @ ?gs)" "r \<in> set (?cs @ ?gs)" "tn_is_gate q" "tn_is_gate r"
    then have "q \<in> set ?gs" "r \<in> set ?gs" by (auto dest: child_nodesD)
    then show "q = r" by (auto simp: expand_gates_def split: if_splits)
  qed
qed

section \<open>Injection\<close>

definition inject_rewrite :: "string \<Rightarrow> string option \<Rightarrow> string list \<Rightarrow> task_node \<Rightarrow> task_node" where
  "inject_rewrite gid parent new_ids n =
     (case parent of None \<Rightarrow> at_id gid (requeue_gate new_ids) n
      | Some p \<Rightarrow> at_id p (add_deps new_ids) (at_id gid (requeue_gate new_ids) n))"

lemma inject_staged_Inr:
  assumes ok: "structure_ok g" and res: "inject_staged g gid actor specs = Inr (g', out)"
  obtains gate where "get g gid = Some gate" and "tn_owner gate = Some actor" and "tn_is_gate gate"
    and "tn_status gate = Running" and "specs \<noteq> []" and "out = map spec_id specs"
    and "\<forall>s \<in> set specs. \<exists>j. ns_id s = Some j \<and> trim j \<noteq> []"
    and "distinct (map spec_id specs)" and "set (map spec_id specs) \<inter> set (ids g) = {}"
    and "\<forall>s \<in> set specs. set (ns_depends_on s) \<subseteq> set (map spec_id specs) \<union> set (ids g)"
    and "tg_mode g' = tg_mode g"
    and "tg_nodes g' = map (inject_rewrite gid (tn_parent gate) (map spec_id specs)) (tg_nodes g) @
        child_nodes (tn_parent gate) OriginGap specs"
    and "acyclic (dep_edges g')"
proof -
  from res obtain gate nids u where n: "get g gid = Some gate" "tn_owner gate = Some actor" "tn_is_gate gate"
      "tn_status gate = Running" "specs \<noteq> []"
    and v: "validate_new_ids g ''inject_from_gate'' {} specs = Inr nids"
    and c: "check_dependencies (\<lambda>d. d \<in> set nids \<or> contains g d) specs = Inr u"
    and rest: "(let staged = inject_build g gid (tn_parent gate) specs nids
       in ok_or_return (check_acyclic staged) (\<lambda>_. Inr (staged, nids))) = Inr (g', out)"
    unfolding inject_staged_def ok_or_return_Inr_iff check_owner_def lookup_Inr check_or_Inr_iff
    by blast
  have gid: "gate \<in> nodes g" "tn_id gate = gid" "gid \<in> set (ids g)"
    using n(1) get_None_iff by (auto dest: get_Some)
  note v' = validate_new_ids_Inr [OF v]
  have nids: "nids = map spec_id specs" using v' by simp
  from rest have g': "g' = inject_build g gid (tn_parent gate) specs nids"
    and acy: "acyclic (dep_edges g')" and out: "out = nids"
    by (auto simp: Let_def ok_or_return_Inr_iff check_acyclic_Inr)
  note dist = structure_okD(1) [OF ok]
  let ?staged = "push_all g (child_nodes (tn_parent gate) OriginGap specs)"
  let ?h = "at_id gid (requeue_gate nids)"
  have first: "tg_nodes (get_mut ?staged gid (requeue_gate nids)) =
      map ?h (tg_nodes g) @ child_nodes (tn_parent gate) OriginGap specs"
    using get_mut_grown [OF dist, of ?staged id _ gid] gid by simp
  have nodes: "tg_nodes g' = map (inject_rewrite gid (tn_parent gate) nids) (tg_nodes g) @
      child_nodes (tn_parent gate) OriginGap specs"
  proof (cases "tn_parent gate")
    case None
    with first show ?thesis
      by (simp add: g' inject_build_def inject_rewrite_def child_nodes_def [symmetric] cong: map_cong)
  next
    case (Some p)
    have "\<And>n. tn_id (?h n) = tn_id n" by (simp add: at_id_def requeue_gate_def)
    moreover have "p \<in> set (ids g)" using parent_edge [OF ok gid(1) Some] by force
    ultimately show ?thesis
      using get_mut_grown [OF dist first, of p "add_deps nids"] Some
      by (simp add: g' inject_build_def inject_rewrite_def child_nodes_def [symmetric] cong: map_cong)
  qed
  show thesis
    by (rule that [OF n])
      (use v' c nodes acy out g' in
        \<open>auto simp: nids check_dependencies_Inr contains_iff inject_build_def Let_def split: option.splits\<close>)
qed

lemma structure_ok_inject:
  assumes ok: "structure_ok g" and res: "inject_staged g gid actor specs = Inr (g', out)"
  shows "structure_ok g'"
    and "\<exists>gate. get g gid = Some gate \<and>
      grows g (inject_rewrite gid (tn_parent gate) (map spec_id specs)) (child_nodes (tn_parent gate) OriginGap specs) g'"
proof -
  from ok res obtain gate where gate: "get g gid = Some gate" "tn_is_gate gate"
    and dist: "distinct (map spec_id specs)" "set (map spec_id specs) \<inter> set (ids g) = {}"
    and deps: "\<forall>s \<in> set specs. set (ns_depends_on s) \<subseteq> set (map spec_id specs) \<union> set (ids g)"
    and g': "tg_mode g' = tg_mode g" "tg_nodes g' =
      map (inject_rewrite gid (tn_parent gate) (map spec_id specs)) (tg_nodes g) @
        child_nodes (tn_parent gate) OriginGap specs"
    and acy: "acyclic (dep_edges g')"
    by (rule inject_staged_Inr)
  let ?cs = "child_nodes (tn_parent gate) OriginGap specs"
  let ?h = "inject_rewrite gid (tn_parent gate) (map spec_id specs)"
  have gi: "gate \<in> nodes g" "tn_id gate = gid" using gate(1) by (auto dest: get_Some)
  have h: "keeps n (?h n) \<and> tn_expanded (?h n) = tn_expanded n \<and>
      set (tn_depends_on (?h n)) \<subseteq> set (tn_depends_on n) \<union> set (map spec_id specs)" for n
    by (auto simp: inject_rewrite_def at_id_def requeue_gate_def add_deps_def keeps_def split: option.splits)
  have gr: "grows g ?h ?cs g'"
    unfolding grows_def ids_child_nodes using g' dist h by (blast dest: child_nodesD)
  then show "\<exists>gate. get g gid = Some gate \<and>
      grows g (inject_rewrite gid (tn_parent gate) (map spec_id specs)) (child_nodes (tn_parent gate) OriginGap specs) g'"
    using gate(1) by blast
  note ids' = grows_ids [OF gr]
  have work: "set (map spec_id specs) \<subseteq> work_ids g'"
    by (rule work_ids_child [of "tn_parent gate" OriginGap]) (simp add: g'(2))
  have hgate: "?h gate \<in> nodes g'" "set (map spec_id specs) \<subseteq> set (tn_depends_on (?h gate))"
    using gi g'(2) by (auto simp: inject_rewrite_def at_id_def requeue_gate_def add_deps_def split: option.splits)
  have new: "tn_parent m = tn_parent gate \<and> \<not> tn_is_gate m \<and> tn_id m \<in> set (map spec_id specs)" if "m \<in> set ?cs" for m
    using that by (auto dest: child_nodesD)
  show "structure_ok g'"
  proof (rule structure_ok_grows [OF ok gr acy])
    fix m assume m: "m \<in> nodes g"
    show "set (tn_depends_on (?h m)) \<subseteq> set (ids g')"
      using h [of m] structure_okD(2) [OF ok m] unfolding ids' ids_child_nodes set_append by blast
  next
    fix m assume "m \<in> set ?cs"
    then obtain s where "s \<in> set specs" "set (tn_depends_on m) = set (ns_depends_on s)"
      by (auto dest: child_nodesD)
    with deps show "set (tn_depends_on m) \<subseteq> set (ids g')"
      unfolding ids' ids_child_nodes set_append by blast
  next
    fix m p assume m: "m \<in> set ?cs" and "tn_parent m = Some p"
    then have p: "tn_parent gate = Some p" using new by simp
    from ok gi(1) p obtain q where q: "q \<in> nodes g" "tn_id q = p" "tn_expanded q" "\<not> tn_is_gate q"
      by (rule parent_edge)
    have "tn_id m \<in> set (tn_depends_on (?h q))"
      using p q gi gate(2) new [OF m] by (auto simp: inject_rewrite_def at_id_def add_deps_def requeue_gate_def)
    with q h show "\<exists>q \<in> nodes g. tn_id q = p \<and> \<not> tn_is_gate q \<and> tn_expanded (?h q) \<and> tn_id m \<in> set (tn_depends_on (?h q))"
      by blast
  next
    fix m assume "m \<in> nodes g" "tn_is_gate m"
    then show "tn_expanded (?h m) = tn_expanded m \<and> set (tn_depends_on (?h m)) \<subseteq> set (tn_depends_on m) \<union> work_ids g'"
      using h [of m] work by blast
  next
    fix m assume m: "m \<in> set ?cs"
    show "audited g' m"
      unfolding audited_def using hgate new [OF m] h [of gate] gate(2)
      by (intro bexI [of _ "?h gate"]) (auto simp: keeps_def)
  qed (use new in blast)+
qed

section \<open>Seeding\<close>

lemma seed_specs_equivalent_id: "seed_specs_equivalent u s \<Longrightarrow> ns_id u = ns_id s"
  by (simp add: seed_specs_equivalent_def)

lemma collapse_replays_Inr:
  "collapse_replays us specs = Inr vs \<Longrightarrow>
   prefix us vs \<and> set vs \<subseteq> set us \<union> set specs \<and>
   (distinct (map ns_id us) \<longrightarrow> distinct (map ns_id vs)) \<and>
   (\<forall>s \<in> set specs. (\<exists>i. ns_id s = Some i \<and> trim i \<noteq> []) \<and> (\<exists>u \<in> set vs. seed_specs_equivalent u s))"
proof (induction us specs arbitrary: vs rule: collapse_replays.induct)
  case (2 us spec specs)
  from "2.prems" obtain i where i: "ns_id spec = Some i" "trim i \<noteq> []"
    and rest: "(case find (\<lambda>u. ns_id u = Some i) us of
         Some existing \<Rightarrow>
           if seed_specs_equivalent existing spec then collapse_replays us specs
           else Inl (DuplicateNode i)
       | None \<Rightarrow> collapse_replays (us @ [spec]) specs) = Inr vs"
    by (auto simp: ok_or_return_Inr_iff validated_spec_id_Inr)
  show ?case
  proof (cases "find (\<lambda>u. ns_id u = Some i) us")
    case None
    with rest have vs: "collapse_replays (us @ [spec]) specs = Inr vs" by simp
    have IH: "prefix (us @ [spec]) vs \<and> set vs \<subseteq> set (us @ [spec]) \<union> set specs \<and>
        (distinct (map ns_id (us @ [spec])) \<longrightarrow> distinct (map ns_id vs)) \<and>
        (\<forall>s \<in> set specs. (\<exists>i. ns_id s = Some i \<and> trim i \<noteq> []) \<and> (\<exists>u \<in> set vs. seed_specs_equivalent u s))"
      using "2.IH"(1) None vs by blast
    moreover have "spec \<in> set vs" using IH by (auto simp: prefix_def)
    moreover have "seed_specs_equivalent spec spec" by (simp add: seed_specs_equivalent_def dependency_sets_equal_def)
    moreover have "ns_id spec \<notin> ns_id ` set us" using None i(1) by (auto simp: find_None_iff)
    ultimately show ?thesis using i by (auto simp: prefix_def)
  next
    case (Some u)
    with rest have u: "seed_specs_equivalent u spec" "collapse_replays us specs = Inr vs"
      by (auto split: if_splits)
    from "2.IH"(2) [OF Some u] Some u i show ?thesis
      by (auto simp: find_Some_iff prefix_def dest: nth_mem)
  qed
qed simp

lemma stage_specs_Inr:
  "stage_specs g staged specs = Inr g' \<Longrightarrow>
   g' = push_all staged (child_nodes None OriginSeed (filter (\<lambda>s. \<not> contains g (spec_id s)) specs)) \<and>
   (\<forall>s \<in> set specs. \<forall>n. get g (spec_id s) = Some n \<longrightarrow> seed_spec_matches_existing g n s)"
proof (induction g staged specs rule: stage_specs.induct)
  case (2 g staged spec specs)
  have c: "contains g (spec_id spec) \<longleftrightarrow> get g (spec_id spec) \<noteq> None"
    using get_None_iff [of g "spec_id spec"] contains_iff [of g "spec_id spec"] by simp
  show ?case
  proof (cases "get g (spec_id spec)")
    case None
    with 2 c show ?thesis by (simp add: child_nodes_def push_all_def push_def)
  next
    case (Some n)
    with 2 c show ?thesis by (simp split: if_splits)
  qed
qed (simp add: child_nodes_def push_all_def)

definition root_ids :: "task_graph \<Rightarrow> string list" where
  "root_ids g = map tn_id (filter is_root_work (tg_nodes g))"

definition seed_rewrite :: "task_graph \<Rightarrow> task_node \<Rightarrow> task_node" where
  "seed_rewrite g n =
     (if root_ids g \<noteq> [] \<and> is_root_gate n then widen_gate (root_ids g) n else n)"

definition seed_gates :: "task_graph \<Rightarrow> task_node list" where
  "seed_gates g =
     (if root_ids g = [] \<or> find is_root_gate (tg_nodes g) \<noteq> None then []
      else let k = (if list_all (\<lambda>n. tn_kind n = Implement \<or> tn_kind n = Fix)
                      (filter is_root_work (tg_nodes g)) then Verify else Critique)
        in [new_gate (unique_gate_id g ''plan'') (root_gate_content k) k None (root_ids g)])"

lemma ensure_root_gate_nodes:
  assumes "distinct (ids g)" and "\<And>q r. q \<in> nodes g \<Longrightarrow> r \<in> nodes g \<Longrightarrow> is_root_gate q \<Longrightarrow> is_root_gate r \<Longrightarrow> q = r"
  shows "tg_nodes (ensure_root_gate g) = map (seed_rewrite g) (tg_nodes g) @ seed_gates g"
    and "tg_mode (ensure_root_gate g) = tg_mode g"
proof -
  show "tg_nodes (ensure_root_gate g) = map (seed_rewrite g) (tg_nodes g) @ seed_gates g"
  proof (cases "root_ids g = []")
    case True
    then show ?thesis
      by (simp add: ensure_root_gate_def root_ids_def seed_rewrite_def seed_gates_def map_idI)
  next
    case False
    note work = this
    show ?thesis
    proof (cases "find is_root_gate (tg_nodes g)")
      case None
      then have "\<forall>n \<in> nodes g. \<not> is_root_gate n" by (simp add: find_None_iff)
      then have "map (seed_rewrite g) (tg_nodes g) = tg_nodes g"
        by (simp add: seed_rewrite_def map_idI)
      with work None show ?thesis
        by (simp add: ensure_root_gate_def root_ids_def [symmetric] seed_gates_def Let_def)
    next
      case (Some q)
      then have q: "q \<in> nodes g" "is_root_gate q" by (auto simp: find_Some_iff dest: nth_mem)
      have "at_id (tn_id q) (widen_gate (root_ids g)) n = seed_rewrite g n" if "n \<in> nodes g" for n
        using that q work assms(2) same_id [OF assms(1)]
        by (cases "n = q") (auto simp: seed_rewrite_def at_id_def)
      then have "map (at_id (tn_id q) (widen_gate (root_ids g))) (tg_nodes g) = map (seed_rewrite g) (tg_nodes g)"
        by simp
      with work Some show ?thesis
        by (simp add: ensure_root_gate_def root_ids_def [symmetric] seed_gates_def Let_def
            get_mut_nodes [OF assms(1)])
    qed
  qed
  show "tg_mode (ensure_root_gate g) = tg_mode g"
    by (simp add: ensure_root_gate_def Let_def split: option.splits)
qed

definition seed_news :: "task_graph \<Rightarrow> node_spec list \<Rightarrow> task_node list" where
  "seed_news g us = child_nodes None OriginSeed (filter (\<lambda>s. \<not> contains g (spec_id s)) us)"

lemma seed_staged_Inr:
  assumes "seed_staged g specs = Inr (g', u)"
  obtains us where "collapse_replays [] specs = Inr us"
    and "\<forall>s \<in> set us. set (ns_depends_on s) \<subseteq> spec_id ` set us \<union> set (ids g)"
    and "\<forall>s \<in> set us. \<forall>n. get g (spec_id s) = Some n \<longrightarrow> seed_spec_matches_existing g n s"
    and "g' = (if deep g then ensure_root_gate (push_all g (seed_news g us)) else push_all g (seed_news g us))"
    and "acyclic (dep_edges g')"
proof -
  from assms obtain us u where us: "collapse_replays [] specs = Inr us"
    and deps: "check_dependencies (\<lambda>d. Some d \<in> ns_id ` set us \<or> contains g d) us = Inr u"
    and rest: "ok_or_return (stage_specs g g us) (\<lambda>staged0.
       let staged = (if requires_gates (tg_mode staged0) then ensure_root_gate staged0 else staged0)
       in ok_or_return (check_acyclic staged) (\<lambda>_. Inr (staged, ()))) = Inr (g', ())"
    unfolding seed_staged_def by (auto simp: ok_or_return_Inr_iff)
  from rest obtain staged0 where st: "stage_specs g g us = Inr staged0"
    and g': "g' = (if requires_gates (tg_mode staged0) then ensure_root_gate staged0 else staged0)"
    and acy: "acyclic (dep_edges g')"
    unfolding ok_or_return_Inr_iff Let_def check_acyclic_Inr by blast
  have "Some d \<in> ns_id ` set us \<Longrightarrow> d \<in> spec_id ` set us" for d
    by (metis (no_types, lifting) image_iff the_default_simps(2))
  then have "\<forall>s \<in> set us. set (ns_depends_on s) \<subseteq> spec_id ` set us \<union> set (ids g)"
    using deps unfolding check_dependencies_Inr contains_iff by blast
  with us st g' acy stage_specs_Inr [OF st] show thesis
    by (intro that) (auto simp: seed_news_def)
qed

lemma seed_news_ids:
  assumes "collapse_replays [] specs = Inr us"
  shows "distinct (map tn_id (seed_news g us))" and "set (map tn_id (seed_news g us)) \<inter> set (ids g) = {}"
    and "set (ids g) \<union> set (map tn_id (seed_news g us)) = set (ids g) \<union> spec_id ` set us"
proof -
  have c: "distinct (map ns_id us)" "\<forall>s \<in> set us. \<exists>i. ns_id s = Some i"
    using collapse_replays_Inr [OF assms] by auto
  then have "distinct (map spec_id us)"
    by (auto simp: distinct_map inj_on_def) (metis the_default_simps(2))
  then show "distinct (map tn_id (seed_news g us))"
    unfolding seed_news_def ids_child_nodes by (rule distinct_map_filter)
  show "set (map tn_id (seed_news g us)) \<inter> set (ids g) = {}"
    by (auto simp: seed_news_def contains_iff)
  show "set (ids g) \<union> set (map tn_id (seed_news g us)) = set (ids g) \<union> spec_id ` set us"
    by (auto simp: seed_news_def contains_iff)
qed

lemma structure_ok_seed:
  assumes ok: "structure_ok g" and res: "seed_staged g specs = Inr (g', u)"
    and us: "collapse_replays [] specs = Inr us"
  defines "g0 \<equiv> push_all g (seed_news g us)"
  shows "structure_ok g'"
    and "grows g (if deep g then seed_rewrite g0 else id) (seed_news g us @ (if deep g then seed_gates g0 else [])) g'"
proof -
  let ?h = "if deep g then seed_rewrite g0 else id"
  let ?cs = "seed_news g us"
  let ?gs = "if deep g then seed_gates g0 else []"
  note new_ids = seed_news_ids [OF us]
  from res obtain us' where us': "collapse_replays [] specs = Inr us'"
    and deps: "\<forall>s \<in> set us'. set (ns_depends_on s) \<subseteq> spec_id ` set us' \<union> set (ids g)"
    and g': "g' = (if deep g then ensure_root_gate (push_all g (seed_news g us')) else push_all g (seed_news g us'))"
    and acy: "acyclic (dep_edges g')"
    by (rule seed_staged_Inr)
  have us_eq: "us' = us" using us us' by simp
  have g': "g' = (if deep g then ensure_root_gate g0 else g0)"
    using g' unfolding us_eq g0_def by simp
  have cs: "\<not> tn_is_gate m \<and> tn_parent m = None \<and> fresh_node m" if "m \<in> set ?cs" for m
    using that unfolding seed_news_def by (auto dest: child_nodesD)
  have g0: "tg_nodes g0 = tg_nodes g @ ?cs" "tg_mode g0 = tg_mode g" by (simp_all add: g0_def)
  have ids0: "ids g0 = ids g @ map tn_id ?cs" by (simp add: g0)
  have dist0: "distinct (ids g0)"
    unfolding ids0 distinct_append using new_ids(1,2) structure_okD(1) [OF ok] by blast
  have old_gate: "n \<in> nodes g" if "n \<in> nodes g0" "is_root_gate n" for n
    using that cs [of n] by (auto simp: g0 is_root_gate_def)
  have one: "q = r" if "q \<in> nodes g0" "r \<in> nodes g0" "is_root_gate q" "is_root_gate r" for q r
    using old_gate that structure_okD(6) [OF ok] unfolding one_gate_def is_root_gate_def by metis
  note ens = ensure_root_gate_nodes [OF dist0 one]
  have hcs: "map (seed_rewrite g0) ?cs = ?cs"
    using cs by (auto simp: seed_rewrite_def is_root_gate_def intro: map_idI)
  have nodes': "tg_nodes g' = map ?h (tg_nodes g) @ ?cs @ ?gs"
    unfolding g' using ens(1) hcs by (auto simp: g0)
  have roots: "set (root_ids g0) \<subseteq> set (ids g0)" by (auto simp: root_ids_def)
  have gs: "r = new_gate (tn_id r) (tn_content r) (tn_kind r) None (root_ids g0) \<and> tn_id r \<notin> set (ids g0) \<and>
      deep g \<and> root_ids g0 \<noteq> [] \<and> find is_root_gate (tg_nodes g0) = None" if "r \<in> set ?gs" for r
    using that unique_gate_id_fresh [of g0] by (auto simp: seed_gates_def Let_def new_gate_def split: if_splits)
  then have gate: "tn_is_gate r \<and> tn_parent r = None \<and> tn_depends_on r = root_ids g0 \<and> fresh_node r"
    if "r \<in> set ?gs" for r
    using that by (metis new_gate_fields)
  have gs_le: "distinct (map tn_id ?gs)" by (simp add: seed_gates_def Let_def)
  have keeps: "keeps n (?h n)" for n by (simp add: seed_rewrite_def keeps_widen_gate)
  show gr: "grows g ?h (?cs @ ?gs) g'"
    unfolding grows_def
  proof (intro conjI ballI)
    show "tg_mode g' = tg_mode g" using ens(2) by (simp add: g' g0)
    have "set (map tn_id ?gs) \<inter> set (ids g0) = {}" using gs by fastforce
    then show "distinct (map tn_id (?cs @ ?gs))" "set (map tn_id (?cs @ ?gs)) \<inter> set (ids g) = {}"
      unfolding ids0 map_append distinct_append set_append using new_ids(1,2) gs_le by blast+
  qed (use nodes' keeps cs gate in auto)
  note ids' = grows_ids [OF gr]
  have sub0: "set (ids g0) \<subseteq> set (ids g')" unfolding ids' ids0 by auto
  have hdeps: "set (tn_depends_on (?h n)) \<subseteq> set (tn_depends_on n) \<union> set (root_ids g0)" for n
    by (auto simp: seed_rewrite_def widen_gate_def Let_def)
  have work: "set (root_ids g0) \<subseteq> work_ids g'"
  proof
    fix i assume "i \<in> set (root_ids g0)"
    then obtain n where n: "n \<in> nodes g \<union> set ?cs" "is_root_work n" "i = tn_id n"
      by (auto simp: root_ids_def g0)
    show "i \<in> work_ids g'"
    proof (cases "n \<in> nodes g")
      case True
      then have "i \<in> work_ids g" using n by (auto simp: work_ids_def is_root_work_def)
      then show ?thesis using grows_work_ids [OF gr] by blast
    next
      case False
      then have "n \<in> nodes g'" using n nodes' by auto
      then show ?thesis using n by (auto simp: work_ids_def is_root_work_def)
    qed
  qed
  show "structure_ok g'"
  proof (rule structure_ok_grows [OF ok gr acy])
    fix m assume m: "m \<in> nodes g"
    show "set (tn_depends_on (?h m)) \<subseteq> set (ids g')"
    proof -
      have "set (ids g) \<subseteq> set (ids g')" unfolding ids' by simp
      then show ?thesis using hdeps [of m] structure_okD(2) [OF ok m] roots sub0 by blast
    qed
  next
    fix m assume m: "m \<in> set (?cs @ ?gs)"
    show "set (tn_depends_on m) \<subseteq> set (ids g')"
    proof (cases "m \<in> set ?gs")
      case True
      with gate roots sub0 show ?thesis by simp
    next
      case False
      with m obtain s where "s \<in> set us" "set (tn_depends_on m) = set (ns_depends_on s)"
        by (auto simp: seed_news_def dest!: child_nodesD(6))
      then have "set (tn_depends_on m) \<subseteq> set (ids g0)"
        using deps new_ids(3) unfolding us_eq ids0 set_append by blast
      with sub0 show ?thesis by blast
    qed
  next
    fix m p assume "m \<in> set (?cs @ ?gs)" and "tn_parent m = Some p"
    then have False using cs gate by auto
    then show "\<exists>q \<in> nodes g. tn_id q = p \<and> \<not> tn_is_gate q \<and> tn_expanded (?h q) \<and> tn_id m \<in> set (tn_depends_on (?h q))" ..
  next
    fix m assume "m \<in> nodes g" "tn_is_gate m"
    then show "tn_expanded (?h m) = tn_expanded m \<and> set (tn_depends_on (?h m)) \<subseteq> set (tn_depends_on m) \<union> work_ids g'"
      using hdeps [of m] work by (auto simp: seed_rewrite_def widen_gate_def Let_def)
  next
    fix m assume "m \<in> set (?cs @ ?gs)" "tn_is_gate m"
    then show "deep g \<and> set (tn_depends_on m) \<subseteq> work_ids g'" using gate gs cs work by auto
  next
    fix m assume d: "deep g" and m: "m \<in> set (?cs @ ?gs)" "\<not> tn_is_gate m"
    then have m: "m \<in> set ?cs" using gate by auto
    with cs have i: "tn_id m \<in> set (root_ids g0)" "tn_parent m = None"
      by (auto simp: root_ids_def g0 is_root_work_def)
    show "audited g' m"
    proof (cases "find is_root_gate (tg_nodes g0)")
      case None
      then have "?gs \<noteq> []" using i d by (auto simp: seed_gates_def Let_def)
      then obtain r where "r \<in> set ?gs" using last_in_set by blast
      with gate i nodes' show ?thesis unfolding audited_def by (intro bexI [of _ r]) auto
    next
      case (Some q)
      then have "q \<in> nodes g0" "is_root_gate q" by (auto simp: find_Some_iff dest: nth_mem)
      with cs have q: "q \<in> nodes g" "is_root_gate q" by (auto simp: g0 is_root_gate_def)
      have "?h q = widen_gate (root_ids g0) q" using d q i by (auto simp: seed_rewrite_def)
      then have "tn_id m \<in> set (tn_depends_on (?h q))" using i by (simp add: widen_gate_def Let_def)
      with q i keeps [of q] nodes' show ?thesis
        unfolding audited_def by (intro bexI [of _ "?h q"]) (auto simp: keeps_def is_root_gate_def)
    qed
  next
    fix q r assume q: "q \<in> nodes g" "tn_is_gate q" and r: "r \<in> set (?cs @ ?gs)" "tn_is_gate r"
    then have "r \<in> set ?gs" using cs by auto
    with gs gate have "tn_parent r = None" "find is_root_gate (tg_nodes g0) = None" by blast+
    then show "tn_parent q \<noteq> tn_parent r" using q by (auto simp: find_None_iff g0 is_root_gate_def)
  next
    fix q r assume "q \<in> set (?cs @ ?gs)" "r \<in> set (?cs @ ?gs)" "tn_is_gate q" "tn_is_gate r"
    then have "q \<in> set ?gs" "r \<in> set ?gs" using cs by auto
    then show "q = r" by (auto simp: seed_gates_def Let_def split: if_splits)
  qed
qed

end
