(* ===== verification/Dag_Lifecycle.thy ===== *)
theory Dag_Lifecycle
  imports Dag_Steps
begin

text \<open>
  The engine as a state machine: a step is one successful call of an operation, a reachable graph is
  one built from \<open>TaskGraph::new\<close> by such calls. Each node goes through its own abstract lifecycle
  (\<open>node_step\<close>); every operation moves every node by one lifecycle step and appends fresh nodes
  (\<open>evolves\<close>), and with that the status invariant is preserved: what is \<open>Done\<close> has only \<open>Done\<close>
  dependencies and an artifact that passed its checks, and a deep gate that is \<open>Done\<close> still passes
  its audit.
\<close>

section \<open>Steps and reachable graphs\<close>

inductive dag_step :: "task_graph \<Rightarrow> task_graph \<Rightarrow> bool" where
  seed_step: "seed g specs = (g', Inr ()) \<Longrightarrow> dag_step g g'"
| dispatch_step: "dispatch g i worker = (g', True) \<Longrightarrow> dag_step g g'"
| expand_step: "expand_node g i actor children = (g', Inr out) \<Longrightarrow> dag_step g g'"
| complete_step: "complete_node g i actor a = (g', Inr ()) \<Longrightarrow> dag_step g g'"
| fail_step: "fail_node g i actor = (g', Inr ()) \<Longrightarrow> dag_step g g'"
| requeue_step: "requeue_failed g i = (g', Inr ()) \<Longrightarrow> dag_step g g'"
| inject_step: "inject_from_gate g i actor specs = (g', Inr new_ids) \<Longrightarrow> dag_step g g'"

inductive reachable :: "mode \<Rightarrow> task_graph \<Rightarrow> bool" for m where
  start: "reachable m (graph_new m)"
| step: "reachable m g \<Longrightarrow> dag_step g g' \<Longrightarrow> reachable m g'"

inductive_cases reachableE: "reachable m g"

text \<open>Calls as data, so that a concrete run can be evaluated.\<close>

datatype dag_call =
    Seed "node_spec list"
  | Dispatch string string
  | Expand string string "node_spec list"
  | Complete string string handoff_artifact
  | Fail string string
  | Requeue string
  | Inject string string "node_spec list"

fun call :: "dag_call \<Rightarrow> task_graph \<Rightarrow> task_graph" where
  "call (Seed specs) g = fst (seed g specs)"
| "call (Dispatch i w) g = fst (dispatch g i w)"
| "call (Expand i actor children) g = fst (expand_node g i actor children)"
| "call (Complete i actor a) g = fst (complete_node g i actor a)"
| "call (Fail i actor) g = fst (fail_node g i actor)"
| "call (Requeue i) g = fst (requeue_failed g i)"
| "call (Inject i actor specs) g = fst (inject_from_gate g i actor specs)"

lemma commit_step:
  "(\<And>g' x. commit g r = (g', Inr x) \<Longrightarrow> dag_step g g') \<Longrightarrow>
   fst (commit g r) = g \<or> dag_step g (fst (commit g r))"
  by (auto simp: commit_def split: sum.splits prod.splits)

lemma call_step: "call c g = g \<or> dag_step g (call c g)"
proof (cases c)
  case (Dispatch i w)
  obtain g' b where "dispatch g i w = (g', b)" by fastforce
  with Dispatch show ?thesis
    by (cases b) (auto intro: dispatch_step dest: dispatch_False)
next
  case (Seed specs)
  then show ?thesis
    using commit_step [of g "seed_staged g specs", folded seed_def] seed_step by simp
next
  case (Expand i actor children)
  then show ?thesis
    using commit_step [of g "expand_staged g i actor children", folded expand_node_def] expand_step by simp
next
  case (Complete i actor a)
  then show ?thesis
    using commit_step [of g "complete_staged g i actor a", folded complete_node_def] complete_step by simp
next
  case (Fail i actor)
  then show ?thesis
    using commit_step [of g "fail_staged g i actor", folded fail_node_def] fail_step by simp
next
  case (Requeue i)
  then show ?thesis
    using commit_step [of g "requeue_staged g i", folded requeue_failed_def] requeue_step by simp
next
  case (Inject i actor specs)
  then show ?thesis
    using commit_step [of g "inject_staged g i actor specs", folded inject_from_gate_def] inject_step by simp
qed

lemma reachable_calls: "reachable m g \<Longrightarrow> reachable m (fold call cs g)"
proof (induction cs arbitrary: g)
  case (Cons c cs)
  have "reachable m (call c g)" using call_step [of c g] Cons.prems reachable.step by metis
  with Cons.IH show ?case by simp
qed simp

section \<open>The status invariant\<close>

definition artifact_ok :: "task_graph \<Rightarrow> task_node \<Rightarrow> bool" where
  "artifact_ok g n \<longleftrightarrow> (\<exists>a. tn_output n = Some a \<and>
     validate_artifact (tg_mode g) (tn_id n) (tn_is_gate n) a = Inr () \<and>
     (tn_is_gate n \<longrightarrow> validate_gate_pass g (tn_id n) a = Inr ()))"

definition node_ok :: "task_graph \<Rightarrow> task_node \<Rightarrow> bool" where
  "node_ok g n \<longleftrightarrow>
     (tn_status n = Running \<longrightarrow> tn_owner n \<noteq> None) \<and>
     (tn_status n \<noteq> Queued \<longrightarrow> tn_status n = Done \<or> \<not> is_root_gate n \<longrightarrow> deps_satisfied g n) \<and>
     (tn_status n = Done \<longrightarrow> artifact_ok g n)"

definition graph_ok :: "task_graph \<Rightarrow> bool" where
  "graph_ok g \<longleftrightarrow> structure_ok g \<and> (\<forall>n \<in> nodes g. node_ok g n)"

lemma graph_okD:
  assumes "graph_ok g"
  shows "structure_ok g" and "n \<in> nodes g \<Longrightarrow> node_ok g n" and "distinct (ids g)"
  using assms by (auto simp: graph_ok_def structure_ok_def)

lemma graph_ok_new: "graph_ok (graph_new m)"
  by (simp add: graph_ok_def structure_ok_new) (simp add: graph_new_def)

section \<open>The lifecycle of a node\<close>

inductive node_step :: "task_graph \<Rightarrow> task_node \<Rightarrow> task_node \<Rightarrow> bool" for g where
  stays: "node_step g n n"
| requeued: "keeps n n' \<Longrightarrow> tn_status n' = Queued \<Longrightarrow> tn_status n \<noteq> Done \<or> is_root_gate n \<Longrightarrow>
    node_step g n n'"
| dispatched: "is_ready g n \<Longrightarrow> node_step g n (assign_to w n)"
| widened: "keeps n n' \<Longrightarrow> is_root_gate n \<Longrightarrow> tn_status n = Running \<Longrightarrow> tn_status n' = Running \<Longrightarrow>
    tn_owner n' = tn_owner n \<Longrightarrow> node_step g n n'"
| finished: "tn_status n = Running \<Longrightarrow>
    validate_artifact (tg_mode g) (tn_id n) (tn_is_gate n) a = Inr () \<Longrightarrow>
    (tn_is_gate n \<Longrightarrow> validate_gate_pass g (tn_id n) a = Inr ()) \<Longrightarrow> node_step g n (finish_with a n)"
| failed: "tn_status n = Running \<Longrightarrow> node_step g n (set_failed n)"

text \<open>The only dependencies a work node gains are its own children, gate and gap nodes.\<close>

definition joins_own :: "task_graph \<Rightarrow> task_node \<Rightarrow> task_node \<Rightarrow> bool" where
  "joins_own g' n n' \<longleftrightarrow>
     (\<not> tn_is_gate n \<longrightarrow> (\<forall>d \<in> set (tn_depends_on n') - set (tn_depends_on n).
        \<exists>c \<in> nodes g'. tn_id c = d \<and> tn_parent c = Some (tn_id n)))"

lemma joins_own_same: "tn_depends_on n' = tn_depends_on n \<Longrightarrow> joins_own g' n n'"
  by (simp add: joins_own_def)

definition evolves :: "task_graph \<Rightarrow> task_graph \<Rightarrow> bool" where
  "evolves g g' \<longleftrightarrow>
     (\<exists>h news. grows g h news g' \<and> (\<forall>n \<in> nodes g. node_step g n (h n) \<and> joins_own g' n (h n)))"

text \<open>Only the root gate is ever reopened: any other completed node is final.\<close>

lemma done_stays: "node_step g n n' \<Longrightarrow> tn_status n = Done \<Longrightarrow> \<not> is_root_gate n \<Longrightarrow> n' = n"
  by (auto simp: is_ready_def elim: node_step.cases)

lemma done_dep_kept:
  assumes ok: "structure_ok g" and gr: "grows g h news g'"
    and ns: "\<forall>n \<in> nodes g. node_step g n (h n)"
    and n: "n \<in> nodes g" and d: "d \<in> set (tn_depends_on n)" and m: "get g d = Some m" "tn_status m = Done"
  shows "get g' d = Some m"
proof -
  have mi: "m \<in> nodes g" "tn_id m = d" using m(1) by (auto dest: get_Some)
  then have "\<not> is_root_gate m" using no_dep_on_root_gate [OF ok n] d by auto
  then have "h m = m" using done_stays ns mi m(2) by blast
  then show ?thesis using grows_get_old [OF gr structure_okD(1) [OF ok] m(1)] by simp
qed

lemma deps_satisfied_kept:
  assumes "structure_ok g" and "grows g h news g'" and "\<forall>n \<in> nodes g. node_step g n (h n)"
    and "n \<in> nodes g" and "tn_depends_on n' = tn_depends_on n" and "deps_satisfied g n"
  shows "deps_satisfied g' n'"
  using assms(5,6) done_dep_kept [OF assms(1-4)] unfolding deps_satisfied_iff by metis

section \<open>The audit of a gate\<close>

lemma gate_audit_scope_set: "set (gate_audit_scope g gate) =
    {m. \<exists>d \<in> set (tn_depends_on gate). get g d = Some m \<and> \<not> tn_is_gate m}"
  by (auto simp: gate_audit_scope_def List.map_filter_def image_iff split: option.splits)

lemma gate_pass_scope_done:
  assumes "get g i = Some gate" and "validate_gate_pass g i a = Inr ()" and "m \<in> set (gate_audit_scope g gate)"
  shows "is_done m"
proof (rule ccontr)
  assume "\<not> is_done m"
  with assms(3) have "filter (\<lambda>n. \<not> is_done n) (gate_audit_scope g gate) \<noteq> []"
    unfolding filter_empty_conv by blast
  moreover from assms(3) have "gate_audit_scope g gate \<noteq> []" by auto
  ultimately show False using assms(1,2) by (simp add: validate_gate_pass_def Let_def)
qed

text \<open>In a well-formed graph the scope of a gate is all it depends on, so a pass means that its
  dependencies are done.\<close>

lemma gate_pass_deps_satisfied:
  assumes ok: "structure_ok g" and gate: "get g i = Some gate" "tn_is_gate gate"
    and pass: "validate_gate_pass g i a = Inr ()"
  shows "deps_satisfied g gate"
  unfolding deps_satisfied_iff
proof
  fix d assume d: "d \<in> set (tn_depends_on gate)"
  have gi: "gate \<in> nodes g" using gate by (auto dest: get_Some)
  then have "d \<in> set (ids g)" using structure_okD(2) [OF ok] d by blast
  then obtain m where m: "get g d = Some m" using get_None_iff by blast
  then have "m \<in> nodes g" "tn_id m = d" by (auto dest: get_Some)
  then have "\<not> tn_is_gate m" using gate_dep_work [OF ok gi gate(2)] d by blast
  then have "m \<in> set (gate_audit_scope g gate)" using m d by (auto simp: gate_audit_scope_set)
  then show "\<exists>m. get g d = Some m \<and> tn_status m = Done"
    using gate_pass_scope_done [OF gate(1) pass] m by (auto simp: is_done_def)
qed

lemma validate_gate_pass_cong:
  assumes "get g i = Some gate" and "get g' i = Some gate'" and "tn_depends_on gate' = tn_depends_on gate"
    and "\<And>d. d \<in> set (tn_depends_on gate) \<Longrightarrow> get g' d = get g d"
  shows "validate_gate_pass g' i a = validate_gate_pass g i a"
proof -
  have "gate_audit_scope g' gate' = gate_audit_scope g gate"
    unfolding gate_audit_scope_def List.map_filter_def assms(3)
    using assms(4) by (intro arg_cong2 [of _ _ _ _ filter] arg_cong2 [of _ _ _ _ map] filter_cong map_cong) auto
  with assms(1,2) show ?thesis by (simp only: validate_gate_pass_def option.case)
qed

section \<open>Lifecycle steps preserve the invariant\<close>

lemma artifact_ok_kept:
  assumes ok: "structure_ok g" and gr: "grows g h news g'" and ns: "\<forall>n \<in> nodes g. node_step g n (h n)"
    and n: "n \<in> nodes g" and sat: "deps_satisfied g n"
    and h: "tn_depends_on (h n) = tn_depends_on n" and a: "tn_output (h n) = Some a"
    and chk: "validate_artifact (tg_mode g) (tn_id n) (tn_is_gate n) a = Inr ()"
      "tn_is_gate n \<Longrightarrow> validate_gate_pass g (tn_id n) a = Inr ()"
  shows "artifact_ok g' (h n)"
proof -
  have kept: "get g' d = get g d" if "d \<in> set (tn_depends_on n)" for d
  proof -
    from sat that obtain m where "get g d = Some m" "tn_status m = Done"
      by (auto simp: deps_satisfied_iff)
    with done_dep_kept [OF ok gr ns n that] show ?thesis by simp
  qed
  have g: "get g (tn_id n) = Some n" using get_distinct [OF structure_okD(1) [OF ok] n] .
  have "validate_gate_pass g' (tn_id n) a = validate_gate_pass g (tn_id n) a"
    using validate_gate_pass_cong [OF g grows_get_old [OF gr structure_okD(1) [OF ok] g] h] kept by blast
  with a chk grows_old [OF gr n] growsD(1) [OF gr] show ?thesis
    by (simp add: artifact_ok_def keeps_def)
qed

lemma node_ok_kept:
  assumes ok: "graph_ok g" and gr: "grows g h news g'" and ns: "\<forall>n \<in> nodes g. node_step g n (h n)"
    and n: "n \<in> nodes g"
  shows "node_ok g' (h n)"
proof -
  note st = graph_okD(1) [OF ok]
  have nok: "node_ok g n" using graph_okD(2) [OF ok n] .
  have get: "get g (tn_id n) = Some n" using get_distinct [OF structure_okD(1) [OF st] n] .
  note sat' = deps_satisfied_kept [OF st gr ns n]
  have root: "is_root_gate (h n) = is_root_gate n" using grows_old [OF gr n] by (simp add: is_root_gate_def keeps_def)
  have "node_step g n (h n)" using ns n by blast
  then show ?thesis
  proof (cases rule: node_step.cases)
    case stays
    have "artifact_ok g' (h n)" if "tn_status n = Done"
    proof -
      from nok that obtain a where "deps_satisfied g n" "tn_output n = Some a"
        "validate_artifact (tg_mode g) (tn_id n) (tn_is_gate n) a = Inr ()"
        "tn_is_gate n \<Longrightarrow> validate_gate_pass g (tn_id n) a = Inr ()"
        by (auto simp: node_ok_def artifact_ok_def)
      with stays show ?thesis by (intro artifact_ok_kept [OF st gr ns n]) auto
    qed
    with stays nok sat' show ?thesis by (simp add: node_ok_def)
  next
    case requeued
    then show ?thesis by (simp add: node_ok_def)
  next
    case (dispatched w)
    then show ?thesis using sat' by (simp add: node_ok_def assign_to_def is_ready_def)
  next
    case widened
    then show ?thesis using nok root by (simp add: node_ok_def)
  next
    case (finished a)
    have sat: "deps_satisfied g n"
    proof (cases "is_root_gate n")
      case True
      then show ?thesis
        using gate_pass_deps_satisfied [OF st get] finished by (simp add: is_root_gate_def)
    next
      case False
      then show ?thesis using nok finished by (simp add: node_ok_def)
    qed
    have "artifact_ok g' (h n)"
      by (rule artifact_ok_kept [OF st gr ns n sat]) (use finished in \<open>simp_all add: finish_with_def\<close>)
    with finished sat sat' show ?thesis by (simp add: node_ok_def finish_with_def)
  next
    case failed
    then show ?thesis using nok sat' root by (simp add: node_ok_def set_failed_def)
  qed
qed

lemma graph_ok_evolves:
  assumes "graph_ok g" and "structure_ok g'" and "evolves g g'"
  shows "graph_ok g'"
proof -
  from assms(3) obtain h news where gr: "grows g h news g'" and ns: "\<forall>n \<in> nodes g. node_step g n (h n)"
    unfolding evolves_def by blast
  have "node_ok g' n'" if "n' \<in> nodes g'" for n'
    using gr that
  proof (cases rule: grows_cases)
    case (1 n)
    with node_ok_kept [OF assms(1) gr ns] show ?thesis by simp
  next
    case 2
    then show ?thesis by (simp add: node_ok_def fresh_node_def)
  qed
  with assms(2) show ?thesis by (simp add: graph_ok_def)
qed

section \<open>Every operation is a lifecycle step\<close>

lemma evolves_get_mut:
  assumes ok: "structure_ok g" and n: "get g i = Some n" and k: "keeps n (f n)" and s: "node_step g n (f n)"
    and deps: "\<And>m. tn_depends_on (f m) = tn_depends_on m"
  shows "evolves g (get_mut g i f)"
proof -
  have one: "m = n" if "m \<in> nodes g" "tn_id m = i" for m
    using that n get_iff [OF structure_okD(1) [OF ok]] same_id [OF structure_okD(1) [OF ok]] by blast
  have "grows g (at_id i f) [] (get_mut g i f)"
    by (rule grows_get_mut [OF structure_okD(1) [OF ok]]) (use one k in blast)
  moreover have "node_step g m (at_id i f m)" if "m \<in> nodes g" for m
    using one [OF that] s stays [of g m] by (cases "tn_id m = i") (auto simp: at_id_def)
  moreover have "joins_own (get_mut g i f) m (at_id i f m)" for m
    using deps by (intro joins_own_same) (simp add: at_id_def)
  ultimately show ?thesis unfolding evolves_def by blast
qed

lemma gates_deep: "structure_ok g \<Longrightarrow> n \<in> nodes g \<Longrightarrow> tn_is_gate n \<Longrightarrow> deep g"
  using structure_okD(5) by (auto simp: gates_ok_def)

lemma evolves_expand:
  assumes ok: "structure_ok g" and res: "expand_staged g i actor children = Inr (g', out)"
  shows "evolves g g'"
proof -
  from structure_ok_expand(2) [OF ok res] obtain n where n: "get g i = Some n"
    and gr: "grows g (at_id i (make_composite (map spec_id children @ map tn_id (expand_gates g n children))))
      (child_nodes (Some i) OriginExpand children @ expand_gates g n children) g'"
    by blast
  from ok res obtain n' where "get g i = Some n'" "tn_status n' = Running" by (rule expand_staged_Inr)
  with n have run: "tn_status n = Running" by simp
  have "node_step g m (at_id i (make_composite ds) m)" if "m \<in> nodes g" for m ds
  proof (cases "tn_id m = i")
    case True
    with that n have "m = n" using get_distinct [OF structure_okD(1) [OF ok] that] by simp
    then show ?thesis using run True
      by (auto simp: at_id_def intro!: requeued keeps_make_composite) (simp add: make_composite_def)
  qed (simp add: at_id_def stays)
  moreover have "joins_own g' m (at_id i (make_composite (map spec_id children @ map tn_id (expand_gates g n children))) m)" for m
  proof (cases "tn_id m = i")
    case True
    let ?news = "child_nodes (Some i) OriginExpand children @ expand_gates g n children"
    have "tn_parent c = Some i" if "c \<in> set ?news" for c
      using that get_Some [OF n] by (auto simp: expand_gates_def dest: child_nodesD split: if_splits)
    moreover have "set (map spec_id children @ map tn_id (expand_gates g n children)) = tn_id ` set ?news"
      by (simp add: image_Un)
    moreover have "set ?news \<subseteq> nodes g'" using grows_nodes [OF gr] by blast
    ultimately show ?thesis
      using True by (auto simp: joins_own_def at_id_def make_composite_def)
  qed (simp add: joins_own_def at_id_def)
  ultimately show ?thesis using gr unfolding evolves_def by blast
qed

text \<open>Injection needs the status invariant: the parent join waits for the running gate, so it is
  neither done nor running.\<close>

lemma evolves_inject:
  assumes ok: "graph_ok g" and res: "inject_staged g i actor specs = Inr (g', out)"
  shows "evolves g g'"
proof -
  note st = graph_okD(1) [OF ok]
  note dist = structure_okD(1) [OF st]
  from structure_ok_inject(2) [OF st res] obtain gate where gate: "get g i = Some gate"
    and gr: "grows g (inject_rewrite i (tn_parent gate) (map spec_id specs))
      (child_nodes (tn_parent gate) OriginGap specs) g'"
    by blast
  from st res obtain gate' where "get g i = Some gate'" "tn_status gate' = Running" "tn_is_gate gate'"
    by (rule inject_staged_Inr)
  with gate have run: "tn_status gate = Running" "tn_is_gate gate" by simp_all
  have gi: "gate \<in> nodes g" "tn_id gate = i" using gate by (auto dest: get_Some)
  have "node_step g m (inject_rewrite i (tn_parent gate) (map spec_id specs) m)" if m: "m \<in> nodes g" for m
  proof -
    consider (gate) "m = gate" | (parent) "m \<noteq> gate" "tn_parent gate = Some (tn_id m)"
      | (other) "m \<noteq> gate" "tn_parent gate \<noteq> Some (tn_id m)" by blast
    then show ?thesis
    proof cases
      case gate
      have "keeps gate (inject_rewrite i (tn_parent gate) (map spec_id specs) gate)"
        using grows_old [OF gr gi(1)] by simp
      moreover have "tn_status (inject_rewrite i (tn_parent gate) (map spec_id specs) gate) = Queued"
        using gi(2) by (simp add: inject_rewrite_def at_id_def requeue_gate_def add_deps_def split: option.splits)
      ultimately show ?thesis unfolding gate using run by (intro requeued) auto
    next
      case parent
      from st gi(1) parent(2) obtain q where q: "q \<in> nodes g" "tn_id q = tn_id m" "\<not> tn_is_gate q"
        "tn_id gate \<in> set (tn_depends_on q)"
        by (rule parent_edge)
      then have qm: "q = m" using same_id [OF dist q(1) m] by simp
      have "\<not> deps_satisfied g m"
        using q(4) gate run(1) gi(2) unfolding qm deps_satisfied_iff by force
      then have "tn_status m = Queued"
        using graph_okD(2) [OF ok m] q(3) unfolding qm node_ok_def is_root_gate_def by blast
      moreover have "inject_rewrite i (tn_parent gate) (map spec_id specs) m = add_deps (map spec_id specs) m"
        using parent gi same_id [OF dist m gi(1)] by (auto simp: inject_rewrite_def at_id_def)
      ultimately show ?thesis
        by (auto intro!: requeued keeps_add_deps) (simp_all add: add_deps_def)
    next
      case other
      have "tn_id m \<noteq> i" using other(1) same_id [OF dist m gi(1)] gi(2) by auto
      then show ?thesis
        using other by (auto simp: inject_rewrite_def at_id_def stays split: option.splits)
    qed
  qed
  moreover have "joins_own g' m (inject_rewrite i (tn_parent gate) (map spec_id specs) m)" if m: "m \<in> nodes g" for m
    unfolding joins_own_def
  proof (intro impI ballI)
    let ?news = "child_nodes (tn_parent gate) OriginGap specs"
    fix d assume "\<not> tn_is_gate m"
      and d: "d \<in> set (tn_depends_on (inject_rewrite i (tn_parent gate) (map spec_id specs) m)) - set (tn_depends_on m)"
    then have "tn_id m \<noteq> i" using get_distinct [OF dist m] gate run(2) by auto
    with d have p: "tn_parent gate = Some (tn_id m)" and "d \<in> tn_id ` set ?news"
      by (auto simp: inject_rewrite_def at_id_def add_deps_def split: option.splits if_splits)
    then obtain c where "c \<in> set ?news" "tn_id c = d" by blast
    moreover have "c \<in> nodes g'" using calculation grows_nodes [OF gr] by blast
    ultimately show "\<exists>c \<in> nodes g'. tn_id c = d \<and> tn_parent c = Some (tn_id m)"
      using p by (auto dest: child_nodesD)
  qed
  ultimately show ?thesis using gr unfolding evolves_def by blast
qed

lemma widen_gate_step:
  assumes "is_root_gate n"
  shows "node_step g n (widen_gate ds n)"
proof (cases "push_missing (tn_depends_on n) ds = tn_depends_on n")
  case True
  then show ?thesis by (simp add: widen_gate_def stays)
next
  case False
  consider "node_is_terminal n" | "tn_status n = Queued" | "tn_status n = Running"
    by (cases "tn_status n") (auto simp: node_is_terminal_def)
  then show ?thesis
  proof cases
    case 3
    then show ?thesis
      by (intro widened keeps_widen_gate assms) (simp_all add: widen_gate_def Let_def node_is_terminal_def)
  qed (use False assms in
    \<open>auto simp: widen_gate_def Let_def node_is_terminal_def intro!: requeued simp: keeps_def\<close>)
qed

lemma evolves_seed:
  assumes ok: "structure_ok g" and res: "seed_staged g specs = Inr (g', u)"
  shows "evolves g g'"
proof -
  from res obtain us where us: "collapse_replays [] specs = Inr us" by (rule seed_staged_Inr)
  show ?thesis
    unfolding evolves_def using structure_ok_seed(2) [OF ok res us]
    by (intro exI conjI)
      (auto simp: seed_rewrite_def stays widen_gate_step joins_own_def is_root_gate_def split: if_splits)
qed

lemma update_deps:
  "tn_depends_on (assign_to w n) = tn_depends_on n" "tn_depends_on (finish_with a n) = tn_depends_on n"
  "tn_depends_on (set_failed n) = tn_depends_on n" "tn_depends_on (set_queued n) = tn_depends_on n"
  by (simp_all add: assign_to_def finish_with_def set_failed_def set_queued_def)

lemma dag_step_evolves:
  assumes ok: "graph_ok g" and st: "dag_step g g'"
  shows "structure_ok g' \<and> evolves g g'"
  using st
proof cases
  case (seed_step specs)
  then have res: "seed_staged g specs = Inr (g', ())" by (simp add: seed_def commit_eq_Inr)
  then obtain us where "collapse_replays [] specs = Inr us" by (rule seed_staged_Inr)
  with structure_ok_seed(1) [OF graph_okD(1) [OF ok] res] evolves_seed [OF graph_okD(1) [OF ok] res]
  show ?thesis by blast
next
  case (dispatch_step i w)
  then obtain n where "get g i = Some n" "is_ready g n" "g' = get_mut g i (assign_to w)"
    by (auto simp: dispatch_True)
  moreover have "keeps n (assign_to w n)" by (simp add: keeps_def assign_to_def)
  moreover have "structure_ok g'"
    using structure_ok_dispatch [OF graph_okD(1) [OF ok], of i w] dispatch_step by simp
  ultimately show ?thesis
    using evolves_get_mut [OF graph_okD(1) [OF ok], of i n "assign_to w"] dispatched update_deps by auto
next
  case (expand_step i actor children out)
  then have "expand_staged g i actor children = Inr (g', out)" by (simp add: expand_node_def commit_eq_Inr)
  with structure_ok_expand(1) evolves_expand graph_okD(1) [OF ok] show ?thesis by blast
next
  case (complete_step i actor a)
  then have "complete_staged g i actor a = Inr (g', ())" by (simp add: complete_node_def commit_eq_Inr)
  then obtain n where n: "get g i = Some n" "tn_status n = Running"
    "validate_artifact (tg_mode g) i (tn_is_gate n) a = Inr ()"
    "tn_is_gate n \<and> deep g \<longrightarrow> validate_gate_pass g i a = Inr ()" "g' = get_mut g i (finish_with a)"
    by (auto simp: complete_staged_Inr)
  have i: "n \<in> nodes g" "tn_id n = i" using n(1) by (auto dest: get_Some)
  have "node_step g n (finish_with a n)"
    using n i gates_deep [OF graph_okD(1) [OF ok] i(1)] by (intro finished) auto
  moreover have "keeps n (finish_with a n)" by (simp add: keeps_def finish_with_def)
  ultimately show ?thesis
    using n evolves_get_mut [OF graph_okD(1) [OF ok] n(1)] update_deps
      structure_ok_node_update(1) graph_okD(1) [OF ok] by blast
next
  case (fail_step i actor)
  then have "fail_staged g i actor = Inr (g', ())" by (simp add: fail_node_def commit_eq_Inr)
  then obtain n where n: "get g i = Some n" "tn_status n = Running" "g' = get_mut g i set_failed"
    by (auto simp: fail_staged_Inr)
  moreover have "keeps n (set_failed n)" by (simp add: keeps_def set_failed_def)
  ultimately show ?thesis
    using evolves_get_mut [OF graph_okD(1) [OF ok] n(1)] failed update_deps
      structure_ok_node_update(2) graph_okD(1) [OF ok] by blast
next
  case (requeue_step i)
  then have "requeue_staged g i = Inr (g', ())" by (simp add: requeue_failed_def commit_eq_Inr)
  then obtain n where n: "get g i = Some n" "tn_status n = Failed" "g' = get_mut g i set_queued"
    by (auto simp: requeue_staged_Inr)
  have k: "keeps n (set_queued n)" by (simp add: keeps_def set_queued_def)
  moreover have "node_step g n (set_queued n)"
    using n by (intro requeued k) (auto simp: set_queued_def)
  ultimately show ?thesis
    using n evolves_get_mut [OF graph_okD(1) [OF ok] n(1)] update_deps
      structure_ok_node_update(3) graph_okD(1) [OF ok] by blast
next
  case (inject_step i actor specs new_ids)
  then have "inject_staged g i actor specs = Inr (g', new_ids)"
    by (simp add: inject_from_gate_def commit_eq_Inr)
  with structure_ok_inject(1) evolves_inject ok graph_okD(1) [OF ok] show ?thesis by blast
qed

lemma graph_ok_step: "graph_ok g \<Longrightarrow> dag_step g g' \<Longrightarrow> graph_ok g'"
  using dag_step_evolves graph_ok_evolves by blast

lemma reachable_graph_ok: "reachable m g \<Longrightarrow> graph_ok g"
  by (induction rule: reachable.induct) (auto intro: graph_ok_new graph_ok_step)

lemma step_mode: "graph_ok g \<Longrightarrow> dag_step g g' \<Longrightarrow> tg_mode g' = tg_mode g"
  using dag_step_evolves by (auto simp: evolves_def grows_def)

lemma reachable_mode: "reachable m g \<Longrightarrow> tg_mode g = m"
proof (induction rule: reachable.induct)
  case (step g g')
  then show ?case using step_mode reachable_graph_ok by metis
qed (simp add: graph_new_def)

end
