(* ===== verification/Dag_Correctness.thy ===== *)
theory Dag_Correctness
  imports Dag_Lifecycle
begin

text \<open>
  What the engine promises about every graph that its operations can build: the plan-level
  properties of the task DAG, stated over the reachable graphs of the state machine, and the
  behaviour of single calls.
\<close>

section \<open>A concrete run\<close>

text \<open>A seeded deep plan: one node that reports low confidence, its root gate, and the whole run.\<close>

definition sample_artifact :: handoff_artifact where
  "sample_artifact =
     (brief ''found it'')\<lparr>ha_what_i_did_not_check := [''nothing''], ha_confidence := Some ''low''\<rparr>"

definition sample_seed :: "node_spec list" where
  "sample_seed = [node_spec_new ''a'' ''task'' Explore]"

definition sample_start :: task_graph where
  "sample_start = fold call [Seed sample_seed] (graph_new Deep)"

definition sample_running :: task_graph where
  "sample_running = fold call [Dispatch ''a'' ''w''] sample_start"

definition sample_audit :: task_graph where
  "sample_audit =
     fold call [Complete ''a'' ''w'' sample_artifact, Dispatch ''plan::gate'' ''v''] sample_running"

definition sample_end :: task_graph where
  "sample_end = fold call [Complete ''plan::gate'' ''v'' (brief ''audited a.'')] sample_audit"

lemma sample_reachable:
  "reachable Deep sample_start" "reachable Deep sample_running" "reachable Deep sample_audit"
  "reachable Deep sample_end"
  unfolding sample_end_def sample_audit_def sample_running_def sample_start_def
  by (intro reachable_calls reachable.start)+

lemma sample_start_nodes: "map (\<lambda>n. (tn_id n, tn_status n)) (tg_nodes sample_start) =
    [(''a'', Queued), (''plan::gate'', Queued)]"
  by code_simp

lemma sample_end_nodes: "map (\<lambda>n. (tn_id n, tn_status n, tn_is_gate n, tn_parent n, tn_depends_on n)) (tg_nodes sample_end) =
    [(''a'', Done, False, None, []), (''plan::gate'', Done, True, None, [''a''])]"
  by code_simp

lemma sample_end_ex:
  "\<exists>q \<in> nodes sample_end. is_root_gate q \<and> tn_status q = Done \<and> tn_depends_on q = [''a'']"
  "\<exists>n \<in> nodes sample_end. tn_id n = ''a'' \<and> tn_status n = Done"
proof -
  obtain n q where nq: "tg_nodes sample_end = [n, q]"
    using sample_end_nodes by (auto simp: map_eq_Cons_conv)
  with sample_end_nodes
  show "\<exists>q \<in> nodes sample_end. is_root_gate q \<and> tn_status q = Done \<and> tn_depends_on q = [''a'']"
    and "\<exists>n \<in> nodes sample_end. tn_id n = ''a'' \<and> tn_status n = Done"
    by (simp_all add: is_root_gate_def)
qed

section \<open>Plan-level guarantees\<close>

lemma done_deps_done:
  assumes ok: "graph_ok g" and n: "n \<in> nodes g" "tn_status n = Done" and d: "m \<in> nodes g" "tn_id m \<in> set (tn_depends_on n)"
  shows "tn_status m = Done"
proof -
  have "deps_satisfied g n" using graph_okD(2) [OF ok n(1)] n(2) by (simp add: node_ok_def)
  with d obtain m' where "get g (tn_id m) = Some m'" "tn_status m' = Done" by (auto simp: deps_satisfied_iff)
  with get_distinct [OF graph_okD(3) [OF ok] d(1)] show ?thesis by simp
qed

lemma dep_edge_nodes:
  assumes "distinct (ids g)" and "(i, j) \<in> dep_edges g"
  obtains m n where "m \<in> nodes g" "tn_id m = i" "n \<in> nodes g" "tn_id n = j" "i \<in> set (tn_depends_on n)"
  using assms by (auto simp: dep_edges_def)

lemma done_edge:
  assumes ok: "graph_ok g" and e: "(i, j) \<in> dep_edges g"
    and j: "\<forall>n \<in> nodes g. tn_id n = j \<longrightarrow> tn_status n = Done"
  shows "\<forall>m \<in> nodes g. tn_id m = i \<longrightarrow> tn_status m = Done"
proof (intro ballI impI)
  fix m assume m: "m \<in> nodes g" "tn_id m = i"
  from graph_okD(3) [OF ok] e obtain n where "n \<in> nodes g" "tn_id n = j" "i \<in> set (tn_depends_on n)"
    by (rule dep_edge_nodes)
  with j m show "tn_status m = Done" using done_deps_done [OF ok] by blast
qed

lemma done_upstream:
  assumes ok: "graph_ok g"
  shows "(i, j) \<in> (dep_edges g)\<^sup>+ \<Longrightarrow> \<forall>n \<in> nodes g. tn_id n = j \<longrightarrow> tn_status n = Done \<Longrightarrow>
    \<forall>m \<in> nodes g. tn_id m = i \<longrightarrow> tn_status m = Done"
proof (induction rule: trancl_induct)
  case (base j)
  then show ?case using done_edge [OF ok] by blast
next
  case (step j k)
  then show ?case using done_edge [OF ok] by blast
qed

text \<open>C27. The root gate closes the plan: in every reachable deep-mode graph, once the root gate is
  done every node of the graph is done, and every output still satisfies the deep-mode rules, the
  gate audits included. A finished deep plan has no unfinished, unaudited or thin work in it.\<close>

theorem root_gate_closes_plan:
  assumes r: "reachable Deep g" and q: "q \<in> nodes g" "is_root_gate q" "tn_status q = Done"
    and n: "n \<in> nodes g"
  shows "tn_status n = Done \<and> (\<exists>a. tn_output n = Some a \<and>
    validate_artifact Deep (tn_id n) (tn_is_gate n) a = Inr () \<and>
    (tn_is_gate n \<longrightarrow> validate_gate_pass g (tn_id n) a = Inr ()))"
proof -
  have ok: "graph_ok g" and mode: "tg_mode g = Deep" using r by (auto dest: reachable_graph_ok reachable_mode)
  note st = graph_okD(1) [OF ok]
  have d: "deep g" by (simp add: mode requires_gates_def)
  have work: "tn_status m = Done" if m: "m \<in> nodes g" "\<not> tn_is_gate m" for m
  proof -
    have "\<forall>n \<in> nodes g. tn_id n = tn_id q \<longrightarrow> tn_status n = Done"
      using q same_id [OF graph_okD(3) [OF ok]] by metis
    from done_upstream [OF ok work_below_root_gate [OF st d q(1,2) m] this] m show ?thesis by blast
  qed
  have "tn_status n = Done"
  proof (cases "tn_is_gate n")
    case True
    show ?thesis
    proof (cases "tn_parent n")
      case None
      then have "n = q" using structure_okD(6) [OF st] q n True by (auto simp: one_gate_def is_root_gate_def)
      with q show ?thesis by simp
    next
      case (Some p)
      from st n Some obtain c where c: "c \<in> nodes g" "\<not> tn_is_gate c" "tn_id n \<in> set (tn_depends_on c)"
        by (rule parent_edge)
      with work done_deps_done [OF ok c(1) _ n] show ?thesis by blast
    qed
  qed (use work n in blast)
  with graph_okD(2) [OF ok n] show ?thesis by (auto simp: node_ok_def artifact_ok_def mode)
qed

lemma root_gate_closes_plan_witness:
  "\<exists>n \<in> nodes sample_end. tn_id n = ''a'' \<and> tn_status n = Done \<and>
     (\<exists>a. tn_output n = Some a \<and> validate_artifact Deep (tn_id n) (tn_is_gate n) a = Inr ())"
proof -
  obtain q where "q \<in> nodes sample_end" "is_root_gate q" "tn_status q = Done"
    using sample_end_ex(1) by blast
  from root_gate_closes_plan [OF sample_reachable(4) this] sample_end_ex(2) show ?thesis by blast
qed

text \<open>C28. Dependencies are respected through every history of calls: whatever sequence of seeds,
  dispatches, expansions, completions, failures, retries and gap injections produced the graph, a
  done node has only done dependencies, each of them a node of the graph.\<close>

theorem done_means_deps_done:
  assumes "reachable m g" and "n \<in> nodes g" and "tn_status n = Done" and "d \<in> set (tn_depends_on n)"
  shows "\<exists>k. get g d = Some k \<and> tn_status k = Done"
  using graph_okD(2) [OF reachable_graph_ok [OF assms(1)] assms(2)] assms(3,4)
  by (auto simp: node_ok_def deps_satisfied_iff)

lemma done_means_deps_done_witness:
  "\<exists>k. get sample_end ''a'' = Some k \<and> tn_status k = Done"
proof -
  obtain q where "q \<in> nodes sample_end" "tn_status q = Done" "''a'' \<in> set (tn_depends_on q)"
    using sample_end_ex(1) by auto
  then show ?thesis by (rule done_means_deps_done [OF sample_reachable(4)])
qed

text \<open>C29. Well-formedness of every reachable graph: ids are unique, every dependency edge points to an
  existing node, and the dependency relation is acyclic (so the cycle detector finds nothing).\<close>

theorem reachable_dag:
  assumes "reachable m g"
  shows "distinct (ids g) \<and> (\<forall>n \<in> nodes g. set (tn_depends_on n) \<subseteq> set (ids g)) \<and>
    acyclic (dep_edges g) \<and> cycle_nodes g = []"
  using graph_okD(1) [OF reachable_graph_ok [OF assms]]
  by (auto simp: structure_ok_def cycle_nodes_Nil_iff)

lemma reachable_dag_witness: "acyclic (dep_edges sample_end)"
  using reachable_dag [OF sample_reachable(4)] by blast

text \<open>C30. Deep mode never loses its gates: in a reachable graph of deep mode every work node is in the
  audit scope of the one gate of its level (the gate under the same composite parent, the root gate
  for top-level work), a child's parent is a composite that depends on it, and in light mode there
  are no gates at all.\<close>

theorem deep_work_is_gated:
  assumes "reachable m g" and "n \<in> nodes g" and "\<not> tn_is_gate n"
  shows "(m = Deep \<longrightarrow> (\<exists>!q. q \<in> nodes g \<and> tn_is_gate q \<and> tn_parent q = tn_parent n) \<and>
      (\<exists>q \<in> nodes g. tn_is_gate q \<and> tn_parent q = tn_parent n \<and> n \<in> set (gate_audit_scope g q))) \<and>
    (m = Light \<longrightarrow> (\<forall>q \<in> nodes g. \<not> tn_is_gate q)) \<and>
    (\<forall>p. tn_parent n = Some p \<longrightarrow>
      (\<exists>c. get g p = Some c \<and> tn_expanded c \<and> tn_id n \<in> set (tn_depends_on c)))"
proof (intro conjI impI allI)
  have ok: "graph_ok g" and mode: "tg_mode g = m"
    using assms(1) by (auto dest: reachable_graph_ok reachable_mode)
  note st = graph_okD(1) [OF ok]
  have n: "get g (tn_id n) = Some n" using get_distinct [OF graph_okD(3) [OF ok] assms(2)] .
  {
    assume "m = Deep"
    then have "audited g n" using structure_okD(7) [OF st _ assms(2,3)] mode by (simp add: requires_gates_def)
    then obtain q where q: "q \<in> nodes g" "tn_is_gate q" "tn_parent q = tn_parent n"
      "tn_id n \<in> set (tn_depends_on q)"
      by (auto simp: audited_def)
    then show "\<exists>!q. q \<in> nodes g \<and> tn_is_gate q \<and> tn_parent q = tn_parent n"
      using structure_okD(6) [OF st] unfolding one_gate_def by metis
    from q n assms(3) show "\<exists>q \<in> nodes g. tn_is_gate q \<and> tn_parent q = tn_parent n \<and> n \<in> set (gate_audit_scope g q)"
      by (auto simp: gate_audit_scope_set)
  }
  {
    assume "m = Light"
    then show "\<forall>q \<in> nodes g. \<not> tn_is_gate q"
      using gates_deep [OF st] mode by (auto simp: requires_gates_def)
  }
  fix p assume "tn_parent n = Some p"
  with st assms(2) obtain c where "c \<in> nodes g" "tn_id c = p" "tn_expanded c" "tn_id n \<in> set (tn_depends_on c)"
    by (rule parent_edge)
  then show "\<exists>c. get g p = Some c \<and> tn_expanded c \<and> tn_id n \<in> set (tn_depends_on c)"
    using get_distinct [OF graph_okD(3) [OF ok]] by blast
qed

lemma deep_work_is_gated_witness:
  "\<exists>q \<in> nodes sample_start. tn_is_gate q \<and> tn_parent q = None"
proof -
  obtain n where "n \<in> nodes sample_start" "\<not> tn_is_gate n" "tn_parent n = None"
  proof -
    have "map (\<lambda>n. (tn_is_gate n, tn_parent n)) (tg_nodes sample_start) = [(False, None), (True, None)]"
      by code_simp
    then obtain n q where "tg_nodes sample_start = [n, q]" "\<not> tn_is_gate n" "tn_parent n = None"
      by (auto simp: map_eq_Cons_conv)
    then show thesis using that [of n] by simp
  qed
  with deep_work_is_gated [OF sample_reachable(1) this(1,2)] show ?thesis by metis
qed

end
