(* ===== verification/Dag_Replay.thy ===== *)
theory Dag_Replay
  imports Dag_Correctness
begin

text \<open>
  Retrying a seed. The doc comment of \<open>seed\<close> promises that replaying an identical seed definition
  is a no-op, so that transport retries are safe. The facts a replay checks (the node still carries
  the declared fields, and its dependencies are the declared ones but for the join edges that
  expansion and injection added) are shown stable under every step of the engine.
\<close>

definition seeded :: "task_graph \<Rightarrow> node_spec \<Rightarrow> bool" where
  "seeded g s \<longleftrightarrow> (\<exists>n. get g (spec_id s) = Some n \<and> seed_spec_matches_existing g n s)"

lemma declared_dependencies_set:
  assumes "structure_ok g" and "n \<in> nodes g"
  shows "set (declared_dependencies g n) =
    {d \<in> set (tn_depends_on n). \<forall>c \<in> nodes g. tn_id c = d \<longrightarrow> tn_parent c \<noteq> Some (tn_id n)}"
proof -
  have "(case get g d of None \<Rightarrow> True | Some c \<Rightarrow> tn_parent c \<noteq> Some (tn_id n)) \<longleftrightarrow>
      (\<forall>c \<in> nodes g. tn_id c = d \<longrightarrow> tn_parent c \<noteq> Some (tn_id n))" for d
  proof (cases "get g d")
    case None
    then have "d \<notin> set (ids g)" by (simp only: get_None_iff) simp
    then have "\<forall>c \<in> nodes g. tn_id c \<noteq> d" by auto
    with None show ?thesis by simp
  next
    case (Some c)
    then have c: "c \<in> nodes g" "tn_id c = d" by (auto dest: get_Some)
    then have "c' = c" if "c' \<in> nodes g" "tn_id c' = d" for c'
      using same_id [OF structure_okD(1) [OF assms(1)] that(1) c(1)] that(2) by simp
    with c have "(\<forall>c \<in> nodes g. tn_id c = d \<longrightarrow> tn_parent c \<noteq> Some (tn_id n)) \<longleftrightarrow> tn_parent c \<noteq> Some (tn_id n)"
      by blast
    with Some show ?thesis by simp
  qed
  then show ?thesis by (simp add: declared_dependencies_def)
qed

text \<open>Declared dependencies survive a step: a kept node keeps them, and what it gains is filtered.\<close>

lemma declared_dependencies_kept:
  assumes ok: "structure_ok g" and ok': "structure_ok g'" and gr: "grows g h news g'"
    and n: "n \<in> nodes g" and own: "joins_own g' n (h n)" and work: "\<not> tn_is_gate n"
  shows "set (declared_dependencies g' (h n)) = set (declared_dependencies g n)"
proof -
  have hn: "h n \<in> nodes g'" "keeps n (h n)" using grows_old [OF gr n] by auto
  have id: "tn_id (h n) = tn_id n" and sub: "set (tn_depends_on n) \<subseteq> set (tn_depends_on (h n))"
    using hn(2) by (auto simp: keeps_def)
  have old: "(\<forall>c \<in> nodes g'. tn_id c = d \<longrightarrow> tn_parent c \<noteq> Some (tn_id n)) \<longleftrightarrow>
      (\<forall>c \<in> nodes g. tn_id c = d \<longrightarrow> tn_parent c \<noteq> Some (tn_id n))" if d: "d \<in> set (tn_depends_on n)" for d
  proof -
    have "d \<in> set (ids g)" using structure_okD(2) [OF ok n] d by blast
    then obtain c where c: "c \<in> nodes g" "tn_id c = d" by auto
    have hc: "h c \<in> nodes g'" "tn_id (h c) = d" "tn_parent (h c) = tn_parent c"
      using grows_old [OF gr c(1)] c(2) by (auto simp: keeps_def)
    have "c' = h c" if "c' \<in> nodes g'" "tn_id c' = d" for c'
      using same_id [OF structure_okD(1) [OF ok'] that(1) hc(1)] that(2) hc(2) by simp
    moreover have "c' = c" if "c' \<in> nodes g" "tn_id c' = d" for c'
      using same_id [OF structure_okD(1) [OF ok] that(1) c(1)] that(2) c(2) by simp
    ultimately show ?thesis using c hc by metis
  qed
  have new: "\<exists>c \<in> nodes g'. tn_id c = d \<and> tn_parent c = Some (tn_id n)"
    if "d \<in> set (tn_depends_on (h n))" "d \<notin> set (tn_depends_on n)" for d
    using own work that by (simp add: joins_own_def)
  show ?thesis
    unfolding declared_dependencies_set [OF ok n] declared_dependencies_set [OF ok' hn(1)] id
    using old new sub by blast
qed

lemma seeded_evolves:
  assumes ok: "structure_ok g" and ok': "structure_ok g'" and ev: "evolves g g'" and s: "seeded g s"
  shows "seeded g' s"
proof -
  from ev obtain h news where gr: "grows g h news g'"
    and own: "\<And>n. n \<in> nodes g \<Longrightarrow> joins_own g' n (h n)"
    by (auto simp: evolves_def)
  from s obtain n where get: "get g (spec_id s) = Some n" and m: "seed_spec_matches_existing g n s"
    by (auto simp: seeded_def)
  have n: "n \<in> nodes g" using get by (auto dest: get_Some)
  have work: "\<not> tn_is_gate n" using m by (simp add: seed_spec_matches_existing_def)
  note decl = declared_dependencies_kept [OF ok ok' gr n own [OF n] work]
  have "keeps n (h n)" using grows_old [OF gr n] by simp
  with m decl have "seed_spec_matches_existing g' (h n) s"
    by (auto simp: seed_spec_matches_existing_def dependency_sets_equal_def keeps_def)
  with grows_get_old [OF gr structure_okD(1) [OF ok] get] show ?thesis by (auto simp: seeded_def)
qed

text \<open>A seed leaves every spec of the request recognisable.\<close>

lemma seeded_after_seed:
  assumes ok: "structure_ok g" and res: "seed_staged g specs = Inr (g', u)"
    and us: "collapse_replays [] specs = Inr us" and s: "s \<in> set us"
  shows "seeded g' s"
proof -
  have ok': "structure_ok g'" and gr: "grows g (if deep g then seed_rewrite (push_all g (seed_news g us)) else id)
      (seed_news g us @ (if deep g then seed_gates (push_all g (seed_news g us)) else [])) g'"
    using structure_ok_seed [OF ok res us] by auto
  from res obtain us' where "collapse_replays [] specs = Inr us'"
    "\<forall>s \<in> set us'. \<forall>n. get g (spec_id s) = Some n \<longrightarrow> seed_spec_matches_existing g n s"
    by (rule seed_staged_Inr)
  with us have old: "\<forall>s \<in> set us. \<forall>n. get g (spec_id s) = Some n \<longrightarrow> seed_spec_matches_existing g n s" by simp
  show ?thesis
  proof (cases "get g (spec_id s)")
    case (Some n)
    with old s have "seeded g s" by (auto simp: seeded_def)
    then show ?thesis by (rule seeded_evolves [OF ok ok' evolves_seed [OF ok res]])
  next
    case None
    let ?n = "spec_to_node s None OriginSeed"
    have "\<not> contains g (spec_id s)" using None by (simp add: get_None_iff contains_iff)
    then have "?n \<in> set (seed_news g us)" using s by (auto simp: seed_news_def child_nodes_def)
    then have n: "?n \<in> nodes g'" using grows_nodes [OF gr] by auto
    have no_child: "tn_parent c \<noteq> Some (tn_id ?n)" if c: "c \<in> nodes g'" for c
    proof
      assume "tn_parent c = Some (tn_id ?n)"
      with ok' c obtain q where "q \<in> nodes g'" "tn_id q = tn_id ?n" "tn_expanded q"
        by (rule parent_edge)
      with same_id [OF structure_okD(1) [OF ok'] _ n] have "tn_expanded ?n" by blast
      then show False by (simp add: spec_to_node_def)
    qed
    then have "set (declared_dependencies g' ?n) = set (ns_depends_on s)"
      unfolding declared_dependencies_set [OF ok' n] by auto
    then have "seed_spec_matches_existing g' ?n s"
      by (simp add: seed_spec_matches_existing_def dependency_sets_equal_def)
    moreover have "get g' (spec_id s) = Some ?n"
      using get_distinct [OF structure_okD(1) [OF ok'] n] by simp
    ultimately show ?thesis by (auto simp: seeded_def)
  qed
qed

lemma ensure_root_gate_idle:
  assumes ok: "structure_ok g" and d: "deep g"
  shows "ensure_root_gate g = g"
proof (cases "root_ids g = []")
  case True
  then show ?thesis by (simp add: ensure_root_gate_def root_ids_def)
next
  case False
  have gate: "\<exists>q \<in> nodes g. is_root_gate q \<and> i \<in> set (tn_depends_on q)" if "i \<in> set (root_ids g)" for i
  proof -
    from that obtain n where n: "n \<in> nodes g" "is_root_work n" "tn_id n = i" by (auto simp: root_ids_def)
    with structure_okD(7) [OF ok d n(1)] obtain q where "q \<in> nodes g" "tn_is_gate q"
      "tn_parent q = None" "i \<in> set (tn_depends_on q)"
      by (auto simp: audited_def is_root_work_def)
    then show ?thesis by (auto simp: is_root_gate_def)
  qed
  have one: "q = r" if "q \<in> nodes g" "r \<in> nodes g" "is_root_gate q" "is_root_gate r" for q r
    using that structure_okD(6) [OF ok] unfolding one_gate_def is_root_gate_def by metis
  from False obtain q0 where "q0 \<in> nodes g" "is_root_gate q0" using gate by (metis list.set_sel(1))
  then obtain q where q: "find is_root_gate (tg_nodes g) = Some q"
    using find_None_iff [of is_root_gate] by (cases "find is_root_gate (tg_nodes g)") auto
  then have qn: "q \<in> nodes g" "is_root_gate q" by (auto simp: find_Some_iff dest: nth_mem)
  have "set (root_ids g) \<subseteq> set (tn_depends_on q)" using gate one qn by blast
  then have w: "widen_gate (root_ids g) q = q" by (simp add: widen_gate_def push_missing_subset)
  have "at_id (tn_id q) (widen_gate (root_ids g)) n = n" if "n \<in> nodes g" for n
    using w same_id [OF structure_okD(1) [OF ok] that qn(1)] by (auto simp: at_id_def)
  then have "map (at_id (tn_id q) (widen_gate (root_ids g))) (tg_nodes g) = tg_nodes g" by (simp add: map_idI)
  then have "get_mut g (tn_id q) (widen_gate (root_ids g)) = g"
    using get_mut_nodes [OF structure_okD(1) [OF ok], of "tn_id q" "widen_gate (root_ids g)"]
    by (simp add: get_mut_def)
  with q False show ?thesis by (simp add: ensure_root_gate_def root_ids_def)
qed

lemma stage_specs_all_seeded: "\<forall>s \<in> set us. seeded g s \<Longrightarrow> stage_specs g g us = Inr g"
  by (induction us) (auto simp: seeded_def)

lemma seed_idle:
  assumes ok: "structure_ok g" and us: "collapse_replays [] specs = Inr us"
    and s: "\<forall>s \<in> set us. seeded g s \<and> set (ns_depends_on s) \<subseteq> spec_id ` set us \<union> set (ids g)"
  shows "seed g specs = (g, Inr ())"
proof -
  have "contains g (spec_id s)" if "s \<in> set us" for s
    using s that get_None_iff [of g "spec_id s"] by (auto simp: seeded_def contains_iff)
  then have "check_dependencies (\<lambda>d. Some d \<in> ns_id ` set us \<or> contains g d) us = Inr ()"
    using s unfolding check_dependencies_Inr contains_iff by blast
  moreover have "cycle_nodes g = []" using structure_okD(3) [OF ok] by (simp add: cycle_nodes_Nil_iff)
  moreover have "stage_specs g g us = Inr g" using s by (intro stage_specs_all_seeded) blast
  moreover have "(if deep g then ensure_root_gate g else g) = g" using ensure_root_gate_idle [OF ok] by simp
  ultimately show ?thesis
    using us by (simp add: seed_def seed_staged_def commit_def check_acyclic_def Let_def)
qed

text \<open>C32. Seeding is idempotent and stays so: after a seed has succeeded on a reachable graph, any
  number of further steps of the engine later, sending the very same request again succeeds and
  changes nothing (no duplicate nodes, no re-opened gate), in both modes.\<close>

theorem seed_replay_is_noop:
  assumes r: "reachable m g" and res: "seed g specs = (g1, Inr ())" and later: "dag_step\<^sup>*\<^sup>* g1 g2"
  shows "seed g2 specs = (g2, Inr ())"
proof -
  have ok: "graph_ok g" using r by (rule reachable_graph_ok)
  have st: "seed_staged g specs = Inr (g1, ())" using res by (simp add: seed_def commit_eq_Inr)
  then obtain us where us: "collapse_replays [] specs = Inr us"
    and deps: "\<forall>s \<in> set us. set (ns_depends_on s) \<subseteq> spec_id ` set us \<union> set (ids g)"
    by (rule seed_staged_Inr)
  have ok1: "graph_ok g1" using ok seed_step [OF res] by (rule graph_ok_step)
  have ids1: "set (ids g) \<subseteq> set (ids g1)"
    using grows_ids [OF structure_ok_seed(2) [OF graph_okD(1) [OF ok] st us]] by simp
  from later have "graph_ok g2 \<and> set (ids g1) \<subseteq> set (ids g2) \<and> (\<forall>s \<in> set us. seeded g2 s)"
  proof (induction rule: rtranclp_induct)
    case base
    show ?case using ok1 seeded_after_seed [OF graph_okD(1) [OF ok] st us] by blast
  next
    case (step g2 g3)
    then have ok2: "graph_ok g2" by blast
    have ev: "structure_ok g3" "evolves g2 g3" using dag_step_evolves [OF ok2 step(2)] by auto
    then have "set (ids g2) \<subseteq> set (ids g3)" by (auto simp: evolves_def grows_ids simp del: set_map)
    with step ev graph_ok_step [OF ok2] seeded_evolves [OF graph_okD(1) [OF ok2] ev] show ?case by blast
  qed
  then have "structure_ok g2" "\<forall>s \<in> set us. seeded g2 s \<and> set (ns_depends_on s) \<subseteq> spec_id ` set us \<union> set (ids g2)"
    using deps ids1 graph_okD(1) by blast+
  then show ?thesis by (intro seed_idle [OF _ us]) auto
qed

lemma sample_steps: "dag_step\<^sup>*\<^sup>* sample_start sample_end"
proof -
  have "dag_step\<^sup>*\<^sup>* g (fold call cs g)" for cs g
  proof (induction cs arbitrary: g)
    case (Cons c cs)
    have "dag_step\<^sup>*\<^sup>* g (call c g)" using call_step [of c g] by auto
    with Cons.IH [of "call c g"] show ?case by simp
  qed simp
  then show ?thesis
    unfolding sample_end_def sample_audit_def sample_running_def by (meson rtranclp_trans)
qed

lemma seed_replay_is_noop_witness: "seed sample_end sample_seed = (sample_end, Inr ())"
proof (rule seed_replay_is_noop [OF reachable.start _ sample_steps])
  have "snd (seed (graph_new Deep) sample_seed) = Inr ()" by code_simp
  then show "seed (graph_new Deep) sample_seed = (sample_start, Inr ())"
    by (simp add: sample_start_def prod_eq_iff)
qed

end
