(* ===== verification/Dag_Contracts.thy ===== *)
theory Dag_Contracts
  imports Dag_Replay
begin

text \<open>
  The contracts of the single calls: progress of the scheduler, exactly when a completion is
  accepted, finality of completed nodes, what expansion and injection leave behind, and when a text
  mentions a node id.
\<close>

section \<open>Scheduling\<close>

lemma ready_if_open:
  assumes st: "structure_ok g" and idle: "\<forall>n \<in> nodes g. tn_status n \<noteq> Running \<and> tn_status n \<noteq> Failed"
    and more: "\<not> all_terminal g"
  shows "ready_nodes g \<noteq> []"
proof -
  have wf: "wf (dep_edges g)" using finite_acyclic_wf [OF dep_edges_finite structure_okD(3) [OF st]] .
  let ?open = "{i. \<exists>n \<in> nodes g. tn_id n = i \<and> tn_status n \<noteq> Done}"
  obtain i0 where "i0 \<in> ?open"
    using more by (auto simp: all_terminal_def node_is_terminal_def list_all_iff)
  then obtain i where i: "i \<in> ?open" and min: "\<And>d. (d, i) \<in> dep_edges g \<Longrightarrow> d \<notin> ?open"
    using wfE_min [OF wf, of i0 ?open] by blast
  from i obtain n where n: "n \<in> nodes g" "tn_id n = i" "tn_status n \<noteq> Done" by blast
  then have q: "tn_status n = Queued" using idle by (metis node_status.exhaust)
  have "\<exists>k. get g d = Some k \<and> tn_status k = Done" if d: "d \<in> set (tn_depends_on n)" for d
  proof -
    have known: "d \<in> set (ids g)" using structure_okD(2) [OF st n(1)] d by blast
    then obtain k where k: "get g d = Some k" using get_None_iff by blast
    have "(d, i) \<in> dep_edges g" using dep_edgeI [OF n(1) d known] n(2) by simp
    with min k show ?thesis by (auto dest: get_Some)
  qed
  then have "is_ready g n" using q by (auto simp: is_ready_def deps_satisfied_iff)
  with n(1) have "n \<in> set (ready_nodes g)" by (simp add: set_ready_nodes)
  then show ?thesis by auto
qed

text \<open>C31. No deadlock: in a reachable graph with nothing running and nothing failed, some node is ready
  to dispatch unless every node is already terminal.\<close>

theorem scheduler_never_stuck:
  assumes "reachable m g" and "\<forall>n \<in> nodes g. tn_status n \<noteq> Running \<and> tn_status n \<noteq> Failed"
    and "\<not> all_terminal g"
  shows "ready_nodes g \<noteq> []"
  using ready_if_open graph_okD(1) [OF reachable_graph_ok [OF assms(1)]] assms(2,3) by blast

lemma scheduler_never_stuck_witness: "ready_nodes sample_start \<noteq> []"
proof (rule scheduler_never_stuck [OF sample_reachable(1)])
  have s: "map tn_status (tg_nodes sample_start) = [Queued, Queued]" by code_simp
  then have q: "set (map tn_status (tg_nodes sample_start)) = {Queued}" by (simp del: set_map)
  then have all: "tn_status n = Queued" if "n \<in> nodes sample_start" for n using that by auto
  then show "\<forall>n \<in> nodes sample_start. tn_status n \<noteq> Running \<and> tn_status n \<noteq> Failed" by simp
  show "\<not> all_terminal sample_start"
    using s by (auto simp: all_terminal_def list_all_iff node_is_terminal_def map_eq_Cons_conv)
qed

text \<open>The ready set is exact and deterministic: it holds the queued nodes whose dependencies are
  all done, each once, in the order of priority and then id, and a dispatch succeeds exactly for the
  ids in it, after which the node runs under its worker and is not ready any more.\<close>

theorem dispatch_exactly_ready:
  assumes "reachable m g"
  shows "sorted (map schedule_key (ready_nodes g)) \<and> distinct (map tn_id (ready_nodes g)) \<and>
    (\<forall>n. n \<in> set (ready_nodes g) \<longleftrightarrow> n \<in> nodes g \<and> tn_status n = Queued \<and>
       (\<forall>d \<in> set (tn_depends_on n). \<exists>k. get g d = Some k \<and> tn_status k = Done)) \<and>
    (snd (dispatch g i w) \<longleftrightarrow> i \<in> tn_id ` set (ready_nodes g)) \<and>
    (snd (dispatch g i w) \<longrightarrow>
       i \<notin> tn_id ` set (ready_nodes (fst (dispatch g i w))) \<and>
       (\<exists>n. get (fst (dispatch g i w)) i = Some n \<and> tn_status n = Running \<and> tn_owner n = Some w))"
proof -
  have dist: "distinct (ids g)" using reachable_graph_ok [OF assms] by (rule graph_okD(3))
  have iff: "snd (dispatch g i w) \<longleftrightarrow> (\<exists>n. get g i = Some n \<and> is_ready g n)"
    by (auto simp: dispatch_def split: option.splits)
  also have "\<dots> \<longleftrightarrow> i \<in> tn_id ` set (ready_nodes g)"
    by (auto simp: set_ready_nodes get_iff [OF dist])
  finally have ex: "snd (dispatch g i w) \<longleftrightarrow> i \<in> tn_id ` set (ready_nodes g)" .
  have run: "\<exists>n. get (fst (dispatch g i w)) i = Some n \<and> tn_status n = Running \<and> tn_owner n = Some w"
    and not_ready: "i \<notin> tn_id ` set (ready_nodes (fst (dispatch g i w)))"
    if d: "snd (dispatch g i w)"
  proof -
    from d iff obtain n where n: "get g i = Some n" "is_ready g n" by blast
    then have g': "fst (dispatch g i w) = get_mut g i (assign_to w)" by (simp add: dispatch_def)
    have k: "keeps n (assign_to w n)" for n by (simp add: keeps_def assign_to_def)
    have gr: "grows g (at_id i (assign_to w)) [] (get_mut g i (assign_to w))"
      by (rule grows_get_mut [OF dist k])
    have dist': "distinct (ids (get_mut g i (assign_to w)))" by (rule grows_distinct [OF gr dist])
    have at: "at_id i (assign_to w) n = assign_to w n" using n(1) by (auto dest: get_Some)
    have get': "get (fst (dispatch g i w)) i = Some (assign_to w n)"
      using grows_get_old [OF gr dist n(1)] at g' by simp
    then show "\<exists>n. get (fst (dispatch g i w)) i = Some n \<and> tn_status n = Running \<and> tn_owner n = Some w"
      by (simp add: assign_to_def)
    show "i \<notin> tn_id ` set (ready_nodes (fst (dispatch g i w)))"
    proof
      assume "i \<in> tn_id ` set (ready_nodes (fst (dispatch g i w)))"
      then obtain n' where "n' \<in> nodes (fst (dispatch g i w))" "tn_id n' = i" "tn_status n' = Queued"
        by (auto simp: set_ready_nodes is_ready_def)
      moreover from this(1,2) get' dist' g' have "n' = assign_to w n"
        by (metis get_distinct option.inject)
      ultimately show False by (simp add: assign_to_def)
    qed
  qed
  show ?thesis
    using ready_nodes_sorted distinct_ready_nodes [OF dist] ex run not_ready
    by (auto simp: set_ready_nodes is_ready_def deps_satisfied_iff)
qed

lemma dispatch_exactly_ready_witness: "snd (dispatch sample_start ''a'' ''w'')"
proof -
  have "''a'' \<in> tn_id ` set (ready_nodes sample_start)"
  proof -
    have "map tn_id (ready_nodes sample_start) = [''a'']" by code_simp
    then have "set (map tn_id (ready_nodes sample_start)) = {''a''}" by (simp del: set_map)
    then show ?thesis by auto
  qed
  then show ?thesis using dispatch_exactly_ready [OF sample_reachable(1), of "''a''" "''w''"] by blast
qed

section \<open>Completion\<close>

lemma complete_Ok_iff:
  "snd (complete_node g i actor a) = Inr () \<longleftrightarrow> (\<exists>g'. complete_staged g i actor a = Inr (g', ()))"
  by (auto simp: complete_node_def commit_def split: sum.splits)

text \<open>C33. When a deep gate may pass: a running gate's completion by its owner is accepted exactly if
  every node of its audit scope is done and named in the findings or open questions of the gate's
  artifact, where a scope of more than twenty nodes exempts those that reported high confidence.\<close>

theorem deep_gate_pass_iff:
  assumes "deep g" and gate: "get g i = Some gate" "tn_is_gate gate"
    and run: "tn_owner gate = Some actor" "tn_status gate = Running"
  shows "snd (complete_node g i actor a) = Inr () \<longleftrightarrow>
    (\<forall>k \<in> set (gate_audit_scope g gate). tn_status k = Done \<and>
       (length (gate_audit_scope g gate) \<le> 20 \<or> output_level k \<noteq> Some High \<longrightarrow> addressed a (tn_id k)))"
proof -
  let ?scope = "gate_audit_scope g gate"
  have "snd (complete_node g i actor a) = Inr () \<longleftrightarrow> validate_gate_pass g i a = Inr ()"
    unfolding complete_Ok_iff complete_staged_Inr using assms by (simp add: validate_artifact_def)
  also have "\<dots> \<longleftrightarrow> (\<forall>k \<in> set ?scope. tn_status k = Done \<and>
       (length ?scope \<le> 20 \<or> output_level k \<noteq> Some High \<longrightarrow> addressed a (tn_id k)))"
  proof (cases "?scope = []")
    case True
    then show ?thesis using gate by (simp add: validate_gate_pass_def)
  next
    case False
    have "validate_gate_pass g i a = Inr () \<longleftrightarrow>
       filter (\<lambda>n. \<not> is_done n) ?scope = [] \<and>
       filter (\<lambda>n. \<not> addressed a (tn_id n)) (filter (\<lambda>n. output_level n = Some Low) ?scope) = [] \<and>
       (if length ?scope \<le> 20 then filter (\<lambda>n. \<not> addressed a (tn_id n)) ?scope = []
        else filter (\<lambda>n. \<not> addressed a (tn_id n)) (filter (\<lambda>n. output_level n \<noteq> Some High) ?scope) = [])"
      using False gate by (simp add: validate_gate_pass_def Let_def gate_coverage_enumeration_cap_def)
    also have "\<dots> \<longleftrightarrow> (\<forall>k \<in> set ?scope. tn_status k = Done \<and>
       (length ?scope \<le> 20 \<or> output_level k \<noteq> Some High \<longrightarrow> addressed a (tn_id k)))"
      by (auto simp: filter_empty_conv is_done_def)
    finally show ?thesis .
  qed
  finally show ?thesis .
qed

lemma deep_gate_pass_iff_witness:
  "snd (complete_node sample_audit ''plan::gate'' ''v'' (brief ''audited a.'')) = Inr () \<and>
   snd (complete_node sample_audit ''plan::gate'' ''v'' (brief ''all good'')) \<noteq> Inr ()"
proof -
  have "(case get sample_audit ''plan::gate'' of None \<Rightarrow> False | Some q \<Rightarrow>
      tn_is_gate q \<and> tn_owner q = Some ''v'' \<and> tn_status q = Running \<and>
      map tn_id (gate_audit_scope sample_audit q) = [''a''] \<and>
      map tn_status (gate_audit_scope sample_audit q) = [Done])"
    by code_simp
  then obtain q k where q: "get sample_audit ''plan::gate'' = Some q" "tn_is_gate q" "tn_owner q = Some ''v''"
      "tn_status q = Running" and k: "gate_audit_scope sample_audit q = [k]" "tn_id k = ''a''" "tn_status k = Done"
    by (auto simp: map_eq_Cons_conv split: option.splits)
  have d: "deep sample_audit" by code_simp
  have "addressed (brief ''audited a.'') ''a''" "\<not> addressed (brief ''all good'') ''a''" by code_simp+
  with deep_gate_pass_iff [OF d q] k show ?thesis by simp
qed

text \<open>When work may be completed: the owner's completion of a running non-gate node is accepted in
  light mode whatever the artifact, and in deep mode exactly if the findings are not blank, something
  is declared unchecked and the confidence text parses.\<close>

theorem work_completion_iff:
  assumes "get g i = Some n" and "\<not> tn_is_gate n" and "tn_owner n = Some actor" and "tn_status n = Running"
  shows "snd (complete_node g i actor a) = Inr () \<longleftrightarrow>
    (tg_mode g = Deep \<longrightarrow> trim (ha_findings a) \<noteq> [] \<and> ha_what_i_did_not_check a \<noteq> [] \<and>
       artifact_confidence_level a \<noteq> None)"
  unfolding complete_Ok_iff complete_staged_Inr using assms
  by (cases "tg_mode g") (auto simp: validate_artifact_def requires_gates_def)

lemma work_completion_iff_witness:
  "snd (complete_node sample_running ''a'' ''w'' sample_artifact) = Inr () \<and>
   snd (complete_node sample_running ''a'' ''w'' (brief ''done'')) \<noteq> Inr ()"
proof -
  have "(case get sample_running ''a'' of None \<Rightarrow> False | Some n \<Rightarrow>
      \<not> tn_is_gate n \<and> tn_owner n = Some ''w'' \<and> tn_status n = Running)" by code_simp
  then obtain n where n: "get sample_running ''a'' = Some n" "\<not> tn_is_gate n" "tn_owner n = Some ''w''"
    "tn_status n = Running" by (auto split: option.splits)
  have "trim (ha_findings sample_artifact) \<noteq> [] \<and> ha_what_i_did_not_check sample_artifact \<noteq> [] \<and>
      artifact_confidence_level sample_artifact \<noteq> None" by code_simp
  moreover have "tg_mode sample_running = Deep" "ha_what_i_did_not_check (brief ''done'') = []" by code_simp+
  ultimately show ?thesis using work_completion_iff [OF n] by simp
qed

text \<open>C34. Completed work is final: once a node other than the root gate is done, no later call of any
  kind changes it in any field (its artifact stays what dependents were given). Only the root gate
  is ever reopened.\<close>

theorem done_is_final:
  assumes r: "reachable m g" and n: "n \<in> nodes g" "tn_status n = Done" "\<not> is_root_gate n"
    and later: "dag_step\<^sup>*\<^sup>* g g'"
  shows "get g' (tn_id n) = Some n"
proof -
  have "graph_ok g' \<and> get g' (tn_id n) = Some n"
    using later
  proof (induction rule: rtranclp_induct)
    case base
    show ?case using reachable_graph_ok [OF r] get_distinct [OF _ n(1)] graph_okD(3) by blast
  next
    case (step g1 g2)
    then have ok: "graph_ok g1" and get: "get g1 (tn_id n) = Some n" by auto
    obtain h news where gr: "grows g1 h news g2" and ns: "\<forall>n \<in> nodes g1. node_step g1 n (h n)"
      using dag_step_evolves [OF ok step(2)] unfolding evolves_def by blast
    have "n \<in> nodes g1" using get by (auto dest: get_Some)
    then have "h n = n" using ns done_stays n(2,3) by blast
    then show ?case
      using grows_get_old [OF gr graph_okD(3) [OF ok] get] graph_ok_step [OF ok step(2)] by simp
  qed
  then show ?thesis ..
qed

lemma done_is_final_witness:
  "\<exists>n. tn_id n = ''a'' \<and> tn_status n = Done \<and> get (fold call [Fail ''plan::gate'' ''v''] sample_audit) ''a'' = Some n"
proof -
  have "map (\<lambda>n. (tn_id n, tn_status n, tn_is_gate n)) (tg_nodes sample_audit) =
      [(''a'', Done, False), (''plan::gate'', Running, True)]" by code_simp
  then obtain n q where "tg_nodes sample_audit = [n, q]" "tn_id n = ''a''" "tn_status n = Done" "\<not> tn_is_gate n"
    by (auto simp: map_eq_Cons_conv)
  then have n: "n \<in> nodes sample_audit" "tn_id n = ''a''" "tn_status n = Done" "\<not> is_root_gate n"
    by (simp_all add: is_root_gate_def)
  have "dag_step\<^sup>*\<^sup>* sample_audit (fold call [Fail ''plan::gate'' ''v''] sample_audit)"
    using call_step [of "Fail ''plan::gate'' ''v''" sample_audit] by auto
  from done_is_final [OF sample_reachable(3) n(1,3,4) this] n show ?thesis by auto
qed

section \<open>Expansion and injection\<close>

lemma not_satisfied_if_pending:
  "get g d = Some k \<Longrightarrow> tn_status k \<noteq> Done \<Longrightarrow> d \<in> set (tn_depends_on n) \<Longrightarrow> \<not> deps_satisfied g n"
  unfolding deps_satisfied_iff by force

lemma grows_get_new:
  assumes "grows g h news g'" and "distinct (ids g)" and "m \<in> set news"
  shows "get g' (tn_id m) = Some m"
proof (rule get_distinct)
  show "distinct (ids g')" by (rule grows_distinct [OF assms(1,2)])
  show "m \<in> nodes g'" using grows_nodes [OF assms(1)] assms(3) by blast
qed

text \<open>What an expansion leaves behind: the owner's expansion of a running work node turns it into a
  queued join that keeps its old dependencies and waits for every child and, in deep mode, for a
  gate with an id that was free, which depends on exactly the children; the children hang under the
  node, queued, with the dependencies their specs declare; and the join itself cannot be dispatched
  yet.\<close>

theorem expand_contract:
  assumes r: "reachable m g" and res: "expand_node g i actor children = (g', Inr out)"
  shows "\<exists>n p. get g i = Some n \<and> tn_owner n = Some actor \<and> tn_status n = Running \<and> \<not> tn_is_gate n \<and>
    get g' i = Some p \<and> tn_expanded p \<and> tn_status p = Queued \<and> tn_owner p = None \<and>
    tn_planner p = (if tn_planner n = None then Some actor else tn_planner n) \<and>
    eo_child_ids out = map spec_id children \<and>
    set (tn_depends_on p) = set (tn_depends_on n) \<union> set (eo_child_ids out) \<union> set_option (eo_gate_id out) \<and>
    (\<forall>s \<in> set children. \<exists>c. get g' (spec_id s) = Some c \<and> tn_parent c = Some i \<and> tn_status c = Queued \<and>
       \<not> tn_is_gate c \<and> set (tn_depends_on c) = set (ns_depends_on s)) \<and>
    (m = Light \<longrightarrow> eo_gate_id out = None) \<and>
    (m = Deep \<longrightarrow> (\<exists>gid q. eo_gate_id out = Some gid \<and> gid \<notin> set (ids g) \<union> set (eo_child_ids out) \<and>
       get g' gid = Some q \<and> tn_is_gate q \<and> tn_parent q = Some i \<and> tn_depends_on q = eo_child_ids out)) \<and>
    \<not> snd (dispatch g' i w)"
proof -
  note ok = graph_okD(1) [OF reachable_graph_ok [OF r]]
  note dist = structure_okD(1) [OF ok]
  have mode: "deep g \<longleftrightarrow> m = Deep" using reachable_mode [OF r] by (simp add: requires_gates_def)
  from res have st: "expand_staged g i actor children = Inr (g', out)"
    by (simp add: expand_node_def commit_eq_Inr)
  from ok st obtain n where n: "get g i = Some n" "tn_owner n = Some actor" "\<not> tn_is_gate n" "\<not> tn_expanded n"
      "tn_status n = Running" and ne: "children \<noteq> []"
    and out: "eo_child_ids out = map spec_id children"
      "eo_gate_id out = (if deep g then Some (tn_id (hd (expand_gates g n children))) else None)"
    by (rule expand_staged_Inr)
  let ?gs = "expand_gates g n children"
  let ?f = "make_composite (map spec_id children @ map tn_id ?gs)"
  let ?news = "child_nodes (Some i) OriginExpand children @ ?gs"
  have gr: "grows g (at_id i ?f) ?news g'" using structure_ok_expand(2) [OF ok st] n(1) by auto
  have ni: "tn_id n = i" using n(1) by (auto dest: get_Some)
  have p: "get g' i = Some (?f n)" using grows_get_old [OF gr dist n(1)] ni by (simp add: at_id_def)
  have gate_id: "set_option (eo_gate_id out) = tn_id ` set ?gs"
    using out(2) by (auto simp: expand_gates_def)
  have child: "\<exists>c. get g' (spec_id s) = Some c \<and> tn_parent c = Some i \<and> tn_status c = Queued \<and>
       \<not> tn_is_gate c \<and> set (tn_depends_on c) = set (ns_depends_on s)" if s: "s \<in> set children" for s
    using grows_get_new [OF gr dist, of "spec_to_node s (Some i) OriginExpand"] s
    by (auto simp: child_nodes_def intro!: exI [of _ "spec_to_node s (Some i) OriginExpand"])
      (simp add: spec_to_node_def)
  have gate: "\<exists>gid q. eo_gate_id out = Some gid \<and> gid \<notin> set (ids g) \<union> set (eo_child_ids out) \<and>
       get g' gid = Some q \<and> tn_is_gate q \<and> tn_parent q = Some i \<and> tn_depends_on q = eo_child_ids out" if "deep g"
  proof -
    let ?q = "hd ?gs"
    have q: "?gs = [?q]" using that by (simp add: expand_gates_def)
    have "tn_id ?q \<notin> set (ids g) \<union> set (map spec_id children)"
      using unique_gate_id_fresh [of "push_all g (child_nodes (Some i) OriginExpand children)" i] that ni
      by (auto simp: expand_gates_def image_Un)
    moreover have "get g' (tn_id ?q) = Some ?q"
      using grows_get_new [OF gr dist, of ?q] q by (metis Un_iff list.set_intros(1) set_append)
    ultimately show ?thesis using that out ni by (auto simp: expand_gates_def)
  qed
  have "\<not> deps_satisfied g' (?f n)"
  proof -
    obtain s where s: "s \<in> set children" using ne by (cases children) auto
    from child [OF s] obtain c where "get g' (spec_id s) = Some c" "tn_status c = Queued" by blast
    then show ?thesis using s by (intro not_satisfied_if_pending) (auto simp: make_composite_def)
  qed
  then have nd: "\<not> snd (dispatch g' i w)" using p by (simp add: dispatch_def is_ready_def)
  show ?thesis
    by (rule exI [of _ n], rule exI [of _ "?f n"])
      (use n p child gate gate_id out mode nd in \<open>auto simp: make_composite_def\<close>)
qed

definition sample_children :: "node_spec list" where
  "sample_children = [node_spec_new ''c'' ''part'' Explore, spec_depends_on (node_spec_new ''d'' ''rest'' Explore) [''c'']]"

definition sample_expanded :: task_graph where
  "sample_expanded = fold call [Expand ''a'' ''w'' sample_children] sample_running"

lemma expand_contract_witness: "\<not> snd (dispatch sample_expanded ''a'' ''w'')"
proof -
  let ?r = "expand_node sample_running ''a'' ''w'' sample_children"
  have "isl (snd ?r) = False" by code_simp
  then have "?r = (sample_expanded, Inr (projr (snd ?r)))"
    by (simp add: prod_eq_iff sample_expanded_def)
  then show ?thesis using expand_contract [OF sample_reachable(2), of "''a''"] by blast
qed

text \<open>What an injection leaves behind: a running gate that injects nodes goes back to the queue
  without an owner and waits for all of them besides its old scope, the new nodes are its siblings
  under the same composite, the composite waits for them too, and the gate cannot be dispatched
  again while one of them is not done.\<close>

theorem inject_contract:
  assumes r: "reachable m g" and res: "inject_from_gate g i actor specs = (g', Inr new_ids)"
  shows "\<exists>q q'. get g i = Some q \<and> tn_is_gate q \<and> tn_owner q = Some actor \<and> tn_status q = Running \<and>
    new_ids = map spec_id specs \<and> new_ids \<noteq> [] \<and> ids g' = ids g @ new_ids \<and>
    get g' i = Some q' \<and> tn_status q' = Queued \<and> tn_owner q' = None \<and>
    set (tn_depends_on q') = set (tn_depends_on q) \<union> set new_ids \<and>
    (\<forall>s \<in> set specs. \<exists>c. get g' (spec_id s) = Some c \<and> tn_parent c = tn_parent q \<and> tn_status c = Queued \<and>
       \<not> tn_is_gate c \<and> set (tn_depends_on c) = set (ns_depends_on s)) \<and>
    (\<forall>p. tn_parent q = Some p \<longrightarrow>
       (\<exists>n n'. get g p = Some n \<and> get g' p = Some n' \<and> set (tn_depends_on n') = set (tn_depends_on n) \<union> set new_ids)) \<and>
    \<not> snd (dispatch g' i w)"
proof -
  note ok = graph_okD(1) [OF reachable_graph_ok [OF r]]
  note dist = structure_okD(1) [OF ok]
  from res have st: "inject_staged g i actor specs = Inr (g', new_ids)"
    by (simp add: inject_from_gate_def commit_eq_Inr)
  from ok st obtain q where q: "get g i = Some q" "tn_owner q = Some actor" "tn_is_gate q" "tn_status q = Running"
    and ne: "specs \<noteq> []" and new: "new_ids = map spec_id specs"
    by (rule inject_staged_Inr)
  let ?h = "inject_rewrite i (tn_parent q) new_ids"
  have gr: "grows g ?h (child_nodes (tn_parent q) OriginGap specs) g'"
    using structure_ok_inject(2) [OF ok st] q(1) new by auto
  have qi: "q \<in> nodes g" "tn_id q = i" using q(1) by (auto dest: get_Some)
  have parent: "\<exists>n. n \<in> nodes g \<and> get g p = Some n \<and> tn_id n = p \<and> p \<noteq> i" if "tn_parent q = Some p" for p
  proof -
    from ok qi(1) that obtain n where n: "n \<in> nodes g" "tn_id n = p" "\<not> tn_is_gate n" by (rule parent_edge)
    moreover have "get g p = Some n" using get_distinct [OF dist n(1)] n(2) by simp
    ultimately show ?thesis using q(1,3) by auto
  qed
  have "?h q = requeue_gate new_ids q"
    using qi parent by (auto simp: inject_rewrite_def at_id_def requeue_gate_def split: option.splits)
  then have q': "get g' i = Some (requeue_gate new_ids q)" using grows_get_old [OF gr dist q(1)] by simp
  have child: "\<exists>c. get g' (spec_id s) = Some c \<and> tn_parent c = tn_parent q \<and> tn_status c = Queued \<and>
       \<not> tn_is_gate c \<and> set (tn_depends_on c) = set (ns_depends_on s)" if s: "s \<in> set specs" for s
    using grows_get_new [OF gr dist, of "spec_to_node s (tn_parent q) OriginGap"] s
    by (auto simp: child_nodes_def intro!: exI [of _ "spec_to_node s (tn_parent q) OriginGap"])
      (simp add: spec_to_node_def)
  have par: "\<exists>n n'. get g p = Some n \<and> get g' p = Some n' \<and> set (tn_depends_on n') = set (tn_depends_on n) \<union> set new_ids"
    if p: "tn_parent q = Some p" for p
  proof -
    from parent [OF p] obtain n where n: "get g p = Some n" "tn_id n = p" "p \<noteq> i" by blast
    have "?h n = add_deps new_ids n" using p n by (simp add: inject_rewrite_def at_id_def)
    with grows_get_old [OF gr dist n(1)] n(1) show ?thesis by (simp add: add_deps_def)
  qed
  have "\<not> deps_satisfied g' (requeue_gate new_ids q)"
  proof -
    obtain s where s: "s \<in> set specs" using ne by (cases specs) auto
    from child [OF s] obtain c where "get g' (spec_id s) = Some c" "tn_status c = Queued" by blast
    then show ?thesis using s new by (intro not_satisfied_if_pending) (auto simp: requeue_gate_def)
  qed
  then have nd: "\<not> snd (dispatch g' i w)" using q' by (simp add: dispatch_def is_ready_def)
  have ids': "ids g' = ids g @ new_ids" using grows_ids [OF gr] new by simp
  show ?thesis
    by (rule exI [of _ q], rule exI [of _ "requeue_gate new_ids q"])
      (use q q' child par nd ids' ne new in \<open>auto simp: requeue_gate_def\<close>)
qed

lemma inject_contract_witness:
  "\<not> snd (dispatch (fold call [Inject ''plan::gate'' ''v'' [node_spec_new ''gap'' ''more'' Explore]] sample_audit) ''plan::gate'' ''v'')"
proof -
  let ?r = "inject_from_gate sample_audit ''plan::gate'' ''v'' [node_spec_new ''gap'' ''more'' Explore]"
  have "isl (snd ?r) = False" by code_simp
  then have "?r = (fst ?r, Inr (projr (snd ?r)))" by (simp add: prod_eq_iff)
  from inject_contract [OF sample_reachable(3) this] show ?thesis by auto
qed

end
