(* ===== verification/Dag_Text.thy ===== *)
theory Dag_Text
  imports Dag_Contracts
begin

text \<open>
  The text the engine reads: cycle reports, mentions of node ids in gate artifacts, the confidence
  parser on numbers, and the assembled worker input.
\<close>

section \<open>Cycle reports\<close>

text \<open>C35. The cycle detector is exact: on any node list, well-formed or not, it returns in byte order
  the ids that lie on a dependency cycle or downstream of one, and nothing exactly when the
  dependencies are acyclic.\<close>

theorem cycle_nodes_exact:
  "set (cycle_nodes g) = {x. \<exists>y. (y, y) \<in> (dep_edges g)\<^sup>+ \<and> (y, x) \<in> (dep_edges g)\<^sup>*} \<and>
   sorted (cycle_nodes g) \<and> (cycle_nodes g = [] \<longleftrightarrow> acyclic (dep_edges g))"
  by (simp add: cycle_nodes_set on_or_below_cycle_def cycle_nodes_sorted cycle_nodes_Nil_iff)

section \<open>Mentions of node ids\<close>

definition ends_mention :: "string \<Rightarrow> bool" where
  "ends_mention v \<longleftrightarrow> (case v of
      [] \<Rightarrow> True
    | c # rest \<Rightarrow> if c = CHR ''.'' \<or> c = CHR '':'' then rest = [] \<or> \<not> is_id_char (hd rest)
        else \<not> is_id_char c)"

lemma mention_at_iff:
  "mention_at text i k \<longleftrightarrow>
   (k = 0 \<or> \<not> is_id_char (last (take k text))) \<and> ends_mention (drop (k + length i) text)"
  by (auto simp: mention_at_def ends_mention_def Let_def split: list.splits)

definition mention_from :: "string \<Rightarrow> string \<Rightarrow> nat \<Rightarrow> bool" where
  "mention_from text i start \<longleftrightarrow>
     (\<exists>k. start \<le> k \<and> k \<le> length text \<and> prefix i (drop k text) \<and> mention_at text i k)"

lemma mentions_from_iff:
  assumes "i \<noteq> []" and "byte (hd i) < 128"
  shows "mentions_from text i start = mention_from text i start"
proof (induction "length text - start" arbitrary: start rule: less_induct)
  case less
  show ?case
  proof (cases "str_find (drop start text) i")
    case None
    have "\<not> prefix i (drop k text)" if "start \<le> k" "k \<le> length text" for k
    proof -
      have "k - start \<le> length (drop start text)" using that by simp
      then have "\<not> prefix i (drop (k - start) (drop start text))" using None str_find_None by blast
      with that show ?thesis by simp
    qed
    with None show ?thesis by (subst mentions_from.simps) (auto simp: mention_from_def)
  next
    case (Some pos)
    let ?b = "start + pos"
    have at: "prefix i (drop ?b text)" using str_find_Some_prefix [OF Some] by (simp add: add.commute)
    have least: "\<not> prefix i (drop k text)" if "start \<le> k" "k < ?b" for k
      using str_find_Some_least [OF Some, of "k - start"] that by simp
    obtain c cs where i: "i = c # cs" using assms(1) by (cases i) auto
    with at obtain rest where d: "drop ?b text = c # rest" by (auto elim: prefixE)
    then have b: "?b < length text" by (metis drop_eq_Nil leI list.distinct(1))
    have step: "len_utf8 c = 1" using assms(2) i by (simp add: len_utf8_def)
    show ?thesis
    proof (cases "mention_at text i ?b")
      case True
      then have "mention_from text i start" using at b unfolding mention_from_def by (intro exI [of _ ?b]) simp
      with Some True show ?thesis by (subst mentions_from.simps) (simp add: Let_def)
    next
      case False
      have later: "mention_from text i start \<longleftrightarrow> mention_from text i (Suc ?b)"
      proof
        assume "mention_from text i start"
        then obtain k where k: "start \<le> k" "k \<le> length text" "prefix i (drop k text)" "mention_at text i k"
          by (auto simp: mention_from_def)
        with least False have "Suc ?b \<le> k" by (metis Suc_leI linorder_neqE_nat)
        with k show "mention_from text i (Suc ?b)" by (auto simp: mention_from_def)
      qed (unfold mention_from_def, meson Suc_leD add_leD1)
      have rec: "mentions_from text i start =
          (if length text \<le> Suc ?b then False else mentions_from text i (Suc ?b))"
        using Some False d step by (subst mentions_from.simps) (simp add: Let_def)
      show ?thesis
      proof (cases "length text \<le> Suc ?b")
        case True
        have "\<not> mention_from text i (Suc ?b)"
          using True assms(1) by (auto simp: mention_from_def)
        with rec True later show ?thesis by simp
      next
        case False
        with less [of "Suc ?b"] b rec later show ?thesis by simp
      qed
    qed
  qed
qed

text \<open>What counts as naming a node: for an id that starts with an ASCII character, the scan finds a
  mention exactly if the id stands somewhere in the text with no id character before it and, after
  it, the end of the text, a character that cannot continue an id, or a dot or colon that no id
  character follows. An id inside a longer id is never taken for a mention.\<close>

theorem mentions_node_id_iff:
  assumes "i \<noteq> []" and "byte (hd i) < 128"
  shows "mentions_node_id text i \<longleftrightarrow>
    (\<exists>u v. text = u @ i @ v \<and> (u = [] \<or> \<not> is_id_char (last u)) \<and> ends_mention v)"
proof -
  have "mentions_node_id text i \<longleftrightarrow> mention_from text i 0"
    using assms by (simp add: mentions_node_id_def mentions_from_iff)
  also have "\<dots> \<longleftrightarrow> (\<exists>u v. text = u @ i @ v \<and> (u = [] \<or> \<not> is_id_char (last u)) \<and> ends_mention v)"
  proof
    assume "mention_from text i 0"
    then obtain k where k: "k \<le> length text" "prefix i (drop k text)" "mention_at text i k"
      by (auto simp: mention_from_def)
    from k(2) obtain v where v: "drop k text = i @ v" by (auto elim: prefixE)
    then have whole: "text = take k text @ i @ v" by (metis append_take_drop_id)
    have "drop (k + length i) text = v"
      using v by (metis add.commute append_eq_conv_conj drop_drop)
    with k(1,3) have "(take k text = [] \<or> \<not> is_id_char (last (take k text))) \<and> ends_mention v"
      by (auto simp: mention_at_iff)
    with whole show "\<exists>u v. text = u @ i @ v \<and> (u = [] \<or> \<not> is_id_char (last u)) \<and> ends_mention v" by blast
  next
    assume "\<exists>u v. text = u @ i @ v \<and> (u = [] \<or> \<not> is_id_char (last u)) \<and> ends_mention v"
    then obtain u v where t: "text = u @ i @ v" "u = [] \<or> \<not> is_id_char (last u)" "ends_mention v" by blast
    then have "mention_at text i (length u)" by (auto simp: mention_at_iff)
    with t(1) show "mention_from text i 0"
      unfolding mention_from_def by (intro exI [of _ "length u"]) simp
  qed
  finally show ?thesis .
qed

lemma mentions_node_id_iff_witness:
  "mentions_node_id ''checked node.a.'' ''node.a'' \<and> \<not> mentions_node_id ''node.a.b'' ''node.a''"
proof -
  have "mentions_node_id ''checked node.a.'' ''node.a''"
    by (rule mentions_node_id_iff [THEN iffD2], simp, code_simp, rule exI [of _ "''checked ''"],
        rule exI [of _ "''.''"]) code_simp
  moreover have "\<not> mentions_node_id ''node.a.b'' ''node.a''" by code_simp
  ultimately show ?thesis by blast
qed

section \<open>Numeric confidence\<close>

lemma byte_digit_char: "d < 10 \<Longrightarrow> byte (digit_char d) = 48 + d"
  by (simp add: byte_def digit_char_def)

lemma show_nat_digits: "c \<in> set (show_nat n) \<Longrightarrow> is_ascii_digit c"
proof (induction n rule: show_nat.induct)
  case (1 n)
  show ?case
  proof (cases "n < 10")
    case True
    with 1(2) show ?thesis by (simp add: show_nat.simps [of n] is_ascii_digit_def byte_digit_char)
  next
    case False
    with 1(2) have "c \<in> set (show_nat (n div 10)) \<or> c = digit_char (n mod 10)"
      by (auto simp: show_nat.simps [of n])
    with 1(1) False show ?thesis by (auto simp: is_ascii_digit_def byte_digit_char)
  qed
qed

lemma digits_value_append: "digits_value acc (s @ t) = digits_value (digits_value acc s) t"
  by (induction acc s rule: digits_value.induct) auto

lemma digits_value_show: "digits_value 0 (show_nat n) = n"
proof (induction n rule: show_nat.induct)
  case (1 n)
  show ?case
  proof (cases "n < 10")
    case True
    then show ?thesis by (simp add: show_nat.simps [of n] byte_digit_char)
  next
    case False
    with 1 show ?thesis by (simp add: show_nat.simps [of n] digits_value_append byte_digit_char)
  qed
qed

lemma str_contains_chars: "str_contains s p \<Longrightarrow> set p \<subseteq> set s"
  by (auto simp: str_contains_iff)

lemma strip_one_other:
  assumes "list_all (\<lambda>w. w \<noteq> [] \<and> \<not> (32 < byte (hd w) \<and> byte (hd w) < 128)) ws"
    and "32 < byte c" and "byte c < 128"
  shows "strip_one ws (c # cs) = None"
  using assms by (auto simp: strip_one_def find_None_iff list_all_iff prefix_Cons)

lemma strip_one_plain:
  assumes "32 < byte c" and "byte c < 128"
  shows "strip_one ws_chars (c # cs) = None" and "strip_one (map rev ws_chars) (c # cs) = None"
proof -
  have "list_all (\<lambda>w. w \<noteq> [] \<and> \<not> (32 < byte (hd w) \<and> byte (hd w) < 128)) ws_chars"
    "list_all (\<lambda>w. w \<noteq> [] \<and> \<not> (32 < byte (hd w) \<and> byte (hd w) < 128)) (map rev ws_chars)"
    by code_simp+
  then show "strip_one ws_chars (c # cs) = None" and "strip_one (map rev ws_chars) (c # cs) = None"
    using strip_one_other assms by blast+
qed

lemma trim_plain:
  assumes "s \<noteq> []" and "32 < byte (hd s)" "byte (hd s) < 128" and "32 < byte (last s)" "byte (last s) < 128"
  shows "trim s = s"
proof -
  have "strip_one ws_chars s = None" using assms(1-3) by (cases s) (auto simp: strip_one_plain)
  moreover have "strip_one (map rev ws_chars) (rev s) = None"
    using assms(1,4,5) by (cases s rule: rev_cases) (auto simp: strip_one_plain)
  ultimately show ?thesis by (simp add: trim_def trim_start_def trim_end_def strip_start_fix)
qed

definition percent_text :: "nat \<Rightarrow> string" where
  "percent_text n = show_nat n @ ''%''"

lemma percent_chars: "c \<in> set (percent_text n) \<Longrightarrow> is_ascii_digit c \<or> c = CHR ''%''"
  using show_nat_digits by (auto simp: percent_text_def)

lemma percent_no_word:
  assumes "\<exists>c \<in> set p. \<not> is_ascii_digit c \<and> c \<noteq> CHR ''%''"
  shows "\<not> str_contains (percent_text n) p"
  using assms percent_chars str_contains_chars by blast

lemma percent_normal: "to_ascii_lowercase (trim (percent_text n)) = percent_text n"
proof -
  have digit: "48 \<le> byte c \<and> byte c \<le> 57" if "c \<in> set (show_nat n)" for c
    using show_nat_digits [OF that] by (simp add: is_ascii_digit_def)
  have "hd (percent_text n) \<in> set (show_nat n)" by (simp add: percent_text_def)
  then have "trim (percent_text n) = percent_text n"
    using digit [of "hd (percent_text n)"]
    by (intro trim_plain) (auto simp: percent_text_def byte_def)
  moreover have "ascii_lower c = c" if "c \<in> set (percent_text n)" for c
    using percent_chars [OF that] by (auto simp: ascii_lower_def is_ascii_digit_def byte_def)
  ultimately show ?thesis by (simp add: to_ascii_lowercase_def map_idI)
qed

lemma percent_number:
  assumes "n < 2 ^ 53"
  shows "extract_leading_number (percent_text n) = Some (Finite (of_nat n), show_nat n, ''%'')"
proof -
  have num: "is_number_char c" if "c \<in> set (show_nat n)" for c
    using show_nat_digits [OF that] by (simp add: is_number_char_def)
  have pc: "\<not> is_number_char (CHR ''%'')" by (simp add: is_number_char_def is_ascii_digit_def byte_def)
  have drop: "dropWhile (\<lambda>c. \<not> is_number_char c) (percent_text n) = percent_text n"
    using num by (cases "show_nat n") (auto simp: percent_text_def)
  have take: "takeWhile is_number_char (percent_text n) = show_nat n"
    using num pc by (auto simp: percent_text_def takeWhile_append)
  have tw: "takeWhile is_ascii_digit (show_nat n) = show_nat n"
    using show_nat_digits takeWhile_eq_all_conv by blast
  have dw: "dropWhile is_ascii_digit (show_nat n) = []"
    using show_nat_digits dropWhile_eq_Nil_conv by blast
  have "parse_f64 (show_nat n) = Some (Finite (of_nat n))"
    unfolding parse_f64_def tw dw Let_def by (simp add: digits_value_show round_f64_nat [OF assms])
  moreover have "percent_text n \<noteq> []" by (simp add: percent_text_def)
  ultimately show ?thesis
    by (simp add: extract_leading_number_def drop take Let_def) (simp add: percent_text_def)
qed

text \<open>Percentages are read as documented: a bare percentage of any size below \<open>2^53\<close> is Low below
  50, Medium from 50 to 79 and High from 80 on (in floating point, no rounding interferes).\<close>

theorem confidence_parse_percent:
  assumes "n < 2 ^ 53"
  shows "confidence_parse (percent_text n) = Some (if n < 50 then Low else if n < 80 then Medium else High)"
proof -
  note word = percent_no_word [of _ n]
  have letters: "\<not> is_ascii_digit (CHR ''n'')" "\<not> is_ascii_digit (CHR ''u'')" "\<not> is_ascii_digit (CHR ''l'')"
    "\<not> is_ascii_digit (CHR ''m'')" "\<not> is_ascii_digit (CHR ''h'')" "\<not> is_ascii_digit (CHR ''c'')"
    by (simp_all add: is_ascii_digit_def byte_def)
  have neg: "\<not> list_ex (str_contains (percent_text n)) negations"
    using letters by (auto simp: negations_def intro!: word)
  have words: "\<not> str_contains (percent_text n) ''low''" "\<not> str_contains (percent_text n) ''med''"
    "\<not> str_contains (percent_text n) ''moderate''" "\<not> str_contains (percent_text n) ''high''"
    "\<not> str_contains (percent_text n) ''certain''" "\<not> str_contains (percent_text n) ''confident''"
    using letters by (auto intro!: word)
  have pct: "str_contains (percent_text n) ''%''" by (auto simp: percent_text_def str_contains_iff)
  have den: "score_denominator (trim_start ''%'') = None" by code_simp
  have "f64_lt (Finite (of_nat n)) (Finite 50) \<longleftrightarrow> n < 50" "f64_lt (Finite (of_nat n)) (Finite 80) \<longleftrightarrow> n < 80"
    using of_nat_less_iff [where 'a = rat, of n 50] of_nat_less_iff [where 'a = rat, of n 80] by simp_all
  then show ?thesis
    using neg words pct
    by (simp add: confidence_parse_def Let_def percent_normal percent_number [OF assms] den percent_rung_def)
      (simp add: percent_text_def)
qed

lemma confidence_parse_percent_witness: "confidence_parse (percent_text 49) = Some Low"
  using confidence_parse_percent [of 49] by simp

section \<open>The input of a worker\<close>

lemma map_filter_get:
  "\<forall>d \<in> set ds. \<exists>k. get g d = Some k \<and> is_done k \<Longrightarrow>
   \<exists>ks. filter is_done (List.map_filter (get g) ds) = ks \<and> map tn_id ks = ds \<and>
     (\<forall>k \<in> set ks. k \<in> nodes g \<and> is_done k)"
proof (induction ds)
  case (Cons d ds)
  then obtain k where k: "get g d = Some k" "is_done k" by auto
  with Cons get_Some [OF k(1)] show ?case by (auto simp: List.map_filter_def)
qed (simp add: List.map_filter_def)

definition dep_input :: "task_node \<Rightarrow> task_node list \<Rightarrow> string" where
  "dep_input n ks =
     (if ks = [] then tn_content n
      else tn_content n @ [nl, nl] @ ''# Inputs from completed dependencies'' @ [nl] @
        concat (map (\<lambda>k. nl # render_section (the (tn_output k)) (tn_id k) (kind_label (tn_kind k))) ks))"

text \<open>Forward dataflow: the input of a running node (the root gate apart, whose scope may grow
  while it runs) is its own content followed by exactly one section per dependency, in dependency
  order, each rendering the artifact that dependency completed with; nothing unfinished is in it and
  no dependency is missing.\<close>

theorem worker_input_carries_artifacts:
  assumes r: "reachable m g" and n: "n \<in> nodes g" "tn_status n = Running" "\<not> is_root_gate n"
  shows "\<exists>ks. map tn_id ks = tn_depends_on n \<and>
    (\<forall>k \<in> set ks. k \<in> nodes g \<and> tn_status k = Done \<and> tn_output k \<noteq> None) \<and>
    assemble_input g (tn_id n) = dep_input n ks"
proof -
  have ok: "graph_ok g" using r by (rule reachable_graph_ok)
  have "deps_satisfied g n" using graph_okD(2) [OF ok n(1)] n(2,3) by (simp add: node_ok_def)
  then have "\<forall>d \<in> set (tn_depends_on n). \<exists>k. get g d = Some k \<and> is_done k"
    by (auto simp: deps_satisfied_iff is_done_def)
  from map_filter_get [OF this] obtain ks where
    ks: "upstream_done g n = ks" "map tn_id ks = tn_depends_on n" "\<forall>k \<in> set ks. k \<in> nodes g \<and> is_done k"
    unfolding upstream_done_def by blast
  have out: "tn_output k \<noteq> None" if "k \<in> set ks" for k
  proof -
    from ks(3) that have k: "k \<in> nodes g" "is_done k" by auto
    have "node_ok g k" by (rule graph_okD(2) [OF ok k(1)])
    with k(2) show ?thesis by (auto simp: node_ok_def artifact_ok_def is_done_def)
  qed
  have fin: "tn_status k = Done" if "k \<in> set ks" for k
  proof -
    from ks(3) that show ?thesis by (simp add: is_done_def)
  qed
  have sec: "map dep_section ks =
      map (\<lambda>k. nl # render_section (the (tn_output k)) (tn_id k) (kind_label (tn_kind k))) ks"
  proof (rule map_cong)
    fix k assume "k \<in> set ks"
    with out [of k] show "dep_section k = nl # render_section (the (tn_output k)) (tn_id k) (kind_label (tn_kind k))"
      by (auto simp: dep_section_def)
  qed (rule refl)
  have get: "get g (tn_id n) = Some n" using get_distinct [OF graph_okD(3) [OF ok] n(1)] .
  have "assemble_input g (tn_id n) = dep_input n ks"
    unfolding assemble_input_def get option.case ks(1) sec dep_input_def by (rule refl)
  with ks out fin show ?thesis by blast
qed

definition sample_child_runs :: task_graph where
  "sample_child_runs = fold call [Dispatch ''c'' ''x'', Complete ''c'' ''x'' sample_artifact, Dispatch ''d'' ''y''] sample_expanded"

lemma worker_input_carries_artifacts_witness:
  "\<exists>n ks. tn_content n = ''rest'' \<and> map tn_id ks = [''c''] \<and>
     assemble_input sample_child_runs ''d'' = dep_input n ks"
proof -
  have "(case get sample_child_runs ''d'' of None \<Rightarrow> False | Some n \<Rightarrow>
      tn_status n = Running \<and> tn_parent n = Some ''a'' \<and> tn_depends_on n = [''c''] \<and> tn_content n = ''rest'')"
    by code_simp
  then obtain n where get: "get sample_child_runs ''d'' = Some n" and n: "tn_status n = Running"
    "\<not> is_root_gate n" "tn_depends_on n = [''c'']" "tn_content n = ''rest''"
    by (auto simp: is_root_gate_def split: option.splits)
  have ni: "n \<in> nodes sample_child_runs" "tn_id n = ''d''" using get by (auto dest: get_Some)
  have "reachable Deep sample_child_runs"
    unfolding sample_child_runs_def sample_expanded_def by (intro reachable_calls sample_reachable(2))
  from worker_input_carries_artifacts [OF this ni(1) n(1,2)] n(3,4) ni(2) show ?thesis by metis
qed

end
