(* ===== verification/Dag_Sim.thy ===== *)
theory Dag_Sim
  imports Dag_Text
begin

text \<open>
  The deterministic driver of the engine (\<open>crates/jcode-plan/src/dag/sim.rs\<close>). The worker is a
  closure with captured state, so it is a function on an explicit state. The driver's loop ends only
  if every round dispatches something, which needs unique ids, so it is a partial function, and its
  return on the engine's graphs is a theorem.
\<close>

datatype worker_action =
    CompleteWith handoff_artifact
  | ExpandInto "node_spec list"
  | InjectGap "node_spec list"
  | FailNode

record sim_report =
  sr_steps :: nat
  sr_completed :: nat
  sr_failed :: nat
  sr_stalled :: bool

type_synonym 's worker = "'s \<Rightarrow> string \<Rightarrow> node_kind \<Rightarrow> string \<Rightarrow> worker_action \<times> 's"

definition report :: "task_graph \<Rightarrow> nat \<Rightarrow> bool \<Rightarrow> sim_report" where
  "report g steps stalled =
     \<lparr>sr_steps = steps,
      sr_completed = length (filter is_done (tg_nodes g)),
      sr_failed = length (filter (\<lambda>n. tn_status n = Failed) (tg_nodes g)),
      sr_stalled = stalled\<rparr>"

definition worker_name :: "nat \<Rightarrow> string" where
  "worker_name k = CHR ''w'' # show_nat k"

definition drop_value :: "'g \<times> ('e + 'a) \<Rightarrow> 'g \<times> ('e + unit)" where
  "drop_value r = (fst r, case snd r of Inl e \<Rightarrow> Inl e | Inr _ \<Rightarrow> Inr ())"

fun apply_action :: "task_graph \<Rightarrow> string \<Rightarrow> string \<Rightarrow> worker_action \<Rightarrow> task_graph \<times> (dag_error + unit)" where
  "apply_action g i w (CompleteWith a) = complete_node g i w a"
| "apply_action g i w (ExpandInto children) = drop_value (expand_node g i w children)"
| "apply_action g i w (InjectGap new_nodes) = drop_value (inject_from_gate g i w new_nodes)"
| "apply_action g i w FailNode = fail_node g i w"

text \<open>One round: the \<open>for\<close> loop over the collected ready nodes, with the early return of \<open>?\<close>.\<close>

fun sim_round :: "'s worker \<Rightarrow> nat \<Rightarrow> nat \<Rightarrow> (string \<times> node_kind) list \<Rightarrow> task_graph \<Rightarrow> 's \<Rightarrow> nat \<Rightarrow>
    task_graph \<times> 's \<times> (dag_error + nat)" where
  "sim_round worker max_workers idx [] g s steps = (g, s, Inr steps)"
| "sim_round worker max_workers idx ((i, kind) # rest) g s steps =
     (let name = worker_name (idx mod max_workers)
      in case dispatch g i name of
           (g, False) \<Rightarrow> sim_round worker max_workers (Suc idx) rest g s steps
         | (g, True) \<Rightarrow>
             (case worker s i kind (assemble_input g i) of (action, s) \<Rightarrow>
               (case apply_action g i name action of
                  (g, Inl e) \<Rightarrow> (g, s, Inl e)
                | (g, Inr _) \<Rightarrow> sim_round worker max_workers (Suc idx) rest g s (Suc steps))))"

definition ready_batch :: "nat \<Rightarrow> task_graph \<Rightarrow> (string \<times> node_kind) list" where
  "ready_batch max_workers g = map (\<lambda>n. (tn_id n, tn_kind n)) (take max_workers (ready_nodes g))"

partial_function (option) run_from ::
  "'s worker \<Rightarrow> nat \<Rightarrow> nat \<Rightarrow> task_graph \<Rightarrow> 's \<Rightarrow> nat \<Rightarrow>
    (task_graph \<times> 's \<times> (dag_error + sim_report)) option" where
  "run_from worker max_workers max_steps g s steps =
     (if all_terminal g then Some (g, s, Inr (report g steps False))
      else if max_steps \<le> steps then Some (g, s, Inr (report g steps True))
      else if ready_batch max_workers g = [] then Some (g, s, Inr (report g steps True))
      else case sim_round worker max_workers 0 (ready_batch max_workers g) g s steps of
             (g, s, Inl e) \<Rightarrow> Some (g, s, Inl e)
           | (g, s, Inr steps) \<Rightarrow> run_from worker max_workers max_steps g s steps)"

definition run :: "'s worker \<Rightarrow> nat \<Rightarrow> nat \<Rightarrow> task_graph \<Rightarrow> 's \<Rightarrow>
    (task_graph \<times> 's \<times> (dag_error + sim_report)) option" where
  "run worker max_workers max_steps g s = run_from worker max_workers max_steps g s 0"

definition deep_artifact :: "string \<Rightarrow> handoff_artifact" where
  "deep_artifact findings =
     (brief findings)\<lparr>ha_what_i_did_not_check := [''nothing material; covered the stated scope''],
       ha_confidence := Some ''high''\<rparr>"

definition until_paren :: "string \<Rightarrow> string" where
  "until_paren s = (case str_find s '' ('' of None \<Rightarrow> s | Some k \<Rightarrow> take k s)"

definition gate_pass_artifact :: "string \<Rightarrow> handoff_artifact" where
  "gate_pass_artifact input =
     (let audited = map until_paren (List.map_filter (strip_prefix ''## '') (lines input))
      in brief (if audited = [] then ''gate passed: no audited nodes in scope''
           else ''gate passed; audited each node: '' @ join '', '' audited @ ''. No gaps remain.''))"

section \<open>A round preserves the invariant and makes progress\<close>

definition settled :: "task_graph \<Rightarrow> bool" where
  "settled g \<longleftrightarrow> (\<forall>n \<in> nodes g. tn_status n \<noteq> Running)"

lemma drop_value_simps [simp]:
  "drop_value r = (g', Inl e) \<longleftrightarrow> r = (g', Inl e)"
  "drop_value r = (g', Inr u) \<longleftrightarrow> (\<exists>x. r = (g', Inr x))"
  by (cases r; auto simp: drop_value_def split: sum.splits)+

lemma apply_action_step:
  "apply_action g i w act = (g', Inr u) \<Longrightarrow> dag_step g g'"
  by (cases act) (auto intro: dag_step.intros)

lemma apply_action_error: "apply_action g i w act = (g', Inl e) \<Longrightarrow> g' = g"
  by (cases act) (auto simp: complete_node_def expand_node_def inject_from_gate_def fail_node_def
      commit_def split: sum.splits)

lemma dispatch_running:
  assumes "distinct (ids g)" and "settled g" and "dispatch g i w = (g', True)"
  shows "\<forall>n \<in> nodes g'. tn_status n = Running \<longrightarrow> tn_id n = i"
proof -
  from assms(3) have g': "g' = get_mut g i (assign_to w)" by (auto simp: dispatch_True)
  have "nodes g' = at_id i (assign_to w) ` nodes g" unfolding g' get_mut_nodes [OF assms(1)] by simp
  with assms(2) show ?thesis by (auto simp: settled_def at_id_def assign_to_def)
qed

lemma settled_get_mut:
  assumes "distinct (ids g)" and "\<forall>n \<in> nodes g. tn_status n = Running \<longrightarrow> tn_id n = i"
    and "\<And>n. tn_status (f n) \<noteq> Running"
  shows "settled (get_mut g i f)"
  using assms(2,3) by (auto simp: settled_def get_mut_nodes [OF assms(1)] at_id_def)

lemma apply_action_settled:
  assumes ok: "graph_ok g" and run: "\<forall>n \<in> nodes g. tn_status n = Running \<longrightarrow> tn_id n = i"
    and act: "apply_action g i w act = (g', Inr u)"
  shows "settled g'"
proof -
  note st = graph_okD(1) [OF ok] and dist = graph_okD(3) [OF ok]
  show ?thesis
  proof (cases act)
    case (CompleteWith a)
    with act have "complete_staged g i w a = Inr (g', u)" by (simp add: complete_node_def commit_eq_Inr)
    then have "g' = get_mut g i (finish_with a)" by (auto simp: complete_staged_Inr)
    then show ?thesis using settled_get_mut [OF dist run] by (simp add: finish_with_def)
  next
    case FailNode
    with act have "fail_staged g i w = Inr (g', u)" by (simp add: fail_node_def commit_eq_Inr)
    then have "g' = get_mut g i set_failed" by (auto simp: fail_staged_Inr)
    then show ?thesis using settled_get_mut [OF dist run] by (simp add: set_failed_def)
  next
    case (ExpandInto children)
    with act obtain out where "expand_staged g i w children = Inr (g', out)"
      by (auto simp: expand_node_def commit_eq_Inr)
    from structure_ok_expand(2) [OF st this] obtain ds news where
      gr: "grows g (at_id i (make_composite ds)) news g'" by blast
    have "tn_status n \<noteq> Running" if "n \<in> nodes g'" for n
      using gr that by (cases rule: grows_cases)
        (use run in \<open>auto simp: at_id_def make_composite_def fresh_node_def\<close>)
    then show ?thesis by (simp add: settled_def)
  next
    case (InjectGap specs)
    with act obtain out where "inject_staged g i w specs = Inr (g', out)"
      by (auto simp: inject_from_gate_def commit_eq_Inr)
    from structure_ok_inject(2) [OF st this] obtain p ds news where
      gr: "grows g (inject_rewrite i p ds) news g'" by blast
    have "tn_status n \<noteq> Running" if "n \<in> nodes g'" for n
      using gr that by (cases rule: grows_cases)
        (use run in \<open>auto simp: inject_rewrite_def at_id_def requeue_gate_def add_deps_def fresh_node_def split: option.splits\<close>)
    then show ?thesis by (simp add: settled_def)
  qed
qed

lemma sim_round_ok:
  assumes "graph_ok g" and "settled g"
    and "sim_round worker mw idx batch g s steps = (g', s', r)"
  shows "graph_ok g' \<and> (\<forall>steps'. r = Inr steps' \<longrightarrow> settled g' \<and> steps \<le> steps' \<and> steps' \<le> steps + length batch \<and>
    (batch \<noteq> [] \<and> fst (hd batch) \<in> tn_id ` set (ready_nodes g) \<longrightarrow> steps < steps'))"
  using assms
proof (induction batch arbitrary: idx g s steps)
  case (Cons b batch)
  obtain i kind where b: "b = (i, kind)" by (cases b)
  let ?w = "worker_name (idx mod mw)"
  obtain g1 d where d: "dispatch g i ?w = (g1, d)" by (cases "dispatch g i ?w")
  show ?case
  proof (cases d)
    case False
    then have g1: "g1 = g" using d by (auto dest: dispatch_False)
    have not_ready: "i \<notin> tn_id ` set (ready_nodes g)"
    proof
      assume "i \<in> tn_id ` set (ready_nodes g)"
      then obtain n where "n \<in> nodes g" "is_ready g n" "tn_id n = i" by (auto simp: set_ready_nodes)
      with get_distinct [OF graph_okD(3) [OF Cons.prems(1)]] d False show False
        by (auto simp: dispatch_def)
    qed
    from Cons.prems(3) have "sim_round worker mw (Suc idx) batch g s steps = (g', s', r)"
      by (simp add: b d False g1 Let_def)
    from Cons.IH [OF Cons.prems(1,2) this] show ?thesis using not_ready by (auto simp: b)
  next
    case True
    have ok1: "graph_ok g1"
      using graph_ok_step [OF Cons.prems(1) dispatch_step] d True by auto
    have run1: "\<forall>n \<in> nodes g1. tn_status n = Running \<longrightarrow> tn_id n = i"
      using dispatch_running [OF graph_okD(3) [OF Cons.prems(1)] Cons.prems(2)] d True by auto
    obtain act s1 where act: "worker s i kind (assemble_input g1 i) = (act, s1)" by fastforce
    obtain g2 u where app: "apply_action g1 i ?w act = (g2, u)" by fastforce
    show ?thesis
    proof (cases u)
      case (Inl e)
      then have "g2 = g1" using app by (auto dest: apply_action_error)
      then show ?thesis using Cons.prems(3) ok1 by (auto simp: b d True act app Inl Let_def)
    next
      case (Inr v)
      have ok2: "graph_ok g2" using graph_ok_step [OF ok1 apply_action_step] app Inr by auto
      have set2: "settled g2" using apply_action_settled [OF ok1 run1] app Inr by auto
      from Cons.prems(3) have "sim_round worker mw (Suc idx) batch g2 s1 (Suc steps) = (g', s', r)"
        by (simp add: b d True act app Inr Let_def)
      from Cons.IH [OF ok2 set2 this] show ?thesis by auto
    qed
  qed
qed auto

lemma ready_batch_head:
  "ready_batch mw g \<noteq> [] \<Longrightarrow> fst (hd (ready_batch mw g)) \<in> tn_id ` set (ready_nodes g)"
  by (cases "ready_nodes g"; cases mw) (auto simp: ready_batch_def)


section \<open>The whole run\<close>




section \<open>Light mode drains\<close>

definition waiting :: "task_graph \<Rightarrow> bool" where
  "waiting g \<longleftrightarrow> graph_ok g \<and> tg_mode g = Light \<and> (\<forall>n \<in> nodes g. tn_status n = Queued \<or> tn_status n = Done)"

definition pending :: "task_graph \<Rightarrow> nat" where
  "pending g = length (filter (\<lambda>n. \<not> is_done n) (tg_nodes g))"

lemma pending_update:
  assumes "distinct (map tn_id ns)" and "n \<in> set ns" and "\<not> is_done n" and "is_done (f n)"
  shows "Suc (length (filter (\<lambda>n. \<not> is_done n) (map (at_id (tn_id n) f) ns))) =
    length (filter (\<lambda>n. \<not> is_done n) ns)"
  using assms(1,2)
proof (induction ns)
  case (Cons m ns)
  show ?case
  proof (cases "m = n")
    case True
    with Cons.prems(1) have "\<forall>k \<in> set ns. tn_id k \<noteq> tn_id n" by (metis distinct.simps(2) image_eqI list.map(2) list.set_map)
    then have "map (at_id (tn_id n) f) ns = ns" by (simp add: map_idI)
    with True assms(3,4) show ?thesis by simp
  next
    case False
    with Cons.prems have "n \<in> set ns" "tn_id m \<noteq> tn_id n" by (auto simp: rev_image_eqI)
    with Cons show ?thesis by auto
  qed
qed simp

lemma light_step:
  assumes w: "waiting g" and d: "dispatch g i w = (g1, True)" and c: "complete_node g1 i w a = (g2, r)"
  shows "r = Inr () \<and> waiting g2 \<and> Suc (pending g2) = pending g \<and> length (tg_nodes g2) = length (tg_nodes g)"
proof -
  have ok: "graph_ok g" and light: "tg_mode g = Light"
    and st: "\<And>n. n \<in> nodes g \<Longrightarrow> tn_status n = Queued \<or> tn_status n = Done"
    using w by (auto simp: waiting_def)
  note dist = graph_okD(3) [OF ok]
  from d obtain n where n: "get g i = Some n" "is_ready g n" and g1: "g1 = get_mut g i (assign_to w)"
    by (auto simp: dispatch_True)
  have ni: "n \<in> nodes g" "tn_id n = i" using n(1) by (auto dest: get_Some)
  have id: "tn_id (assign_to w m) = tn_id m" for m by (simp add: assign_to_def)
  have nodes1: "tg_nodes g1 = map (at_id i (assign_to w)) (tg_nodes g)"
    unfolding g1 by (rule get_mut_nodes [OF dist])
  have ids1: "ids g1 = ids g" unfolding nodes1 by (simp add: at_id_def id)
  have "assign_to w n \<in> nodes g1" unfolding nodes1 using ni by (auto simp: at_id_def intro!: image_eqI [of _ _ n])
  then have get1: "get g1 i = Some (assign_to w n)"
    using get_iff [of g1] dist ids1 ni id by simp
  have mode1: "tg_mode g1 = Light" using light by (simp add: g1)
  have "complete_staged g1 i w a = Inr (get_mut g1 i (finish_with a), ())"
    unfolding complete_staged_Inr using get1 mode1
    by (simp add: assign_to_def validate_artifact_def requires_gates_def)
  with c have r: "r = Inr ()" and g2: "g2 = get_mut g1 i (finish_with a)"
    by (simp_all add: complete_node_def commit_def)
  have ok2: "graph_ok g2"
    using graph_ok_step [OF graph_ok_step [OF ok dispatch_step [OF d]] complete_step] c r by blast
  have nodes2: "tg_nodes g2 = map (at_id i (\<lambda>m. finish_with a (assign_to w m))) (tg_nodes g)"
    unfolding g2 get_mut_nodes [OF dist [folded ids1]] nodes1 by (simp add: at_id_def id)
  have "waiting g2"
    unfolding waiting_def using ok2 mode1 st by (auto simp: g2 nodes2 [unfolded g2] at_id_def finish_with_def)
  moreover have "\<not> is_done n" using n(2) by (simp add: is_ready_def is_done_def)
  then have "Suc (pending g2) = pending g"
    unfolding pending_def nodes2 ni(2) [symmetric]
    by (intro pending_update dist ni(1)) (simp_all add: is_done_def finish_with_def)
  ultimately show ?thesis using r by (simp add: nodes2)
qed

lemma light_round:
  assumes "\<And>s i k x. \<exists>a s'. worker s i k x = (CompleteWith a, s')"
    and "waiting g" and "sim_round worker mw idx batch g s steps = (g', s', r)"
  shows "\<exists>steps'. r = Inr steps' \<and> waiting g' \<and> steps' + pending g' = steps + pending g \<and>
    length (tg_nodes g') = length (tg_nodes g)"
  using assms(2,3)
proof (induction batch arbitrary: idx g s steps)
  case (Cons b batch)
  obtain i kind where b: "b = (i, kind)" by (cases b)
  let ?w = "worker_name (idx mod mw)"
  obtain g1 d where d: "dispatch g i ?w = (g1, d)" by (cases "dispatch g i ?w")
  show ?case
  proof (cases d)
    case False
    then have "g1 = g" using d by (auto dest: dispatch_False)
    with Cons.prems(2) have "sim_round worker mw (Suc idx) batch g s steps = (g', s', r)"
      by (simp add: b d False Let_def)
    from Cons.IH [OF Cons.prems(1) this] show ?thesis .
  next
    case True
    obtain a s1 where act: "worker s i kind (assemble_input g1 i) = (CompleteWith a, s1)"
      using assms(1) by blast
    obtain g2 u where app: "complete_node g1 i ?w a = (g2, u)" by fastforce
    have l: "u = Inr ()" "waiting g2" "Suc (pending g2) = pending g" "length (tg_nodes g2) = length (tg_nodes g)"
      using light_step [OF Cons.prems(1) _ app] d True by auto
    from Cons.prems(2) have "sim_round worker mw (Suc idx) batch g2 s1 (Suc steps) = (g', s', r)"
      by (simp add: b d True act app l(1) Let_def)
    from Cons.IH [OF l(2) this] l show ?thesis by auto
  qed
qed simp

lemma light_run_from:
  assumes wk: "\<And>s i k x. \<exists>a s'. worker s i k x = (CompleteWith a, s')" and "waiting g" and "0 < mw"
    and "steps + pending g \<le> max_steps"
  shows "\<exists>g' s' rep. run_from worker mw max_steps g s steps = Some (g', s', Inr rep) \<and>
    \<not> sr_stalled rep \<and> sr_failed rep = 0 \<and> sr_completed rep = length (tg_nodes g) \<and>
    sr_steps rep = steps + pending g"
  using assms(2,4)
proof (induction "pending g" arbitrary: g s steps rule: less_induct)
  case less
  have st: "\<And>n. n \<in> nodes g \<Longrightarrow> tn_status n = Queued \<or> tn_status n = Done" and ok: "graph_ok g"
    using less.prems(1) by (auto simp: waiting_def)
  show ?case
  proof (cases "all_terminal g")
    case True
    have "is_done n \<and> tn_status n \<noteq> Failed" if "n \<in> nodes g" for n
      using st [OF that] True that by (auto simp: all_terminal_def list_all_iff node_is_terminal_def is_done_def)
    then have "filter is_done (tg_nodes g) = tg_nodes g" "filter (\<lambda>n. tn_status n = Failed) (tg_nodes g) = []"
      "pending g = 0"
      by (auto simp: filter_id_conv filter_empty_conv pending_def)
    with True show ?thesis by (subst run_from.simps) (simp add: report_def)
  next
    case False
    then have "ready_nodes g \<noteq> []" using ready_if_open [OF graph_okD(1) [OF ok]] st by fastforce
    with assms(3) have batch: "ready_batch mw g \<noteq> []" by (cases mw; cases "ready_nodes g") (auto simp: ready_batch_def)
    have "pending g \<noteq> 0"
      using False by (auto simp: pending_def filter_empty_conv all_terminal_def list_all_iff node_is_terminal_def is_done_def)
    then have budget: "steps < max_steps" using less.prems(2) by simp
    obtain g1 s1 r1 where round: "sim_round worker mw 0 (ready_batch mw g) g s steps = (g1, s1, r1)"
      by (metis prod_cases3)
    from light_round [OF wk less.prems(1) round] obtain steps1 where
      r1: "r1 = Inr steps1" "waiting g1" "steps1 + pending g1 = steps + pending g" "length (tg_nodes g1) = length (tg_nodes g)"
      by blast
    have "settled g" using st by (fastforce simp: settled_def)
    with sim_round_ok [OF ok _ round] r1(1) batch ready_batch_head have "steps < steps1" by auto
    with r1(3) have "pending g1 < pending g" by simp
    moreover have "run_from worker mw max_steps g s steps = run_from worker mw max_steps g1 s1 steps1"
      using False budget batch round r1(1) by (subst run_from.simps) simp
    ultimately show ?thesis using less.hyps [of g1 steps1 s1] r1(2-4) less.prems(2) by simp
  qed
qed

text \<open>A light plan drains: on a reachable light-mode graph with nothing running or failed, a worker
  that completes whatever it is given, with any artifacts, finishes the whole plan, with one step
  per unfinished node, as soon as there is one worker and the budget covers the unfinished nodes.\<close>

theorem light_plan_drains:
  assumes r: "reachable Light g" and idle: "\<forall>n \<in> nodes g. tn_status n = Queued \<or> tn_status n = Done"
    and wk: "\<And>s i k x. \<exists>a s'. worker s i k x = (CompleteWith a, s')"
    and enough: "0 < max_workers" "length (filter (\<lambda>n. \<not> is_done n) (tg_nodes g)) \<le> max_steps"
  shows "\<exists>g' s' rep. run worker max_workers max_steps g s = Some (g', s', Inr rep) \<and>
    \<not> sr_stalled rep \<and> sr_failed rep = 0 \<and> sr_completed rep = length (tg_nodes g) \<and>
    sr_steps rep = length (filter (\<lambda>n. \<not> is_done n) (tg_nodes g))"
proof -
  have "waiting g" using reachable_graph_ok [OF r] reachable_mode [OF r] idle by (simp add: waiting_def)
  then show ?thesis
    using light_run_from [OF wk _ enough(1), where steps = 0] enough(2) by (simp add: run_def pending_def)
qed

definition sample_light :: task_graph where
  "sample_light =
     fold call [Seed [node_spec_new ''x'' ''first'' Implement,
                      spec_depends_on (node_spec_new ''y'' ''second'' Implement) [''x'']]] (graph_new Light)"

lemma light_plan_drains_witness:
  "\<exists>g' s' rep. run (\<lambda>s i k input. (CompleteWith (brief ''ok''), s)) 1 2 sample_light () = Some (g', s', Inr rep) \<and>
     sr_completed rep = 2"
proof -
  have st: "map tn_status (tg_nodes sample_light) = [Queued, Queued]" by code_simp
  then have n: "\<forall>n \<in> nodes sample_light. tn_status n = Queued \<or> tn_status n = Done"
    by (auto simp: map_eq_Cons_conv)
  have r: "reachable Light sample_light" unfolding sample_light_def by (intro reachable_calls reachable.start)
  have l: "length (tg_nodes sample_light) = 2" using st by (metis length_map list.size(3,4) Suc_1 One_nat_def plus_1_eq_Suc add.commute)
  have le: "length (filter (\<lambda>n. \<not> is_done n) (tg_nodes sample_light)) \<le> 2"
    using length_filter_le [of _ "tg_nodes sample_light"] l by simp
  from light_plan_drains [OF r n _ _ le, of "\<lambda>s i k input. (CompleteWith (brief ''ok''), s)" 1 "()"] l
  show ?thesis by auto
qed

end
