(* ===== verification/Plan_State.thy ===== *)
theory Plan_State
  imports Kahn
begin

text \<open>
  The shared plan state of a swarm (\<open>crates/jcode-plan/src/lib.rs\<close>): plan items with string statuses,
  durable progress, the versioned plan, the status predicates, task control, the dependency summary
  and the assignment helpers. A \<open>HashMap\<close> is a map, a \<open>HashSet\<close> a set; a \<open>BTreeSet\<close> that is turned
  into a \<open>Vec\<close> is the sorted list without duplicates. Counters of 32 and 64 bits are words.
\<close>

section \<open>Data\<close>

record plan_item =
  pi_content :: string
  pi_status :: string
  pi_priority :: string
  pi_id :: string
  pi_subsystem :: "string option"
  pi_file_scope :: "string list"
  pi_blocked_by :: "string list"
  pi_assigned_to :: "string option"

record task_progress =
  tp_assigned_session_id :: "string option"
  tp_assignment_summary :: "string option"
  tp_assigned_at_unix_ms :: "u64 option"
  tp_started_at_unix_ms :: "u64 option"
  tp_last_heartbeat_unix_ms :: "u64 option"
  tp_last_detail :: "string option"
  tp_last_checkpoint_unix_ms :: "u64 option"
  tp_checkpoint_summary :: "string option"
  tp_completed_at_unix_ms :: "u64 option"
  tp_stale_since_unix_ms :: "u64 option"
  tp_heartbeat_count :: "u64 option"
  tp_checkpoint_count :: "u64 option"
  tp_no_artifact_requeues :: "u32 option"
  tp_dead_assignee_reclaims :: "u32 option"

definition default_progress :: task_progress where
  "default_progress =
     \<lparr>tp_assigned_session_id = None, tp_assignment_summary = None, tp_assigned_at_unix_ms = None,
      tp_started_at_unix_ms = None, tp_last_heartbeat_unix_ms = None, tp_last_detail = None,
      tp_last_checkpoint_unix_ms = None, tp_checkpoint_summary = None,
      tp_completed_at_unix_ms = None, tp_stale_since_unix_ms = None, tp_heartbeat_count = None,
      tp_checkpoint_count = None, tp_no_artifact_requeues = None, tp_dead_assignee_reclaims = None\<rparr>"

record plan_item_spec =
  ps_id :: string
  ps_content :: string
  ps_priority :: string
  ps_subsystem :: "string option"
  ps_file_scope :: "string list"
  ps_blocked_by :: "string list"

record plan_definition_data =
  pd_version :: u64
  pd_participants :: "string list"
  pd_items :: "plan_item_spec list"

record execution_item_state =
  es_task_id :: string
  es_status :: string
  es_assigned_to :: "string option"
  es_progress :: "task_progress option"

record node_meta =
  nm_kind :: "string option"
  nm_parent :: "string option"
  nm_expanded :: bool
  nm_is_gate :: bool
  nm_planner :: "string option"
  nm_artifact_json :: "string option"
  nm_origin :: "string option"

definition default_meta :: node_meta where
  "default_meta =
     \<lparr>nm_kind = None, nm_parent = None, nm_expanded = False, nm_is_gate = False,
      nm_planner = None, nm_artifact_json = None, nm_origin = None\<rparr>"

record versioned_plan =
  vp_items :: "plan_item list"
  vp_version :: u64
  vp_participants :: "string set"
  vp_task_progress :: "string \<rightharpoonup> task_progress"
  vp_mode :: string
  vp_node_meta :: "string \<rightharpoonup> node_meta"

definition plan_new :: versioned_plan where
  "plan_new =
     \<lparr>vp_items = [], vp_version = 0, vp_participants = {}, vp_task_progress = Map.empty,
      vp_mode = ''light'', vp_node_meta = Map.empty\<rparr>"

definition plan_definition :: "versioned_plan \<Rightarrow> plan_definition_data" where
  "plan_definition p =
     \<lparr>pd_version = vp_version p, pd_participants = sorted_list_of_set (vp_participants p),
      pd_items = map (\<lambda>it. \<lparr>ps_id = pi_id it, ps_content = pi_content it, ps_priority = pi_priority it,
        ps_subsystem = pi_subsystem it, ps_file_scope = pi_file_scope it,
        ps_blocked_by = pi_blocked_by it\<rparr>) (vp_items p)\<rparr>"

definition execution_state :: "versioned_plan \<Rightarrow> execution_item_state list" where
  "execution_state p =
     map (\<lambda>it. \<lparr>es_task_id = pi_id it, es_status = pi_status it, es_assigned_to = pi_assigned_to it,
       es_progress = vp_task_progress p (pi_id it)\<rparr>) (vp_items p)"

record plan_graph_summary =
  gs_ready_ids :: "string list"
  gs_blocked_ids :: "string list"
  gs_active_ids :: "string list"
  gs_completed_ids :: "string list"
  gs_failed_ids :: "string list"
  gs_terminal_ids :: "string list"
  gs_unresolved_dependency_ids :: "string list"
  gs_cycle_ids :: "string list"

section \<open>Statuses\<close>

definition is_completed_status :: "string \<Rightarrow> bool" where
  "is_completed_status s \<longleftrightarrow> s \<in> {''completed'', ''done''}"

definition is_terminal_status :: "string \<Rightarrow> bool" where
  "is_terminal_status s \<longleftrightarrow> s \<in> {''completed'', ''done'', ''failed'', ''stopped'', ''crashed''}"

definition is_active_status :: "string \<Rightarrow> bool" where
  "is_active_status s \<longleftrightarrow> s \<in> {''running'', ''running_stale''}"

definition is_failed_status :: "string \<Rightarrow> bool" where
  "is_failed_status s \<longleftrightarrow> is_terminal_status s \<and> \<not> is_completed_status s"

definition is_runnable_status :: "string \<Rightarrow> bool" where
  "is_runnable_status s \<longleftrightarrow> s \<in> {''queued'', ''ready'', ''pending'', ''todo''}"

lemmas status_defs = is_completed_status_def is_terminal_status_def is_active_status_def
  is_failed_status_def is_runnable_status_def

lemma runnable_not_terminal: "is_runnable_status s \<Longrightarrow> \<not> is_terminal_status s \<and> \<not> is_active_status s"
  by (auto simp: status_defs)

lemma active_not_terminal: "is_active_status s \<Longrightarrow> \<not> is_terminal_status s"
  by (auto simp: status_defs)

lemma terminal_split: "is_terminal_status s \<longleftrightarrow> is_completed_status s \<or> is_failed_status s"
  by (auto simp: status_defs)

section \<open>Task control\<close>

datatype task_control_action = Start | Wake | Resume | Retry | Reassign | Replace | Salvage

definition action_parse :: "string \<Rightarrow> task_control_action option" where
  "action_parse s =
     (if s = ''start'' then Some Start else if s = ''wake'' then Some Wake
      else if s = ''resume'' then Some Resume else if s = ''retry'' then Some Retry
      else if s = ''reassign'' then Some Reassign else if s = ''replace'' then Some Replace
      else if s = ''salvage'' then Some Salvage else None)"

fun action_as_str :: "task_control_action \<Rightarrow> string" where
  "action_as_str Start = ''start''"
| "action_as_str Wake = ''wake''"
| "action_as_str Resume = ''resume''"
| "action_as_str Retry = ''retry''"
| "action_as_str Reassign = ''reassign''"
| "action_as_str Replace = ''replace''"
| "action_as_str Salvage = ''salvage''"

definition combine_assignment_text :: "string \<Rightarrow> string option \<Rightarrow> string" where
  "combine_assignment_text content message =
     (case message of
        Some extra \<Rightarrow> content @ [nl, nl] @ ''Additional coordinator instructions:'' @ [nl] @ extra
      | None \<Rightarrow> content)"

fun restart_instruction_prefix :: "task_control_action \<Rightarrow> string option" where
  "restart_instruction_prefix Resume =
     Some ''Resume your assigned task from the current session context and continue the work.''"
| "restart_instruction_prefix Retry =
     Some ''Retry your assigned task. Fix any earlier issues and continue toward completion.''"
| "restart_instruction_prefix _ = None"

definition opt_list :: "'a option \<Rightarrow> 'a list" where
  "opt_list x = (case x of None \<Rightarrow> [] | Some a \<Rightarrow> [a])"

definition build_control_assignment_text ::
  "task_control_action \<Rightarrow> string \<Rightarrow> string option \<Rightarrow> string" where
  "build_control_assignment_text action content message =
     join [nl, nl] (opt_list (restart_instruction_prefix action) @ [content] @
       opt_list (map_option (\<lambda>extra. ''Additional coordinator instructions:'' @ [nl] @ extra) message))"

fun task_control_action_allows_status :: "task_control_action \<Rightarrow> string \<Rightarrow> bool" where
  "task_control_action_allows_status Start s = (s = ''queued'')"
| "task_control_action_allows_status Wake s = (s = ''queued'')"
| "task_control_action_allows_status Resume s = (s \<in> {''queued'', ''running'', ''running_stale''})"
| "task_control_action_allows_status Retry s = (s \<in> {''failed'', ''running_stale''})"
| "task_control_action_allows_status Reassign s = (\<not> is_completed_status s)"
| "task_control_action_allows_status Replace s = (\<not> is_completed_status s)"
| "task_control_action_allows_status Salvage s = (\<not> is_completed_status s)"

fun task_control_status_error :: "task_control_action \<Rightarrow> string \<Rightarrow> string \<Rightarrow> string" where
  "task_control_status_error Start s i = ''Task '' @ quoted i @ '' is '' @ quoted s @
     '' and cannot be started. Use start only for queued assignments.''"
| "task_control_status_error Wake s i = ''Task '' @ quoted i @ '' is '' @ quoted s @
     '' and cannot be woken. Use wake only for queued assignments.''"
| "task_control_status_error Resume s i = ''Task '' @ quoted i @ '' is '' @ quoted s @
     '' and cannot be resumed safely.''"
| "task_control_status_error Retry s i = ''Task '' @ quoted i @ '' is '' @ quoted s @
     '' and cannot be retried. Retry is only for failed or stale work.''"
| "task_control_status_error Reassign s i = ''Task '' @ quoted i @
     '' is already complete. Reassign unfinished work instead.''"
| "task_control_status_error Replace s i = ''Task '' @ quoted i @
     '' is already complete. Replace is only for unfinished work.''"
| "task_control_status_error Salvage s i = ''Task '' @ quoted i @
     '' is already complete. Salvage is only for unfinished or failed work.''"

definition priority_rank :: "string \<Rightarrow> u8" where
  "priority_rank p =
     (if p \<in> {''high'', ''urgent'', ''p0''} then 0
      else if p \<in> {''medium'', ''normal'', ''p1''} then 1
      else if p \<in> {''low'', ''p2''} then 2 else 1)"

section \<open>Dependencies\<close>

definition completed_item_ids :: "plan_item list \<Rightarrow> string set" where
  "completed_item_ids items = set (map pi_id (filter (\<lambda>it. is_completed_status (pi_status it)) items))"

definition unresolved_dependencies :: "plan_item \<Rightarrow> string set \<Rightarrow> string set \<Rightarrow> string list" where
  "unresolved_dependencies it known completed =
     filter (\<lambda>d. d \<in> known \<and> d \<notin> completed) (pi_blocked_by it)"

definition missing_dependencies :: "plan_item \<Rightarrow> string set \<Rightarrow> string list" where
  "missing_dependencies it known = filter (\<lambda>d. d \<notin> known) (pi_blocked_by it)"

definition is_unblocked :: "plan_item \<Rightarrow> string set \<Rightarrow> string set \<Rightarrow> bool" where
  "is_unblocked it known completed \<longleftrightarrow>
     missing_dependencies it known = [] \<and> unresolved_dependencies it known completed = []"

definition known_ids :: "plan_item list \<Rightarrow> string set" where
  "known_ids items = set (map pi_id items)"

text \<open>The two tables of \<open>cycle_item_ids\<close>. The code adds one per dependency occurrence; \<open>dependents\<close>
  holds one entry per occurrence too.\<close>

definition plan_indegrees :: "plan_item list \<Rightarrow> (string \<times> nat) list" where
  "plan_indegrees items =
     fold (\<lambda>it. add_degree (pi_id it) (length (filter (\<lambda>d. d \<in> known_ids items) (pi_blocked_by it)))) items
       (fold (\<lambda>it. ensure_entry (pi_id it)) items [])"

definition plan_dependents :: "plan_item list \<Rightarrow> string \<Rightarrow> string list" where
  "plan_dependents items d =
     concat (map (\<lambda>it. map (\<lambda>_. pi_id it) (filter (\<lambda>x. x = d) (pi_blocked_by it))) items)"

text \<open>The initial queue lists the zero-degree keys of a \<open>HashMap\<close> in its iteration order, which Rust
  leaves open; \<open>cycle_item_ids_from\<close> takes it as an argument. The result does not depend on it
  (\<open>cycle_order_irrelevant\<close> in \<open>Plan_Summary\<close>), so the plan functions use insertion order.\<close>

definition cycle_item_ids_from :: "string list \<Rightarrow> plan_item list \<Rightarrow> string list" where
  "cycle_item_ids_from queue items =
     (case kahn_loop (plan_dependents items) {} queue (plan_indegrees items) of (visited, deg) \<Rightarrow>
        sort (map fst (filter (\<lambda>(i, d). 0 < d \<and> i \<notin> visited) deg)))"

definition zero_degree_ids :: "plan_item list \<Rightarrow> string list" where
  "zero_degree_ids items = map fst (filter (\<lambda>(i, d). d = 0) (plan_indegrees items))"

definition cycle_item_ids :: "plan_item list \<Rightarrow> string list" where
  "cycle_item_ids items = cycle_item_ids_from (zero_degree_ids items) items"

section \<open>The summary\<close>

definition has_blocker :: "plan_item list \<Rightarrow> plan_item \<Rightarrow> bool" where
  "has_blocker items it \<longleftrightarrow>
     unresolved_dependencies it (known_ids items) (completed_item_ids items) \<noteq> [] \<or>
     pi_id it \<in> set (cycle_item_ids items)"

definition item_ready :: "plan_item list \<Rightarrow> plan_item \<Rightarrow> bool" where
  "item_ready items it \<longleftrightarrow>
     is_runnable_status (pi_status it) \<and> missing_dependencies it (known_ids items) = [] \<and>
     \<not> has_blocker items it"

definition item_blocked :: "plan_item list \<Rightarrow> plan_item \<Rightarrow> bool" where
  "item_blocked items it \<longleftrightarrow>
     \<not> item_ready items it \<and> \<not> is_terminal_status (pi_status it) \<and> \<not> is_active_status (pi_status it) \<and>
     (missing_dependencies it (known_ids items) \<noteq> [] \<or> has_blocker items it \<or> pi_status it = ''blocked'')"

definition ids_where :: "(plan_item \<Rightarrow> bool) \<Rightarrow> plan_item list \<Rightarrow> string list" where
  "ids_where P items = map pi_id (filter P items)"

definition btree_ids :: "string list \<Rightarrow> string list" where
  "btree_ids xs = sort (remdups xs)"

definition summarize_plan_graph :: "plan_item list \<Rightarrow> plan_graph_summary" where
  "summarize_plan_graph items =
     \<lparr>gs_ready_ids = sort (ids_where (item_ready items) items),
      gs_blocked_ids = sort (ids_where (item_blocked items) items),
      gs_active_ids = sort (ids_where (\<lambda>it. is_active_status (pi_status it)) items),
      gs_completed_ids = btree_ids (ids_where (\<lambda>it. is_completed_status (pi_status it)) items),
      gs_failed_ids = btree_ids (ids_where (\<lambda>it. is_failed_status (pi_status it)) items),
      gs_terminal_ids = btree_ids (ids_where (\<lambda>it. is_terminal_status (pi_status it)) items),
      gs_unresolved_dependency_ids =
        btree_ids (concat (map (\<lambda>it. missing_dependencies it (known_ids items)) items)),
      gs_cycle_ids = cycle_item_ids items\<rparr>"

definition runnable_key :: "plan_item \<Rightarrow> u8 \<times> string" where
  "runnable_key it = (priority_rank (pi_priority it), pi_id it)"

definition next_runnable_item_ids :: "plan_item list \<Rightarrow> nat option \<Rightarrow> string list" where
  "next_runnable_item_ids items limit =
     (let ready = set (gs_ready_ids (summarize_plan_graph items));
          ids = map pi_id (sort_key runnable_key (filter (\<lambda>it. pi_id it \<in> ready) items))
      in case limit of Some n \<Rightarrow> take n ids | None \<Rightarrow> ids)"

section \<open>Assignment\<close>

definition add_load :: "string \<Rightarrow> nat \<Rightarrow> (string \<rightharpoonup> nat) \<Rightarrow> (string \<rightharpoonup> nat)" where
  "add_load k w m = m(k \<mapsto> the_default 0 (m k) + w)"

definition assignment_loads :: "versioned_plan \<Rightarrow> string \<rightharpoonup> nat" where
  "assignment_loads p =
     fold (\<lambda>it m. if is_terminal_status (pi_status it) then m
        else case pi_assigned_to it of None \<Rightarrow> m | Some a \<Rightarrow> add_load a 1 m) (vp_items p) Map.empty"

definition find_item :: "plan_item list \<Rightarrow> string \<Rightarrow> plan_item option" where
  "find_item items i = find (\<lambda>it. pi_id it = i) items"

definition next_unassigned_runnable_item_id :: "versioned_plan \<Rightarrow> string option" where
  "next_unassigned_runnable_item_id p =
     find (\<lambda>i. case find_item (vp_items p) i of None \<Rightarrow> False | Some it \<Rightarrow> pi_assigned_to it = None)
       (next_runnable_item_ids (vp_items p) None)"

definition max_dead_assignee_reclaims :: u32 where
  "max_dead_assignee_reclaims = 3"

definition reclaim_count :: "versioned_plan \<Rightarrow> string \<Rightarrow> u32" where
  "reclaim_count p i = the_default 0 (Option.bind (vp_task_progress p i) tp_dead_assignee_reclaims)"

definition is_stranded :: "versioned_plan \<Rightarrow> (string \<Rightarrow> bool) \<Rightarrow> string \<Rightarrow> bool" where
  "is_stranded p assignee_is_dead i =
     (case find_item (vp_items p) i of
        None \<Rightarrow> False
      | Some it \<Rightarrow> (case pi_assigned_to it of
          None \<Rightarrow> False
        | Some a \<Rightarrow> if \<not> assignee_is_dead a then False
            else reclaim_count p i < max_dead_assignee_reclaims))"

definition next_stranded_runnable_item_id :: "versioned_plan \<Rightarrow> (string \<Rightarrow> bool) \<Rightarrow> string option" where
  "next_stranded_runnable_item_id p assignee_is_dead =
     find (is_stranded p assignee_is_dead) (next_runnable_item_ids (vp_items p) None)"

definition reclaimed_progress :: "string \<Rightarrow> task_progress \<Rightarrow> task_progress" where
  "reclaimed_progress previous tp =
     tp\<lparr>tp_assigned_session_id := None,
        tp_dead_assignee_reclaims := Some (the_default 0 (tp_dead_assignee_reclaims tp) + 1),
        tp_checkpoint_summary :=
          Some (''assignment reclaimed: previous assignee '' @ previous @ '' is dead'')\<rparr>"

definition release_item :: "plan_item \<Rightarrow> plan_item" where
  "release_item it = it\<lparr>pi_assigned_to := None\<rparr>"

definition reclaim_stranded_assignment :: "versioned_plan \<Rightarrow> string \<Rightarrow> versioned_plan \<times> bool" where
  "reclaim_stranded_assignment p i =
     (case find_item (vp_items p) i of
        None \<Rightarrow> (p, False)
      | Some it \<Rightarrow> (case pi_assigned_to it of
          None \<Rightarrow> (p, False)
        | Some previous \<Rightarrow>
            (p\<lparr>vp_items := update_first (\<lambda>x. pi_id x = i) release_item (vp_items p),
               vp_task_progress := (vp_task_progress p)
                 (i \<mapsto> reclaimed_progress previous (the_default default_progress (vp_task_progress p i))),
               vp_version := vp_version p + 1\<rparr>, True)))"

definition control_rank :: "string \<Rightarrow> nat" where
  "control_rank s =
     (if s \<in> {''running'', ''running_stale''} then 0
      else if s \<in> {''queued'', ''ready'', ''pending'', ''todo''} then 1
      else if s \<in> {''failed'', ''stopped'', ''crashed''} then 2
      else if s \<in> {''completed'', ''done''} then 3 else 4)"

definition control_candidates :: "plan_item list \<Rightarrow> string \<Rightarrow> task_control_action \<Rightarrow> plan_item list" where
  "control_candidates items target action =
     sort_key (\<lambda>it. control_rank (pi_status it))
       (filter (\<lambda>it. task_control_action_allows_status action (pi_status it))
         (filter (\<lambda>it. pi_assigned_to it = Some target) items))"

definition task_control_target_item_id ::
  "plan_item list \<Rightarrow> string \<Rightarrow> task_control_action \<Rightarrow> string + string" where
  "task_control_target_item_id items target action =
     (case control_candidates items target action of
        [] \<Rightarrow> Inl (''No task assigned to '' @ quoted target @ '' can be '' @ action_as_str action @
          ''. Provide task_id explicitly, or assign a task first.'')
      | [it] \<Rightarrow> Inr (pi_id it)
      | a # b # rest \<Rightarrow>
          if pi_status a \<noteq> pi_status b then Inr (pi_id a)
          else Inl (''Multiple tasks assigned to '' @ quoted target @ '' can be '' @ action_as_str action @
            '': '' @ join '', '' (map pi_id (a # b # rest)) @ ''. Provide task_id explicitly.''))"

definition explicit_task_blocked_reason :: "versioned_plan \<Rightarrow> string \<Rightarrow> string option" where
  "explicit_task_blocked_reason p task_id =
     (let items = vp_items p in
      case find_item items task_id of
        None \<Rightarrow> None
      | Some it \<Rightarrow>
          let missing = missing_dependencies it (known_ids items);
              unresolved = unresolved_dependencies it (known_ids items) (completed_item_ids items)
          in if missing \<noteq> [] then
               Some (''Task '' @ quoted (pi_id it) @ '' has missing dependencies: '' @ join '', '' missing)
             else if unresolved \<noteq> [] then
               Some (''Task '' @ quoted (pi_id it) @ '' is still blocked by: '' @ join '', '' unresolved)
             else if pi_id it \<in> set (cycle_item_ids items) then
               Some (''Task '' @ quoted (pi_id it) @ '' is part of a dependency cycle and is not runnable'')
             else None)"

record assignment_affinities =
  aa_loads :: "string \<rightharpoonup> nat"
  aa_dependency_carryover :: "string \<rightharpoonup> nat"
  aa_metadata_carryover :: "string \<rightharpoonup> nat"

definition add_dependency_owner :: "versioned_plan \<Rightarrow> string \<Rightarrow> (string \<rightharpoonup> nat) \<Rightarrow> (string \<rightharpoonup> nat)" where
  "add_dependency_owner p d m =
     (let m1 = (case Option.bind (find_item (vp_items p) d) pi_assigned_to of
            None \<Rightarrow> m | Some owner \<Rightarrow> add_load owner 1 m)
      in case Option.bind (vp_task_progress p d) tp_assigned_session_id of
            None \<Rightarrow> m1 | Some owner \<Rightarrow> add_load owner 1 m1)"

definition scope_overlap :: "plan_item \<Rightarrow> plan_item \<Rightarrow> nat" where
  "scope_overlap task it =
     (if pi_file_scope task \<noteq> [] \<and> pi_file_scope it \<noteq> []
      then length (filter (\<lambda>path. path \<in> set (pi_file_scope it)) (pi_file_scope task)) else 0)"

definition add_metadata_owner :: "plan_item \<Rightarrow> plan_item \<Rightarrow> (string \<rightharpoonup> nat) \<Rightarrow> (string \<rightharpoonup> nat)" where
  "add_metadata_owner task it m =
     (case pi_assigned_to it of
        None \<Rightarrow> m
      | Some owner \<Rightarrow>
          if pi_id it = pi_id task then m
          else let m1 = (if pi_subsystem task \<noteq> None \<and> pi_subsystem task = pi_subsystem it
                         then add_load owner 2 m else m)
               in if 0 < scope_overlap task it then add_load owner (scope_overlap task it) m1 else m1)"

definition assignment_affinities_for_task ::
  "versioned_plan \<Rightarrow> string \<Rightarrow> string + assignment_affinities" where
  "assignment_affinities_for_task p task_id =
     (case find_item (vp_items p) task_id of
        None \<Rightarrow> Inl (''Task '' @ quoted task_id @ '' not found in swarm plan'')
      | Some task \<Rightarrow> Inr
          \<lparr>aa_loads = assignment_loads p,
           aa_dependency_carryover = fold (add_dependency_owner p) (pi_blocked_by task) Map.empty,
           aa_metadata_carryover = fold (add_metadata_owner task) (vp_items p) Map.empty\<rparr>)"

definition newly_ready_item_ids :: "plan_item list \<Rightarrow> plan_item list \<Rightarrow> string list" where
  "newly_ready_item_ids before after =
     (let before_ready = set (gs_ready_ids (summarize_plan_graph before))
      in filter (\<lambda>i. i \<notin> before_ready) (gs_ready_ids (summarize_plan_graph after)))"

end
