(* ===== verification/Plan_Summary.thy ===== *)
theory Plan_Summary
  imports Plan_State
begin

text \<open>
  What the dependency summary of a plan promises. The cycle detector is the second client of the
  worklist locale (\<open>Kahn\<close>): its tables count every occurrence of a dependency, so the interpretation
  needs its own counting argument. On top of it: the summary sorts every item into one list, agrees
  with the reason given for an explicit task, and never starves a plan that can still run.
\<close>

section \<open>The cycle detector\<close>

definition plan_edges :: "plan_item list \<Rightarrow> (string \<times> string) set" where
  "plan_edges items = {(d, pi_id it) | d it. it \<in> set items \<and> d \<in> set (pi_blocked_by it) \<and> d \<in> known_ids items}"

lemma count_list_const: "count_list (map (\<lambda>_. a) xs) c = (if a = c then length xs else 0)"
  by (induction xs) auto

lemma length_filter_eq: "length (filter (\<lambda>x. x = d) xs) = count_list xs d"
  by (induction xs) auto

lemma count_plan_dependents:
  "count_list (plan_dependents items d) c =
     (\<Sum>it \<leftarrow> items. if pi_id it = c then count_list (pi_blocked_by it) d else 0)"
  unfolding plan_dependents_def
  by (induction items) (auto simp: count_list_const length_filter_eq)

lemma sum_count_list: "finite A \<Longrightarrow> (\<Sum>d \<in> A. count_list xs d) = length (filter (\<lambda>d. d \<in> A) xs)"
proof (induction xs)
  case (Cons x xs)
  have "(\<Sum>d \<in> A. count_list (x # xs) d) = (\<Sum>d \<in> A. (if d = x then 1 else 0) + count_list xs d)"
    by (intro sum.cong) auto
  also have "\<dots> = (if x \<in> A then 1 else 0) + (\<Sum>d \<in> A. count_list xs d)"
    using Cons.prems by (simp add: sum.distrib)
  finally show ?case using Cons by simp
qed simp

lemma sum_plan_dependents:
  "finite A \<Longrightarrow>
   (\<Sum>d \<in> A. \<Sum>it \<leftarrow> items. if pi_id it = c then count_list (pi_blocked_by it) d else 0) =
   (\<Sum>it \<leftarrow> items. if pi_id it = c then length (filter (\<lambda>d. d \<in> A) (pi_blocked_by it)) else 0)"
  by (induction items) (auto simp: sum.distrib sum_count_list)

lemma finite_known_ids: "finite (known_ids items)"
  by (simp add: known_ids_def)

lemma plan_indegrees_spec:
  "distinct (map fst (plan_indegrees items))"
  "fst ` set (plan_indegrees items) = known_ids items"
  "c \<in> known_ids items \<Longrightarrow> map_of (plan_indegrees items) c =
     Some (\<Sum>it \<leftarrow> items. if pi_id it = c then length (filter (\<lambda>d. d \<in> known_ids items) (pi_blocked_by it)) else 0)"
  using degree_table [OF plan_indegrees_def] by (auto simp: known_ids_def)

interpretation plan_kahn: kahn_graph "plan_dependents items" "plan_indegrees items" for items
proof unfold_locales
  fix x show "set (plan_dependents items x) \<subseteq> fst ` set (plan_indegrees items)"
    by (auto simp: plan_indegrees_spec plan_dependents_def known_ids_def)
next
  fix c assume "c \<in> fst ` set (plan_indegrees items)"
  then show "map_of (plan_indegrees items) c =
      Some (\<Sum>d \<in> fst ` set (plan_indegrees items). count_list (plan_dependents items d) c)"
    by (simp add: plan_indegrees_spec count_plan_dependents sum_plan_dependents finite_known_ids)
qed

lemma plan_kahn_edges: "plan_kahn.edges items = plan_edges items"
  by (auto simp: plan_kahn.edges_def plan_kahn.known_def plan_indegrees_spec plan_edges_def plan_dependents_def)

lemma plan_edges_finite: "finite (plan_edges items)"
  using plan_kahn.edges_finite by (simp add: plan_kahn_edges)

lemma kahn_loop_distinct:
  "distinct (map fst deg) \<Longrightarrow> distinct (map fst (snd (kahn_loop succs V q deg)))"
proof (induction succs V q deg rule: kahn_loop.induct)
  case (2 succs V x q deg)
  have "distinct (map fst (fst (relax cs deg q)))" if "distinct (map fst deg)" for cs
    using that by (induction cs deg q rule: relax.induct) (auto simp: distinct_update split: option.splits)
  with 2 show ?case by simp
qed simp

lemma kahn_loop_dom: "fst ` set (snd (kahn_loop succs V q deg)) = fst ` set deg"
  by (induction succs V q deg rule: kahn_loop.induct) (auto simp: relax_dom)

lemma on_or_below_known: "on_or_below_cycle (plan_edges items) x \<Longrightarrow> x \<in> known_ids items"
proof -
  assume "on_or_below_cycle (plan_edges items) x"
  then obtain y where "(y, y) \<in> (plan_edges items)\<^sup>+" "(y, x) \<in> (plan_edges items)\<^sup>*"
    by (auto simp: on_or_below_cycle_def)
  then have "(y, x) \<in> (plan_edges items)\<^sup>+" by simp
  then obtain z where "(z, x) \<in> plan_edges items" by (metis tranclD2)
  then show ?thesis by (auto simp: plan_edges_def known_ids_def)
qed

lemma cycle_from_spec:
  assumes q: "set queue = set (zero_degree_ids items)"
  shows "set (cycle_item_ids_from queue items) = {x. on_or_below_cycle (plan_edges items) x}"
    and "distinct (cycle_item_ids_from queue items)" and "sorted (cycle_item_ids_from queue items)"
proof -
  have zero: "set queue = {c \<in> plan_kahn.known items. map_of (plan_indegrees items) c = Some 0}"
    unfolding q zero_degree_ids_def using zero_keys [OF plan_indegrees_spec(1)]
    by (simp add: plan_kahn.known_def)
  let ?r = "kahn_loop (plan_dependents items) {} queue (plan_indegrees items)"
  have dist: "distinct (map fst (snd ?r))" by (rule kahn_loop_distinct [OF plan_indegrees_spec(1)])
  have dom: "fst ` set (snd ?r) = known_ids items" by (simp add: kahn_loop_dom plan_indegrees_spec)
  have keep: "(i, d) \<in> set (snd ?r) \<Longrightarrow> 0 < d \<and> i \<notin> fst ?r \<longleftrightarrow> on_or_below_cycle (plan_edges items) i" for i d
  proof -
    assume i: "(i, d) \<in> set (snd ?r)"
    then have m: "map_of (snd ?r) i = Some d" using dist by simp
    from i dom have k: "i \<in> plan_kahn.known items"
      unfolding plan_kahn.known_def plan_indegrees_spec(2) by force
    show ?thesis
      using plan_kahn.kahn_degree [OF zero k] plan_kahn.kahn_visited [OF zero] m k
      by (auto simp: plan_kahn_edges)
  qed
  have set: "set (map fst (filter (\<lambda>(i, d). 0 < d \<and> i \<notin> fst ?r) (snd ?r))) =
      {x. on_or_below_cycle (plan_edges items) x}"
  proof
    show "set (map fst (filter (\<lambda>(i, d). 0 < d \<and> i \<notin> fst ?r) (snd ?r))) \<subseteq> {x. on_or_below_cycle (plan_edges items) x}"
    proof
      fix x assume "x \<in> set (map fst (filter (\<lambda>(i, d). 0 < d \<and> i \<notin> fst ?r) (snd ?r)))"
      then obtain d where "(x, d) \<in> set (snd ?r)" "0 < d" "x \<notin> fst ?r" by auto
      with keep [of x d] show "x \<in> {x. on_or_below_cycle (plan_edges items) x}" by simp
    qed
    show "{x. on_or_below_cycle (plan_edges items) x} \<subseteq> set (map fst (filter (\<lambda>(i, d). 0 < d \<and> i \<notin> fst ?r) (snd ?r)))"
    proof
      fix x assume x: "x \<in> {x. on_or_below_cycle (plan_edges items) x}"
      then have "x \<in> fst ` set (snd ?r)" unfolding dom using on_or_below_known by simp
      then obtain d where d: "(x, d) \<in> set (snd ?r)" by auto
      with keep [OF d] x show "x \<in> set (map fst (filter (\<lambda>(i, d). 0 < d \<and> i \<notin> fst ?r) (snd ?r)))"
        by (force simp: image_iff)
    qed
  qed
  then show "set (cycle_item_ids_from queue items) = {x. on_or_below_cycle (plan_edges items) x}"
    by (simp add: cycle_item_ids_from_def case_prod_beta)
  show "sorted (cycle_item_ids_from queue items)"
    by (simp add: cycle_item_ids_from_def case_prod_beta)
  show "distinct (cycle_item_ids_from queue items)"
    using distinct_map_filter [OF dist] by (simp add: cycle_item_ids_from_def case_prod_beta)
qed

lemma cycle_set: "set (cycle_item_ids items) = {x. on_or_below_cycle (plan_edges items) x}"
  unfolding cycle_item_ids_def by (rule cycle_from_spec(1)) (rule refl)

text \<open>The plan's cycle report is exact and deterministic: whatever order the hash map hands out the
  start items in, the report is the same sorted list without duplicates, and it holds exactly the
  ids on a dependency cycle or downstream of one, repeated dependencies and repeated ids included.\<close>

theorem cycle_order_irrelevant:
  assumes "set queue = set (zero_degree_ids items)"
  shows "cycle_item_ids_from queue items = cycle_item_ids items \<and>
    set (cycle_item_ids items) =
      {x. \<exists>y. (y, y) \<in> (plan_edges items)\<^sup>+ \<and> (y, x) \<in> (plan_edges items)\<^sup>*} \<and>
    (cycle_item_ids items = [] \<longleftrightarrow> acyclic (plan_edges items))"
proof (intro conjI)
  note a = cycle_from_spec [OF assms] and b = cycle_from_spec [OF refl, of items, folded cycle_item_ids_def]
  show "cycle_item_ids_from queue items = cycle_item_ids items"
    by (rule sorted_distinct_set_unique) (use a b in auto)
  show "set (cycle_item_ids items) = {x. \<exists>y. (y, y) \<in> (plan_edges items)\<^sup>+ \<and> (y, x) \<in> (plan_edges items)\<^sup>*}"
    using b(1) by (simp add: on_or_below_cycle_def)
  show "cycle_item_ids items = [] \<longleftrightarrow> acyclic (plan_edges items)"
    using b(1) unfolding acyclic_iff_no_cycle_below set_empty [symmetric] by auto
qed

definition sample_item :: "string \<Rightarrow> string \<Rightarrow> string list \<Rightarrow> plan_item" where
  "sample_item i status deps =
     \<lparr>pi_content = i, pi_status = status, pi_priority = ''high'', pi_id = i, pi_subsystem = None,
      pi_file_scope = [], pi_blocked_by = deps, pi_assigned_to = None\<rparr>"

definition sample_items :: "plan_item list" where
  "sample_items =
     [sample_item ''a'' ''done'' [], sample_item ''b'' ''queued'' [''a''], sample_item ''c'' ''queued'' [''b'', ''b'']]"

lemma cycle_order_irrelevant_witness: "cycle_item_ids_from [''a'', ''a''] sample_items = cycle_item_ids sample_items"
proof -
  have "zero_degree_ids sample_items = [''a'']" by code_simp
  then have "set [''a'', ''a''] = set (zero_degree_ids sample_items)" by simp
  then show ?thesis by (rule cycle_order_irrelevant [THEN conjunct1])
qed

section \<open>The summary\<close>

lemma ready_ids_set: "set (gs_ready_ids (summarize_plan_graph items)) = pi_id ` {it \<in> set items. item_ready items it}"
  by (auto simp: summarize_plan_graph_def ids_where_def)

lemma summary_sets:
  "set (gs_blocked_ids (summarize_plan_graph items)) = pi_id ` {it \<in> set items. item_blocked items it}"
  "set (gs_active_ids (summarize_plan_graph items)) = pi_id ` {it \<in> set items. is_active_status (pi_status it)}"
  "set (gs_terminal_ids (summarize_plan_graph items)) = pi_id ` {it \<in> set items. is_terminal_status (pi_status it)}"
  by (auto simp: summarize_plan_graph_def ids_where_def btree_ids_def)

lemma same_item: "distinct (map pi_id items) \<Longrightarrow> it \<in> set items \<Longrightarrow> it' \<in> set items \<Longrightarrow> pi_id it = pi_id it' \<Longrightarrow> it = it'"
  by (simp add: distinct_map inj_on_def)

lemma id_in_image:
  assumes "distinct (map pi_id items)" and "it \<in> set items"
  shows "pi_id it \<in> pi_id ` {x \<in> set items. P x} \<longleftrightarrow> P it"
  using assms same_item by blast

definition known_status :: "string \<Rightarrow> bool" where
  "known_status s \<longleftrightarrow> is_runnable_status s \<or> is_active_status s \<or> is_terminal_status s \<or> s = ''blocked''"

text \<open>The summary classifies: with unique ids, an item whose status is one the plan knows stands in
  exactly one of the ready, blocked, active and terminal lists.\<close>

theorem summary_partitions:
  assumes "distinct (map pi_id items)" and "it \<in> set items" and "known_status (pi_status it)"
  defines "g \<equiv> summarize_plan_graph items"
  shows "length (filter (\<lambda>l. pi_id it \<in> set l)
    [gs_ready_ids g, gs_blocked_ids g, gs_active_ids g, gs_terminal_ids g]) = 1"
proof -
  let ?r = "item_ready items it" and ?b = "item_blocked items it"
    and ?a = "is_active_status (pi_status it)" and ?t = "is_terminal_status (pi_status it)"
  have mem: "pi_id it \<in> set (gs_ready_ids g) \<longleftrightarrow> ?r" "pi_id it \<in> set (gs_blocked_ids g) \<longleftrightarrow> ?b"
    "pi_id it \<in> set (gs_active_ids g) \<longleftrightarrow> ?a" "pi_id it \<in> set (gs_terminal_ids g) \<longleftrightarrow> ?t"
    unfolding g_def ready_ids_set summary_sets by (rule id_in_image [OF assms(1,2)])+
  have excl: "?r \<Longrightarrow> \<not> ?b \<and> \<not> ?a \<and> \<not> ?t" "?b \<Longrightarrow> \<not> ?a \<and> \<not> ?t" "?a \<Longrightarrow> \<not> ?t"
    using runnable_not_terminal active_not_terminal by (simp_all add: item_ready_def item_blocked_def)
  have "?r \<or> ?b \<or> ?a \<or> ?t"
    using assms(3) unfolding known_status_def item_ready_def item_blocked_def by blast
  with excl show ?thesis unfolding filter.simps mem by auto
qed

lemma summary_partitions_witness:
  "length (filter (\<lambda>l. ''b'' \<in> set l)
    [gs_ready_ids (summarize_plan_graph sample_items), gs_blocked_ids (summarize_plan_graph sample_items),
     gs_active_ids (summarize_plan_graph sample_items), gs_terminal_ids (summarize_plan_graph sample_items)]) = 1"
proof -
  have "distinct (map pi_id sample_items)" by code_simp
  moreover have "sample_item ''b'' ''queued'' [''a''] \<in> set sample_items" by (simp add: sample_items_def)
  moreover have "known_status (pi_status (sample_item ''b'' ''queued'' [''a'']))" by code_simp
  ultimately have "length (filter (\<lambda>l. pi_id (sample_item ''b'' ''queued'' [''a'']) \<in> set l)
    [gs_ready_ids (summarize_plan_graph sample_items), gs_blocked_ids (summarize_plan_graph sample_items),
     gs_active_ids (summarize_plan_graph sample_items), gs_terminal_ids (summarize_plan_graph sample_items)]) = 1"
    by (rule summary_partitions)
  then show ?thesis by (simp only: sample_item_def plan_item.select_convs)
qed

text \<open>The summary and the explanation agree: with unique ids, an item is listed as ready exactly if
  its status is runnable and no reason against running it is reported.\<close>

theorem ready_iff_no_reason:
  assumes "distinct (map pi_id (vp_items p))" and "it \<in> set (vp_items p)"
  shows "pi_id it \<in> set (gs_ready_ids (summarize_plan_graph (vp_items p))) \<longleftrightarrow>
    is_runnable_status (pi_status it) \<and> explicit_task_blocked_reason p (pi_id it) = None"
proof -
  have "find_item (vp_items p) (pi_id it) = Some it"
    unfolding find_item_def by (rule find_key_distinct [OF assms])
  then have "explicit_task_blocked_reason p (pi_id it) = None \<longleftrightarrow>
      missing_dependencies it (known_ids (vp_items p)) = [] \<and> \<not> has_blocker (vp_items p) it"
    by (simp add: explicit_task_blocked_reason_def has_blocker_def Let_def)
  then show ?thesis
    unfolding ready_ids_set id_in_image [OF assms] item_ready_def by blast
qed

definition sample_plan :: versioned_plan where
  "sample_plan = plan_new\<lparr>vp_items := sample_items\<rparr>"

lemma ready_iff_no_reason_witness:
  "\<not> (''c'' \<in> set (gs_ready_ids (summarize_plan_graph (vp_items sample_plan))))"
proof -
  have "distinct (map pi_id (vp_items sample_plan))" by code_simp
  moreover have "sample_item ''c'' ''queued'' [''b'', ''b''] \<in> set (vp_items sample_plan)"
    by (simp add: sample_plan_def sample_items_def)
  ultimately have "pi_id (sample_item ''c'' ''queued'' [''b'', ''b'']) \<in> set (gs_ready_ids (summarize_plan_graph (vp_items sample_plan))) \<longleftrightarrow>
    is_runnable_status (pi_status (sample_item ''c'' ''queued'' [''b'', ''b''])) \<and>
    explicit_task_blocked_reason sample_plan (pi_id (sample_item ''c'' ''queued'' [''b'', ''b''])) = None"
    by (rule ready_iff_no_reason)
  moreover have "explicit_task_blocked_reason sample_plan ''c'' \<noteq> None" by code_simp
  ultimately show ?thesis by (simp add: sample_item_def)
qed

section \<open>What runs next\<close>

lemma next_runnable_set: "set (next_runnable_item_ids items None) = set (gs_ready_ids (summarize_plan_graph items))"
  by (auto simp: next_runnable_item_ids_def Let_def ready_ids_set)

text \<open>Selection: the runnable ids are exactly the ready ones in the order of priority rank and then
  id, each once when ids are unique, and a limit cuts a prefix of them.\<close>

theorem next_runnable_in_order:
  assumes "distinct (map pi_id items)"
  shows "set (next_runnable_item_ids items None) = set (gs_ready_ids (summarize_plan_graph items)) \<and>
    distinct (next_runnable_item_ids items None) \<and>
    (\<exists>its. map pi_id its = next_runnable_item_ids items None \<and> set its \<subseteq> set items \<and>
       sorted (map (\<lambda>it. (priority_rank (pi_priority it), pi_id it)) its)) \<and>
    next_runnable_item_ids items (Some n) = take n (next_runnable_item_ids items None)"
proof (intro conjI)
  let ?its = "sort_key runnable_key (filter (\<lambda>it. pi_id it \<in> set (gs_ready_ids (summarize_plan_graph items))) items)"
  have ids: "next_runnable_item_ids items None = map pi_id ?its"
    by (simp add: next_runnable_item_ids_def Let_def)
  have "distinct items" "inj_on pi_id (set items)" using assms by (simp_all add: distinct_map)
  then show "distinct (next_runnable_item_ids items None)"
    unfolding ids distinct_map by (auto intro: inj_on_subset)
  show "\<exists>its. map pi_id its = next_runnable_item_ids items None \<and> set its \<subseteq> set items \<and>
       sorted (map (\<lambda>it. (priority_rank (pi_priority it), pi_id it)) its)"
    using sorted_sort_key [of runnable_key] unfolding ids by (intro exI [of _ ?its]) (auto simp: runnable_key_def [abs_def])
  show "next_runnable_item_ids items (Some n) = take n (next_runnable_item_ids items None)"
    by (simp add: next_runnable_item_ids_def Let_def)
qed (rule next_runnable_set)

lemma next_runnable_in_order_witness: "next_runnable_item_ids sample_items (Some 1) = take 1 (next_runnable_item_ids sample_items None)"
proof -
  have "distinct (map pi_id sample_items)" by code_simp
  then show ?thesis by (rule next_runnable_in_order [THEN conjunct2, THEN conjunct2, THEN conjunct2])
qed

text \<open>A healthy plan never stalls: if every dependency exists, the dependencies are acyclic and every
  item is runnable or completed, then some item can run unless all are completed.\<close>

theorem healthy_plan_runs:
  assumes known: "\<forall>it \<in> set items. set (pi_blocked_by it) \<subseteq> known_ids items"
    and acyc: "acyclic (plan_edges items)"
    and st: "\<forall>it \<in> set items. is_runnable_status (pi_status it) \<or> is_completed_status (pi_status it)"
    and more: "\<exists>it \<in> set items. \<not> is_completed_status (pi_status it)"
  shows "next_runnable_item_ids items None \<noteq> []"
proof -
  have wf: "wf (plan_edges items)" using finite_acyclic_wf [OF plan_edges_finite acyc] .
  let ?open = "{i. i \<in> known_ids items \<and> i \<notin> completed_item_ids items}"
  have "\<exists>it \<in> set items. item_ready items it"
  proof (rule ccontr)
    assume none: "\<not> (\<exists>it \<in> set items. item_ready items it)"
    have no_cycle: "set (cycle_item_ids items) = {}"
      using acyc by (simp add: cycle_set acyclic_iff_no_cycle_below)
    have up: "\<exists>d. (d, pi_id it) \<in> plan_edges items \<and> d \<in> ?open"
      if it: "it \<in> set items" "\<not> is_completed_status (pi_status it)" for it
    proof -
      have "missing_dependencies it (known_ids items) = []"
        using known it(1) by (auto simp: missing_dependencies_def filter_empty_conv)
      moreover have "\<not> item_ready items it" using none it(1) by blast
      moreover have "is_runnable_status (pi_status it)" using st it by blast
      ultimately have "unresolved_dependencies it (known_ids items) (completed_item_ids items) \<noteq> []"
        using no_cycle by (auto simp: item_ready_def has_blocker_def)
      then obtain d where "d \<in> set (pi_blocked_by it)" "d \<in> ?open"
        by (auto simp: unresolved_dependencies_def filter_empty_conv)
      with it(1) show ?thesis by (auto simp: plan_edges_def)
    qed
    obtain it0 where it0: "it0 \<in> set items" "\<not> is_completed_status (pi_status it0)" using more by blast
    from up [OF this] obtain d0 where "d0 \<in> ?open" by blast
    then obtain m where m: "m \<in> ?open" and min: "\<And>y. (y, m) \<in> plan_edges items \<Longrightarrow> y \<notin> ?open"
      using wfE_min [OF wf, of d0 ?open] by blast
    from m obtain it where "it \<in> set items" "pi_id it = m" "\<not> is_completed_status (pi_status it)"
      by (auto simp: known_ids_def completed_item_ids_def)
    with up min show False by blast
  qed
  then have "set (next_runnable_item_ids items None) \<noteq> {}" by (auto simp: next_runnable_set ready_ids_set)
  then show ?thesis by auto
qed

lemma healthy_plan_runs_witness: "next_runnable_item_ids sample_items None \<noteq> []"
proof (rule healthy_plan_runs)
  have c: "cycle_item_ids sample_items = []" by code_simp
  then show "acyclic (plan_edges sample_items)"
    using cycle_set [of sample_items] by (simp add: acyclic_iff_no_cycle_below)
qed (simp_all add: sample_items_def sample_item_def known_ids_def status_defs)

definition sample_stuck :: versioned_plan where
  "sample_stuck = plan_new\<lparr>vp_items :=
     [sample_item ''a'' ''done'' [''b''], sample_item ''b'' ''done'' [''a''], sample_item ''c'' ''queued'' [''a'']]\<rparr>"

text \<open>Being reported as cyclic is more than lying on a cycle: there is a plan whose item depends
  only on a completed item and lies on no cycle, and yet it is withheld forever with the message
  that it is part of a dependency cycle.\<close>

theorem downstream_of_done_cycle_is_stuck:
  "(''c'', ''c'') \<notin> (plan_edges (vp_items sample_stuck))\<^sup>+ \<and>
   set (pi_blocked_by (sample_item ''c'' ''queued'' [''a''])) \<subseteq> completed_item_ids (vp_items sample_stuck) \<and>
   next_runnable_item_ids (vp_items sample_stuck) None = [] \<and>
   explicit_task_blocked_reason sample_stuck ''c'' =
     Some (''Task '' @ quoted ''c'' @ '' is part of a dependency cycle and is not runnable'')"
proof (intro conjI)
  have "(''c'', x) \<notin> plan_edges (vp_items sample_stuck)" for x
    by (auto simp: plan_edges_def sample_stuck_def sample_item_def)
  then show "(''c'', ''c'') \<notin> (plan_edges (vp_items sample_stuck))\<^sup>+" by (metis tranclD)
  show "set (pi_blocked_by (sample_item ''c'' ''queued'' [''a''])) \<subseteq> completed_item_ids (vp_items sample_stuck)"
    by (simp add: sample_item_def completed_item_ids_def sample_stuck_def status_defs)
  show "next_runnable_item_ids (vp_items sample_stuck) None = []" by code_simp
  show "explicit_task_blocked_reason sample_stuck ''c'' =
     Some (''Task '' @ quoted ''c'' @ '' is part of a dependency cycle and is not runnable'')"
    by code_simp
qed

end
