(* ===== verification/Plan_Assign.thy ===== *)
theory Plan_Assign
  imports Plan_Summary
begin

text \<open>
  Assignment over a plan: the recovery of work stranded on dead sessions and its bound, the target of
  a task-control action, the text of a control message, and the load counts.
\<close>

section \<open>Reclaiming stranded work\<close>

lemma find_item_Some: "find_item items i = Some it \<Longrightarrow> it \<in> set items \<and> pi_id it = i"
  unfolding find_item_def by (rule find_map_of_key)

lemma find_update_first:
  "find (\<lambda>x. pi_id x = i) (update_first (\<lambda>x. pi_id x = i) release_item items) =
   map_option release_item (find (\<lambda>x. pi_id x = i) items)"
  by (induction items) (auto simp: release_item_def)

lemma ids_where_release:
  "(\<And>it. Q (release_item it) = Q it) \<Longrightarrow> ids_where Q (update_first P release_item xs) = ids_where Q xs"
  by (induction xs) (auto simp: ids_where_def release_item_def)

lemma next_runnable_release:
  "next_runnable_item_ids (update_first P release_item items) limit = next_runnable_item_ids items limit"
proof -
  let ?u = "update_first P release_item items"
  have same: "known_ids ?u = known_ids items" "completed_item_ids ?u = completed_item_ids items"
  proof -
    have "map f ?u = map f items" if "\<And>x. f (release_item x) = f x" for f :: "plan_item \<Rightarrow> 'a"
      using that by simp
    then show "known_ids ?u = known_ids items" by (simp add: known_ids_def release_item_def del: set_map)
    have "ids_where (\<lambda>it. is_completed_status (pi_status it)) ?u =
        ids_where (\<lambda>it. is_completed_status (pi_status it)) items"
      by (rule ids_where_release) (simp add: release_item_def)
    then show "completed_item_ids ?u = completed_item_ids items"
      by (simp add: completed_item_ids_def ids_where_def)
  qed
  have fold_same: "fold (\<lambda>it. F (G it)) ?u x = fold (\<lambda>it. F (G it)) items x"
    if "\<And>it. G (release_item it) = G it" for F :: "'c \<Rightarrow> 'd \<Rightarrow> 'd" and G and x
    using that by (induction items arbitrary: x) auto
  have "plan_indegrees ?u = plan_indegrees items"
    unfolding plan_indegrees_def same
    using fold_same [of "\<lambda>it. (pi_id it, length (filter (\<lambda>d. d \<in> known_ids items) (pi_blocked_by it)))" "\<lambda>(a, b). add_degree a b"]
      fold_same [of pi_id ensure_entry]
    by (simp add: release_item_def)
  moreover have "plan_dependents ?u = plan_dependents items"
  proof
    fix d show "plan_dependents ?u d = plan_dependents items d"
      unfolding plan_dependents_def by (induction items) (auto simp: release_item_def)
  qed
  ultimately have cyc: "cycle_item_ids ?u = cycle_item_ids items"
    by (simp add: cycle_item_ids_def cycle_item_ids_from_def zero_degree_ids_def)
  have ready: "item_ready ?u it = item_ready items it" "item_ready items (release_item it) = item_ready items it" for it
    by (simp_all add: item_ready_def has_blocker_def same cyc missing_dependencies_def
        unresolved_dependencies_def release_item_def)
  have rset: "set (gs_ready_ids (summarize_plan_graph ?u)) = set (gs_ready_ids (summarize_plan_graph items))"
  proof -
    have "ids_where (item_ready items) ?u = ids_where (item_ready items) items"
      by (rule ids_where_release) (rule ready(2))
    moreover have "item_ready ?u = item_ready items" by (rule ext) (rule ready(1))
    ultimately show ?thesis by (simp add: summarize_plan_graph_def)
  qed
  have sorted_same: "map pi_id (sort_key runnable_key (filter (\<lambda>it. pi_id it \<in> R) ?u)) =
      map pi_id (sort_key runnable_key (filter (\<lambda>it. pi_id it \<in> R) items))" for R
  proof -
    have f: "map (\<lambda>it. (runnable_key it, pi_id it)) (filter (\<lambda>it. pi_id it \<in> R) ?u) =
        map (\<lambda>it. (runnable_key it, pi_id it)) (filter (\<lambda>it. pi_id it \<in> R) items)"
      by (induction items) (auto simp: release_item_def runnable_key_def)
    have ins: "map (\<lambda>it. (runnable_key it, pi_id it)) (insort_key runnable_key x xs) =
        insort_key fst (runnable_key x, pi_id x) (map (\<lambda>it. (runnable_key it, pi_id it)) xs)" for x xs
      by (induction xs) auto
    have "map (\<lambda>it. (runnable_key it, pi_id it)) (sort_key runnable_key xs) =
        sort_key fst (map (\<lambda>it. (runnable_key it, pi_id it)) xs)" for xs
      by (induction xs) (auto simp: ins)
    from this [of "filter (\<lambda>it. pi_id it \<in> R) ?u"] this [of "filter (\<lambda>it. pi_id it \<in> R) items"] f
    have "map (\<lambda>it. (runnable_key it, pi_id it)) (sort_key runnable_key (filter (\<lambda>it. pi_id it \<in> R) ?u)) =
        map (\<lambda>it. (runnable_key it, pi_id it)) (sort_key runnable_key (filter (\<lambda>it. pi_id it \<in> R) items))"
      by simp
    from arg_cong [OF this, of "map snd"] show ?thesis by (simp add: comp_def)
  qed
  show ?thesis unfolding next_runnable_item_ids_def Let_def rset sorted_same ..
qed

lemma reclaim_True:
  assumes "reclaim_stranded_assignment p i = (p', True)"
  obtains it previous where "find_item (vp_items p) i = Some it" and "pi_assigned_to it = Some previous"
    and "vp_items p' = update_first (\<lambda>x. pi_id x = i) release_item (vp_items p)"
    and "vp_task_progress p' = (vp_task_progress p)
      (i \<mapsto> reclaimed_progress previous (the_default default_progress (vp_task_progress p i)))"
    and "vp_version p' = vp_version p + 1"
  using assms by (auto simp: reclaim_stranded_assignment_def split: option.splits)

lemma reclaim_count_after:
  assumes "reclaim_stranded_assignment p i = (p', True)"
  shows "reclaim_count p' j = (if j = i then reclaim_count p i + 1 else reclaim_count p j)"
  using assms
  by (rule reclaim_True; cases "vp_task_progress p i")
    (auto simp: reclaim_count_def reclaimed_progress_def default_progress_def)

lemma stranded_reclaims:
  assumes "next_stranded_runnable_item_id p dead = Some i"
  obtains p' where "reclaim_stranded_assignment p i = (p', True)" and "is_stranded p dead i"
    and "i \<in> set (next_runnable_item_ids (vp_items p) None)"
proof -
  from assms have s: "is_stranded p dead i" "i \<in> set (next_runnable_item_ids (vp_items p) None)"
    by (auto simp: next_stranded_runnable_item_id_def find_Some_iff dest: nth_mem)
  then obtain it a where "find_item (vp_items p) i = Some it" "pi_assigned_to it = Some a"
    by (auto simp: is_stranded_def split: option.splits)
  then obtain p' where "reclaim_stranded_assignment p i = (p', True)"
    by (simp add: reclaim_stranded_assignment_def)
  with s show thesis by (rule that [rotated 1])
qed

text \<open>Reclaiming makes stranded work assignable again: the item the stranded search returns is
  released, stays runnable and is found by the search for unassigned work afterwards, is not
  stranded any more whatever sessions are dead, its counter and the plan version grow by one, and
  no other item's progress changes.\<close>

theorem reclaim_frees_work:
  assumes str: "next_stranded_runnable_item_id p dead = Some i"
    and res: "reclaim_stranded_assignment p i = (p', b)"
  shows "b \<and> (\<exists>it. find_item (vp_items p') i = Some it \<and> pi_assigned_to it = None) \<and>
    i \<in> set (next_runnable_item_ids (vp_items p') None) \<and>
    next_unassigned_runnable_item_id p' \<noteq> None \<and> \<not> is_stranded p' dead' i \<and>
    reclaim_count p' i = reclaim_count p i + 1 \<and> vp_version p' = vp_version p + 1 \<and>
    (\<forall>j. j \<noteq> i \<longrightarrow> vp_task_progress p' j = vp_task_progress p j)"
proof -
  from str obtain p'' where p'': "reclaim_stranded_assignment p i = (p'', True)"
    and run: "i \<in> set (next_runnable_item_ids (vp_items p) None)"
    by (rule stranded_reclaims)
  with res have b: "b" and r: "reclaim_stranded_assignment p i = (p', True)" by auto
  from r obtain it previous where it: "find_item (vp_items p) i = Some it"
    and items: "vp_items p' = update_first (\<lambda>x. pi_id x = i) release_item (vp_items p)"
    and prog: "vp_task_progress p' = (vp_task_progress p)
      (i \<mapsto> reclaimed_progress previous (the_default default_progress (vp_task_progress p i)))"
    and ver: "vp_version p' = vp_version p + 1"
    by (rule reclaim_True)
  have free: "find_item (vp_items p') i = Some (release_item it)"
    using it by (simp add: find_item_def items find_update_first)
  have run': "i \<in> set (next_runnable_item_ids (vp_items p') None)"
    using run by (simp add: items next_runnable_release)
  have un: "next_unassigned_runnable_item_id p' \<noteq> None"
    using run' free by (auto simp: next_unassigned_runnable_item_id_def find_None_iff release_item_def intro!: bexI [of _ i])
  show ?thesis
    using b free run' un prog ver reclaim_count_after [OF r, of i]
    by (auto simp: is_stranded_def release_item_def)
qed

definition sample_stranded :: versioned_plan where
  "sample_stranded = plan_new\<lparr>vp_items := [(sample_item ''a'' ''queued'' [])\<lparr>pi_assigned_to := Some ''s''\<rparr>]\<rparr>"

lemma reclaim_frees_work_witness:
  "next_unassigned_runnable_item_id (fst (reclaim_stranded_assignment sample_stranded ''a'')) \<noteq> None"
proof -
  have "next_stranded_runnable_item_id sample_stranded (\<lambda>s. s = ''s'') = Some ''a''" by code_simp
  moreover obtain p' b where r: "reclaim_stranded_assignment sample_stranded ''a'' = (p', b)" by fastforce
  ultimately have "next_unassigned_runnable_item_id p' \<noteq> None" using reclaim_frees_work by blast
  with r show ?thesis by simp
qed




section \<open>Task control\<close>

lemma action_roundtrip: "action_parse (action_as_str a) = Some a"
  by (cases a) (simp_all add: action_parse_def)

lemma allowed_not_completed: "task_control_action_allows_status a s \<Longrightarrow> \<not> is_completed_status s"
  by (cases a) (auto simp: status_defs)

text \<open>A control action never reaches finished work: the target the plan picks for an action and a
  session is an item assigned to that session, in a status the action allows and so never
  completed, and no other candidate is more urgent.\<close>

theorem control_target_sound:
  assumes "task_control_target_item_id items target action = Inr i"
  shows "\<exists>it \<in> set items. pi_id it = i \<and> pi_assigned_to it = Some target \<and>
    task_control_action_allows_status action (pi_status it) \<and> \<not> is_completed_status (pi_status it) \<and>
    (\<forall>it' \<in> set items. pi_assigned_to it' = Some target \<and> task_control_action_allows_status action (pi_status it') \<longrightarrow>
       control_rank (pi_status it) \<le> control_rank (pi_status it'))"
proof -
  let ?c = "control_candidates items target action"
  have set: "set ?c = {it \<in> set items. pi_assigned_to it = Some target \<and> task_control_action_allows_status action (pi_status it)}"
    by (auto simp: control_candidates_def)
  have sorted: "sorted (map (\<lambda>it. control_rank (pi_status it)) ?c)" by (simp add: control_candidates_def)
  from assms obtain it rest where c: "?c = it # rest" and i: "i = pi_id it"
    by (auto simp: task_control_target_item_id_def split: list.splits if_splits)
  have "control_rank (pi_status it) \<le> control_rank (pi_status it')" if "it' \<in> set ?c" for it'
    using sorted that by (auto simp: c)
  moreover have "it \<in> set ?c" by (simp add: c)
  ultimately show ?thesis using i allowed_not_completed unfolding set by (intro bexI [of _ it]) auto
qed

lemma control_target_sound_witness:
  "\<exists>it \<in> set (vp_items sample_stranded). pi_id it = ''a'' \<and> \<not> is_completed_status (pi_status it)"
proof -
  have "task_control_target_item_id (vp_items sample_stranded) ''s'' Start = Inr ''a''" by code_simp
  from control_target_sound [OF this] show ?thesis by blast
qed

section \<open>Loads\<close>

lemma fold_loads:
  "the_default 0 (fold (\<lambda>it m. if is_terminal_status (pi_status it) then m
      else case pi_assigned_to it of None \<Rightarrow> m | Some a \<Rightarrow> add_load a 1 m) items m a) =
   the_default 0 (m a) + length (filter (\<lambda>it. \<not> is_terminal_status (pi_status it) \<and> pi_assigned_to it = Some a) items)"
  by (induction items arbitrary: m) (auto simp: add_load_def split: option.splits)

text \<open>The load of a session is the number of its unfinished items.\<close>

theorem assignment_loads_count:
  "the_default 0 (assignment_loads p a) =
     length (filter (\<lambda>it. \<not> is_terminal_status (pi_status it) \<and> pi_assigned_to it = Some a) (vp_items p))"
  unfolding assignment_loads_def by (simp add: fold_loads)

end
