(* ===== verification/Plan_Bridge.thy ===== *)
theory Plan_Bridge
  imports Plan_State Dag_Ops
begin

text \<open>
  The bridge between the engine and the shared plan (\<open>crates/jcode-plan/src/bridge.rs\<close>): a plan is
  lifted into a task graph, an engine operation is applied, and the graph is lowered back into the
  plan's items and node metadata. The JSON encoder and decoder of handoff artifacts (\<open>serde_json\<close>)
  are the parameters \<open>to_json\<close> and \<open>from_json\<close>.
\<close>

section \<open>Names of modes, kinds, origins and statuses\<close>

definition parse_mode :: "string \<Rightarrow> mode" where
  "parse_mode m = (if to_ascii_lowercase (trim m) = ''deep'' then Deep else Light)"

fun mode_str :: "mode \<Rightarrow> string" where
  "mode_str Deep = ''deep''"
| "mode_str Light = ''light''"

definition parse_kind :: "string option \<Rightarrow> node_kind" where
  "parse_kind kind =
     (let k = map_option (\<lambda>s. to_ascii_lowercase (trim s)) kind in
      if k = Some ''implement'' then Implement
      else if k = Some ''verify'' then Verify
      else if k = Some ''fix'' then Fix
      else if k = Some ''synthesize'' then Synthesize
      else if k = Some ''critique'' then Critique
      else Explore)"

fun kind_str :: "node_kind \<Rightarrow> string" where
  "kind_str Explore = ''explore''"
| "kind_str Implement = ''implement''"
| "kind_str Verify = ''verify''"
| "kind_str Fix = ''fix''"
| "kind_str Synthesize = ''synthesize''"
| "kind_str Critique = ''critique''"

definition parse_origin :: "string option \<Rightarrow> node_origin option" where
  "parse_origin origin =
     (let r = map_option (\<lambda>s. to_ascii_lowercase (trim s)) origin in
      if r = Some ''seed'' then Some OriginSeed
      else if r = Some ''expand'' then Some OriginExpand
      else if r = Some ''gap'' then Some OriginGap
      else if r = Some ''gate'' then Some OriginGate
      else None)"

fun origin_str :: "node_origin \<Rightarrow> string" where
  "origin_str OriginSeed = ''seed''"
| "origin_str OriginExpand = ''expand''"
| "origin_str OriginGap = ''gap''"
| "origin_str OriginGate = ''gate''"

definition status_from_plan :: "string \<Rightarrow> node_status" where
  "status_from_plan s =
     (if s \<in> {''running'', ''running_stale''} then Running
      else if s \<in> {''completed'', ''done''} then Done
      else if s \<in> {''failed'', ''stopped'', ''crashed''} then Failed
      else Queued)"

fun status_to_plan :: "node_status \<Rightarrow> string" where
  "status_to_plan Queued = ''queued''"
| "status_to_plan Running = ''running''"
| "status_to_plan Done = ''completed''"
| "status_to_plan Failed = ''failed''"

section \<open>Lifting\<close>

definition meta_of :: "versioned_plan \<Rightarrow> string \<Rightarrow> node_meta" where
  "meta_of p i = the_default default_meta (vp_node_meta p i)"

definition lift_item :: "(string \<Rightarrow> handoff_artifact option) \<Rightarrow> versioned_plan \<Rightarrow> plan_item \<Rightarrow> task_node" where
  "lift_item from_json p it =
     (let meta = meta_of p (pi_id it) in
      \<lparr>tn_id = pi_id it, tn_content = pi_content it, tn_kind = parse_kind (nm_kind meta),
       tn_status = status_from_plan (pi_status it), tn_owner = pi_assigned_to it,
       tn_parent = nm_parent meta, tn_depends_on = pi_blocked_by it, tn_expanded = nm_expanded meta,
       tn_is_gate = nm_is_gate meta, tn_planner = nm_planner meta,
       tn_priority = priority_rank (pi_priority it),
       tn_output = Option.bind (nm_artifact_json meta) from_json,
       tn_origin = parse_origin (nm_origin meta)\<rparr>)"

definition to_task_graph :: "(string \<Rightarrow> handoff_artifact option) \<Rightarrow> versioned_plan \<Rightarrow> task_graph" where
  "to_task_graph from_json p =
     fold (\<lambda>it g. push g (lift_item from_json p it)) (vp_items p) (graph_new (parse_mode (vp_mode p)))"

section \<open>Lowering\<close>

definition priority_string :: "u8 \<Rightarrow> string" where
  "priority_string rank = (if rank = 0 then ''high'' else if rank = 2 then ''low'' else ''medium'')"

text \<open>The index of prior items is collected into a hash map: the last item with an id wins.\<close>

definition prior_item :: "versioned_plan \<Rightarrow> string \<Rightarrow> plan_item option" where
  "prior_item p = map_of (rev (map (\<lambda>it. (pi_id it, it)) (vp_items p)))"

definition lower_node :: "versioned_plan \<Rightarrow> task_node \<Rightarrow> plan_item" where
  "lower_node p n =
     (let prev = prior_item p (tn_id n) in
      \<lparr>pi_content = tn_content n, pi_status = status_to_plan (tn_status n),
       pi_priority = (case prev of Some it \<Rightarrow> pi_priority it | None \<Rightarrow> priority_string (tn_priority n)),
       pi_id = tn_id n, pi_subsystem = Option.bind prev pi_subsystem,
       pi_file_scope = the_default [] (map_option pi_file_scope prev),
       pi_blocked_by = tn_depends_on n, pi_assigned_to = tn_owner n\<rparr>)"

definition lower_meta :: "(handoff_artifact \<Rightarrow> string option) \<Rightarrow> task_node \<Rightarrow> node_meta" where
  "lower_meta to_json n =
     \<lparr>nm_kind = Some (kind_str (tn_kind n)), nm_parent = tn_parent n, nm_expanded = tn_expanded n,
      nm_is_gate = tn_is_gate n, nm_planner = tn_planner n,
      nm_artifact_json = Option.bind (tn_output n) to_json,
      nm_origin = map_option origin_str (tn_origin n)\<rparr>"

definition apply_task_graph ::
  "(handoff_artifact \<Rightarrow> string option) \<Rightarrow> versioned_plan \<Rightarrow> task_graph \<Rightarrow> versioned_plan" where
  "apply_task_graph to_json p g =
     p\<lparr>vp_mode := mode_str (tg_mode g),
       vp_items := map (lower_node p) (tg_nodes g),
       vp_node_meta := fold (\<lambda>n m. m(tn_id n \<mapsto> lower_meta to_json n)) (tg_nodes g) Map.empty\<rparr>"

section \<open>Dataflow and reports on the plan\<close>

definition stored_artifact ::
  "(string \<Rightarrow> handoff_artifact option) \<Rightarrow> versioned_plan \<Rightarrow> string \<Rightarrow> (node_meta \<times> handoff_artifact) option" where
  "stored_artifact from_json p i =
     (case vp_node_meta p i of
        None \<Rightarrow> None
      | Some meta \<Rightarrow> map_option (Pair meta) (Option.bind (nm_artifact_json meta) from_json))"

definition dep_section_live ::
  "(string \<Rightarrow> handoff_artifact option) \<Rightarrow> versioned_plan \<Rightarrow> string \<Rightarrow> string option" where
  "dep_section_live from_json p d =
     (case find_item (vp_items p) d of
        None \<Rightarrow> None
      | Some it \<Rightarrow>
          if \<not> is_completed_status (pi_status it) then None
          else map_option (\<lambda>(meta, a). render_section a d (the_default ''task'' (nm_kind meta)))
            (stored_artifact from_json p d))"

definition upstream_context ::
  "(string \<Rightarrow> handoff_artifact option) \<Rightarrow> versioned_plan \<Rightarrow> string \<Rightarrow> string option" where
  "upstream_context from_json p task_id =
     (case find_item (vp_items p) task_id of
        None \<Rightarrow> None
      | Some it \<Rightarrow>
          if pi_blocked_by it = [] then None
          else let sections = List.map_filter (dep_section_live from_json p) (pi_blocked_by it)
               in if sections = [] then None
                  else Some (''# Inputs from completed dependencies'' @ [nl, nl] @ join [nl] sections))"

definition hydrate_assignment ::
  "(string \<Rightarrow> handoff_artifact option) \<Rightarrow> versioned_plan \<Rightarrow> string \<Rightarrow> string \<Rightarrow> string" where
  "hydrate_assignment from_json p task_id content =
     (case upstream_context from_json p task_id of
        Some context \<Rightarrow> content @ [nl, nl] @ context
      | None \<Rightarrow> content)"

record growth =
  gr_seeded :: nat
  gr_from_expansion :: nat
  gr_from_gaps :: nat
  gr_gates :: nat

definition growth_total :: "growth \<Rightarrow> nat" where
  "growth_total s = gr_seeded s + gr_from_expansion s + gr_from_gaps s + gr_gates s"

definition grown :: "growth \<Rightarrow> nat" where
  "grown s = gr_from_expansion s + gr_from_gaps s + gr_gates s"

definition summary_line :: "growth \<Rightarrow> string" where
  "summary_line s =
     show_nat (gr_seeded s) @ '' seeded -> '' @ show_nat (growth_total s) @ '' nodes (+'' @
     show_nat (gr_from_expansion s) @ '' expansion, +'' @ show_nat (gr_from_gaps s) @ '' gap, +'' @
     show_nat (gr_gates s) @ '' gates)''"

definition count_origin :: "node_origin option \<Rightarrow> growth \<Rightarrow> growth" where
  "count_origin origin s =
     (case origin of
        Some OriginExpand \<Rightarrow> s\<lparr>gr_from_expansion := gr_from_expansion s + 1\<rparr>
      | Some OriginGap \<Rightarrow> s\<lparr>gr_from_gaps := gr_from_gaps s + 1\<rparr>
      | Some OriginGate \<Rightarrow> s\<lparr>gr_gates := gr_gates s + 1\<rparr>
      | _ \<Rightarrow> s\<lparr>gr_seeded := gr_seeded s + 1\<rparr>)"

definition growth_stats :: "versioned_plan \<Rightarrow> growth" where
  "growth_stats p =
     fold (\<lambda>it. count_origin (Option.bind (vp_node_meta p (pi_id it)) (\<lambda>meta. parse_origin (nm_origin meta))))
       (vp_items p) \<lparr>gr_seeded = 0, gr_from_expansion = 0, gr_from_gaps = 0, gr_gates = 0\<rparr>"

definition is_low_confidence ::
  "(string \<Rightarrow> handoff_artifact option) \<Rightarrow> versioned_plan \<Rightarrow> plan_item \<Rightarrow> bool" where
  "is_low_confidence from_json p it =
     (case vp_node_meta p (pi_id it) of
        None \<Rightarrow> False
      | Some meta \<Rightarrow>
          if nm_is_gate meta then False
          else Option.bind (Option.bind (nm_artifact_json meta) from_json) artifact_confidence_level = Some Low)"

definition low_confidence_completed_ids ::
  "(string \<Rightarrow> handoff_artifact option) \<Rightarrow> versioned_plan \<Rightarrow> string list" where
  "low_confidence_completed_ids from_json p =
     map pi_id (filter (is_low_confidence from_json p)
       (filter (\<lambda>it. is_completed_status (pi_status it)) (vp_items p)))"

section \<open>Lemmas\<close>

lemma parse_mode_str [simp]: "parse_mode (mode_str m) = m"
  by (cases m) (simp_all, code_simp+)

lemma parse_kind_str [simp]: "parse_kind (Some (kind_str k)) = k"
  by (cases k) (simp_all, code_simp+)

lemma parse_origin_str [simp]: "parse_origin (map_option origin_str r) = r"
proof (cases r)
  case None then show ?thesis by (simp add: parse_origin_def)
next
  case (Some a) then show ?thesis by (cases a) (simp_all, code_simp+)
qed

lemma status_round [simp]: "status_from_plan (status_to_plan s) = s"
  by (cases s) (simp_all add: status_from_plan_def)

lemma status_to_plan_simps [simp]:
  "is_completed_status (status_to_plan s) \<longleftrightarrow> s = Done"
  "is_runnable_status (status_to_plan s) \<longleftrightarrow> s = Queued"
  "is_active_status (status_to_plan s) \<longleftrightarrow> s = Running"
  "is_terminal_status (status_to_plan s) \<longleftrightarrow> s = Done \<or> s = Failed"
  by (cases s; simp add: status_defs)+

lemma priority_rank_string: "r \<le> 2 \<Longrightarrow> priority_rank (priority_string r) = r"
proof -
  assume "r \<le> 2"
  then have "unat r \<le> 2" by (simp add: word_le_nat_alt)
  then have "unat r \<in> {0, 1, 2}" by auto
  moreover have "r = of_nat (unat r)" by simp
  ultimately have "r \<in> {0, 1, 2}" by (auto simp del: of_nat_unat)
  then show ?thesis by (auto simp: priority_rank_def priority_string_def)
qed

lemma to_task_graph_nodes:
  "to_task_graph from_json p = \<lparr>tg_mode = parse_mode (vp_mode p), tg_nodes = map (lift_item from_json p) (vp_items p)\<rparr>"
proof -
  have "fold (\<lambda>it g. push g (lift_item from_json p it)) items g = g\<lparr>tg_nodes := tg_nodes g @ map (lift_item from_json p) items\<rparr>"
    for items g by (induction items arbitrary: g) (simp_all add: push_def)
  then show ?thesis by (simp add: to_task_graph_def graph_new_def)
qed

lemma lowered_meta:
  "distinct (map tn_id ns) \<Longrightarrow> n \<in> set ns \<Longrightarrow>
   fold (\<lambda>n m. m(tn_id n \<mapsto> lower_meta to_json n)) ns m (tn_id n) = Some (lower_meta to_json n)"
proof (induction ns arbitrary: m)
  case (Cons a ns)
  have keep: "fold (\<lambda>n m. m(tn_id n \<mapsto> lower_meta to_json n)) ns m i = m i" if "i \<notin> tn_id ` set ns" for i m
    using that by (induction ns arbitrary: m) auto
  show ?case using Cons by (auto simp: keep fun_upd_same simp del: fun_upd_apply)
qed simp

lemma apply_meta:
  "distinct (ids g) \<Longrightarrow> n \<in> set (tg_nodes g) \<Longrightarrow>
   vp_node_meta (apply_task_graph to_json p g) (tn_id n) = Some (lower_meta to_json n)"
  by (simp add: apply_task_graph_def lowered_meta)

lemma apply_items [simp]: "vp_items (apply_task_graph to_json p g) = map (lower_node p) (tg_nodes g)"
  by (simp add: apply_task_graph_def)

lemma apply_mode [simp]: "vp_mode (apply_task_graph to_json p g) = mode_str (tg_mode g)"
  by (simp add: apply_task_graph_def)

lemma lower_node_simps [simp]:
  "pi_id (lower_node p n) = tn_id n" "pi_status (lower_node p n) = status_to_plan (tn_status n)"
  "pi_blocked_by (lower_node p n) = tn_depends_on n" "pi_assigned_to (lower_node p n) = tn_owner n"
  "pi_content (lower_node p n) = tn_content n"
  by (simp_all add: lower_node_def Let_def)

end
