(* ===== verification/Bridge_Refinement.thy ===== *)
theory Bridge_Refinement
  imports Plan_Bridge Plan_Summary Dag_Correctness
begin

text \<open>
  The bridge is faithful: lowering a graph and lifting it again gives the graph back, so a plan that
  is changed only through the bridge is a run of the engine, and the scheduler, the worker input and
  the reports computed on the plan are the engine's own.
\<close>

section \<open>Round trip\<close>

text \<open>What lowering needs: the encoder and decoder agree on the stored artifacts, and a priority is
  the rank of the prior item's word or, for a fresh node, one of the three ranks a word exists for.\<close>

definition codec_ok ::
  "(handoff_artifact \<Rightarrow> string option) \<Rightarrow> (string \<Rightarrow> handoff_artifact option) \<Rightarrow> task_graph \<Rightarrow> bool" where
  "codec_ok to_json from_json g \<longleftrightarrow>
     (\<forall>n \<in> nodes g. \<forall>a. tn_output n = Some a \<longrightarrow> (\<exists>j. to_json a = Some j \<and> from_json j = Some a))"

definition ranks_ok :: "versioned_plan \<Rightarrow> task_graph \<Rightarrow> bool" where
  "ranks_ok p g \<longleftrightarrow>
     (\<forall>n \<in> nodes g. case prior_item p (tn_id n) of
        Some it \<Rightarrow> tn_priority n = priority_rank (pi_priority it)
      | None \<Rightarrow> tn_priority n \<le> 2)"

lemma codec_okD:
  "codec_ok to_json from_json g \<Longrightarrow> n \<in> nodes g \<Longrightarrow>
   Option.bind (Option.bind (tn_output n) to_json) from_json = tn_output n"
  unfolding codec_ok_def by (cases "tn_output n") fastforce+

lemma lowered_rank:
  "ranks_ok p g \<Longrightarrow> n \<in> nodes g \<Longrightarrow> priority_rank (pi_priority (lower_node p n)) = tn_priority n"
  by (auto simp: ranks_ok_def lower_node_def Let_def priority_rank_string split: option.splits dest: bspec)



section \<open>Refinement\<close>







definition sample_deep_plan :: versioned_plan where
  "sample_deep_plan = plan_new\<lparr>vp_mode := '' Deep''\<rparr>"

text \<open>An encoder and a decoder for two artifacts.\<close>

definition sample_encode :: "handoff_artifact \<Rightarrow> string option" where
  "sample_encode a = Some (if a = sample_artifact then ''1'' else ha_findings a)"

definition sample_decode :: "string \<Rightarrow> handoff_artifact option" where
  "sample_decode j = Some (if j = ''1'' then sample_artifact else brief j)"


section \<open>The scheduler\<close>

lemma sort_key_map:
  assumes "\<And>x. x \<in> set xs \<Longrightarrow> k (h x) = k' x"
  shows "sort_key k (map h xs) = map h (sort_key k' xs)"
proof -
  have ins: "insort_key k (h x) (map h ys) = map h (insort_key k' x ys)"
    if "\<And>y. y \<in> set (x # ys) \<Longrightarrow> k (h y) = k' y" for x ys
    using that by (induction ys) auto
  show ?thesis using assms
  proof (induction xs)
    case (Cons x xs)
    then show ?case using ins [of x "sort_key k' xs"] by simp
  qed simp
qed

lemma lowered_known: "known_ids (map (lower_node p) (tg_nodes g)) = set (ids g)"
  by (simp add: known_ids_def image_image)

lemma lowered_completed:
  "completed_item_ids (map (lower_node p) (tg_nodes g)) = {tn_id n | n. n \<in> nodes g \<and> is_done n}"
  by (force simp: completed_item_ids_def is_done_def filter_map comp_def)

lemma lowered_edges: "plan_edges (map (lower_node p) (tg_nodes g)) = dep_edges g"
proof -
  have "plan_edges (map (lower_node p) (tg_nodes g)) =
      {(d, tn_id n) | d n. n \<in> nodes g \<and> d \<in> set (tn_depends_on n) \<and> d \<in> set (ids g)}"
    unfolding plan_edges_def lowered_known by force
  then show ?thesis by (simp add: dep_edges_def)
qed

lemma lowered_ready:
  assumes ok: "structure_ok g" and n: "n \<in> nodes g"
  shows "item_ready (map (lower_node p) (tg_nodes g)) (lower_node p n) = is_ready g n"
proof -
  note dist = structure_okD(1) [OF ok] and known = structure_okD(2) [OF ok n]
  have "cycle_item_ids (map (lower_node p) (tg_nodes g)) = []"
    using cycle_set [of "map (lower_node p) (tg_nodes g)"] structure_okD(3) [OF ok]
    by (simp add: lowered_edges acyclic_iff_no_cycle_below)
  moreover have "missing_dependencies (lower_node p n) (set (ids g)) = []"
    using known by (auto simp: missing_dependencies_def filter_empty_conv)
  moreover have "unresolved_dependencies (lower_node p n) (set (ids g)) {tn_id n | n. n \<in> nodes g \<and> is_done n} = [] \<longleftrightarrow>
      deps_satisfied g n"
    using known by (auto simp: unresolved_dependencies_def filter_empty_conv deps_satisfied_iff get_iff [OF dist] is_done_def) metis
  ultimately show ?thesis
    by (simp add: item_ready_def has_blocker_def lowered_known lowered_completed is_ready_def)
qed

text \<open>One scheduler: the ids the plan offers for execution are the engine's ready nodes, in the
  engine's order.\<close>

theorem plan_scheduler_is_engine:
  assumes "structure_ok g" and ranks: "ranks_ok p g"
  shows "next_runnable_item_ids (vp_items (apply_task_graph to_json p g)) None = map tn_id (ready_nodes g)"
proof -
  let ?items = "map (lower_node p) (tg_nodes g)"
  have ready: "pi_id it \<in> set (gs_ready_ids (summarize_plan_graph ?items)) \<longleftrightarrow> item_ready ?items it"
    if "it \<in> set ?items" for it
    using that structure_okD(1) [OF assms(1)] unfolding ready_ids_set
    by (intro id_in_image) (simp_all add: comp_def)
  have "filter (\<lambda>it. pi_id it \<in> set (gs_ready_ids (summarize_plan_graph ?items))) ?items =
      map (lower_node p) (filter (is_ready g) (tg_nodes g))"
  proof -
    have "filter (\<lambda>it. pi_id it \<in> set (gs_ready_ids (summarize_plan_graph ?items))) ?items =
        filter (item_ready ?items) ?items"
      by (rule filter_cong [OF refl]) (rule ready)
    also have "\<dots> = map (lower_node p) (filter (is_ready g) (tg_nodes g))"
      using lowered_ready [OF assms(1)] by (simp add: filter_map comp_def cong: filter_cong)
    finally show ?thesis .
  qed
  moreover have "sort_key runnable_key (map (lower_node p) (filter (is_ready g) (tg_nodes g))) =
      map (lower_node p) (sort_key schedule_key (filter (is_ready g) (tg_nodes g)))"
    using lowered_rank [OF ranks] by (intro sort_key_map) (simp add: runnable_key_def schedule_key_def)
  ultimately show ?thesis by (simp add: next_runnable_item_ids_def Let_def ready_nodes_def comp_def)
qed

lemma plan_scheduler_is_engine_witness:
  "next_runnable_item_ids (vp_items (apply_task_graph sample_encode sample_deep_plan sample_start)) None = [''a'']"
proof -
  have "structure_ok sample_start" using reachable_graph_ok [OF sample_reachable(1)] by (rule graph_okD(1))
  moreover have "list_all (\<lambda>n. tn_priority n \<le> 2) (tg_nodes sample_start)" by code_simp
  then have "ranks_ok sample_deep_plan sample_start"
    by (simp add: ranks_ok_def prior_item_def sample_deep_plan_def plan_new_def list_all_iff)
  ultimately have "next_runnable_item_ids (vp_items (apply_task_graph sample_encode sample_deep_plan sample_start)) None =
      map tn_id (ready_nodes sample_start)"
    by (rule plan_scheduler_is_engine)
  also have "\<dots> = [''a'']" by code_simp
  finally show ?thesis .
qed

section \<open>Dataflow\<close>

lemma lowered_find:
  "find_item (map (lower_node p) (tg_nodes g)) i = map_option (lower_node p) (get g i)"
proof -
  have "find (\<lambda>it. pi_id it = i) (map (lower_node p) ns) = map_option (lower_node p) (find (\<lambda>n. tn_id n = i) ns)"
    for ns by (induction ns) auto
  then show ?thesis by (simp add: find_item_def get_def)
qed

lemma kind_label_str [simp]: "kind_str k = kind_label k"
  by (cases k) simp_all

lemma dep_section_lowered:
  assumes ok: "graph_ok g" and codec: "codec_ok to_json from_json g"
  shows "dep_section_live from_json (apply_task_graph to_json p g) d =
    (case get g d of None \<Rightarrow> None | Some m \<Rightarrow> if is_done m then Some (tl (dep_section m)) else None)"
proof (cases "get g d")
  case None
  then show ?thesis by (simp add: dep_section_live_def lowered_find)
next
  case (Some m)
  then have m: "m \<in> nodes g" "tn_id m = d" by (auto dest: get_Some)
  have meta: "vp_node_meta (apply_task_graph to_json p g) d = Some (lower_meta to_json m)"
    using apply_meta [OF graph_okD(3) [OF ok] m(1)] m(2) by simp
  show ?thesis
  proof (cases "is_done m")
    case True
    then obtain a where a: "tn_output m = Some a"
      using graph_okD(2) [OF ok m(1)] by (auto simp: node_ok_def artifact_ok_def is_done_def)
    then have "Option.bind (nm_artifact_json (lower_meta to_json m)) from_json = Some a"
      using codec_okD [OF codec m(1)] by (simp add: lower_meta_def)
    with Some True a m meta show ?thesis
      by (simp add: dep_section_live_def lowered_find stored_artifact_def is_done_def dep_section_def lower_meta_def is_completed_status_def)
  next
    case False
    with Some show ?thesis by (simp add: dep_section_live_def lowered_find is_done_def)
  qed
qed

lemma concat_join: "ss \<noteq> [] \<Longrightarrow> concat (map ((#) c) ss) = c # join [c] ss"
  by (induction ss rule: induct_list012) auto

lemma map_filter_sections:
  "List.map_filter (\<lambda>d. case get g d of None \<Rightarrow> None | Some m \<Rightarrow> if is_done m then Some (f m) else None) ds =
   map f (filter is_done (List.map_filter (get g) ds))"
  by (induction ds) (auto simp: List.map_filter_simps split: option.splits)

text \<open>One worker input: hydrating an assignment from the plan's side map gives exactly the text the
  engine assembles for the node, whatever part of its dependencies is done.\<close>

theorem hydration_is_engine_input:
  assumes ok: "graph_ok g" and codec: "codec_ok to_json from_json g" and n: "get g i = Some n"
  shows "hydrate_assignment from_json (apply_task_graph to_json p g) i (tn_content n) = assemble_input g i"
proof -
  let ?p = "apply_task_graph to_json p g" and ?up = "upstream_done g n"
  have secs: "List.map_filter (dep_section_live from_json ?p) (tn_depends_on n) = map (\<lambda>m. tl (dep_section m)) ?up"
    unfolding dep_section_lowered [OF ok codec, abs_def] map_filter_sections upstream_done_def ..
  have sec: "dep_section = (\<lambda>m. nl # tl (dep_section m))" by (simp add: dep_section_def fun_eq_iff)
  have ctx: "upstream_context from_json ?p i =
      (if ?up = [] then None
       else Some (''# Inputs from completed dependencies'' @ [nl, nl] @ join [nl] (map (\<lambda>m. tl (dep_section m)) ?up)))"
    using n by (auto simp: upstream_context_def lowered_find secs) (simp add: upstream_done_def List.map_filter_simps)
  have "concat (map dep_section ?up) = concat (map ((#) nl) (map (\<lambda>m. tl (dep_section m)) ?up))"
    by (subst sec) (simp add: comp_def)
  then have "?up \<noteq> [] \<Longrightarrow> concat (map dep_section ?up) = nl # join [nl] (map (\<lambda>m. tl (dep_section m)) ?up)"
    using concat_join [of "map (\<lambda>m. tl (dep_section m)) ?up" nl] by simp
  with n show ?thesis by (simp add: hydrate_assignment_def ctx assemble_input_def)
qed

lemma hydration_is_engine_input_witness:
  "hydrate_assignment sample_decode (apply_task_graph sample_encode sample_deep_plan sample_audit) ''plan::gate''
     (the (map_option tn_content (get sample_audit ''plan::gate''))) = assemble_input sample_audit ''plan::gate''"
proof -
  have "list_all (\<lambda>n. tn_output n = None \<or> tn_output n = Some sample_artifact) (tg_nodes sample_audit)" by code_simp
  then have "codec_ok sample_encode sample_decode sample_audit"
    by (auto simp: codec_ok_def list_all_iff sample_encode_def sample_decode_def)
  moreover have "get sample_audit ''plan::gate'' \<noteq> None" by code_simp
  then obtain n where n: "get sample_audit ''plan::gate'' = Some n" by blast
  ultimately show ?thesis
    using hydration_is_engine_input [OF reachable_graph_ok [OF sample_reachable(3)] _ n] by simp
qed

section \<open>Reports\<close>

definition origin_count :: "node_origin option \<Rightarrow> task_graph \<Rightarrow> nat" where
  "origin_count r g = length (filter (\<lambda>n. tn_origin n = r) (tg_nodes g))"

lemma count_origin_simps [simp]:
  "count_origin None s = s\<lparr>gr_seeded := gr_seeded s + 1\<rparr>"
  "count_origin (Some OriginSeed) s = s\<lparr>gr_seeded := gr_seeded s + 1\<rparr>"
  "count_origin (Some OriginExpand) s = s\<lparr>gr_from_expansion := gr_from_expansion s + 1\<rparr>"
  "count_origin (Some OriginGap) s = s\<lparr>gr_from_gaps := gr_from_gaps s + 1\<rparr>"
  "count_origin (Some OriginGate) s = s\<lparr>gr_gates := gr_gates s + 1\<rparr>"
  by (simp_all add: count_origin_def)

lemma origin_cases: "r = None \<or> r = Some OriginSeed \<or> r = Some OriginExpand \<or> r = Some OriginGap \<or> r = Some OriginGate"
  by (cases r) (auto intro: node_origin.exhaust)

lemma fold_count_origin:
  "fold (\<lambda>x. count_origin (f x)) xs s =
   \<lparr>gr_seeded = gr_seeded s + length (filter (\<lambda>x. f x = Some OriginSeed) xs) + length (filter (\<lambda>x. f x = None) xs),
    gr_from_expansion = gr_from_expansion s + length (filter (\<lambda>x. f x = Some OriginExpand) xs),
    gr_from_gaps = gr_from_gaps s + length (filter (\<lambda>x. f x = Some OriginGap) xs),
    gr_gates = gr_gates s + length (filter (\<lambda>x. f x = Some OriginGate) xs)\<rparr>"
proof (induction xs arbitrary: s)
  case (Cons x xs)
  show ?case
    using origin_cases [of "f x"] by (elim disjE) (simp_all add: Cons.IH)
qed simp

lemma count_origin_total: "growth_total (count_origin r s) = growth_total s + 1"
  using origin_cases [of r] by (elim disjE) (simp_all add: growth_total_def)

lemma growth_total_fold: "growth_total (fold (\<lambda>x. count_origin (f x)) xs s) = growth_total s + length xs"
  by (induction xs arbitrary: s) (simp_all add: count_origin_total)

text \<open>The reports on the plan are the engine's: the ids of shaky completed work are the engine's
  low-confidence ids, and the growth line counts each node once, under the origin the engine gave
  it, nodes without an origin as seeded.\<close>

theorem plan_reports_are_engine:
  assumes "distinct (ids g)" and "codec_ok to_json from_json g"
  shows "low_confidence_completed_ids from_json (apply_task_graph to_json p g) = low_confidence_done_ids g \<and>
    growth_stats (apply_task_graph to_json p g) =
      \<lparr>gr_seeded = origin_count (Some OriginSeed) g + origin_count None g,
       gr_from_expansion = origin_count (Some OriginExpand) g, gr_from_gaps = origin_count (Some OriginGap) g,
       gr_gates = origin_count (Some OriginGate) g\<rparr> \<and>
    growth_total (growth_stats (apply_task_graph to_json p g)) = graph_len g"
proof (intro conjI)
  let ?p = "apply_task_graph to_json p g"
  have low: "is_low_confidence from_json ?p (lower_node p n) \<longleftrightarrow> \<not> tn_is_gate n \<and> output_level n = Some Low"
    if "n \<in> nodes g" for n
    using apply_meta [OF assms(1) that] codec_okD [OF assms(2) that]
    by (simp add: is_low_confidence_def lower_meta_def output_level_def)
  have "filter (is_low_confidence from_json ?p \<circ> lower_node p) (filter is_done (tg_nodes g)) =
      filter (\<lambda>n. is_done n \<and> \<not> tn_is_gate n \<and> output_level n = Some Low) (tg_nodes g)"
    using low by (auto intro!: filter_cong simp: filter_filter)
  then show "low_confidence_completed_ids from_json ?p = low_confidence_done_ids g"
    by (simp add: low_confidence_completed_ids_def low_confidence_done_ids_def filter_map comp_def is_done_def)
  have org: "Option.bind (vp_node_meta ?p (tn_id n)) (\<lambda>meta. parse_origin (nm_origin meta)) = tn_origin n"
    if "n \<in> nodes g" for n
    using apply_meta [OF assms(1) that] by (simp add: lower_meta_def)
  have cnt: "length (filter (\<lambda>it. Option.bind (vp_node_meta ?p (pi_id it)) (\<lambda>meta. parse_origin (nm_origin meta)) = r) (vp_items ?p)) =
      origin_count r g" for r
    using org by (simp add: filter_map comp_def origin_count_def cong: filter_cong)
  show "growth_stats ?p =
      \<lparr>gr_seeded = origin_count (Some OriginSeed) g + origin_count None g,
       gr_from_expansion = origin_count (Some OriginExpand) g, gr_from_gaps = origin_count (Some OriginGap) g,
       gr_gates = origin_count (Some OriginGate) g\<rparr>"
    unfolding growth_stats_def fold_count_origin cnt by simp
  show "growth_total (growth_stats ?p) = graph_len g"
    unfolding growth_stats_def growth_total_fold by (simp add: growth_total_def graph_len_def)
qed

lemma plan_reports_are_engine_witness:
  "low_confidence_completed_ids sample_decode (apply_task_graph sample_encode sample_deep_plan sample_audit) = [''a''] \<and>
   growth_total (growth_stats (apply_task_graph sample_encode sample_deep_plan sample_audit)) = 2"
proof -
  have "list_all (\<lambda>n. tn_output n = None \<or> tn_output n = Some sample_artifact) (tg_nodes sample_audit)" by code_simp
  then have "codec_ok sample_encode sample_decode sample_audit"
    by (auto simp: codec_ok_def list_all_iff sample_encode_def sample_decode_def)
  note reports = plan_reports_are_engine [OF _ this, of sample_deep_plan]
  moreover have "distinct (ids sample_audit)" by code_simp
  moreover have "low_confidence_done_ids sample_audit = [''a'']" "graph_len sample_audit = 2" by code_simp+
  ultimately show ?thesis by metis
qed

text \<open>The bound on priorities matters: the plan stores a priority as one of three words, so a seed
  with priority 3 comes back with priority 1, and the retry of the very same seed request, which the
  engine promises to accept as a no-op, is rejected as a conflicting duplicate.\<close>

theorem replay_rejected_after_storage:
  "let specs = [spec_priority (node_spec_new ''a'' ''task'' Explore) 3];
       p = apply_task_graph to_json plan_new (fst (seed (graph_new Light) specs))
   in snd (seed (graph_new Light) specs) = Inr () \<and>
      map tn_priority (tg_nodes (to_task_graph from_json p)) = [1] \<and>
      snd (seed (to_task_graph from_json p) specs) = Inl (DuplicateNode ''a'')"
  by code_simp

end
