(* ===== verification/Channel_Index.thy ===== *)
theory Channel_Index
  imports Rust_Prelude "HOL-Library.AList"
begin

text \<open>
  The subscription index of swarm channels (\<open>ChannelIndex\<close> in \<open>crates/jcode-swarm-core/src/lib.rs\<close>).
  Its two hash maps are nested association lists and its hash sets lists without duplicates, in an
  arbitrary order: what is proved holds for every order in which the code may walk them. The
  interface \<open>subscription_index\<close> states what the index promises to the server, as a set of
  (session, swarm, channel) triples; the index is an interpretation of it.
\<close>

section \<open>The interface\<close>

datatype channel_op =
    Subscribe string string string
  | Unsubscribe string string string
  | RemoveSession string

fun spec_op :: "channel_op \<Rightarrow> (string \<times> string \<times> string) set \<Rightarrow> (string \<times> string \<times> string) set" where
  "spec_op (Subscribe s sw ch) A = insert (s, sw, ch) A"
| "spec_op (Unsubscribe s sw ch) A = A - {(s, sw, ch)}"
| "spec_op (RemoveSession s) A = {(t, sw, ch) \<in> A. t \<noteq> s}"

locale subscription_index =
  fixes empty :: 'ix
    and apply_op :: "channel_op \<Rightarrow> 'ix \<Rightarrow> 'ix"
    and members_of :: "'ix \<Rightarrow> string \<Rightarrow> string \<Rightarrow> string list"
    and inv :: "'ix \<Rightarrow> bool"
    and subs :: "'ix \<Rightarrow> (string \<times> string \<times> string) set"
  assumes inv_empty: "inv empty" and subs_empty: "subs empty = {}"
    and inv_op: "inv ix \<Longrightarrow> inv (apply_op op ix)"
    and subs_op: "inv ix \<Longrightarrow> subs (apply_op op ix) = spec_op op (subs ix)"
    and members: "inv ix \<Longrightarrow> set (members_of ix sw ch) = {s. (s, sw, ch) \<in> subs ix} \<and>
      sorted (members_of ix sw ch) \<and> distinct (members_of ix sw ch)"
begin

lemma history: "inv ix \<Longrightarrow> inv (fold apply_op ops ix) \<and> subs (fold apply_op ops ix) = fold spec_op ops (subs ix)"
  by (induction ops arbitrary: ix) (simp_all add: inv_op subs_op)

lemma members_history:
  "members_of (fold apply_op ops empty) sw ch = sorted_list_of_set {s. (s, sw, ch) \<in> fold spec_op ops {}}"
proof -
  have "inv (fold apply_op ops empty)" "subs (fold apply_op ops empty) = fold spec_op ops {}"
    using history [OF inv_empty] by (simp_all add: subs_empty)
  with members [of "fold apply_op ops empty" sw ch] show ?thesis
    by (metis sorted_list_of_set.idem_if_sorted_distinct)
qed

end

section \<open>Nested tables\<close>

type_synonym nested = "(string \<times> (string \<times> string list) list) list"

definition entries :: "nested \<Rightarrow> string \<Rightarrow> string \<Rightarrow> string list" where
  "entries m a b = the_default [] (Option.bind (map_of m a) (\<lambda>inner. map_of inner b))"

definition add_entry :: "string \<Rightarrow> string \<Rightarrow> string \<Rightarrow> nested \<Rightarrow> nested" where
  "add_entry a b x m =
     (let inner = the_default [] (map_of m a)
      in AList.update a (AList.update b (List.insert x (the_default [] (map_of inner b))) inner) m)"

definition drop_member :: "string \<Rightarrow> string \<Rightarrow> (string \<times> string list) list \<Rightarrow> (string \<times> string list) list" where
  "drop_member x b inner =
     (case map_of inner b of
        None \<Rightarrow> inner
      | Some members \<Rightarrow>
          let rest = removeAll x members
          in if rest = [] then AList.delete b inner else AList.update b rest inner)"

definition drop_members :: "string \<Rightarrow> string \<Rightarrow> string list \<Rightarrow> nested \<Rightarrow> nested" where
  "drop_members x a bs m =
     (case map_of m a of
        None \<Rightarrow> m
      | Some inner \<Rightarrow>
          let rest = fold (drop_member x) bs inner
          in if rest = [] then AList.delete a m else AList.update a rest m)"

section \<open>The index\<close>

record channel_index =
  by_swarm_channel :: nested
  by_session :: nested

definition index_default :: channel_index where
  "index_default = \<lparr>by_swarm_channel = [], by_session = []\<rparr>"

definition subscribe :: "string \<Rightarrow> string \<Rightarrow> string \<Rightarrow> channel_index \<Rightarrow> channel_index" where
  "subscribe session swarm channel ix =
     \<lparr>by_swarm_channel = add_entry swarm channel session (by_swarm_channel ix),
      by_session = add_entry session swarm channel (by_session ix)\<rparr>"

definition unsubscribe :: "string \<Rightarrow> string \<Rightarrow> string \<Rightarrow> channel_index \<Rightarrow> channel_index" where
  "unsubscribe session swarm channel ix =
     \<lparr>by_swarm_channel = drop_members session swarm [channel] (by_swarm_channel ix),
      by_session = drop_members channel session [swarm] (by_session ix)\<rparr>"

definition drop_everywhere :: "string \<Rightarrow> nested \<Rightarrow> nested" where
  "drop_everywhere session m =
     fold (\<lambda>swarm m. drop_members session swarm (map fst (the_default [] (map_of m swarm))) m) (map fst m) m"

definition remove_session :: "string \<Rightarrow> channel_index \<Rightarrow> channel_index" where
  "remove_session session ix =
     (case map_of (by_session ix) session of
        Some subscriptions \<Rightarrow>
          \<lparr>by_swarm_channel =
             fold (\<lambda>(swarm, channels) m. drop_members session swarm channels m) subscriptions (by_swarm_channel ix),
           by_session = AList.delete session (by_session ix)\<rparr>
      | None \<Rightarrow> ix\<lparr>by_swarm_channel := drop_everywhere session (by_swarm_channel ix)\<rparr>)"

definition members :: "channel_index \<Rightarrow> string \<Rightarrow> string \<Rightarrow> string list" where
  "members ix swarm channel = sort (entries (by_swarm_channel ix) swarm channel)"

fun index_op :: "channel_op \<Rightarrow> channel_index \<Rightarrow> channel_index" where
  "index_op (Subscribe s sw ch) ix = subscribe s sw ch ix"
| "index_op (Unsubscribe s sw ch) ix = unsubscribe s sw ch ix"
| "index_op (RemoveSession s) ix = remove_session s ix"

section \<open>Lemmas on nested tables\<close>

definition inner_ok :: "(string \<times> string list) list \<Rightarrow> bool" where
  "inner_ok inner \<longleftrightarrow> distinct (map fst inner) \<and> (\<forall>b xs. map_of inner b = Some xs \<longrightarrow> xs \<noteq> [] \<and> distinct xs)"

text \<open>Keys are unique, and no empty table or set is kept.\<close>

definition nested_ok :: "nested \<Rightarrow> bool" where
  "nested_ok m \<longleftrightarrow> distinct (map fst m) \<and> (\<forall>a inner. map_of m a = Some inner \<longrightarrow> inner \<noteq> [] \<and> inner_ok inner)"

lemma inner_okD:
  assumes "inner_ok inner"
  shows "distinct (map fst inner)" and "map_of inner b = Some xs \<Longrightarrow> xs \<noteq> [] \<and> distinct xs"
  using assms by (simp_all add: inner_ok_def)

lemma nested_okD:
  assumes "nested_ok m"
  shows "distinct (map fst m)" and "map_of m a = Some inner \<Longrightarrow> inner \<noteq> [] \<and> inner_ok inner"
  using assms by (simp_all add: nested_ok_def)

lemma inner_ok_Nil [simp]: "inner_ok []"
  by (simp add: inner_ok_def)

lemma distinct_insert: "distinct xs \<Longrightarrow> distinct (List.insert x xs)"
  by simp

lemma inner_ok_update: "inner_ok inner \<Longrightarrow> xs \<noteq> [] \<Longrightarrow> distinct xs \<Longrightarrow> inner_ok (AList.update b xs inner)"
  by (auto simp: inner_ok_def update_conv' distinct_update)

lemma inner_ok_delete: "inner_ok inner \<Longrightarrow> inner_ok (AList.delete b inner)"
  by (auto simp: inner_ok_def delete_conv' distinct_delete)

lemma inner_ok_lookup: "inner_ok inner \<Longrightarrow> distinct (the_default [] (map_of inner b))"
  by (cases "map_of inner b") (auto simp: inner_ok_def)

lemma nested_ok_lookup: "nested_ok m \<Longrightarrow> inner_ok (the_default [] (map_of m a))"
  by (cases "map_of m a") (simp_all add: nested_okD)

lemma nested_ok_update: "nested_ok m \<Longrightarrow> inner \<noteq> [] \<Longrightarrow> inner_ok inner \<Longrightarrow> nested_ok (AList.update a inner m)"
  by (auto simp: nested_ok_def update_conv' distinct_update)

lemma nested_ok_delete: "nested_ok m \<Longrightarrow> nested_ok (AList.delete a m)"
  by (auto simp: nested_ok_def delete_conv' distinct_delete)

lemma entries_alt: "entries m a b = the_default [] (map_of (the_default [] (map_of m a)) b)"
  by (cases "map_of m a") (simp_all add: entries_def)

lemma entries_distinct: "nested_ok m \<Longrightarrow> distinct (entries m a b)"
  unfolding entries_alt by (intro inner_ok_lookup nested_ok_lookup)

lemma update_not_Nil [simp]: "AList.update k v al \<noteq> []"
  by (cases al) auto

lemma add_entry_ok: "nested_ok m \<Longrightarrow> nested_ok (add_entry a b x m)"
  unfolding add_entry_def Let_def
  by (intro nested_ok_update inner_ok_update update_not_Nil nested_ok_lookup distinct_insert inner_ok_lookup)
    (auto simp: List.insert_def)

lemma add_entry_entries:
  "set (entries (add_entry a b x m) c d) = (if c = a \<and> d = b then insert x (set (entries m c d)) else set (entries m c d))"
  by (simp add: entries_alt add_entry_def Let_def update_conv')

lemma drop_member_ok: "inner_ok inner \<Longrightarrow> inner_ok (drop_member x b inner)"
  by (cases "map_of inner b")
    (auto simp: drop_member_def Let_def distinct_removeAll dest: inner_okD(2) intro!: inner_ok_delete inner_ok_update)

lemma drop_member_lookup:
  "the_default [] (map_of (drop_member x b inner) d) =
   (if d = b then removeAll x (the_default [] (map_of inner d)) else the_default [] (map_of inner d))"
  by (cases "map_of inner b") (auto simp: drop_member_def Let_def update_conv' delete_conv')

lemma fold_drop_ok: "inner_ok inner \<Longrightarrow> inner_ok (fold (drop_member x) bs inner)"
  by (induction bs arbitrary: inner) (simp_all add: drop_member_ok)

lemma fold_drop_lookup:
  "set (the_default [] (map_of (fold (drop_member x) bs inner) d)) =
   set (the_default [] (map_of inner d)) - (if d \<in> set bs then {x} else {})"
  by (induction bs arbitrary: inner) (auto simp: drop_member_lookup)

lemma drop_members_ok: "nested_ok m \<Longrightarrow> nested_ok (drop_members x a bs m)"
proof -
  assume ok: "nested_ok m"
  have "inner_ok (fold (drop_member x) bs inner)" if "map_of m a = Some inner" for inner
    using that ok by (intro fold_drop_ok) (auto simp: nested_ok_def)
  with ok show ?thesis
    by (auto simp: drop_members_def Let_def intro: nested_ok_delete nested_ok_update split: option.splits)
qed

lemma drop_members_entries:
  "set (entries (drop_members x a bs m) c d) = set (entries m c d) - (if c = a \<and> d \<in> set bs then {x} else {})"
proof (cases "map_of m a")
  case (Some inner)
  have "set (the_default [] (map_of (fold (drop_member x) bs inner) d)) =
      set (the_default [] (map_of inner d)) - (if d \<in> set bs then {x} else {})"
    by (rule fold_drop_lookup)
  with Some show ?thesis
    by (cases "fold (drop_member x) bs inner = []")
      (auto simp: drop_members_def Let_def entries_alt update_conv' delete_conv')
qed (simp add: drop_members_def entries_alt)

lemma fold_swarms_ok: "nested_ok m \<Longrightarrow> nested_ok (fold (\<lambda>(a, bs) m. drop_members x a bs m) subs m)"
  by (induction subs arbitrary: m) (auto simp: drop_members_ok)

lemma fold_swarms_entries:
  "set (entries (fold (\<lambda>(a, bs) m. drop_members x a bs m) subs m) c d) =
   set (entries m c d) - (if \<exists>bs. (c, bs) \<in> set subs \<and> d \<in> set bs then {x} else {})"
  by (induction subs arbitrary: m) (auto simp: drop_members_entries)

lemma drop_everywhere_step:
  "set (entries (drop_members x a (map fst (the_default [] (map_of m a))) m) c d) =
   set (entries m c d) - (if c = a then {x} else {})"
proof (cases "d \<in> set (map fst (the_default [] (map_of m a)))")
  case False
  then have "map_of (the_default [] (map_of m a)) d = None" by (simp add: map_of_eq_None_iff)
  then have "entries m a d = []" by (simp add: entries_alt)
  with False show ?thesis by (auto simp: drop_members_entries)
qed (simp add: drop_members_entries)

lemma drop_everywhere_ok: "nested_ok m \<Longrightarrow> nested_ok (drop_everywhere x m)"
proof -
  have "nested_ok m \<Longrightarrow> nested_ok (fold (\<lambda>a m. drop_members x a (map fst (the_default [] (map_of m a))) m) as m)"
    for as by (induction as arbitrary: m) (simp_all add: drop_members_ok)
  then show "nested_ok m \<Longrightarrow> nested_ok (drop_everywhere x m)" unfolding drop_everywhere_def .
qed

lemma drop_everywhere_entries: "set (entries (drop_everywhere x m) c d) = set (entries m c d) - {x}"
proof -
  have "set (entries (fold (\<lambda>a m. drop_members x a (map fst (the_default [] (map_of m a))) m) as m) c d) =
      set (entries m c d) - (if c \<in> set as then {x} else {})" for as m
    by (induction as arbitrary: m) (auto simp: drop_everywhere_step)
  moreover have "c \<notin> set (map fst m) \<Longrightarrow> entries m c d = []"
    by (simp add: entries_def map_of_eq_None_iff [THEN iffD2])
  ultimately show ?thesis unfolding drop_everywhere_def by (cases "c \<in> set (map fst m)") simp_all
qed

section \<open>The index keeps its promise\<close>

definition index_ok :: "channel_index \<Rightarrow> bool" where
  "index_ok ix \<longleftrightarrow> nested_ok (by_swarm_channel ix) \<and> nested_ok (by_session ix) \<and>
     (\<forall>s sw ch. s \<in> set (entries (by_swarm_channel ix) sw ch) \<longleftrightarrow> ch \<in> set (entries (by_session ix) s sw))"

definition index_subs :: "channel_index \<Rightarrow> (string \<times> string \<times> string) set" where
  "index_subs ix = {(s, sw, ch). s \<in> set (entries (by_swarm_channel ix) sw ch)}"

lemma session_entries:
  assumes "index_ok ix" and "map_of (by_session ix) s = Some subs"
  shows "(\<exists>chs. (sw, chs) \<in> set subs \<and> ch \<in> set chs) \<longleftrightarrow> s \<in> set (entries (by_swarm_channel ix) sw ch)"
proof -
  have "inner_ok subs" using assms by (auto simp: index_ok_def nested_ok_def)
  then have "map_of subs sw = Some chs \<longleftrightarrow> (sw, chs) \<in> set subs" for chs
    by (intro map_of_eq_Some_iff) (simp add: inner_ok_def)
  then have "(\<exists>chs. (sw, chs) \<in> set subs \<and> ch \<in> set chs) \<longleftrightarrow> (\<exists>chs. map_of subs sw = Some chs \<and> ch \<in> set chs)"
    by metis
  also have "\<dots> \<longleftrightarrow> ch \<in> set (entries (by_session ix) s sw)"
    using assms(2) by (cases "map_of subs sw") (simp_all add: entries_alt)
  finally have "(\<exists>chs. (sw, chs) \<in> set subs \<and> ch \<in> set chs) \<longleftrightarrow> ch \<in> set (entries (by_session ix) s sw)" .
  with assms(1) show ?thesis by (simp add: index_ok_def)
qed

lemma index_op_ok:
  assumes "index_ok ix"
  shows "index_ok (index_op op ix) \<and> index_subs (index_op op ix) = spec_op op (index_subs ix)"
proof (cases op)
  case (Subscribe s sw ch)
  with assms show ?thesis
    by (auto simp: index_ok_def index_subs_def subscribe_def add_entry_ok add_entry_entries)
next
  case (Unsubscribe s sw ch)
  with assms show ?thesis
    by (auto simp: index_ok_def index_subs_def unsubscribe_def drop_members_ok drop_members_entries)
next
  case (RemoveSession s)
  show ?thesis
  proof (cases "map_of (by_session ix) s")
    case None
    then have "s \<notin> set (entries (by_swarm_channel ix) sw ch)" for sw ch
      using assms by (simp add: index_ok_def entries_def)
    with None RemoveSession assms show ?thesis
      by (auto simp: index_ok_def index_subs_def remove_session_def drop_everywhere_ok drop_everywhere_entries)
  next
    case (Some subs)
    have "entries (AList.delete s (by_session ix)) t sw = (if t = s then [] else entries (by_session ix) t sw)" for t sw
      by (simp add: entries_def delete_conv')
    moreover note session_entries [OF assms Some]
    ultimately show ?thesis using RemoveSession assms Some
      by (auto simp: index_ok_def index_subs_def remove_session_def fold_swarms_ok fold_swarms_entries nested_ok_delete
          split: if_splits)
  qed
qed

interpretation channels: subscription_index index_default index_op members index_ok index_subs
proof unfold_locales
  show "index_ok index_default" by (simp add: index_ok_def index_default_def nested_ok_def entries_def)
  show "index_subs index_default = {}" by (simp add: index_subs_def index_default_def entries_def)
  fix ix op sw ch assume ok: "index_ok ix"
  show "index_ok (index_op op ix)" "index_subs (index_op op ix) = spec_op op (index_subs ix)"
    using index_op_ok [OF ok] by simp_all
  show "set (members ix sw ch) = {s. (s, sw, ch) \<in> index_subs ix} \<and> sorted (members ix sw ch) \<and> distinct (members ix sw ch)"
    using ok by (auto simp: members_def index_subs_def index_ok_def entries_distinct)
qed

text \<open>C39. After any history of subscriptions, cancellations and session removals, the members of a
  channel are exactly the sessions whose subscription the history leaves standing, each once and in
  order, and both directions of the index agree without empty tables left behind, whatever the
  iteration order of its hash maps.\<close>

theorem channel_index_refines:
  "members (fold index_op ops index_default) sw ch = sorted_list_of_set {s. (s, sw, ch) \<in> fold spec_op ops {}} \<and>
   index_ok (fold index_op ops index_default)"
  using channels.members_history channels.history [OF channels.inv_empty] by blast

end
