(* ===== verification/Swarm_Core.thy ===== *)
theory Swarm_Core
  imports Plan_State
begin

text \<open>
  The swarm core (\<open>crates/jcode-swarm-core/src/lib.rs\<close>) without the channel index: roles and
  lifecycle statuses and their wire names, the summary line a long message needs, task labels, the
  instructions appended to a worker's assignment and the completion reports.
\<close>

section \<open>Constants\<close>

definition max_swarm_completion_report_chars :: nat where
  "max_swarm_completion_report_chars = 4000"

definition swarm_completion_report_marker :: string where
  "swarm_completion_report_marker = ''SWARM COMPLETION REPORT REQUIRED''"

definition swarm_tldr_required_over_chars :: nat where
  "swarm_tldr_required_over_chars = 240"

definition max_swarm_tldr_chars :: nat where
  "max_swarm_tldr_chars = 200"

definition max_swarm_members :: nat where
  "max_swarm_members = 1000"

definition max_swarm_task_label_chars :: nat where
  "max_swarm_task_label_chars = 48"

definition swarm_deep_node_marker :: string where
  "swarm_deep_node_marker = ''DEEP TASK GRAPH NODE''"

section \<open>Summary lines and labels\<close>

definition collapse_whitespace :: "string \<Rightarrow> string" where
  "collapse_whitespace s = join '' '' (split_whitespace s)"

definition nonempty :: "string option \<Rightarrow> string option" where
  "nonempty s = (case s of Some t \<Rightarrow> if t = [] then None else Some t | None \<Rightarrow> None)"

definition validate_swarm_tldr :: "string option \<Rightarrow> string \<Rightarrow> string \<Rightarrow> string + string option" where
  "validate_swarm_tldr tldr body context =
     (case nonempty (map_option collapse_whitespace tldr) of
        Some t \<Rightarrow>
          if max_swarm_tldr_chars < char_count t then Inl (
            [sq] @ ''tldr'' @ [sq] @ '' for '' @ context @ '' is too long ('' @
            show_nat (char_count t) @ '' chars, max '' @ show_nat max_swarm_tldr_chars @
            ''). Provide a single short line summarizing the message.'')
          else Inr (Some t)
      | None \<Rightarrow>
          if swarm_tldr_required_over_chars < char_count body then Inl (
            [sq] @ ''tldr'' @ [sq] @ '' is required for '' @ context @
            '' because the body is '' @ show_nat (char_count body) @ '' chars (over '' @
            show_nat swarm_tldr_required_over_chars @ ''). Add a one-line '' @ [sq] @ ''tldr'' @
            [sq] @ '' (under '' @ show_nat max_swarm_tldr_chars @
            '' chars) summarizing it; recipients see the tldr collapsed with an expand '' @
            ''control.'')
          else Inr None)"

definition trim_start_matches :: "char set \<Rightarrow> string \<Rightarrow> string" where
  "trim_start_matches cs s = dropWhile (\<lambda>c. c \<in> cs) s"

definition trim_end_matches :: "char \<Rightarrow> string \<Rightarrow> string" where
  "trim_end_matches c s = rev (dropWhile (\<lambda>d. d = c) (rev s))"

definition ellipsis :: string where
  "ellipsis = [CHR 0xE2, CHR 0x80, CHR 0xA6]"

definition derive_swarm_task_label :: "string \<Rightarrow> string option" where
  "derive_swarm_task_label text =
     (case find (\<lambda>line. line \<noteq> []) (map trim (lines text)) of
        None \<Rightarrow> None
      | Some line \<Rightarrow>
          let stripped = trim (trim_end_matches (CHR '':'')
                (trim_start_matches {CHR 0x23, CHR ''-'', CHR ''*'', CHR ''>'', CHR '' ''} line));
              collapsed = collapse_whitespace stripped
          in if collapsed = [] then None
             else if char_count collapsed \<le> max_swarm_task_label_chars then Some collapsed
             else Some (trim_end (take_chars (max_swarm_task_label_chars - 1) collapsed) @ ellipsis))"

section \<open>Roles and lifecycle\<close>

datatype swarm_role = Agent | Coordinator | OtherRole string

fun role_str :: "swarm_role \<Rightarrow> string" where
  "role_str Agent = ''agent''"
| "role_str Coordinator = ''coordinator''"
| "role_str (OtherRole v) = v"

definition role_from :: "string \<Rightarrow> swarm_role" where
  "role_from v =
     (if v = ''agent'' then Agent else if v = ''coordinator'' then Coordinator else OtherRole v)"

datatype lifecycle = LcSpawned | LcReady | LcRunning | LcRunningStale | LcCompleted | LcDone
  | LcFailed | LcStopped | LcCrashed | LcQueued | LcBlocked | LcPending | LcTodo | LcOther string

fun lifecycle_str :: "lifecycle \<Rightarrow> string" where
  "lifecycle_str LcSpawned = ''spawned''"
| "lifecycle_str LcReady = ''ready''"
| "lifecycle_str LcRunning = ''running''"
| "lifecycle_str LcRunningStale = ''running_stale''"
| "lifecycle_str LcCompleted = ''completed''"
| "lifecycle_str LcDone = ''done''"
| "lifecycle_str LcFailed = ''failed''"
| "lifecycle_str LcStopped = ''stopped''"
| "lifecycle_str LcCrashed = ''crashed''"
| "lifecycle_str LcQueued = ''queued''"
| "lifecycle_str LcBlocked = ''blocked''"
| "lifecycle_str LcPending = ''pending''"
| "lifecycle_str LcTodo = ''todo''"
| "lifecycle_str (LcOther v) = v"

definition lifecycle_from :: "string \<Rightarrow> lifecycle" where
  "lifecycle_from v =
     (if v = ''spawned'' then LcSpawned
      else if v = ''ready'' then LcReady
      else if v = ''running'' then LcRunning
      else if v = ''running_stale'' then LcRunningStale
      else if v = ''completed'' then LcCompleted
      else if v = ''done'' then LcDone
      else if v = ''failed'' then LcFailed
      else if v = ''stopped'' then LcStopped
      else if v = ''crashed'' then LcCrashed
      else if v = ''queued'' then LcQueued
      else if v = ''blocked'' then LcBlocked
      else if v = ''pending'' then LcPending
      else if v = ''todo'' then LcTodo
      else LcOther v)"

record member_record =
  mr_session_id :: string
  mr_working_dir :: "string option"
  mr_swarm_id :: "string option"
  mr_swarm_enabled :: bool
  mr_status :: lifecycle
  mr_detail :: "string option"
  mr_task_label :: "string option"
  mr_friendly_name :: "string option"
  mr_report_back_to_session_id :: "string option"
  mr_latest_completion_report :: "string option"
  mr_role :: swarm_role
  mr_is_headless :: bool

section \<open>Instructions\<close>

text \<open>The common frame of the three instructions: the trimmed message, a blank line, and a reminder
  that opens with a marker.\<close>

definition with_reminder :: "string \<Rightarrow> string \<Rightarrow> string \<Rightarrow> string" where
  "with_reminder message marker body =
     (let out = trim_end message in
      out @ (if out = [] then [] else [nl, nl]) @ ''<system-reminder>'' @ [nl] @ marker @ body @
      ''</system-reminder>'')"

definition completion_report_body :: string where
  "completion_report_body =
     [nl] @ ''Before finishing, call the swarm tool with action='' @ [dq] @ ''report'' @ [dq] @
     '' to submit your completion report. Include a concise message, validation/tests '' @
     ''performed, and blockers or follow-ups. After the report tool succeeds, also '' @
     ''write a brief final assistant response. Do not finish with only tool output, a '' @
     ''lifecycle status change, or no final response. Do not send a separate DM for '' @
     ''the final report unless you need interactive coordination before finishing.'' @ [nl]"

definition append_swarm_completion_report_instructions :: "string \<Rightarrow> string" where
  "append_swarm_completion_report_instructions message =
     (if str_contains message swarm_completion_report_marker then message
      else with_reminder message swarm_completion_report_marker completion_report_body)"

definition bounded_node_body :: "string \<Rightarrow> string" where
  "bounded_node_body node_id =
     [nl] @ ''You are executing node '' @ [sq] @ node_id @ [sq] @
     '' of a deep task graph. The planner explicitly marked this node as bounded and '' @
     ''non-expandable. Do NOT call expand_node, even if the node contains multiple '' @
     ''concerns. Execute the assigned scope atomically, then call the swarm tool with '' @
     ''action='' @ [dq] @ ''complete_node'' @ [dq] @ '', node_id='' @ [dq] @ node_id @ [dq] @
     '', and a typed artifact containing findings, evidence (file:line refs), '' @
     ''validation, open_questions, a REQUIRED confidence (low, medium, or high), and '' @
     ''an honest what_i_did_not_check list. A turn that ends without complete_node '' @
     ''gets re-queued and may fail.'' @ [nl]"

definition deep_node_body :: "string \<Rightarrow> string" where
  "deep_node_body node_id =
     [nl] @ ''You are executing node '' @ [sq] @ node_id @ [sq] @
     '' of a deep task graph with a large parallel agent budget (up to '' @
     show_nat max_swarm_members @
     '' live agents per swarm; using it is expected, not wasteful). Choose one of '' @
     ''exactly two finishes for this node:'' @ [nl] @
     ''1. Decompose for parallelism: if this node contains more than one independently '' @
     ''checkable concern, do NOT work through it serially. Call the swarm tool with '' @
     ''action='' @ [dq] @ ''expand_node'' @ [dq] @ '', node_id='' @ [dq] @ node_id @ [dq] @
     '', and MANY independent children (add depends_on edges only for real data '' @
     ''dependencies, so the ready set stays wide). Then finish your turn; the children '' @
     ''fan out to parallel agents and you will be re-woken to synthesize their results.'' @
     [nl] @ ''2. Execute atomically: do the work, then call the swarm tool with action='' @
     [dq] @ ''complete_node'' @ [dq] @ '', node_id='' @ [dq] @ node_id @ [dq] @
     '', and a typed artifact: findings, evidence (file:line refs), validation, '' @
     ''open_questions, a REQUIRED confidence (low, medium, or high; report low '' @
     ''honestly, it routes follow-up work to shore up your scope instead of counting '' @
     ''against you), and an honest what_i_did_not_check (the critique gate turns those '' @
     ''into new nodes, so listing them is how coverage grows).'' @ [nl] @
     ''These are the ONLY two ways this node can close: a turn that ends without '' @
     ''expand_node or complete_node gets the node re-queued to a fresh agent, and a '' @
     ''repeat fails it.'' @ [nl]"

definition append_deep_node_instructions :: "string \<Rightarrow> string \<Rightarrow> string" where
  "append_deep_node_instructions message node_id =
     (if str_contains message swarm_deep_node_marker then message
      else with_reminder message swarm_deep_node_marker
        (if str_contains (to_ascii_lowercase message) ''do not expand this node''
         then bounded_node_body node_id else deep_node_body node_id))"

definition gate_intro :: "string \<Rightarrow> string" where
  "gate_intro gate_id =
     [nl] @ ''You are executing critique/verify gate '' @ [sq] @ gate_id @ [sq] @
     '' of a deep task graph. Your job is to find gaps, not to pass work through. Read '' @
     ''every audited artifact, especially each what_i_did_not_check list, and probe '' @
     ''them. Finish in one of exactly two ways:'' @ [nl] @
     ''1. Gaps or failures found: call the swarm tool with action='' @ [dq] @ ''inject_gap'' @
     [dq] @ '', gate_id='' @ [dq] @ gate_id @ [dq] @
     '', and one new node per gap (they run in parallel and you re-run afterwards). '' @
     ''The parent cannot close until they drain, so be thorough now. Injecting nodes '' @
     ''is SUCCESS for a gate, not failure: a growing graph is the system working.'' @ [nl] @
     ''2. Genuinely clean: call the swarm tool with action='' @ [dq] @ ''complete_node'' @ [dq] @
     '', node_id='' @ [dq] @ gate_id @ [dq] @
     '', and an artifact whose findings account for EVERY node you audited BY ID with '' @
     ''what you checked and why no gaps remain. The server rejects a pass whose '' @
     ''findings/open_questions do not name each audited node id.'' @ [nl]"

definition gate_body :: "string \<Rightarrow> string \<Rightarrow> string" where
  "gate_body gate_id extra =
     gate_intro gate_id @ extra @ ''Do not pass the gate without doing one of these.'' @ [nl]"

definition audit_scope_text :: "string list \<Rightarrow> string" where
  "audit_scope_text audited_ids =
     ''AUDIT SCOPE: you are auditing node(s) ['' @ join '', '' audited_ids @
     '']. A passing artifact must address each of these ids explicitly.'' @ [nl]"

definition priority_text :: "string list \<Rightarrow> string" where
  "priority_text low =
     ''PRIORITY: sibling node(s) ['' @ join '', '' low @
     ''] completed with LOW confidence. The server will REJECT your pass unless you '' @
     ''either inject follow-up nodes that shore up that work, or name each of those '' @
     ''ids in your artifact findings with why the low confidence is acceptable. '' @
     ''Injecting follow-ups adds breadth but does not erase the record: when you '' @
     ''re-run after they drain, your passing artifact must STILL name each '' @
     ''low-confidence id (e.g. '' @ [sq] @ ''X was shored up by Y'' @ [sq] @ '').'' @ [nl]"

definition append_deep_gate_instructions :: "string \<Rightarrow> string \<Rightarrow> string list \<Rightarrow> string list \<Rightarrow> string" where
  "append_deep_gate_instructions message gate_id audited_ids low_confidence_siblings =
     (if str_contains message swarm_deep_node_marker then message
      else with_reminder message swarm_deep_node_marker
        (gate_body gate_id
          ((if audited_ids = [] then [] else audit_scope_text audited_ids) @
           (if low_confidence_siblings = [] then [] else priority_text low_confidence_siblings))))"

section \<open>Completion reports\<close>

definition add_paragraph :: "string \<Rightarrow> string option \<Rightarrow> string \<Rightarrow> string" where
  "add_paragraph heading value report =
     (case nonempty (map_option trim value) of
        None \<Rightarrow> report
      | Some v \<Rightarrow> report @ (if report = [] then [] else [nl, nl]) @ heading @ [nl] @ v)"

definition format_structured_completion_report :: "string \<Rightarrow> string option \<Rightarrow> string option \<Rightarrow> string" where
  "format_structured_completion_report message validation follow_up =
     add_paragraph ''Follow-ups/blockers:'' follow_up
       (add_paragraph ''Validation:'' validation (trim message))"

definition truncation_suffix :: string where
  "truncation_suffix = [nl, nl] @ ''[Report truncated by jcode before delivery.]''"

definition normalize_completion_report :: "string option \<Rightarrow> string option" where
  "normalize_completion_report report =
     (case report of
        None \<Rightarrow> None
      | Some r \<Rightarrow>
          let t = trim r in
          if t = [] then None
          else if char_count t \<le> max_swarm_completion_report_chars then Some t
          else Some (take_chars (max_swarm_completion_report_chars - char_count truncation_suffix) t @
            truncation_suffix))"

definition completion_status_intro :: "string \<Rightarrow> string \<Rightarrow> string" where
  "completion_status_intro name status =
     (if status = ''ready'' then ''Agent '' @ name @ '' finished their work and is ready for more.''
      else if status = ''failed'' then ''Agent '' @ name @ '' finished with status failed.''
      else if status = ''stopped'' then ''Agent '' @ name @ '' stopped.''
      else if status = ''crashed'' then ''Agent '' @ name @ '' crashed while working.''
      else ''Agent '' @ name @ '' completed their work.'')"

definition completion_followup :: "string \<Rightarrow> bool \<Rightarrow> string" where
  "completion_followup status has_report =
     (if status = ''ready'' then
        if has_report then
          ''Use assign_task to give them more work, stop to remove them, or '' @
          ''summary/read_context for full context.''
        else
          ''Use summary/read_context to inspect results, assign_task for more work, or stop '' @
          ''to remove them.''
      else if status = ''failed'' then
        if has_report then
          ''Use summary/read_context for full context, retry with guidance, or stop to '' @
          ''remove them.''
        else
          ''Use summary/read_context to inspect results, assign_task to retry with '' @
          ''guidance, or stop to remove them.''
      else if status = ''stopped'' then
          ''Use summary/read_context to inspect results or stop to remove them.''
      else if status = ''crashed'' then
          ''Any swarm task assignments they held are requeued automatically where possible. '' @
          ''Check plan_status, and spawn a replacement or use retry/assign_task if work '' @
          ''remains.''
      else if has_report then
          ''Use assign_task to give them new work, stop to remove them, or '' @
          ''summary/read_context for full context.''
      else
          ''Use assign_task to give them new work, or stop to remove them.'')"

definition completion_notification_message :: "string \<Rightarrow> string \<Rightarrow> string option \<Rightarrow> string" where
  "completion_notification_message name status report =
     (let intro = completion_status_intro name status;
          followup = completion_followup status (report \<noteq> None)
      in case report of
           Some r \<Rightarrow> intro @ [nl, nl] @ ''Report:'' @ [nl] @ r @ [nl, nl] @ followup
         | None \<Rightarrow> intro @ [nl, nl] @ ''No final textual report was produced. '' @ followup)"

section \<open>Short texts\<close>

definition truncate_detail :: "string \<Rightarrow> nat \<Rightarrow> string" where
  "truncate_detail text max_len =
     (let trimmed = trim (collapse_whitespace text);
          limit = max max_len 1
      in if char_count trimmed \<le> limit then trimmed
         else if limit \<le> 3 then take_chars limit trimmed
         else take_chars (limit - 3) trimmed @ ''...'')"

definition summarize_plan_items :: "plan_item list \<Rightarrow> nat \<Rightarrow> string" where
  "summarize_plan_items items max_items =
     (if items = [] then ''no items''
      else join ''; '' (map pi_content (take (max max_items 1) items)) @
        (if max max_items 1 < length items
         then '' (+'' @ show_nat (length items - max max_items 1) @ '' more)'' else []))"

end
