(* ===== verification/Swarm_Text.thy ===== *)
theory Swarm_Text
  imports Swarm_Core
begin

text \<open>
  What the swarm core promises about the texts it produces: bounds in characters, one-line
  summaries, normal forms that a second pass leaves alone, markers that keep instructions from being
  appended twice, and wire names that survive parsing.
\<close>

section \<open>White space and words\<close>

text \<open>A string starts with white space if one of the encodings is a prefix; the encodings of more than
  one byte hold no ASCII byte, so an ASCII byte after a string never completes one.\<close>

definition starts_ws :: "string \<Rightarrow> bool" where
  "starts_ws s \<longleftrightarrow> (\<exists>e \<in> set ws_chars. prefix e s)"

lemma ws_chars_not_Nil: "e \<in> set ws_chars \<Longrightarrow> e \<noteq> []"
  by (auto simp: ws_chars_def)

lemma ws_ascii: "e \<in> set ws_chars \<Longrightarrow> 1 < length e \<Longrightarrow> c \<in> set e \<Longrightarrow> 128 \<le> byte c"
  unfolding ws_chars_def byte_def by (auto simp: of_char_def) 

lemma strip_one_None: "strip_one ws_chars s = None \<longleftrightarrow> \<not> starts_ws s"
  using ws_chars_not_Nil by (auto simp: strip_one_def find_None_iff starts_ws_def)

lemma starts_ws_append:
  assumes "\<not> starts_ws u" and "u \<noteq> []" and "v = [] \<or> byte (hd v) < 128"
  shows "\<not> starts_ws (u @ v)"
proof
  assume "starts_ws (u @ v)"
  then obtain e where e: "e \<in> set ws_chars" "prefix e (u @ v)" by (auto simp: starts_ws_def)
  with assms(1) have "\<not> prefix e u" by (auto simp: starts_ws_def)
  with e(2) obtain w where w: "e = u @ w" "prefix w v" "w \<noteq> []" by (auto simp: prefix_append)
  then have "hd v \<in> set e" by (cases v; cases w) auto
  moreover have "1 < length e" using w assms(2) by (cases u; cases w) auto
  ultimately show False using ws_ascii [OF e(1)] assms(3) w by force
qed

lemma starts_ws_prefix: "prefix u v \<Longrightarrow> starts_ws u \<Longrightarrow> starts_ws v"
  unfolding starts_ws_def using prefix_order.trans by blast

lemma trim_start_id: "\<not> starts_ws s \<Longrightarrow> trim_start s = s"
  by (simp add: trim_start_def strip_start_fix strip_one_None)

lemma trim_start_clean: "\<not> starts_ws (trim_start s)"
  using strip_one_strip_start [of ws_chars s] by (simp add: trim_start_def strip_one_None)

lemma trim_clean: "\<not> starts_ws (trim s)"
  unfolding trim_def using starts_ws_prefix [OF trim_end_prefix] trim_start_clean by blast

lemma trim_idem: "trim (trim s) = trim s"
  using trim_start_id [OF trim_clean] unfolding trim_def by simp

text \<open>A word: not empty and free of white space at every position.\<close>

definition is_word :: "string \<Rightarrow> bool" where
  "is_word w \<longleftrightarrow> w \<noteq> [] \<and> (\<forall>k < length w. \<not> starts_ws (drop k w))"

lemma is_wordD: "is_word w \<Longrightarrow> w \<noteq> [] \<and> \<not> starts_ws w"
  by (cases w) (force simp: is_word_def)+

lemma strip_space: "strip_one ws_chars (CHR '' '' # s) = Some s"
  by (simp add: strip_one_def ws_chars_def)

lemma take_word_clean: "k < length (take_word s) \<Longrightarrow> \<not> starts_ws (drop k (take_word s))"
proof (induction s arbitrary: k rule: take_word.induct)
  case (2 c cs)
  then have none: "strip_one ws_chars (c # cs) = None" by (auto split: if_splits)
  show ?case
  proof (cases k)
    case 0
    have "prefix (c # take_word cs) (c # cs)" by (simp add: take_word_prefix)
    with none 0 show ?thesis using starts_ws_prefix [of "c # take_word cs" "c # cs"] by (auto simp: strip_one_None)
  next
    case (Suc j)
    with 2 none show ?thesis by simp
  qed
qed simp

lemma take_word_is_word: "s \<noteq> [] \<Longrightarrow> \<not> starts_ws s \<Longrightarrow> is_word (take_word s)"
  using take_word_pos [of s] take_word_clean by (auto simp: is_word_def strip_one_None)

lemma split_words: "w \<in> set (split_whitespace s) \<Longrightarrow> is_word w"
proof (induction s rule: split_whitespace.induct)
  case (1 s)
  let ?t = "trim_start s"
  show ?case
  proof (cases "?t = []")
    case True
    with "1.prems" show ?thesis by (simp add: split_whitespace.simps [of s])
  next
    case False
    with "1.prems" have "w = take_word ?t \<or> w \<in> set (split_whitespace (drop (length (take_word ?t)) ?t))"
      by (simp add: split_whitespace.simps [of s] Let_def)
    with "1.IH" [OF refl False] show ?thesis
      using take_word_is_word [OF False trim_start_clean] by blast
  qed
qed

lemma take_word_append:
  assumes "is_word w" and "v = [] \<or> (\<exists>r. v = CHR '' '' # r)"
  shows "take_word (w @ v) = w"
proof -
  have "take_word (drop k w @ v) = drop k w" if "k \<le> length w" for k
    using that
  proof (induction k rule: inc_induct)
    case base
    show ?case using assms(2) by (auto simp: strip_space)
  next
    case (step k)
    then have cons: "drop k w = w ! k # drop (Suc k) w" by (simp add: Cons_nth_drop_Suc)
    have "\<not> starts_ws (drop k w @ v)"
      using assms step by (intro starts_ws_append) (auto simp: is_word_def byte_def)
    with step cons show ?case by (simp add: strip_one_None)
  qed
  from this [of 0] show ?thesis by simp
qed

lemma trim_start_space: "trim_start (CHR '' '' # s) = trim_start s"
  unfolding trim_start_def by (subst strip_start.simps) (simp add: strip_space)

lemma split_join: "\<forall>w \<in> set ws. is_word w \<Longrightarrow> split_whitespace (join '' '' ws) = ws"
proof (induction ws rule: induct_list012)
  case 1
  then show ?case by (simp add: split_whitespace.simps trim_start_def)
next
  case (2 w)
  have "\<not> starts_ws w" "w \<noteq> []" using 2 is_wordD by auto
  then have "split_whitespace w = w # split_whitespace []"
    using take_word_append [of w "[]"] 2 by (subst split_whitespace.simps) (simp add: trim_start_id)
  then show ?case by (simp add: split_whitespace.simps [of "[]"] trim_start_def)
next
  case (3 x y zs)
  let ?rest = "CHR '' '' # join '' '' (y # zs)"
  have x: "is_word x" using "3.prems" by simp
  then have "\<not> starts_ws (x @ ?rest)" "x \<noteq> []"
    using is_wordD [OF x] starts_ws_append [of x ?rest] by (auto simp: byte_def)
  then have "split_whitespace (x @ ?rest) = x # split_whitespace ?rest"
    using take_word_append [OF x, of ?rest] by (subst split_whitespace.simps) (simp add: trim_start_id)
  moreover have "split_whitespace ?rest = split_whitespace (join '' '' (y # zs))"
    by (subst (1 2) split_whitespace.simps) (simp add: trim_start_space)
  ultimately show ?case using "3.IH"(2) "3.prems" by simp
qed

lemma collapse_idem [simp]: "collapse_whitespace (collapse_whitespace s) = collapse_whitespace s"
  unfolding collapse_whitespace_def by (subst split_join) (auto intro: split_words)

lemma word_one_line: "is_word w \<Longrightarrow> nl \<notin> set w"
proof
  assume "is_word w" and "nl \<in> set w"
  then obtain k where k: "k < length w" "w ! k = nl" by (auto simp: in_set_conv_nth)
  then have "drop k w = nl # drop (Suc k) w" by (metis Cons_nth_drop_Suc)
  then have "starts_ws (drop k w)" by (simp add: starts_ws_def ws_chars_def nl_def)
  with \<open>is_word w\<close> k show False by (simp add: is_word_def)
qed

lemma collapse_one_line: "nl \<notin> set (collapse_whitespace s)"
proof -
  have "nl \<notin> set (join '' '' ws)" if "\<forall>w \<in> set ws. nl \<notin> set w" for ws
    using that by (induction ws rule: induct_list012) (auto simp: nl_def)
  then show ?thesis unfolding collapse_whitespace_def using split_words word_one_line by blast
qed

section \<open>Summary lines\<close>

text \<open>A message that passes the check is short, or comes with a summary of one line and at most 200
  characters; and the check is stable: the normalised summary passes again, unchanged.\<close>

theorem tldr_contract:
  assumes "validate_swarm_tldr tldr body context = Inr r"
  shows "(case r of None \<Rightarrow> char_count body \<le> swarm_tldr_required_over_chars
      | Some t \<Rightarrow> t \<noteq> [] \<and> char_count t \<le> max_swarm_tldr_chars \<and> nl \<notin> set t) \<and>
    validate_swarm_tldr r body context' = Inr r"
proof (cases "nonempty (map_option collapse_whitespace tldr)")
  case None
  with assms show ?thesis by (auto simp: validate_swarm_tldr_def nonempty_def split: if_splits)
next
  case (Some t)
  then have t: "t \<noteq> []" "collapse_whitespace t = t" "nl \<notin> set t"
    by (auto simp: nonempty_def collapse_one_line split: option.splits if_splits)
  from assms Some have r: "r = Some t" and le: "char_count t \<le> max_swarm_tldr_chars"
    by (auto simp: validate_swarm_tldr_def split: if_splits)
  have "nonempty (map_option collapse_whitespace (Some t)) = Some t" using t by (simp add: nonempty_def)
  with t le show ?thesis unfolding r by (simp add: validate_swarm_tldr_def)
qed

lemma tldr_contract_witness:
  "validate_swarm_tldr (Some ''did the thing'') ''body'' ''a report'' = Inr (Some ''did the thing'')"
proof -
  have "validate_swarm_tldr (Some ''  did  the thing '') ''body'' ''this DM'' = Inr (Some ''did the thing'')"
    by code_simp
  from tldr_contract [OF this] show ?thesis by blast
qed

section \<open>Bounded texts\<close>

lemma char_count_prefix: "prefix u v \<Longrightarrow> char_count u \<le> char_count v"
  by (auto elim!: prefixE)

lemma trim_end_set: "set (trim_end s) \<subseteq> set s"
  using trim_end_prefix set_mono_prefix by blast

lemma take_chars_set: "set (take_chars n s) \<subseteq> set s"
  using take_chars_prefix set_mono_prefix by blast

lemma trim_starts: "trim s = s \<longleftrightarrow> \<not> starts_ws s \<and> trim_end s = s"
  using trim_clean [of s] trim_start_id [of s] by (auto simp: trim_def)

lemma truncated_report_trimmed:
  assumes "trim t = t" and "t \<noteq> []" and "0 < n"
  shows "trim (take_chars n t @ truncation_suffix) = take_chars n t @ truncation_suffix"
proof -
  let ?u = "take_chars n t"
  have "?u \<noteq> []"
  proof
    assume "?u = []"
    then have "char_count ?u = 0" by simp
    then have "char_count t = 0" using assms(3) by (simp only: char_count_take_chars)
    then have "take_chars n t = t" by (intro take_chars_all) simp
    with \<open>?u = []\<close> assms(2) show False by simp
  qed
  moreover have "\<not> starts_ws ?u"
    using assms(1) starts_ws_prefix [OF take_chars_prefix] trim_clean [of t] by metis
  ultimately have "\<not> starts_ws (?u @ truncation_suffix)"
    by (intro starts_ws_append) (simp_all add: truncation_suffix_def nl_def byte_def)
  moreover have "trim_end (s @ [CHR '']'']) = s @ [CHR '']'']" for s
    by (simp add: trim_end_def strip_start_fix strip_one_def ws_chars_def)
  from this [of "?u @ butlast truncation_suffix"] have "trim_end (?u @ truncation_suffix) = ?u @ truncation_suffix"
    by (simp add: truncation_suffix_def)
  ultimately show ?thesis by (simp add: trim_starts)
qed

lemma suffix_chars: "char_count truncation_suffix = 46"
  by code_simp

text \<open>The texts the swarm stores and shows are bounded: a task label is not empty, has one line and
  at most 48 characters; a detail has at most the requested number of characters, one at least; a
  delivered report is not empty, has at most 4000 characters and is left alone when it is
  normalised again.\<close>

theorem swarm_texts_bounded:
  "(\<forall>l. derive_swarm_task_label text = Some l \<longrightarrow>
      l \<noteq> [] \<and> nl \<notin> set l \<and> char_count l \<le> max_swarm_task_label_chars) \<and>
   char_count (truncate_detail text max_len) \<le> max 1 max_len \<and>
   (\<forall>t. normalize_completion_report report = Some t \<longrightarrow>
      t \<noteq> [] \<and> char_count t \<le> max_swarm_completion_report_chars \<and> normalize_completion_report (Some t) = Some t)"
proof (intro conjI allI impI)
  fix l assume l: "derive_swarm_task_label text = Some l"
  define c where "c = collapse_whitespace (trim (trim_end_matches (CHR '':'')
    (trim_start_matches {CHR 0x23, CHR ''-'', CHR ''*'', CHR ''>'', CHR '' ''}
      (the (find (\<lambda>line. line \<noteq> []) (map trim (lines text)))))))"
  have cases: "l = c \<and> c \<noteq> [] \<and> char_count c \<le> 48 \<or> l = trim_end (take_chars 47 c) @ ellipsis"
    using l by (auto simp: derive_swarm_task_label_def Let_def c_def max_swarm_task_label_chars_def
        split: option.splits if_splits)
  have "nl \<notin> set c" unfolding c_def by (rule collapse_one_line)
  moreover have "nl \<notin> set ellipsis" "ellipsis \<noteq> []" "char_count ellipsis = 1" by code_simp+
  moreover have "char_count (trim_end (take_chars 47 c)) \<le> 47"
    using char_count_prefix [OF trim_end_prefix [of "take_chars 47 c"]] by simp
  ultimately show "l \<noteq> []" "nl \<notin> set l" "char_count l \<le> max_swarm_task_label_chars"
    using cases trim_end_set [of "take_chars 47 c"] take_chars_set [of 47 c]
    by (auto simp: max_swarm_task_label_chars_def)
next
  have "char_count ''...'' = 3" by code_simp
  then show "char_count (truncate_detail text max_len) \<le> max 1 max_len"
    by (auto simp: truncate_detail_def Let_def)
next
  fix t assume t: "normalize_completion_report report = Some t"
  then obtain r where r: "report = Some r" "trim r \<noteq> []" by (auto simp: normalize_completion_report_def Let_def split: option.splits if_splits)
  let ?keep = "take_chars 3954 (trim r) @ truncation_suffix"
  have "t = trim r \<and> char_count (trim r) \<le> 4000 \<or> t = ?keep"
    using t r by (auto simp: normalize_completion_report_def Let_def suffix_chars max_swarm_completion_report_chars_def split: if_splits)
  moreover have "trim ?keep = ?keep" using r trim_idem by (intro truncated_report_trimmed) auto
  moreover have "char_count ?keep \<le> 4000" by (simp add: suffix_chars)
  moreover have "?keep \<noteq> []" by (simp add: truncation_suffix_def)
  ultimately have "t \<noteq> [] \<and> char_count t \<le> 4000 \<and> trim t = t" using r(2) trim_idem by metis
  then show "t \<noteq> []" "char_count t \<le> max_swarm_completion_report_chars" "normalize_completion_report (Some t) = Some t"
    by (auto simp: normalize_completion_report_def max_swarm_completion_report_chars_def)
qed

lemma swarm_texts_bounded_witness:
  "char_count (truncate_detail ''hello   there world'' 11) \<le> 11 \<and>
   normalize_completion_report (Some ''done'') = Some ''done''"
proof -
  have "normalize_completion_report (Some '' done '') = Some ''done''" by code_simp
  then show ?thesis
    using swarm_texts_bounded [of "''hello   there world''" 11 "Some '' done ''"] by simp
qed

section \<open>Directives\<close>

lemma reminder_contains:
  "str_contains (with_reminder m marker body) marker"
  "str_contains body x \<Longrightarrow> str_contains (with_reminder m marker body) x"
proof -
  obtain u v where r: "with_reminder m marker body = u @ marker @ body @ v"
    by (metis (no_types, opaque_lifting) append.assoc with_reminder_def)
  then show "str_contains (with_reminder m marker body) marker" by (auto simp: str_contains_iff)
  show "str_contains body x \<Longrightarrow> str_contains (with_reminder m marker body) x"
    unfolding r by (intro str_contains_append_left str_contains_append_right)
qed

lemma reminder_keeps: "prefix (trim_end m) (with_reminder m marker body)"
  by (simp add: with_reminder_def Let_def)

lemma gate_body_contains:
  "str_contains (gate_body gate_id extra) gate_id"
  "str_contains extra x \<Longrightarrow> str_contains (gate_body gate_id extra) x"
proof -
  have "str_contains (gate_intro gate_id) gate_id"
    unfolding gate_intro_def
    by (rule str_contains_append_left, rule str_contains_append_left, rule str_contains_append_left,
        rule str_contains_append_right, rule str_contains_refl)
  then show "str_contains (gate_body gate_id extra) gate_id"
    unfolding gate_body_def by (rule str_contains_append_right)
  show "str_contains extra x \<Longrightarrow> str_contains (gate_body gate_id extra) x"
    unfolding gate_body_def by (intro str_contains_append_left str_contains_append_right)
qed

lemma node_body_contains: "str_contains (bounded_node_body i) i" "str_contains (deep_node_body i) i"
  unfolding bounded_node_body_def deep_node_body_def
  by (rule str_contains_append_left, rule str_contains_append_left, rule str_contains_append_left,
      rule str_contains_append_right, rule str_contains_refl)+

lemma scope_texts_contain:
  "x \<in> set xs \<Longrightarrow> str_contains (audit_scope_text xs) x" "x \<in> set xs \<Longrightarrow> str_contains (priority_text xs) x"
  unfolding audit_scope_text_def priority_text_def
  by (rule str_contains_append_left, rule str_contains_append_right, rule join_contains, assumption)+

lemma gate_directive_names:
  assumes "\<not> str_contains m swarm_deep_node_marker" and "x \<in> insert i (set audited \<union> set low)"
  shows "str_contains (append_deep_gate_instructions m i audited low) x"
proof -
  have "str_contains ((if audited = [] then [] else audit_scope_text audited) @
      (if low = [] then [] else priority_text low)) x" if "x \<in> set audited \<union> set low"
    using that
  proof
    assume "x \<in> set audited"
    then show ?thesis using scope_texts_contain(1) by (intro str_contains_append_right) auto
  next
    assume "x \<in> set low"
    then show ?thesis using scope_texts_contain(2) by (intro str_contains_append_left) auto
  qed
  then show ?thesis
    using assms gate_body_contains unfolding append_deep_gate_instructions_def
    by (auto intro: reminder_contains(2))
qed

text \<open>Directives are appended once and name what they must: an unmarked message keeps its text and
  gains the marker; appending again, also the other deep directive, changes nothing; and a gate's
  directive names the gate, every node it has to audit and every low-confidence sibling.\<close>

theorem directives_once_and_complete:
  "let report = append_swarm_completion_report_instructions m;
       node = append_deep_node_instructions m i;
       gate = append_deep_gate_instructions m i audited low
   in str_contains report swarm_completion_report_marker \<and>
      append_swarm_completion_report_instructions report = report \<and>
      str_contains node swarm_deep_node_marker \<and> str_contains gate swarm_deep_node_marker \<and>
      append_deep_node_instructions node j = node \<and> append_deep_gate_instructions node j as bs = node \<and>
      append_deep_node_instructions gate j = gate \<and> append_deep_gate_instructions gate j as bs = gate \<and>
      prefix (trim_end m) report \<and> prefix (trim_end m) node \<and> prefix (trim_end m) gate \<and>
      (str_contains m swarm_deep_node_marker \<or>
       str_contains node i \<and> (\<forall>x \<in> insert i (set audited \<union> set low). str_contains gate x))"
proof -
  have marked: "str_contains (append_swarm_completion_report_instructions m) swarm_completion_report_marker"
    "str_contains (append_deep_node_instructions m i) swarm_deep_node_marker"
    "str_contains (append_deep_gate_instructions m i audited low) swarm_deep_node_marker"
    by (simp_all add: append_swarm_completion_report_instructions_def append_deep_node_instructions_def
        append_deep_gate_instructions_def reminder_contains(1))
  have again: "str_contains x swarm_deep_node_marker \<Longrightarrow>
      append_deep_node_instructions x j = x \<and> append_deep_gate_instructions x j as bs = x" for x
    by (simp add: append_deep_node_instructions_def append_deep_gate_instructions_def)
  have "prefix (trim_end m) (append_swarm_completion_report_instructions m)"
    "prefix (trim_end m) (append_deep_node_instructions m i)"
    "prefix (trim_end m) (append_deep_gate_instructions m i audited low)"
    by (simp_all add: append_swarm_completion_report_instructions_def append_deep_node_instructions_def
        append_deep_gate_instructions_def reminder_keeps trim_end_prefix)
  moreover have "str_contains (append_deep_node_instructions m i) i" if "\<not> str_contains m swarm_deep_node_marker"
    using that node_body_contains by (simp add: append_deep_node_instructions_def reminder_contains(2))
  moreover have "append_swarm_completion_report_instructions (append_swarm_completion_report_instructions m) =
      append_swarm_completion_report_instructions m"
    using marked(1) unfolding append_swarm_completion_report_instructions_def [of "append_swarm_completion_report_instructions m"]
    by simp
  ultimately show ?thesis
    unfolding Let_def using marked again gate_directive_names by blast
qed

lemma directives_once_and_complete_witness:
  "append_deep_gate_instructions (append_deep_gate_instructions ''Audit it.'' ''g'' [''a''] []) ''h'' [] [] =
   append_deep_gate_instructions ''Audit it.'' ''g'' [''a''] []"
  using directives_once_and_complete [of "''Audit it.''" "''g''" "[''a'']" "[]" "''h''" "[]" "[]"]
  unfolding Let_def by blast

section \<open>Wire names\<close>

text \<open>Wire names survive: every string is written back as it was read, and every role and lifecycle
  status but a custom one that spells a known name is read back as it was written.\<close>

theorem wire_names_roundtrip:
  "role_str (role_from v) = v \<and> lifecycle_str (lifecycle_from v) = v \<and>
   (role_from (role_str r) = r \<longleftrightarrow> (\<forall>v. r = OtherRole v \<longrightarrow> role_from v = OtherRole v)) \<and>
   (lifecycle_from (lifecycle_str l) = l \<longleftrightarrow> (\<forall>v. l = LcOther v \<longrightarrow> lifecycle_from v = LcOther v))"
proof (intro conjI)
  show "role_str (role_from v) = v" by (simp add: role_from_def)
  show "lifecycle_str (lifecycle_from v) = v" by (simp add: lifecycle_from_def)
  show "role_from (role_str r) = r \<longleftrightarrow> (\<forall>v. r = OtherRole v \<longrightarrow> role_from v = OtherRole v)"
    by (cases r) (simp_all add: role_from_def)
  show "lifecycle_from (lifecycle_str l) = l \<longleftrightarrow> (\<forall>v. l = LcOther v \<longrightarrow> lifecycle_from v = LcOther v)"
  proof (cases l)
    case (LcOther v)
    then show ?thesis by simp
  qed (simp_all add: lifecycle_from_def)
qed

lemma wire_names_roundtrip_witness: "role_from (role_str (OtherRole ''reviewer'')) = OtherRole ''reviewer''"
proof -
  have "\<forall>v. OtherRole ''reviewer'' = OtherRole v \<longrightarrow> role_from v = OtherRole v" by (simp add: role_from_def)
  with wire_names_roundtrip [of "''x''" "OtherRole ''reviewer''" LcDone] show ?thesis by blast
qed

end
