(* ===== verification/Memory_Graph.thy ===== *)
theory Memory_Graph
  imports Rust_Prelude "HOL-Library.AList"
begin

text \<open>
  The memory graph (\<open>crates/jcode-memory-types/src/graph.rs\<close>, with the memory entry and its search
  text from \<open>lib.rs\<close> of that crate): memories, tags and clusters by id, forward edges, a reverse index
  and the operations that change them. A hash map is an association list in an arbitrary order. The
  clock is an argument (\<open>now\<close>), and so is the Unicode table of \<open>str::to_lowercase\<close> (\<open>lower\<close>). A
  32-bit float is its bit pattern.
\<close>

section \<open>Memory entries\<close>

type_synonym f32 = "32 word"
type_synonym 'v table = "(string \<times> 'v) list"

definition f32_is_nan :: "f32 \<Rightarrow> bool" where
  "f32_is_nan x \<longleftrightarrow> 0x7F800000 < and x 0x7FFFFFFF"

text \<open>Comparison of floats: a NaN equals nothing, the two zeros are equal.\<close>

definition f32_eq :: "f32 \<Rightarrow> f32 \<Rightarrow> bool" where
  "f32_eq x y \<longleftrightarrow> \<not> f32_is_nan x \<and> \<not> f32_is_nan y \<and>
     (x = y \<or> and x 0x7FFFFFFF = 0 \<and> and y 0x7FFFFFFF = 0)"

datatype trust_level = TrustHigh | TrustMedium | TrustLow

datatype mem_category = CatFact | CatPreference | CatEntity | CatCorrection | CatCustom string

record reinforcement =
  rf_session_id :: string
  rf_message_index :: nat
  rf_timestamp :: int

record mem_entry =
  me_id :: string
  me_category :: mem_category
  me_content :: string
  me_tags :: "string list"
  me_search_text :: string
  me_created_at :: int
  me_updated_at :: int
  me_access_count :: u32
  me_source :: "string option"
  me_trust :: trust_level
  me_strength :: u32
  me_active :: bool
  me_superseded_by :: "string option"
  me_reinforcements :: "reinforcement list"
  me_embedding :: "f32 list option"
  me_embedding_model :: "string option"
  me_confidence :: f32

definition separator_chars :: "char set" where
  "separator_chars = {CHR ''-'', CHR ''_'', CHR ''/'', CHR 0x5C, CHR ''.'', CHR '':''}"

text \<open>The scan of \<open>normalize_search_text\<close>: runs of white space and separators become one space, none
  at the start. A character of several bytes is copied byte by byte.\<close>

function normalize_scan :: "bool \<Rightarrow> string \<Rightarrow> string" where
  "normalize_scan last_was_space [] = []"
| "normalize_scan last_was_space (c # cs) =
     (case strip_one ws_chars (c # cs) of
        Some rest \<Rightarrow> (if last_was_space then [] else '' '') @ normalize_scan True rest
      | None \<Rightarrow>
          if c \<in> separator_chars then (if last_was_space then [] else '' '') @ normalize_scan True cs
          else c # normalize_scan False cs)"
  by pat_completeness auto
termination
  by (relation "measure (\<lambda>(_, s). length s)") (auto dest: strip_one_length)

definition normalize_search_text :: "(string \<Rightarrow> string) \<Rightarrow> string \<Rightarrow> string" where
  "normalize_search_text lower text = trim_end (normalize_scan True (lower (trim text)))"

definition normalize_memory_search_text :: "(string \<Rightarrow> string) \<Rightarrow> string \<Rightarrow> string list \<Rightarrow> string" where
  "normalize_memory_search_text lower content tags =
     (let normalized_content = normalize_search_text lower content;
          normalized_tags = filter (\<lambda>t. t \<noteq> []) (map (normalize_search_text lower) tags)
      in if normalized_tags = [] then normalized_content
         else if normalized_content = [] then join '' '' normalized_tags
         else normalized_content @ '' '' @ join '' '' normalized_tags)"

definition refresh_search_text :: "(string \<Rightarrow> string) \<Rightarrow> mem_entry \<Rightarrow> mem_entry" where
  "refresh_search_text lower e =
     e\<lparr>me_search_text := normalize_memory_search_text lower (me_content e) (me_tags e)\<rparr>"

section \<open>The graph\<close>

definition graph_version :: u32 where
  "graph_version = 2"

datatype edge_kind = HasTag | InCluster | RelatesTo f32 | Supersedes | Contradicts | DerivedFrom

fun kind_eq :: "edge_kind \<Rightarrow> edge_kind \<Rightarrow> bool" where
  "kind_eq (RelatesTo a) (RelatesTo b) = f32_eq a b"
| "kind_eq a b = (a = b)"

record edge =
  ed_target :: string
  ed_kind :: edge_kind

definition edge_new :: "string \<Rightarrow> edge_kind \<Rightarrow> edge" where
  "edge_new target kind = \<lparr>ed_target = target, ed_kind = kind\<rparr>"

record tag_entry =
  te_id :: string
  te_name :: string
  te_description :: "string option"
  te_count :: u32
  te_created_at :: int

definition tag_id :: "string \<Rightarrow> string" where
  "tag_id name = ''tag:'' @ name"

definition tag_new :: "int \<Rightarrow> string \<Rightarrow> tag_entry" where
  "tag_new now name =
     \<lparr>te_id = tag_id name, te_name = name, te_description = None, te_count = 0, te_created_at = now\<rparr>"

record cluster_entry =
  ce_id :: string
  ce_name :: "string option"
  ce_centroid :: "f32 list"
  ce_member_count :: u32
  ce_created_at :: int
  ce_updated_at :: int

definition cluster_new :: "int \<Rightarrow> string \<Rightarrow> cluster_entry" where
  "cluster_new now i =
     \<lparr>ce_id = ''cluster:'' @ i, ce_name = None, ce_centroid = [], ce_member_count = 0,
      ce_created_at = now, ce_updated_at = now\<rparr>"

record graph_metadata =
  gm_last_cluster_update :: "int option"
  gm_retrieval_count :: u64
  gm_link_discovery_count :: u64

record memory_graph =
  mg_graph_version :: u32
  mg_memories :: "mem_entry table"
  mg_tags :: "tag_entry table"
  mg_clusters :: "cluster_entry table"
  mg_edges :: "edge list table"
  mg_reverse :: "string list table"
  mg_metadata :: graph_metadata

definition memory_graph_new :: memory_graph where
  "memory_graph_new =
     \<lparr>mg_graph_version = graph_version, mg_memories = [], mg_tags = [], mg_clusters = [],
      mg_edges = [], mg_reverse = [],
      mg_metadata = \<lparr>gm_last_cluster_update = None, gm_retrieval_count = 0, gm_link_discovery_count = 0\<rparr>\<rparr>"

definition memory_count :: "memory_graph \<Rightarrow> nat" where
  "memory_count g = length (mg_memories g)"

definition node_count :: "memory_graph \<Rightarrow> nat" where
  "node_count g = length (mg_memories g) + length (mg_tags g) + length (mg_clusters g)"

definition edge_count :: "memory_graph \<Rightarrow> nat" where
  "edge_count g = sum_list (map (\<lambda>(_, es). length es) (mg_edges g))"

definition is_migrated :: "memory_graph \<Rightarrow> bool" where
  "is_migrated g \<longleftrightarrow> mg_graph_version g = graph_version"

definition get_memory :: "memory_graph \<Rightarrow> string \<Rightarrow> mem_entry option" where
  "get_memory g i = map_of (mg_memories g) i"

definition all_memories :: "memory_graph \<Rightarrow> mem_entry list" where
  "all_memories g = map snd (mg_memories g)"

definition active_memories :: "memory_graph \<Rightarrow> mem_entry list" where
  "active_memories g = filter me_active (all_memories g)"

definition all_tags :: "memory_graph \<Rightarrow> tag_entry list" where
  "all_tags g = map snd (mg_tags g)"

definition get_edges :: "memory_graph \<Rightarrow> string \<Rightarrow> edge list" where
  "get_edges g i = the_default [] (map_of (mg_edges g) i)"

definition get_incoming :: "memory_graph \<Rightarrow> string \<Rightarrow> string list" where
  "get_incoming g i = the_default [] (map_of (mg_reverse g) i)"

text \<open>Appending to the list under a key (\<open>entry().or_default().push()\<close>).\<close>

definition push_at :: "string \<Rightarrow> 'a \<Rightarrow> 'a list table \<Rightarrow> 'a list table" where
  "push_at k x t = AList.update k (the_default [] (map_of t k) @ [x]) t"

definition add_edge_internal :: "string \<Rightarrow> string \<Rightarrow> edge_kind \<Rightarrow> memory_graph \<Rightarrow> memory_graph" where
  "add_edge_internal from to kind g =
     g\<lparr>mg_edges := push_at from (edge_new to kind) (mg_edges g),
       mg_reverse := push_at to from (mg_reverse g)\<rparr>"

definition ensure_tag :: "int \<Rightarrow> string \<Rightarrow> memory_graph \<Rightarrow> memory_graph" where
  "ensure_tag now name g =
     (case map_of (mg_tags g) (tag_id name) of
        Some _ \<Rightarrow> g
      | None \<Rightarrow> g\<lparr>mg_tags := AList.update (tag_id name) (tag_new now name) (mg_tags g)\<rparr>)"

definition count_up :: "tag_entry \<Rightarrow> tag_entry" where
  "count_up t = t\<lparr>te_count := te_count t + 1\<rparr>"

definition count_down :: "tag_entry \<Rightarrow> tag_entry" where
  "count_down t = t\<lparr>te_count := (if te_count t = 0 then 0 else te_count t - 1)\<rparr>"

definition update_tag :: "string \<Rightarrow> (tag_entry \<Rightarrow> tag_entry) \<Rightarrow> memory_graph \<Rightarrow> memory_graph" where
  "update_tag i f g = g\<lparr>mg_tags := AList.map_entry i f (mg_tags g)\<rparr>"

definition get_memory_mut :: "string \<Rightarrow> (mem_entry \<Rightarrow> mem_entry) \<Rightarrow> memory_graph \<Rightarrow> memory_graph" where
  "get_memory_mut i f g = g\<lparr>mg_memories := AList.map_entry i f (mg_memories g)\<rparr>"

definition link_tag :: "int \<Rightarrow> string \<Rightarrow> string \<Rightarrow> memory_graph \<Rightarrow> memory_graph" where
  "link_tag now i name g =
     update_tag (tag_id name) count_up (add_edge_internal i (tag_id name) HasTag (ensure_tag now name g))"

definition link_superseded :: "mem_entry \<Rightarrow> memory_graph \<Rightarrow> memory_graph" where
  "link_superseded e g =
     (case me_superseded_by e of
        None \<Rightarrow> g | Some newer \<Rightarrow> add_edge_internal newer (me_id e) Supersedes g)"

definition put_memory :: "mem_entry \<Rightarrow> memory_graph \<Rightarrow> memory_graph" where
  "put_memory e g = g\<lparr>mg_memories := AList.update (me_id e) e (mg_memories g)\<rparr>"

definition add_memory :: "(string \<Rightarrow> string) \<Rightarrow> int \<Rightarrow> mem_entry \<Rightarrow> memory_graph \<Rightarrow> memory_graph" where
  "add_memory lower now entry g =
     (let e = refresh_search_text lower entry
      in put_memory e (link_superseded e (fold (link_tag now (me_id e)) (me_tags e) g)))"

definition forget_target :: "string \<Rightarrow> edge \<Rightarrow> memory_graph \<Rightarrow> memory_graph" where
  "forget_target i e g =
     (let g1 = g\<lparr>mg_reverse := AList.map_entry (ed_target e) (filter (\<lambda>s. s \<noteq> i)) (mg_reverse g)\<rparr>
      in if ed_kind e = HasTag then update_tag (ed_target e) count_down g1 else g1)"

definition forget_source :: "string \<Rightarrow> string \<Rightarrow> memory_graph \<Rightarrow> memory_graph" where
  "forget_source i source g =
     g\<lparr>mg_edges := AList.map_entry source (filter (\<lambda>e. ed_target e \<noteq> i)) (mg_edges g)\<rparr>"

definition drop_outgoing :: "string \<Rightarrow> memory_graph \<Rightarrow> memory_graph" where
  "drop_outgoing i g =
     (case map_of (mg_edges g) i of
        None \<Rightarrow> g
      | Some es \<Rightarrow> fold (forget_target i) es (g\<lparr>mg_edges := AList.delete i (mg_edges g)\<rparr>))"

definition drop_incoming :: "string \<Rightarrow> memory_graph \<Rightarrow> memory_graph" where
  "drop_incoming i g =
     (case map_of (mg_reverse g) i of
        None \<Rightarrow> g
      | Some sources \<Rightarrow> fold (forget_source i) sources (g\<lparr>mg_reverse := AList.delete i (mg_reverse g)\<rparr>))"

definition remove_memory :: "string \<Rightarrow> memory_graph \<Rightarrow> memory_graph \<times> mem_entry option" where
  "remove_memory i g =
     (let g1 = drop_incoming i (drop_outgoing i g)
      in (g1\<lparr>mg_memories := AList.delete i (mg_memories g1)\<rparr>, map_of (mg_memories g1) i))"

definition has_tag_edge :: "string \<Rightarrow> edge \<Rightarrow> bool" where
  "has_tag_edge t e \<longleftrightarrow> ed_target e = t \<and> ed_kind e = HasTag"

definition push_tag :: "(string \<Rightarrow> string) \<Rightarrow> string \<Rightarrow> mem_entry \<Rightarrow> mem_entry" where
  "push_tag lower name m =
     (if name \<in> set (me_tags m) then m
      else refresh_search_text lower (m\<lparr>me_tags := me_tags m @ [name]\<rparr>))"

definition tag_memory :: "(string \<Rightarrow> string) \<Rightarrow> int \<Rightarrow> string \<Rightarrow> string \<Rightarrow> memory_graph \<Rightarrow> memory_graph" where
  "tag_memory lower now memory_id name g =
     (let g1 = ensure_tag now name g
      in if list_ex (has_tag_edge (tag_id name)) (get_edges g1 memory_id) then g1
         else get_memory_mut memory_id (push_tag lower name)
           (update_tag (tag_id name) count_up (add_edge_internal memory_id (tag_id name) HasTag g1)))"

definition drop_tag :: "(string \<Rightarrow> string) \<Rightarrow> string \<Rightarrow> mem_entry \<Rightarrow> mem_entry" where
  "drop_tag lower name m =
     refresh_search_text lower (m\<lparr>me_tags := filter (\<lambda>t. t \<noteq> name) (me_tags m)\<rparr>)"

definition untag_memory :: "(string \<Rightarrow> string) \<Rightarrow> string \<Rightarrow> string \<Rightarrow> memory_graph \<Rightarrow> memory_graph" where
  "untag_memory lower memory_id name g =
     get_memory_mut memory_id (drop_tag lower name)
       (update_tag (tag_id name) count_down
         (g\<lparr>mg_edges := AList.map_entry memory_id (filter (\<lambda>e. \<not> has_tag_edge (tag_id name) e)) (mg_edges g),
            mg_reverse := AList.map_entry (tag_id name) (filter (\<lambda>s. s \<noteq> memory_id)) (mg_reverse g)\<rparr>))"

definition get_memories_by_tag :: "memory_graph \<Rightarrow> string \<Rightarrow> mem_entry list" where
  "get_memories_by_tag g name = List.map_filter (get_memory g) (get_incoming g (tag_id name))"

definition add_edge :: "string \<Rightarrow> string \<Rightarrow> edge_kind \<Rightarrow> memory_graph \<Rightarrow> memory_graph" where
  "add_edge from to kind g =
     (if list_ex (\<lambda>e. ed_target e = to \<and> kind_eq (ed_kind e) kind) (get_edges g from) then g
      else add_edge_internal from to kind g)"

definition remove_edge :: "string \<Rightarrow> string \<Rightarrow> edge_kind \<Rightarrow> memory_graph \<Rightarrow> memory_graph" where
  "remove_edge from to kind g =
     g\<lparr>mg_edges := AList.map_entry from
         (filter (\<lambda>e. \<not> (ed_target e = to \<and> kind_eq (ed_kind e) kind))) (mg_edges g),
       mg_reverse := AList.map_entry to (filter (\<lambda>s. s \<noteq> from)) (mg_reverse g)\<rparr>"

definition link_memories :: "string \<Rightarrow> string \<Rightarrow> f32 \<Rightarrow> memory_graph \<Rightarrow> memory_graph" where
  "link_memories from to weight g =
     (let g1 = add_edge from to (RelatesTo weight) g
      in g1\<lparr>mg_metadata := (mg_metadata g1)
        \<lparr>gm_link_discovery_count := gm_link_discovery_count (mg_metadata g1) + 1\<rparr>\<rparr>)"

definition supersede :: "string \<Rightarrow> string \<Rightarrow> memory_graph \<Rightarrow> memory_graph" where
  "supersede newer older g =
     get_memory_mut older (\<lambda>m. m\<lparr>me_active := False, me_superseded_by := Some newer\<rparr>)
       (add_edge newer older Supersedes g)"

definition mark_contradiction :: "string \<Rightarrow> string \<Rightarrow> memory_graph \<Rightarrow> memory_graph" where
  "mark_contradiction a b g = add_edge b a Contradicts (add_edge a b Contradicts g)"

text \<open>Migration puts the entry first and leaves its search text as it is stored.\<close>

definition migrate_entry :: "int \<Rightarrow> mem_entry \<Rightarrow> memory_graph \<Rightarrow> memory_graph" where
  "migrate_entry now e g =
     link_superseded e (fold (link_tag now (me_id e)) (me_tags e) (put_memory e g))"

definition from_legacy_store :: "int \<Rightarrow> mem_entry list \<Rightarrow> memory_graph" where
  "from_legacy_store now entries = fold (migrate_entry now) entries memory_graph_new"

end
