(* ===== verification/Memory_Invariant.thy ===== *)
theory Memory_Invariant
  imports Memory_Graph
begin

text \<open>
  The invariant of the memory graph. \<open>consistent T g\<close> says that the reverse index, the \<open>HasTag\<close> edges
  and the tag counters all describe the same assignment \<open>T\<close> of tag names to ids; each primitive
  change of the graph changes \<open>T\<close> in the obvious way, and \<open>graph_inv\<close> is consistency with the tag
  lists stored in the memories.
\<close>

section \<open>Lookups after updates\<close>

lemma lookup_push: "the_default [] (map_of (push_at k x t) k') = the_default [] (map_of t k') @ (if k' = k then [x] else [])"
  by (simp add: push_at_def update_conv')

lemma lookup_map_entry:
  "map_of (AList.map_entry k f t) k' = (if k' = k then map_option f (map_of t k') else map_of t k')"
  by (simp add: map_of_map_entry split: option.splits)

lemma default_map_entry:
  "f [] = [] \<Longrightarrow> the_default [] (map_of (AList.map_entry k f t) k') =
    (if k' = k then f (the_default [] (map_of t k')) else the_default [] (map_of t k'))"
  by (cases "map_of t k'") (auto simp: lookup_map_entry)

lemma tag_id_inj [simp]: "tag_id a = tag_id b \<longleftrightarrow> a = b"
  by (simp add: tag_id_def)

lemma tag_id_prefix [simp]: "prefix ''tag:'' (tag_id a)"
  by (simp add: tag_id_def)

lemma prefix_tag_id: "prefix ''tag:'' t \<longleftrightarrow> (\<exists>a. t = tag_id a)"
  by (auto simp: prefix_def tag_id_def)

definition tag_count :: "memory_graph \<Rightarrow> string \<Rightarrow> nat" where
  "tag_count g n = (case map_of (mg_tags g) (tag_id n) of None \<Rightarrow> 0 | Some t \<Rightarrow> unat (te_count t))"

lemma unat_count_down: "unat (te_count (count_down t)) = unat (te_count t) - 1"
  by (simp add: count_down_def unat_minus_one)

lemma unat_count_up: "unat (te_count t) < 2 ^ 32 - 1 \<Longrightarrow> unat (te_count (count_up t)) = unat (te_count t) + 1"
  by (simp add: count_up_def unat_word_ariths)

lemma tag_count_update:
  "tag_count (update_tag (tag_id m) f g) n =
    (if n = m then case map_of (mg_tags g) (tag_id n) of None \<Rightarrow> 0 | Some t \<Rightarrow> unat (te_count (f t)) else tag_count g n)"
  by (simp add: tag_count_def update_tag_def lookup_map_entry split: option.splits)

lemma tag_count_down: "tag_count (update_tag t count_down g) n = tag_count g n - (if t = tag_id n then 1 else 0)"
  by (simp add: tag_count_def update_tag_def lookup_map_entry unat_count_down split: option.splits)

lemma map_of_ensure:
  "map_of (mg_tags (ensure_tag now m g)) k =
    (if k = tag_id m \<and> map_of (mg_tags g) k = None then Some (tag_new now m) else map_of (mg_tags g) k)"
  by (auto simp: ensure_tag_def update_conv' split: option.splits)

lemma tag_count_ensure: "tag_count (ensure_tag now m g) n = tag_count g n"
  by (auto simp: tag_count_def map_of_ensure tag_new_def)

lemma graph_simps [simp]:
  "get_edges (update_tag t f g) s = get_edges g s" "get_incoming (update_tag t f g) s = get_incoming g s"
  "get_edges (ensure_tag now n g) s = get_edges g s" "get_incoming (ensure_tag now n g) s = get_incoming g s"
  "get_edges (get_memory_mut i h g) s = get_edges g s" "get_incoming (get_memory_mut i h g) s = get_incoming g s"
  "get_edges (put_memory e g) s = get_edges g s" "get_incoming (put_memory e g) s = get_incoming g s"
  "tag_count (get_memory_mut i h g) n = tag_count g n" "tag_count (put_memory e g) n = tag_count g n"
  "tag_count (add_edge_internal a b k g) n = tag_count g n"
  "mg_memories (update_tag t f g) = mg_memories g" "mg_memories (ensure_tag now n g) = mg_memories g"
  "mg_memories (add_edge_internal a b k g) = mg_memories g" "mg_tags (add_edge_internal a b k g) = mg_tags g"
  by (simp_all add: get_edges_def get_incoming_def update_tag_def ensure_tag_def get_memory_mut_def put_memory_def
      tag_count_def add_edge_internal_def split: option.splits)

lemma add_edge_internal_simps [simp]:
  "get_edges (add_edge_internal a b k g) s = get_edges g s @ (if s = a then [edge_new b k] else [])"
  "get_incoming (add_edge_internal a b k g) t = get_incoming g t @ (if t = b then [a] else [])"
  by (simp_all add: get_edges_def get_incoming_def add_edge_internal_def lookup_push)

section \<open>Consistency\<close>

definition targets :: "memory_graph \<Rightarrow> string \<Rightarrow> string list" where
  "targets g s = map ed_target (get_edges g s)"

definition tag_targets :: "edge list \<Rightarrow> string list" where
  "tag_targets es = map ed_target (filter (\<lambda>e. ed_kind e = HasTag) es)"

definition index_exact :: "memory_graph \<Rightarrow> bool" where
  "index_exact g \<longleftrightarrow> (\<forall>s t. count_list (get_incoming g t) s = count_list (targets g s) t)"

definition tag_edges_ok :: "(string \<Rightarrow> string set) \<Rightarrow> memory_graph \<Rightarrow> bool" where
  "tag_edges_ok T g \<longleftrightarrow> (\<forall>s. distinct (tag_targets (get_edges g s)) \<and>
     set (tag_targets (get_edges g s)) = tag_id ` T s \<and>
     (\<forall>e \<in> set (get_edges g s). prefix ''tag:'' (ed_target e) \<longrightarrow> ed_kind e = HasTag))"

definition counts_ok :: "(string \<Rightarrow> string set) \<Rightarrow> memory_graph \<Rightarrow> bool" where
  "counts_ok T g \<longleftrightarrow> (\<forall>n. finite {s. n \<in> T s} \<and> tag_count g n = card {s. n \<in> T s})"

definition consistent :: "(string \<Rightarrow> string set) \<Rightarrow> memory_graph \<Rightarrow> bool" where
  "consistent T g \<longleftrightarrow> index_exact g \<and> tag_edges_ok T g \<and> counts_ok T g"

lemma consistent_cong:
  assumes "\<And>s. get_edges g' s = get_edges g s" and "\<And>s. get_incoming g' s = get_incoming g s"
    and "\<And>n. tag_count g' n = tag_count g n"
  shows "consistent T g' = consistent T g"
  using assms by (simp add: consistent_def index_exact_def tag_edges_ok_def counts_ok_def targets_def)

lemma consistent_memories [simp]:
  "consistent T (get_memory_mut i h g) = consistent T g" "consistent T (put_memory e g) = consistent T g"
  "consistent T (ensure_tag now n g) = consistent T g"
  by (rule consistent_cong; simp add: tag_count_ensure)+

lemma index_add: "index_exact g \<Longrightarrow> index_exact (add_edge_internal a b k g)"
  by (simp add: index_exact_def targets_def edge_new_def)

lemma consistent_plain_edge:
  assumes "consistent T g" and "\<not> prefix ''tag:'' b" and "k \<noteq> HasTag"
  shows "consistent T (add_edge_internal a b k g)"
  using assms
  by (auto simp: consistent_def index_add counts_ok_def tag_edges_ok_def tag_targets_def edge_new_def)

lemma consistent_link:
  assumes c: "consistent T g" and new: "n \<notin> T i" and room: "card {s. n \<in> T s} < 2 ^ 32 - 1"
  shows "consistent (T(i := insert n (T i))) (link_tag now i n g)"
proof -
  let ?T = "T(i := insert n (T i))"
  have cnt: "counts_ok T g" "index_exact g" "tag_edges_ok T g" using c by (simp_all add: consistent_def)
  have set: "{s. m \<in> ?T s} = (if m = n then insert i {s. n \<in> T s} else {s. m \<in> T s})" for m by auto
  have "tag_count (link_tag now i n g) m = card {s. m \<in> ?T s}" for m
  proof (cases "m = n")
    case True
    have fin: "finite {s. n \<in> T s}" "tag_count g n = card {s. n \<in> T s}" using cnt(1) by (auto simp: counts_ok_def)
    have up: "tag_count (link_tag now i n g) n =
        (case map_of (mg_tags (ensure_tag now n g)) (tag_id n) of None \<Rightarrow> 0 | Some t \<Rightarrow> unat (te_count (count_up t)))"
      by (simp add: link_tag_def tag_count_update)
    have "tag_count (link_tag now i n g) n = tag_count g n + 1"
      using fin(2) room unfolding up
      by (cases "map_of (mg_tags g) (tag_id n)") (simp_all add: map_of_ensure tag_count_def unat_count_up tag_new_def)
    with True fin new show ?thesis unfolding set by simp
  next
    case False
    with cnt(1) show ?thesis unfolding set
      by (simp add: link_tag_def tag_count_update tag_count_ensure counts_ok_def)
  qed
  moreover have "finite {s. m \<in> ?T s}" for m using cnt(1) unfolding set by (simp add: counts_ok_def)
  ultimately have "counts_ok ?T (link_tag now i n g)" unfolding counts_ok_def by blast
  moreover have "tag_edges_ok ?T (link_tag now i n g)"
    using cnt(3) new by (auto simp: tag_edges_ok_def link_tag_def tag_targets_def edge_new_def image_iff)
  moreover have "index_exact (link_tag now i n g)"
    using index_add [of "ensure_tag now n g" i "tag_id n" HasTag] cnt(2)
    by (simp add: link_tag_def index_exact_def targets_def)
  ultimately show ?thesis by (simp add: consistent_def)
qed

lemma distinct_count_one: "distinct xs \<Longrightarrow> count_list xs x = (if x \<in> set xs then 1 else 0)"
  by (induction xs) auto

lemma count_filter_other: "count_list (filter (\<lambda>x. x \<noteq> a) xs) b = (if b = a then 0 else count_list xs b)"
  by (induction xs) auto

lemma incoming_map_entry:
  "get_incoming (g\<lparr>mg_reverse := AList.map_entry k (filter P) (mg_reverse g)\<rparr>) t =
    (if t = k then filter P (get_incoming g t) else get_incoming g t)"
  by (simp add: get_incoming_def default_map_entry)

lemma edges_map_entry:
  "get_edges (g\<lparr>mg_edges := AList.map_entry k (filter P) (mg_edges g)\<rparr>) s =
    (if s = k then filter P (get_edges g s) else get_edges g s)"
  by (simp add: get_edges_def default_map_entry)

lemma other_fields [simp]:
  "get_edges (g\<lparr>mg_reverse := r\<rparr>) s = get_edges g s" "get_incoming (g\<lparr>mg_edges := e\<rparr>) s = get_incoming g s"
  "tag_count (g\<lparr>mg_reverse := r\<rparr>) n = tag_count g n" "tag_count (g\<lparr>mg_edges := e\<rparr>) n = tag_count g n"
  "get_edges (g\<lparr>mg_memories := m\<rparr>) s = get_edges g s" "get_incoming (g\<lparr>mg_memories := m\<rparr>) s = get_incoming g s"
  "tag_count (g\<lparr>mg_memories := m\<rparr>) n = tag_count g n"
  by (simp_all add: get_edges_def get_incoming_def tag_count_def)

section \<open>Removing a memory\<close>

lemma forget_target_simps:
  "get_edges (forget_target i e g) s = get_edges g s"
  "get_incoming (forget_target i e g) t =
    (if t = ed_target e then filter (\<lambda>s. s \<noteq> i) (get_incoming g t) else get_incoming g t)"
  "tag_count (forget_target i e g) n =
    tag_count g n - (if ed_kind e = HasTag \<and> ed_target e = tag_id n then 1 else 0)"
  "mg_memories (forget_target i e g) = mg_memories g"
  by (auto simp: forget_target_def Let_def incoming_map_entry tag_count_down)

lemma fold_forget_target:
  "get_edges (fold (forget_target i) es g) s = get_edges g s"
  "get_incoming (fold (forget_target i) es g) t =
    (if t \<in> ed_target ` set es then filter (\<lambda>s. s \<noteq> i) (get_incoming g t) else get_incoming g t)"
  "tag_count (fold (forget_target i) es g) n = tag_count g n - count_list (tag_targets es) (tag_id n)"
  "mg_memories (fold (forget_target i) es g) = mg_memories g"
  by (induction es arbitrary: g) (auto simp: forget_target_simps tag_targets_def)

lemma drop_outgoing_simps:
  "get_edges (drop_outgoing i g) s = (if s = i then [] else get_edges g s)"
  "get_incoming (drop_outgoing i g) t =
    (if t \<in> ed_target ` set (get_edges g i) then filter (\<lambda>s. s \<noteq> i) (get_incoming g t) else get_incoming g t)"
  "tag_count (drop_outgoing i g) n = tag_count g n - count_list (tag_targets (get_edges g i)) (tag_id n)"
  "mg_memories (drop_outgoing i g) = mg_memories g"
proof -
  have del: "get_edges (g\<lparr>mg_edges := AList.delete i (mg_edges g)\<rparr>) s = (if s = i then [] else get_edges g s)"
    by (simp add: get_edges_def delete_conv')
  show "get_edges (drop_outgoing i g) s = (if s = i then [] else get_edges g s)"
    by (cases "map_of (mg_edges g) i") (auto simp: drop_outgoing_def fold_forget_target del, simp add: get_edges_def)
  show "get_incoming (drop_outgoing i g) t =
      (if t \<in> ed_target ` set (get_edges g i) then filter (\<lambda>s. s \<noteq> i) (get_incoming g t) else get_incoming g t)"
    "tag_count (drop_outgoing i g) n = tag_count g n - count_list (tag_targets (get_edges g i)) (tag_id n)"
    "mg_memories (drop_outgoing i g) = mg_memories g"
    by (cases "map_of (mg_edges g) i"; simp add: drop_outgoing_def fold_forget_target get_edges_def tag_targets_def)+
qed

lemma count_target_zero: "t \<notin> ed_target ` set es \<Longrightarrow> count_list (map ed_target es) t = 0"
  by (simp add: count_list_0_iff image_iff)

lemma consistent_drop_outgoing:
  assumes c: "consistent T g"
  shows "consistent (T(i := {})) (drop_outgoing i g)"
proof -
  have parts: "index_exact g" "tag_edges_ok T g" "counts_ok T g" using c by (simp_all add: consistent_def)
  have "count_list (get_incoming (drop_outgoing i g) t) s = count_list (targets (drop_outgoing i g) s) t" for s t
    using parts(1) count_target_zero [of t "get_edges g i"]
    by (auto simp: index_exact_def targets_def drop_outgoing_simps count_filter_other)
  then have "index_exact (drop_outgoing i g)" by (simp add: index_exact_def)
  moreover have "tag_edges_ok (T(i := {})) (drop_outgoing i g)"
    using parts(2) by (auto simp: tag_edges_ok_def drop_outgoing_simps tag_targets_def)
  moreover have "counts_ok (T(i := {})) (drop_outgoing i g)"
  proof -
    have "count_list (tag_targets (get_edges g i)) (tag_id n) = (if n \<in> T i then 1 else 0)" for n
      using parts(2) by (auto simp: tag_edges_ok_def distinct_count_one)
    moreover have "{s. n \<in> (T(i := {})) s} = {s. n \<in> T s} - {i}" for n by auto
    ultimately show ?thesis
      using parts(3) by (auto simp: counts_ok_def drop_outgoing_simps card_Diff_singleton_if)
  qed
  ultimately show ?thesis by (simp add: consistent_def)
qed

lemma forget_source_simps:
  "get_edges (forget_source i a g) s =
    (if s = a then filter (\<lambda>e. ed_target e \<noteq> i) (get_edges g s) else get_edges g s)"
  "get_incoming (forget_source i a g) t = get_incoming g t" "tag_count (forget_source i a g) n = tag_count g n"
  "mg_memories (forget_source i a g) = mg_memories g"
  by (simp_all add: forget_source_def edges_map_entry)

lemma fold_forget_source:
  "get_edges (fold (forget_source i) as g) s =
    (if s \<in> set as then filter (\<lambda>e. ed_target e \<noteq> i) (get_edges g s) else get_edges g s)"
  "get_incoming (fold (forget_source i) as g) t = get_incoming g t"
  "tag_count (fold (forget_source i) as g) n = tag_count g n"
  "mg_memories (fold (forget_source i) as g) = mg_memories g"
  by (induction as arbitrary: g) (auto simp: forget_source_simps)

lemma drop_incoming_simps:
  "get_edges (drop_incoming i g) s =
    (if s \<in> set (get_incoming g i) then filter (\<lambda>e. ed_target e \<noteq> i) (get_edges g s) else get_edges g s)"
  "get_incoming (drop_incoming i g) t = (if t = i then [] else get_incoming g t)"
  "tag_count (drop_incoming i g) n = tag_count g n"
  "mg_memories (drop_incoming i g) = mg_memories g"
proof -
  have del: "get_incoming (g\<lparr>mg_reverse := AList.delete i (mg_reverse g)\<rparr>) t = (if t = i then [] else get_incoming g t)"
    by (simp add: get_incoming_def delete_conv')
  show "get_incoming (drop_incoming i g) t = (if t = i then [] else get_incoming g t)"
    by (cases "map_of (mg_reverse g) i") (auto simp: drop_incoming_def fold_forget_source del, simp add: get_incoming_def)
  show "get_edges (drop_incoming i g) s =
      (if s \<in> set (get_incoming g i) then filter (\<lambda>e. ed_target e \<noteq> i) (get_edges g s) else get_edges g s)"
    "tag_count (drop_incoming i g) n = tag_count g n"
    "mg_memories (drop_incoming i g) = mg_memories g"
    by (cases "map_of (mg_reverse g) i"; simp add: drop_incoming_def fold_forget_source get_incoming_def)+
qed

text \<open>With an exact index every source of an edge into \<open>i\<close> is found.\<close>

lemma drop_incoming_edges:
  assumes "index_exact g"
  shows "get_edges (drop_incoming i g) s = filter (\<lambda>e. ed_target e \<noteq> i) (get_edges g s)"
proof (cases "s \<in> set (get_incoming g i)")
  case False
  then have "count_list (get_incoming g i) s = 0" by (simp add: count_list_0_iff)
  moreover have "count_list (get_incoming g i) s = count_list (targets g s) i" using assms by (simp add: index_exact_def)
  ultimately have "\<forall>e \<in> set (get_edges g s). ed_target e \<noteq> i" by (auto simp: count_list_0_iff targets_def)
  with False show ?thesis by (simp add: drop_incoming_simps filter_id_conv [THEN iffD2])
qed (simp add: drop_incoming_simps)

lemma count_map_filter: "count_list (map f (filter (\<lambda>e. f e \<noteq> a) xs)) b = (if b = a then 0 else count_list (map f xs) b)"
  by (induction xs) auto

lemma tag_targets_filter: "(\<And>e. e \<in> set es \<Longrightarrow> ed_kind e = HasTag \<Longrightarrow> ed_target e \<noteq> i) \<Longrightarrow>
    tag_targets (filter (\<lambda>e. ed_target e \<noteq> i) es) = tag_targets es"
  unfolding tag_targets_def filter_filter by (auto intro!: arg_cong [of _ _ "map ed_target"] filter_cong)

lemma consistent_drop_incoming:
  assumes c: "consistent T g" and i: "\<not> prefix ''tag:'' i"
  shows "consistent T (drop_incoming i g)"
proof -
  have parts: "index_exact g" "tag_edges_ok T g" "counts_ok T g" using c by (simp_all add: consistent_def)
  note edges = drop_incoming_edges [OF parts(1)]
  have "index_exact (drop_incoming i g)"
    using parts(1) by (simp add: index_exact_def targets_def edges drop_incoming_simps(2) count_map_filter)
  moreover have "tag_targets (filter (\<lambda>e. ed_target e \<noteq> i) (get_edges g s)) = tag_targets (get_edges g s)" for s
  proof (rule tag_targets_filter)
    fix e assume "e \<in> set (get_edges g s)" and "ed_kind e = HasTag"
    then have "ed_target e \<in> tag_id ` T s" using parts(2) by (force simp: tag_edges_ok_def tag_targets_def)
    with i show "ed_target e \<noteq> i" by auto
  qed
  then have "tag_edges_ok T (drop_incoming i g)" using parts(2) by (auto simp: tag_edges_ok_def edges)
  moreover have "counts_ok T (drop_incoming i g)" using parts(3) by (simp add: counts_ok_def drop_incoming_simps)
  ultimately show ?thesis by (simp add: consistent_def)
qed

section \<open>Tagging and untagging\<close>

definition unlink_tag :: "string \<Rightarrow> string \<Rightarrow> memory_graph \<Rightarrow> memory_graph" where
  "unlink_tag i n g =
     update_tag (tag_id n) count_down
       (g\<lparr>mg_edges := AList.map_entry i (filter (\<lambda>e. \<not> has_tag_edge (tag_id n) e)) (mg_edges g),
          mg_reverse := AList.map_entry (tag_id n) (filter (\<lambda>s. s \<noteq> i)) (mg_reverse g)\<rparr>)"

lemma untag_unlink: "untag_memory lower i n g = get_memory_mut i (drop_tag lower n) (unlink_tag i n g)"
  by (simp add: untag_memory_def unlink_tag_def)

lemma unlink_simps:
  "get_edges (unlink_tag i n g) s =
    (if s = i then filter (\<lambda>e. \<not> has_tag_edge (tag_id n) e) (get_edges g s) else get_edges g s)"
  "get_incoming (unlink_tag i n g) t =
    (if t = tag_id n then filter (\<lambda>s. s \<noteq> i) (get_incoming g t) else get_incoming g t)"
  "tag_count (unlink_tag i n g) m = tag_count g m - (if m = n then 1 else 0)"
  "mg_memories (unlink_tag i n g) = mg_memories g"
proof -
  show "get_edges (unlink_tag i n g) s =
      (if s = i then filter (\<lambda>e. \<not> has_tag_edge (tag_id n) e) (get_edges g s) else get_edges g s)"
    "get_incoming (unlink_tag i n g) t =
      (if t = tag_id n then filter (\<lambda>s. s \<noteq> i) (get_incoming g t) else get_incoming g t)"
    by (simp_all add: unlink_tag_def get_edges_def get_incoming_def update_tag_def default_map_entry)
  show "tag_count (unlink_tag i n g) m = tag_count g m - (if m = n then 1 else 0)"
    by (simp add: unlink_tag_def tag_count_down)
  show "mg_memories (unlink_tag i n g) = mg_memories g" by (simp add: unlink_tag_def)
qed

lemma consistent_unlink:
  assumes c: "consistent T g" and n: "n \<in> T i"
  shows "consistent (T(i := T i - {n})) (unlink_tag i n g)"
proof -
  have parts: "index_exact g" "tag_edges_ok T g" "counts_ok T g" using c by (simp_all add: consistent_def)
  have only: "has_tag_edge (tag_id n) e \<longleftrightarrow> ed_target e = tag_id n" if "e \<in> set (get_edges g s)" for e s
    using that parts(2) by (auto simp: tag_edges_ok_def has_tag_edge_def)
  then have edges: "get_edges (unlink_tag i n g) s =
      (if s = i then filter (\<lambda>e. ed_target e \<noteq> tag_id n) (get_edges g s) else get_edges g s)" for s
    by (auto simp: unlink_simps intro: filter_cong)
  have "index_exact (unlink_tag i n g)"
    using parts(1) by (auto simp: index_exact_def targets_def edges unlink_simps(2) count_map_filter count_filter_other)
  moreover have "tag_targets (filter (\<lambda>e. ed_target e \<noteq> t) es) = filter (\<lambda>x. x \<noteq> t) (tag_targets es)" for t es
    by (induction es) (auto simp: tag_targets_def)
  then have "tag_edges_ok (T(i := T i - {n})) (unlink_tag i n g)"
    using parts(2) by (auto simp: tag_edges_ok_def edges)
  moreover have "{s. m \<in> (T(i := T i - {n})) s} = (if m = n then {s. n \<in> T s} - {i} else {s. m \<in> T s})" for m by auto
  then have "counts_ok (T(i := T i - {n})) (unlink_tag i n g)"
    using parts(3) n unfolding counts_ok_def unlink_simps by (simp add: card_Diff_singleton_if)
  ultimately show ?thesis by (simp add: consistent_def)
qed

section \<open>The invariant and the operations\<close>

definition carried :: "memory_graph \<Rightarrow> string \<Rightarrow> string set" where
  "carried g s = (case get_memory g s of None \<Rightarrow> {} | Some m \<Rightarrow> set (me_tags m))"

definition ids_ok :: "memory_graph \<Rightarrow> bool" where
  "ids_ok g \<longleftrightarrow> (\<forall>i m. get_memory g i = Some m \<longrightarrow> me_id m = i \<and> \<not> prefix ''tag:'' i)"

definition graph_inv :: "memory_graph \<Rightarrow> bool" where
  "graph_inv g \<longleftrightarrow> consistent (carried g) g \<and> ids_ok g"

datatype mem_op =
    AddMemory int mem_entry
  | RemoveMemory string
  | TagMemory int string string
  | UntagMemory string string
  | AddEdge string string edge_kind
  | LinkMemories string string f32
  | Supersede string string
  | MarkContradiction string string

fun mem_apply :: "(string \<Rightarrow> string) \<Rightarrow> mem_op \<Rightarrow> memory_graph \<Rightarrow> memory_graph" where
  "mem_apply lower (AddMemory now e) g = add_memory lower now e g"
| "mem_apply lower (RemoveMemory i) g = fst (remove_memory i g)"
| "mem_apply lower (TagMemory now i n) g = tag_memory lower now i n g"
| "mem_apply lower (UntagMemory i n) g = untag_memory lower i n g"
| "mem_apply lower (AddEdge a b k) g = add_edge a b k g"
| "mem_apply lower (LinkMemories a b w) g = link_memories a b w g"
| "mem_apply lower (Supersede a b) g = supersede a b g"
| "mem_apply lower (MarkContradiction a b) g = mark_contradiction a b g"

text \<open>The discipline of the callers: a memory is added under a fresh id that is no tag id, its tags do
  not repeat, only a known memory is tagged and only from a tag it carries is it untagged, tag nodes
  are linked by tagging only, and there are fewer than \<open>2^32 - 1\<close> memories.\<close>

definition new_entry_ok :: "memory_graph \<Rightarrow> mem_entry \<Rightarrow> bool" where
  "new_entry_ok g e \<longleftrightarrow> get_memory g (me_id e) = None \<and> \<not> prefix ''tag:'' (me_id e) \<and>
     distinct (me_tags e) \<and> memory_count g < 2 ^ 32 - 1"

fun op_ok :: "memory_graph \<Rightarrow> mem_op \<Rightarrow> bool" where
  "op_ok g (AddMemory now e) = new_entry_ok g e"
| "op_ok g (RemoveMemory i) = (\<not> prefix ''tag:'' i)"
| "op_ok g (TagMemory now i n) = (get_memory g i \<noteq> None \<and> memory_count g < 2 ^ 32 - 1)"
| "op_ok g (UntagMemory i n) = (n \<in> carried g i)"
| "op_ok g (AddEdge a b k) = (\<not> prefix ''tag:'' b \<and> k \<noteq> HasTag)"
| "op_ok g (LinkMemories a b w) = (\<not> prefix ''tag:'' b)"
| "op_ok g (Supersede a b) = (\<not> prefix ''tag:'' b)"
| "op_ok g (MarkContradiction a b) = (\<not> prefix ''tag:'' a \<and> \<not> prefix ''tag:'' b)"

lemma get_memory_mut_lookup: "get_memory (get_memory_mut i f g) s = (if s = i then map_option f (get_memory g s) else get_memory g s)"
  by (simp add: get_memory_def get_memory_mut_def lookup_map_entry)

lemma get_memory_put: "get_memory (put_memory e g) s = (if s = me_id e then Some e else get_memory g s)"
  by (simp add: get_memory_def put_memory_def update_conv')

lemma carriers_card: "card {s. n \<in> carried g s} \<le> memory_count g"
proof -
  have "{s. n \<in> carried g s} \<subseteq> fst ` set (mg_memories g)"
    by (auto simp: carried_def get_memory_def split: option.splits dest!: map_of_SomeD intro: rev_image_eqI)
  then have "card {s. n \<in> carried g s} \<le> card (set (map fst (mg_memories g)))" by (simp add: card_mono)
  also have "\<dots> \<le> memory_count g" unfolding memory_count_def using card_length [of "map fst (mg_memories g)"] by simp
  finally show ?thesis .
qed

lemma fold_link:
  assumes "consistent T g" and "distinct ns" and "set ns \<inter> T i = {}"
    and "\<And>n. n \<in> set ns \<Longrightarrow> card {s. n \<in> T s} < 2 ^ 32 - 1"
  shows "consistent (T(i := set ns \<union> T i)) (fold (link_tag now i) ns g)"
  using assms
proof (induction ns arbitrary: T g)
  case (Cons n ns)
  let ?T = "T(i := insert n (T i))"
  have c: "consistent ?T (link_tag now i n g)" using Cons.prems by (intro consistent_link) auto
  have room: "card {s. m \<in> ?T s} < 2 ^ 32 - 1" if "m \<in> set ns" for m
  proof -
    have "m \<noteq> n" using that Cons.prems(2) by auto
    then have "{s. m \<in> ?T s} = {s. m \<in> T s}" by auto
    then show ?thesis using Cons.prems(4) [of m] that by simp
  qed
  have "distinct ns" "set ns \<inter> ?T i = {}" using Cons.prems(2,3) by auto
  note result = Cons.IH [OF c this room]
  have eq: "?T(i := set ns \<union> ?T i) = T(i := set (n # ns) \<union> T i)" by auto
  show ?case using result unfolding eq by simp
qed simp

lemma fold_link_memories [simp]: "mg_memories (fold (link_tag now i) ns g) = mg_memories g"
  by (induction ns arbitrary: g) (simp_all add: link_tag_def)

lemma link_superseded_consistent:
  "consistent T g \<Longrightarrow> \<not> prefix ''tag:'' (me_id e) \<Longrightarrow> consistent T (link_superseded e g)"
  by (auto simp: link_superseded_def intro!: consistent_plain_edge split: option.splits)

lemma link_superseded_memories [simp]: "mg_memories (link_superseded e g) = mg_memories g"
  by (simp add: link_superseded_def split: option.splits)

lemma get_memory_cong: "mg_memories g' = mg_memories g \<Longrightarrow> get_memory g' = get_memory g"
  by (simp add: get_memory_def fun_eq_iff)

lemma carried_cong: "mg_memories g' = mg_memories g \<Longrightarrow> carried g' = carried g"
  by (simp add: carried_def [abs_def] get_memory_def [abs_def])

lemma attach_inv:
  assumes inv: "graph_inv g" and ok: "new_entry_ok g e"
  shows "graph_inv (put_memory e (link_superseded e (fold (link_tag now (me_id e)) (me_tags e) g)))"
proof -
  let ?g = "link_superseded e (fold (link_tag now (me_id e)) (me_tags e) g)"
  have none: "carried g (me_id e) = {}" using ok by (simp add: new_entry_ok_def carried_def)
  have room: "card {s. n \<in> carried g s} < 2 ^ 32 - 1" for n
    using carriers_card [of n g] ok by (simp add: new_entry_ok_def)
  have "consistent ((carried g)(me_id e := set (me_tags e) \<union> carried g (me_id e)))
      (fold (link_tag now (me_id e)) (me_tags e) g)"
    using inv ok none room by (intro fold_link) (auto simp: graph_inv_def new_entry_ok_def)
  then have c: "consistent ((carried g)(me_id e := set (me_tags e))) ?g"
    using ok none by (intro link_superseded_consistent) (simp_all add: new_entry_ok_def)
  have mems: "get_memory ?g = get_memory g" by (rule get_memory_cong) simp
  then have "carried (put_memory e ?g) = (carried g)(me_id e := set (me_tags e))"
    by (auto simp: carried_def get_memory_put fun_eq_iff)
  moreover have "ids_ok (put_memory e ?g)"
    using inv ok by (simp add: graph_inv_def ids_ok_def get_memory_put mems new_entry_ok_def)
  ultimately show ?thesis using c by (simp add: graph_inv_def)
qed

lemma remove_inv:
  assumes inv: "graph_inv g" and i: "\<not> prefix ''tag:'' i"
  shows "graph_inv (fst (remove_memory i g))"
proof -
  let ?g = "drop_incoming i (drop_outgoing i g)"
  have c: "consistent ((carried g)(i := {})) ?g"
    using inv i by (intro consistent_drop_incoming consistent_drop_outgoing) (simp_all add: graph_inv_def)
  have mems: "mg_memories ?g = mg_memories g" by (simp add: drop_incoming_simps drop_outgoing_simps)
  have look: "get_memory (fst (remove_memory i g)) s = (if s = i then None else get_memory g s)" for s
    by (simp add: remove_memory_def Let_def get_memory_def mems delete_conv')
  then have "carried (fst (remove_memory i g)) = (carried g)(i := {})" by (auto simp: carried_def fun_eq_iff)
  moreover have "consistent ((carried g)(i := {})) (fst (remove_memory i g))"
    using c by (subst consistent_cong [of _ ?g]) (simp_all add: remove_memory_def Let_def)
  moreover have "ids_ok (fst (remove_memory i g))" using inv by (simp add: graph_inv_def ids_ok_def look)
  ultimately show ?thesis by (simp add: graph_inv_def)
qed

lemma tag_edge_iff:
  "consistent T g \<Longrightarrow> list_ex (has_tag_edge (tag_id n)) (get_edges g i) \<longleftrightarrow> n \<in> T i"
proof -
  assume "consistent T g"
  then have "tag_id n \<in> set (tag_targets (get_edges g i)) \<longleftrightarrow> n \<in> T i"
    by (auto simp: consistent_def tag_edges_ok_def)
  then show ?thesis by (force simp: list_ex_iff has_tag_edge_def tag_targets_def)
qed

lemma me_refresh [simp]: "me_tags (refresh_search_text lower m) = me_tags m" "me_id (refresh_search_text lower m) = me_id m"
  "me_superseded_by (refresh_search_text lower m) = me_superseded_by m"
  by (simp_all add: refresh_search_text_def)

lemma mut_inv:
  assumes "consistent T g" and "ids_ok g" and "\<And>m. me_id (f m) = me_id m"
    and "\<And>s. T s = (case get_memory g s of None \<Rightarrow> {} | Some m \<Rightarrow> if s = i then set (me_tags (f m)) else set (me_tags m))"
  shows "graph_inv (get_memory_mut i f g)"
proof -
  have "carried (get_memory_mut i f g) = T"
    using assms(4) by (auto simp: carried_def get_memory_mut_lookup fun_eq_iff split: option.splits)
  with assms(1-3) show ?thesis by (auto simp: graph_inv_def ids_ok_def get_memory_mut_lookup split: if_splits)
qed

lemma tag_inv:
  assumes inv: "graph_inv g" and known: "get_memory g i = Some m" and room: "memory_count g < 2 ^ 32 - 1"
  shows "graph_inv (tag_memory lower now i n g)"
proof (cases "n \<in> carried g i")
  case True
  then have "tag_memory lower now i n g = ensure_tag now n g"
    using inv tag_edge_iff [of "carried g" g] by (simp add: tag_memory_def Let_def graph_inv_def)
  then show ?thesis
    using inv by (simp add: graph_inv_def carried_cong [of "ensure_tag now n g" g] ids_ok_def get_memory_cong [of "ensure_tag now n g" g])
next
  case False
  then have eq: "tag_memory lower now i n g = get_memory_mut i (push_tag lower n) (link_tag now i n g)"
    using inv tag_edge_iff [of "carried g" g] by (simp add: tag_memory_def Let_def graph_inv_def link_tag_def)
  have mems: "get_memory (link_tag now i n g) = get_memory g" by (rule get_memory_cong) (simp add: link_tag_def)
  have c: "consistent ((carried g)(i := insert n (carried g i))) (link_tag now i n g)"
    using inv False carriers_card [of n g] room by (intro consistent_link) (auto simp: graph_inv_def)
  show ?thesis unfolding eq
  proof (rule mut_inv [OF c])
    show "ids_ok (link_tag now i n g)" using inv by (simp add: graph_inv_def ids_ok_def mems)
    show "me_id (push_tag lower n m) = me_id m" for m by (simp add: push_tag_def)
    show "((carried g)(i := insert n (carried g i))) s =
        (case get_memory (link_tag now i n g) s of None \<Rightarrow> {}
         | Some m \<Rightarrow> if s = i then set (me_tags (push_tag lower n m)) else set (me_tags m))" for s
      using known by (auto simp: mems carried_def push_tag_def split: option.splits)
  qed
qed

lemma untag_inv:
  assumes inv: "graph_inv g" and n: "n \<in> carried g i"
  shows "graph_inv (untag_memory lower i n g)"
proof -
  have mems: "get_memory (unlink_tag i n g) = get_memory g" by (rule get_memory_cong) (simp add: unlink_simps)
  have c: "consistent ((carried g)(i := carried g i - {n})) (unlink_tag i n g)"
    using inv n by (intro consistent_unlink) (simp_all add: graph_inv_def)
  show ?thesis unfolding untag_unlink
  proof (rule mut_inv [OF c])
    show "ids_ok (unlink_tag i n g)" using inv by (simp add: graph_inv_def ids_ok_def mems)
    show "me_id (drop_tag lower n m) = me_id m" for m by (simp add: drop_tag_def)
    show "((carried g)(i := carried g i - {n})) s =
        (case get_memory (unlink_tag i n g) s of None \<Rightarrow> {}
         | Some m \<Rightarrow> if s = i then set (me_tags (drop_tag lower n m)) else set (me_tags m))" for s
      using n by (auto simp: mems carried_def drop_tag_def split: option.splits)
  qed
qed

lemma add_edge_inv:
  assumes inv: "graph_inv g" and "\<not> prefix ''tag:'' b" and "k \<noteq> HasTag"
  shows "graph_inv (add_edge a b k g)"
proof (cases "add_edge a b k g = g")
  case False
  then have eq: "add_edge a b k g = add_edge_internal a b k g" by (auto simp: add_edge_def)
  have "get_memory (add_edge_internal a b k g) = get_memory g" by (rule get_memory_cong) simp
  then show ?thesis
    using inv assms(2,3) consistent_plain_edge unfolding eq
    by (simp add: graph_inv_def carried_cong [of "add_edge_internal a b k g" g] ids_ok_def)
qed (use inv in simp)

lemma mem_step_inv:
  assumes inv: "graph_inv g" and ok: "op_ok g op"
  shows "graph_inv (mem_apply lower op g)"
proof (cases op)
  case (AddMemory now e)
  have "new_entry_ok g (refresh_search_text lower e)" using ok AddMemory by (simp add: new_entry_ok_def)
  from attach_inv [OF inv this] AddMemory show ?thesis by (simp add: add_memory_def Let_def)
next
  case (LinkMemories a b w)
  let ?g = "add_edge a b (RelatesTo w) g"
  have "graph_inv ?g" using inv ok LinkMemories by (simp add: add_edge_inv)
  moreover have "graph_inv (h\<lparr>mg_metadata := md\<rparr>) = graph_inv h" for h md
    by (simp add: graph_inv_def consistent_def index_exact_def tag_edges_ok_def counts_ok_def targets_def
        get_edges_def get_incoming_def tag_count_def carried_def get_memory_def ids_ok_def)
  ultimately show ?thesis using LinkMemories by (simp add: link_memories_def Let_def)
next
  case (Supersede a b)
  let ?g = "add_edge a b Supersedes g"
  have g: "graph_inv ?g" using inv ok Supersede by (simp add: add_edge_inv)
  show ?thesis unfolding Supersede mem_apply.simps supersede_def
  proof (rule mut_inv)
    show "consistent (carried ?g) ?g" "ids_ok ?g" using g by (simp_all add: graph_inv_def)
  qed (auto simp: carried_def split: option.splits)
qed (use inv ok remove_inv tag_inv untag_inv add_edge_inv in \<open>auto simp: mark_contradiction_def\<close>)

end
