(* ===== verification/Memory_Properties.thy ===== *)
theory Memory_Properties
  imports Memory_Invariant
begin

text \<open>
  What the memory graph guarantees to its callers: after any disciplined history, migration of a
  legacy store included, index, tag edges, tag lists and counters agree; lookup by tag is exact; a
  removed memory leaves no trace. Outside the discipline two operations break the agreement.
\<close>

section \<open>Migration\<close>

lemma link_tag_put: "link_tag now i n (put_memory e g) = put_memory e (link_tag now i n g)"
  by (simp add: link_tag_def put_memory_def update_tag_def add_edge_internal_def ensure_tag_def split: option.splits)

lemma fold_link_put: "fold (link_tag now i) ns (put_memory e g) = put_memory e (fold (link_tag now i) ns g)"
  by (induction ns arbitrary: g) (simp_all add: link_tag_put)

lemma migrate_is_attach:
  "migrate_entry now e g = put_memory e (link_superseded e (fold (link_tag now (me_id e)) (me_tags e) g))"
  unfolding migrate_entry_def fold_link_put
  by (simp add: link_superseded_def put_memory_def add_edge_internal_def split: option.splits)

definition store_ok :: "mem_entry list \<Rightarrow> bool" where
  "store_ok es \<longleftrightarrow> distinct (map me_id es) \<and> length es < 2 ^ 32 \<and>
     (\<forall>e \<in> set es. \<not> prefix ''tag:'' (me_id e) \<and> distinct (me_tags e))"

lemma update_length: "length (AList.update k v al) \<le> Suc (length al)"
  by (induction al) auto

lemma migrate_lookup:
  "get_memory (migrate_entry now e g) s = (if s = me_id e then Some e else get_memory g s)"
  "memory_count (migrate_entry now e g) \<le> Suc (memory_count g)"
  unfolding migrate_is_attach
  by (simp_all add: get_memory_put get_memory_cong [of "link_superseded e h" h for h]
      get_memory_cong [of "fold f xs g" g for f xs] get_memory_def memory_count_def put_memory_def update_conv'
      update_length [THEN order_trans])

lemma fold_migrate_inv:
  assumes "graph_inv g" and "distinct (map me_id es)" and "\<forall>e \<in> set es. get_memory g (me_id e) = None"
    and "memory_count g + length es < 2 ^ 32" and "\<forall>e \<in> set es. \<not> prefix ''tag:'' (me_id e) \<and> distinct (me_tags e)"
  shows "graph_inv (fold (migrate_entry now) es g)"
  using assms
proof (induction es arbitrary: g)
  case (Cons e es)
  have "graph_inv (migrate_entry now e g)"
    unfolding migrate_is_attach using Cons.prems by (intro attach_inv) (auto simp: new_entry_ok_def)
  moreover have "get_memory (migrate_entry now e g) (me_id x) = None" if "x \<in> set es" for x
  proof -
    have "me_id x \<noteq> me_id e" using that Cons.prems(2) by (metis distinct.simps(2) image_eqI list.set_map list.simps(9))
    with that Cons.prems(3) show ?thesis by (simp add: migrate_lookup)
  qed
  moreover have "memory_count (migrate_entry now e g) + length es < 2 ^ 32"
    using migrate_lookup(2) [of now e g] Cons.prems(4) by simp
  ultimately show ?case using Cons.prems(2,5) by (simp add: Cons.IH)
qed simp

lemma graph_inv_new: "graph_inv memory_graph_new"
  by (simp add: graph_inv_def consistent_def index_exact_def tag_edges_ok_def counts_ok_def ids_ok_def targets_def
      tag_targets_def memory_graph_new_def get_edges_def get_incoming_def tag_count_def carried_def get_memory_def)

section \<open>Histories\<close>

inductive mem_reachable :: "(string \<Rightarrow> string) \<Rightarrow> memory_graph \<Rightarrow> bool" for lower where
  fresh: "mem_reachable lower memory_graph_new"
| legacy: "store_ok es \<Longrightarrow> mem_reachable lower (from_legacy_store now es)"
| step: "mem_reachable lower g \<Longrightarrow> op_ok g op \<Longrightarrow> mem_reachable lower (mem_apply lower op g)"

lemma reachable_inv: "mem_reachable lower g \<Longrightarrow> graph_inv g"
proof (induction rule: mem_reachable.induct)
  case (legacy es now)
  then show ?case unfolding from_legacy_store_def
    by (intro fold_migrate_inv graph_inv_new) (auto simp: store_ok_def memory_graph_new_def get_memory_def memory_count_def)
qed (simp_all add: graph_inv_new mem_step_inv)

definition carriers :: "memory_graph \<Rightarrow> string \<Rightarrow> string set" where
  "carriers g n = {i. \<exists>m. get_memory g i = Some m \<and> n \<in> set (me_tags m)}"

lemma carriers_carried: "carriers g n = {i. n \<in> carried g i}"
  by (auto simp: carriers_def carried_def split: option.splits)

text \<open>C40. The memory graph stays coherent: after any history of additions, removals, tagging, untagging
  and linking by disciplined callers, starting empty or from a migrated legacy store, the reverse
  index counts exactly the forward edges, a memory has a tag edge exactly for the tags in its list,
  and the counter of a tag is the number of memories that carry it.\<close>

theorem memory_graph_coherent:
  assumes "mem_reachable lower g"
  shows "(\<forall>s t. count_list (get_incoming g t) s = length (filter (\<lambda>e. ed_target e = t) (get_edges g s))) \<and>
    (\<forall>i n. (\<exists>e \<in> set (get_edges g i). has_tag_edge (tag_id n) e) \<longleftrightarrow> i \<in> carriers g n) \<and>
    (\<forall>n t. map_of (mg_tags g) (tag_id n) = Some t \<longrightarrow> unat (te_count t) = card (carriers g n))"
proof (intro conjI allI impI)
  have c: "consistent (carried g) g" using reachable_inv [OF assms] by (simp add: graph_inv_def)
  have len: "count_list (map ed_target es) t = length (filter (\<lambda>e. ed_target e = t) es)" for es t
    by (induction es) auto
  fix s t i n tg
  show "count_list (get_incoming g t) s = length (filter (\<lambda>e. ed_target e = t) (get_edges g s))"
    using c len by (simp add: consistent_def index_exact_def targets_def)
  show "(\<exists>e \<in> set (get_edges g i). has_tag_edge (tag_id n) e) \<longleftrightarrow> i \<in> carriers g n"
    using tag_edge_iff [OF c] by (simp add: carriers_carried list_ex_iff)
  assume "map_of (mg_tags g) (tag_id n) = Some tg"
  then show "unat (te_count tg) = card (carriers g n)"
    using c by (simp add: consistent_def counts_ok_def carriers_carried tag_count_def split: option.splits)
qed

definition sample_entry :: "string \<Rightarrow> string list \<Rightarrow> mem_entry" where
  "sample_entry i tags =
     \<lparr>me_id = i, me_category = CatFact, me_content = ''A Fact'', me_tags = tags, me_search_text = [],
      me_created_at = 0, me_updated_at = 0, me_access_count = 0, me_source = None, me_trust = TrustMedium,
      me_strength = 1, me_active = True, me_superseded_by = None, me_reinforcements = [],
      me_embedding = None, me_embedding_model = None, me_confidence = 0x3F800000\<rparr>"

definition sample_memories :: memory_graph where
  "sample_memories = fold (mem_apply id)
     [AddMemory 1 (sample_entry ''m1'' [''rust'']), AddMemory 2 (sample_entry ''m2'' []),
      TagMemory 3 ''m2'' ''rust'', LinkMemories ''m2'' ''m1'' 0x3F000000] memory_graph_new"

lemma sample_memories_reachable: "mem_reachable id sample_memories"
proof -
  define g1 where "g1 = mem_apply id (AddMemory 1 (sample_entry ''m1'' [''rust''])) memory_graph_new"
  define g2 where "g2 = mem_apply id (AddMemory 2 (sample_entry ''m2'' [])) g1"
  define g3 where "g3 = mem_apply id (TagMemory 3 ''m2'' ''rust'') g2"
  have "mem_reachable id g1" unfolding g1_def
    by (rule step [OF fresh]) (simp add: new_entry_ok_def sample_entry_def memory_graph_new_def get_memory_def memory_count_def)
  moreover have "get_memory g1 ''m2'' = None" "memory_count g1 = 1" unfolding g1_def by code_simp+
  then have "op_ok g1 (AddMemory 2 (sample_entry ''m2'' []))" by (simp add: new_entry_ok_def sample_entry_def)
  ultimately have "mem_reachable id g2" unfolding g2_def by (rule step)
  moreover have "get_memory g2 ''m2'' \<noteq> None" "memory_count g2 = 2" unfolding g2_def g1_def by code_simp+
  then have "op_ok g2 (TagMemory 3 ''m2'' ''rust'')" by simp
  ultimately have "mem_reachable id g3" unfolding g3_def by (rule step)
  then have "mem_reachable id (mem_apply id (LinkMemories ''m2'' ''m1'' 0x3F000000) g3)"
    by (rule step) simp
  then show ?thesis by (simp add: sample_memories_def g1_def g2_def g3_def)
qed

lemma memory_graph_coherent_witness:
  "\<exists>t. map_of (mg_tags sample_memories) (tag_id ''rust'') = Some t \<and> unat (te_count t) = card (carriers sample_memories ''rust'')"
proof -
  have "map_of (mg_tags sample_memories) (tag_id ''rust'') \<noteq> None" by code_simp
  with memory_graph_coherent [OF sample_memories_reachable] show ?thesis by blast
qed

section \<open>Lookup by tag\<close>

lemma incoming_tag:
  assumes "graph_inv g"
  shows "distinct (get_incoming g (tag_id n)) \<and> set (get_incoming g (tag_id n)) = carriers g n"
proof -
  have parts: "index_exact g" "tag_edges_ok (carried g) g" using assms by (simp_all add: graph_inv_def consistent_def)
  have cnt: "count_list (get_incoming g (tag_id n)) s = (if s \<in> carriers g n then 1 else 0)" for s
  proof -
    have "ed_target e = tag_id n \<longleftrightarrow> ed_kind e = HasTag \<and> ed_target e = tag_id n" if "e \<in> set (get_edges g s)" for e
      using that parts(2) by (auto simp: tag_edges_ok_def)
    then have "filter (\<lambda>e. ed_target e = tag_id n) (get_edges g s) = filter (\<lambda>e. ed_kind e = HasTag \<and> ed_target e = tag_id n) (get_edges g s)"
      by (rule filter_cong [OF refl])
    moreover have "count_list (map ed_target es) t = length (filter (\<lambda>e. ed_target e = t) es)"
      "count_list (tag_targets es) t = length (filter (\<lambda>e. ed_kind e = HasTag \<and> ed_target e = t) es)" for es t
      by (induction es) (auto simp: tag_targets_def)
    ultimately have "count_list (get_incoming g (tag_id n)) s = count_list (tag_targets (get_edges g s)) (tag_id n)"
      using parts(1) by (simp add: index_exact_def targets_def)
    also have "\<dots> = (if s \<in> carriers g n then 1 else 0)"
      using parts(2) by (auto simp: tag_edges_ok_def distinct_count_one carriers_carried)
    finally show ?thesis .
  qed
  have "distinct xs" if "\<forall>x. count_list xs x \<le> 1" for xs :: "string list"
    using that
  proof (induction xs)
    case (Cons a xs)
    have "count_list xs x \<le> 1" for x using Cons.prems [rule_format, of x] by (simp split: if_splits)
    moreover have "a \<notin> set xs" using Cons.prems [rule_format, of a] by (simp add: count_list_0_iff)
    ultimately show ?case using Cons.IH by simp
  qed simp
  then have "distinct (get_incoming g (tag_id n))" by (simp add: cnt)
  moreover have "s \<in> set (get_incoming g (tag_id n)) \<longleftrightarrow> s \<in> carriers g n" for s
    using cnt [of s] count_list_0_iff [of "get_incoming g (tag_id n)" s] by (auto split: if_splits)
  ultimately show ?thesis by blast
qed

text \<open>Lookup by tag is exact: it returns each memory that carries the tag once and no other, as many
  as the tag's counter says.\<close>

theorem tag_lookup_exact:
  assumes r: "mem_reachable lower g"
  shows "distinct (map me_id (get_memories_by_tag g n)) \<and>
    set (get_memories_by_tag g n) = {m. \<exists>i. get_memory g i = Some m \<and> n \<in> set (me_tags m)} \<and>
    (\<forall>t. map_of (mg_tags g) (tag_id n) = Some t \<longrightarrow> length (get_memories_by_tag g n) = unat (te_count t))"
proof -
  have inv: "graph_inv g" using reachable_inv [OF r] .
  have inc: "distinct (get_incoming g (tag_id n))" "set (get_incoming g (tag_id n)) = carriers g n"
    using incoming_tag [OF inv] by simp_all
  have some: "\<exists>m. get_memory g i = Some m \<and> me_id m = i" if "i \<in> set (get_incoming g (tag_id n))" for i
    using that inv by (auto simp: inc carriers_def graph_inv_def ids_ok_def)
  have ids: "map me_id (List.map_filter (get_memory g) is) = is" if "\<forall>i \<in> set is. \<exists>m. get_memory g i = Some m \<and> me_id m = i" for "is"
    using that by (induction "is") (auto simp: List.map_filter_simps)
  have eq: "map me_id (get_memories_by_tag g n) = get_incoming g (tag_id n)"
    using ids some by (simp add: get_memories_by_tag_def)
  moreover have "set (get_memories_by_tag g n) = {m. \<exists>i. get_memory g i = Some m \<and> n \<in> set (me_tags m)}"
    using inc(2) by (force simp: get_memories_by_tag_def List.map_filter_def carriers_def image_iff split: option.splits)
  moreover have "length (get_memories_by_tag g n) = card (carriers g n)"
    using arg_cong [OF eq, of length] inc distinct_card [of "get_incoming g (tag_id n)"] by simp
  moreover have "unat (te_count t) = card (carriers g n)" if "map_of (mg_tags g) (tag_id n) = Some t" for t
    using inv that by (simp add: graph_inv_def consistent_def counts_ok_def carriers_carried tag_count_def split: option.splits)
  ultimately show ?thesis using inc(1) by auto
qed

lemma tag_lookup_exact_witness: "set (get_memories_by_tag sample_memories ''rust'') = {m. \<exists>i. get_memory sample_memories i = Some m \<and> ''rust'' \<in> set (me_tags m)}"
  using tag_lookup_exact [OF sample_memories_reachable, of "''rust''"] by blast

section \<open>Removal\<close>

text \<open>A removed memory leaves no trace: the entry is handed back, no edge starts at it, ends in it or
  is indexed for it, and all other memories and edges are as before.\<close>

theorem removal_leaves_no_trace:
  assumes r: "mem_reachable lower g" and "remove_memory i g = (g', m)"
  shows "m = get_memory g i \<and> get_memory g' i = None \<and> get_edges g' i = [] \<and> get_incoming g' i = [] \<and>
    (\<forall>t. i \<notin> set (get_incoming g' t)) \<and>
    (\<forall>s. s \<noteq> i \<longrightarrow> get_memory g' s = get_memory g s \<and> get_edges g' s = filter (\<lambda>e. ed_target e \<noteq> i) (get_edges g s))"
proof -
  have ex: "index_exact g" "consistent (carried g) g" using reachable_inv [OF r] by (simp_all add: graph_inv_def consistent_def)
  have ex': "index_exact (drop_outgoing i g)" using consistent_drop_outgoing [OF ex(2)] by (simp add: consistent_def)
  let ?g = "drop_incoming i (drop_outgoing i g)"
  have g': "g' = ?g\<lparr>mg_memories := AList.delete i (mg_memories ?g)\<rparr>" and m: "m = map_of (mg_memories ?g) i"
    using assms(2) by (simp_all add: remove_memory_def Let_def)
  have mems: "mg_memories ?g = mg_memories g" by (simp add: drop_incoming_simps drop_outgoing_simps)
  have "i \<notin> set (get_incoming g t)" if "t \<notin> ed_target ` set (get_edges g i)" for t
  proof -
    have "count_list (get_incoming g t) i = count_list (targets g i) t" using ex(1) by (simp add: index_exact_def)
    then have "count_list (get_incoming g t) i = 0" using count_target_zero [OF that] by (simp add: targets_def)
    then show ?thesis by (simp add: count_list_0_iff)
  qed
  then have "i \<notin> set (get_incoming g' t)" for t
    by (auto simp: g' drop_incoming_simps drop_outgoing_simps)
  then show ?thesis
    using m mems drop_incoming_edges [OF ex']
    by (simp add: g' get_memory_def delete_conv' drop_outgoing_simps drop_incoming_simps(2))
qed

lemma removal_leaves_no_trace_witness:
  "map ed_target (get_edges (fst (remove_memory ''m1'' sample_memories)) ''m2'') = [tag_id ''rust'']"
proof -
  obtain g' m where r: "remove_memory ''m1'' sample_memories = (g', m)" by fastforce
  have "get_edges g' ''m2'' = filter (\<lambda>e. ed_target e \<noteq> ''m1'') (get_edges sample_memories ''m2'')"
    using removal_leaves_no_trace [OF sample_memories_reachable r] by simp
  moreover have "map ed_target (filter (\<lambda>e. ed_target e \<noteq> ''m1'') (get_edges sample_memories ''m2'')) = [tag_id ''rust'']"
    by code_simp
  ultimately show ?thesis using r by simp
qed

section \<open>Outside the discipline\<close>

text \<open>Two operations break the agreement when they are called freely. Untagging a memory that does
  not carry the tag still lowers the counter: it reads zero while a memory carries the tag. And
  removing one of two edges between the same nodes drops both from the reverse index, so that
  removing the target afterwards leaves an edge to a memory that is gone.\<close>

theorem index_breaks_outside_discipline:
  "(let g = mem_apply id (UntagMemory ''m3'' ''rust'')
            (mem_apply id (AddMemory 1 (sample_entry ''m1'' [''rust''])) memory_graph_new)
    in map (\<lambda>(_, t). te_count t) (mg_tags g) = [0] \<and> map me_id (get_memories_by_tag g ''rust'') = [''m1'']) \<and>
   (let g = fold (mem_apply id) [AddMemory 1 (sample_entry ''a'' []), AddMemory 1 (sample_entry ''b'' []),
              Supersede ''a'' ''b'', MarkContradiction ''a'' ''b''] memory_graph_new;
        h = fst (remove_memory ''b'' (remove_edge ''a'' ''b'' Contradicts g))
    in get_memory h ''b'' = None \<and> get_edges h ''a'' = [edge_new ''b'' Supersedes])"
  by code_simp

end
