(* ===== verification/Schema_Program.thy ===== *)
theory Schema_Program
  imports Rust_Prelude "HOL-Library.Monad_Syntax"
begin

text \<open>
  The data of the Schema harness (\<open>crates/schema/src\<close>): grids, transitions and the append-only
  timeline (\<open>timeline.rs\<close>), predictions and the editable world model (\<open>model.rs\<close>) and the rule
  program, its interpreter, text form and structural diff (\<open>program.rs\<close>). A computation that may
  panic (an index out of bounds) returns an option, \<open>None\<close> being the panic. Grid positions are below
  \<open>2^31\<close>, so the casts to \<open>i32\<close> are exact and offsets are integers.
\<close>

section \<open>Grids, transitions, timelines\<close>

type_synonym grid = "u8 list list"

record transition =
  tr_index :: nat
  tr_state_before :: grid
  tr_action :: string
  tr_state_after :: grid
  tr_level_up :: bool
  tr_dead :: bool
  tr_win :: bool

definition transition_terminal :: "transition \<Rightarrow> bool" where
  "transition_terminal t \<longleftrightarrow> tr_level_up t \<or> tr_dead t \<or> tr_win t"

record timeline =
  tl_records :: "transition list"

definition timeline_new :: timeline where
  "timeline_new = \<lparr>tl_records = []\<rparr>"

definition append_transition ::
  "grid \<Rightarrow> string \<Rightarrow> grid \<Rightarrow> bool \<Rightarrow> bool \<Rightarrow> bool \<Rightarrow> timeline \<Rightarrow> timeline \<times> transition" where
  "append_transition state_before action state_after level_up dead win line =
     (let t = \<lparr>tr_index = length (tl_records line), tr_state_before = state_before, tr_action = action,
            tr_state_after = state_after, tr_level_up = level_up, tr_dead = dead, tr_win = win\<rparr>
      in (line\<lparr>tl_records := tl_records line @ [t]\<rparr>, t))"

definition timeline_len :: "timeline \<Rightarrow> nat" where
  "timeline_len line = length (tl_records line)"

definition timeline_is_empty :: "timeline \<Rightarrow> bool" where
  "timeline_is_empty line \<longleftrightarrow> tl_records line = []"

definition timeline_get :: "timeline \<Rightarrow> nat \<Rightarrow> transition option" where
  "timeline_get line i = (if i < length (tl_records line) then Some (tl_records line ! i) else None)"

definition timeline_last :: "timeline \<Rightarrow> transition option" where
  "timeline_last line = (if tl_records line = [] then None else Some (last (tl_records line)))"

section \<open>Predictions\<close>

record prediction =
  pr_grid :: grid
  pr_level_up :: bool
  pr_dead :: bool
  pr_win :: bool

definition prediction_of :: "grid \<Rightarrow> prediction" where
  "prediction_of g = \<lparr>pr_grid = g, pr_level_up = False, pr_dead = False, pr_win = False\<rparr>"

definition prediction_win :: "grid \<Rightarrow> prediction" where
  "prediction_win g = \<lparr>pr_grid = g, pr_level_up = False, pr_dead = False, pr_win = True\<rparr>"

definition prediction_dead :: "grid \<Rightarrow> prediction" where
  "prediction_dead g = \<lparr>pr_grid = g, pr_level_up = False, pr_dead = True, pr_win = False\<rparr>"

definition prediction_terminal :: "prediction \<Rightarrow> bool" where
  "prediction_terminal p \<longleftrightarrow> pr_level_up p \<or> pr_dead p \<or> pr_win p"

section \<open>Rule programs\<close>

record cell_write =
  cw_x :: nat
  cw_y :: nat
  cw_color :: u8

record effect =
  ef_player_advances :: bool
  ef_push :: bool
  ef_win :: bool
  ef_dead :: bool
  ef_writes :: "cell_write list"
  ef_writes_when_beyond :: "u8 option"

definition effect_default :: effect where
  "effect_default =
     \<lparr>ef_player_advances = False, ef_push = False, ef_win = False, ef_dead = False, ef_writes = [],
      ef_writes_when_beyond = None\<rparr>"

definition effect_advance :: effect where
  "effect_advance = effect_default\<lparr>ef_player_advances := True\<rparr>"

definition effect_advance_win :: effect where
  "effect_advance_win = effect_default\<lparr>ef_player_advances := True, ef_win := True\<rparr>"

record rule =
  ru_on_target :: u8
  ru_beyond_any_of :: "u8 list option"
  ru_note :: string
  ru_effect :: effect

definition rule_new :: "u8 \<Rightarrow> effect \<Rightarrow> rule" where
  "rule_new on_target eff = \<lparr>ru_on_target = on_target, ru_beyond_any_of = None, ru_note = [], ru_effect = eff\<rparr>"

record rule_program =
  rp_rules :: "rule list"
  rp_goal_absent_colors :: "u8 list"

definition program_vacuous :: rule_program where
  "program_vacuous = \<lparr>rp_rules = [], rp_goal_absent_colors = []\<rparr>"

definition deltas :: "(string \<times> int \<times> int) list" where
  "deltas = [(''up'', 0, -1), (''down'', 0, 1), (''left'', -1, 0), (''right'', 1, 0)]"

definition delta :: "string \<Rightarrow> int \<times> int" where
  "delta action = (case find (\<lambda>(a, _). a = action) deltas of Some (_, d) \<Rightarrow> d | None \<Rightarrow> (0, 0))"

text \<open>The position of the first cell of color 1 in row order.\<close>

fun find_in_row :: "u8 \<Rightarrow> nat \<Rightarrow> u8 list \<Rightarrow> nat option" where
  "find_in_row c x [] = None"
| "find_in_row c x (v # vs) = (if v = c then Some x else find_in_row c (x + 1) vs)"

fun find_in_rows :: "u8 \<Rightarrow> nat \<Rightarrow> grid \<Rightarrow> (nat \<times> nat) option" where
  "find_in_rows c y [] = None"
| "find_in_rows c y (row # rows) =
     (case find_in_row c 0 row of Some x \<Rightarrow> Some (x, y) | None \<Rightarrow> find_in_rows c (y + 1) rows)"

definition player :: "grid \<Rightarrow> (nat \<times> nat) option" where
  "player g = find_in_rows 1 0 g"

text \<open>\<open>grid[y][x]\<close> read and written: out of bounds is a panic.\<close>

definition cell :: "grid \<Rightarrow> nat \<Rightarrow> nat \<Rightarrow> u8 option" where
  "cell g x y = (if y < length g \<and> x < length (g ! y) then Some (g ! y ! x) else None)"

definition set_cell :: "nat \<Rightarrow> nat \<Rightarrow> u8 \<Rightarrow> grid \<Rightarrow> grid option" where
  "set_cell x y c g = (if y < length g \<and> x < length (g ! y) then Some (g[y := (g ! y)[x := c]]) else None)"

definition in_bounds :: "grid \<Rightarrow> int \<Rightarrow> int \<Rightarrow> bool" where
  "in_bounds g x y \<longleftrightarrow> 0 \<le> x \<and> 0 \<le> y \<and> nat y < length g \<and> nat x < length (g ! 0)"

fun apply_writes :: "cell_write list \<Rightarrow> grid \<Rightarrow> grid option" where
  "apply_writes [] g = Some g"
| "apply_writes (w # ws) g =
     (if cw_y w < length g \<and> cw_x w < length (g ! 0)
      then Option.bind (set_cell (cw_x w) (cw_y w) (cw_color w) g) (apply_writes ws)
      else apply_writes ws g)"

text \<open>The movement part of \<open>apply\<close>: the moved grid and the color an occupant was pushed onto, or
  \<open>Inl\<close> for a push that is blocked by the border.\<close>

definition apply_move ::
  "grid \<Rightarrow> nat \<Rightarrow> nat \<Rightarrow> nat \<Rightarrow> nat \<Rightarrow> int \<Rightarrow> int \<Rightarrow> u8 option \<Rightarrow> effect \<Rightarrow> (unit + grid \<times> u8 option) option" where
  "apply_move state px py tx ty dx dy beyond eff =
     (if ef_push eff then
        let bx = int tx + dx; by = int ty + dy in
        if \<not> in_bounds state bx by then Some (Inl ())
        else do {
          occupant \<leftarrow> cell state tx ty;
          g1 \<leftarrow> set_cell (nat bx) (nat by) occupant state;
          g2 \<leftarrow> set_cell tx ty 1 g1;
          g3 \<leftarrow> set_cell px py 0 g2;
          Some (Inr (g3, beyond))
        }
      else if ef_player_advances eff then do {
        g1 \<leftarrow> set_cell px py 0 state;
        g2 \<leftarrow> set_cell tx ty 1 g1;
        Some (Inr (g2, None))
      }
      else Some (Inr (state, None)))"

definition apply_effect ::
  "grid \<Rightarrow> nat \<Rightarrow> nat \<Rightarrow> nat \<Rightarrow> nat \<Rightarrow> int \<Rightarrow> int \<Rightarrow> u8 option \<Rightarrow> effect \<Rightarrow> prediction option" where
  "apply_effect state px py tx ty dx dy beyond eff = do {
     moved \<leftarrow> apply_move state px py tx ty dx dy beyond eff;
     (case moved of
        Inl _ \<Rightarrow> Some (prediction_of state)
      | Inr (g, docked_color) \<Rightarrow> do {
          g' \<leftarrow> (if (case ef_writes_when_beyond eff of None \<Rightarrow> True | Some c \<Rightarrow> docked_color = Some c)
                then apply_writes (ef_writes eff) g else Some g);
          Some \<lparr>pr_grid = g', pr_level_up = False, pr_dead = ef_dead eff, pr_win = ef_win eff\<rparr>
        })
   }"

text \<open>The cell one further: \<open>Some None\<close> outside the grid.\<close>

definition beyond_cell :: "grid \<Rightarrow> int \<Rightarrow> int \<Rightarrow> u8 option option" where
  "beyond_cell state x y = (if in_bounds state x y then map_option Some (cell state (nat x) (nat y)) else Some None)"

definition guard_ok :: "rule \<Rightarrow> u8 option \<Rightarrow> bool" where
  "guard_ok r beyond =
     (case ru_beyond_any_of r of
        None \<Rightarrow> True
      | Some allowed \<Rightarrow> (case beyond of Some b \<Rightarrow> b \<in> set allowed | None \<Rightarrow> False))"

fun run_rules ::
  "rule list \<Rightarrow> grid \<Rightarrow> nat \<Rightarrow> nat \<Rightarrow> nat \<Rightarrow> nat \<Rightarrow> int \<Rightarrow> int \<Rightarrow> u8 \<Rightarrow> prediction option" where
  "run_rules [] state px py tx ty dx dy target = Some (prediction_of state)"
| "run_rules (r # rs) state px py tx ty dx dy target =
     (if ru_on_target r \<noteq> target then run_rules rs state px py tx ty dx dy target
      else do {
        beyond \<leftarrow> beyond_cell state (int tx + dx) (int ty + dy);
        if guard_ok r beyond then apply_effect state px py tx ty dx dy beyond (ru_effect r)
        else run_rules rs state px py tx ty dx dy target
      })"

definition program_step :: "rule_program \<Rightarrow> grid \<Rightarrow> string \<Rightarrow> prediction option" where
  "program_step p state action =
     (case player state of
        None \<Rightarrow> Some (prediction_of state)
      | Some (px, py) \<Rightarrow>
          let (dx, dy) = delta action; tx = int px + dx; ty = int py + dy in
          if \<not> in_bounds state tx ty then Some (prediction_of state)
          else do {
            target \<leftarrow> cell state (nat tx) (nat ty);
            run_rules (rp_rules p) state px py (nat tx) (nat ty) dx dy target
          })"

definition program_is_goal :: "rule_program \<Rightarrow> grid \<Rightarrow> bool" where
  "program_is_goal p state \<longleftrightarrow>
     rp_goal_absent_colors p \<noteq> [] \<and> \<not> list_ex (\<lambda>v. v \<in> set (rp_goal_absent_colors p)) (concat state)"

definition show_u8 :: "u8 \<Rightarrow> string" where
  "show_u8 c = show_nat (unat c)"

definition show_u8s :: "u8 list \<Rightarrow> string" where
  "show_u8s cs = ''['' @ join '', '' (map show_u8 cs) @ '']''"

definition show_write :: "cell_write \<Rightarrow> string" where
  "show_write w = ''('' @ show_nat (cw_x w) @ '','' @ show_nat (cw_y w) @ '')='' @ show_u8 (cw_color w)"

definition effect_words :: "effect \<Rightarrow> string list" where
  "effect_words eff =
     (if ef_push eff then [''push''] else []) @ (if ef_player_advances eff then [''advance''] else []) @
     (if ef_win eff then [''win''] else []) @ (if ef_dead eff then [''dead''] else []) @
     (if ef_writes eff = [] then []
      else [''writes '' @ join '','' (map show_write (ef_writes eff)) @
        (case ef_writes_when_beyond eff of None \<Rightarrow> [] | Some c \<Rightarrow> '' when beyond='' @ show_u8 c)])"

definition rule_line :: "rule \<Rightarrow> string" where
  "rule_line r =
     (let parts = [''on color '' @ show_u8 (ru_on_target r)] @
            (case ru_beyond_any_of r of
               None \<Rightarrow> [] | Some b \<Rightarrow> [''beyond'' @ [CHR 0xE2, CHR 0x88, CHR 0x88] @ show_u8s b]);
          effs = (if effect_words (ru_effect r) = [] then [''block''] else effect_words (ru_effect r))
      in join '' '' parts @ '' -> '' @ join ''+'' effs @ [nl])"

definition to_pretty :: "rule_program \<Rightarrow> string" where
  "to_pretty p =
     (let out = concat (map rule_line (rp_rules p))
      in if out = [] then ''(no rules: everything blocked)'' @ [nl] else out)"

definition rule_key :: "rule \<Rightarrow> u8 \<times> u8 list option" where
  "rule_key r = (ru_on_target r, ru_beyond_any_of r)"

definition diff_new :: "rule_program \<Rightarrow> rule \<Rightarrow> string list" where
  "diff_new prev r =
     (case find (\<lambda>p. rule_key p = rule_key r) (rp_rules prev) of
        None \<Rightarrow> [''+ rule on color '' @ show_u8 (ru_on_target r)]
      | Some p \<Rightarrow>
          if ru_effect p \<noteq> ru_effect r
          then [''~ rule on color '' @ show_u8 (ru_on_target r) @ '' effect changed''] else [])"

definition program_diff :: "rule_program \<Rightarrow> rule_program \<Rightarrow> string list" where
  "program_diff p prev =
     concat (map (diff_new prev) (rp_rules p)) @
     map (\<lambda>q. ''- rule on color '' @ show_u8 (ru_on_target q))
       (filter (\<lambda>q. \<not> list_ex (\<lambda>r. rule_key r = rule_key q) (rp_rules p)) (rp_rules prev)) @
     (if rp_goal_absent_colors p \<noteq> rp_goal_absent_colors prev
      then [''~ goal predicate: absent'' @ show_u8s (rp_goal_absent_colors prev) @ '' -> absent'' @
        show_u8s (rp_goal_absent_colors p)] else [])"

section \<open>The world model\<close>

record world_model =
  wm_step :: "grid \<Rightarrow> string \<Rightarrow> prediction option"
  wm_is_goal :: "grid \<Rightarrow> bool"
  wm_revision :: u32
  wm_history :: "string list"
  wm_program :: "rule_program option"

definition model_new :: "(grid \<Rightarrow> string \<Rightarrow> prediction option) \<Rightarrow> (grid \<Rightarrow> bool) \<Rightarrow> string \<Rightarrow> world_model" where
  "model_new step is_goal description =
     \<lparr>wm_step = step, wm_is_goal = is_goal, wm_revision = 0, wm_history = [description], wm_program = None\<rparr>"

definition from_program :: "rule_program \<Rightarrow> string \<Rightarrow> world_model" where
  "from_program p description =
     \<lparr>wm_step = program_step p, wm_is_goal = program_is_goal p, wm_revision = 0,
      wm_history = [description], wm_program = Some p\<rparr>"

definition model_vacuous :: world_model where
  "model_vacuous = model_new (\<lambda>g _. Some (prediction_of g)) (\<lambda>_. False) ''vacuous initial model''"

definition revision_diff :: "world_model \<Rightarrow> rule_program \<Rightarrow> string" where
  "revision_diff m p =
     (case wm_program m of
        Some prev \<Rightarrow> (if program_diff p prev = [] then ''no structural change'' else join ''; '' (program_diff p prev))
      | None \<Rightarrow> ''installed initial program'')"

definition revise_program :: "rule_program \<Rightarrow> string \<Rightarrow> world_model \<Rightarrow> world_model" where
  "revise_program p description m =
     m\<lparr>wm_step := program_step p, wm_is_goal := program_is_goal p, wm_program := Some p,
       wm_revision := wm_revision m + 1,
       wm_history := wm_history m @ [description @ '' ['' @ revision_diff m p @ '']'']\<rparr>"

definition revise ::
  "(grid \<Rightarrow> string \<Rightarrow> prediction option) option \<Rightarrow> (grid \<Rightarrow> bool) option \<Rightarrow> string \<Rightarrow> world_model \<Rightarrow> world_model" where
  "revise step is_goal description m =
     m\<lparr>wm_step := the_default (wm_step m) step, wm_is_goal := the_default (wm_is_goal m) is_goal,
       wm_revision := wm_revision m + 1, wm_history := wm_history m @ [description]\<rparr>"

end
