(* ===== verification/Schema_Harness.thy ===== *)
theory Schema_Harness
  imports Schema_Program
begin

text \<open>
  The code plane of the Schema harness: exact backtesting against the timeline (\<open>backtest.rs\<close>),
  breadth-first planning inside the model (\<open>planner.rs\<close>), gated execution (\<open>executor.rs\<close>) and the
  outer loop (\<open>agent.rs\<close>). The traits \<open>Environment\<close> and \<open>Deliberator\<close> are records of functions over
  the state of their implementor; a hash set of grids is the list of its members.
\<close>

section \<open>Backtest\<close>

datatype mismatch_kind = GridMismatch | FlagsMismatch

record mismatch =
  mm_index :: nat
  mm_kind :: mismatch_kind
  mm_detail :: string

record backtest_report =
  br_total :: nat
  br_exact :: nat
  br_skipped :: nat
  br_mismatches :: "mismatch list"

definition green :: "backtest_report \<Rightarrow> bool" where
  "green r \<longleftrightarrow> br_mismatches r = [] \<and> 0 < br_total r"

definition first_mismatch :: "backtest_report \<Rightarrow> mismatch option" where
  "first_mismatch r = (case br_mismatches r of [] \<Rightarrow> None | m # _ \<Rightarrow> Some m)"

definition backtest_summary :: "backtest_report \<Rightarrow> string" where
  "backtest_summary r =
     show_nat (br_exact r) @ '' / '' @ show_nat (br_total r - br_skipped r) @ '' exact after '' @
     show_nat (br_total r) @ '' steps; '' @ show_nat (length (br_mismatches r)) @ '' mismatch(es), '' @
     show_nat (br_skipped r) @ '' skipped''"

definition show_bool :: "bool \<Rightarrow> string" where
  "show_bool b = (if b then ''true'' else ''false'')"

fun cell_diff :: "nat \<Rightarrow> nat \<Rightarrow> u8 list \<Rightarrow> u8 list \<Rightarrow> string option" where
  "cell_diff y x (pv # ps) (rv # rs) =
     (if pv \<noteq> rv
      then Some (''cell ('' @ show_nat x @ '','' @ show_nat y @ '') predicted '' @ show_u8 pv @ '', observed '' @ show_u8 rv)
      else cell_diff y (x + 1) ps rs)"
| "cell_diff y x _ _ = None"

fun row_diff :: "nat \<Rightarrow> grid \<Rightarrow> grid \<Rightarrow> string option" where
  "row_diff y (pr # ps) (rr # rs) =
     (if length pr \<noteq> length rr
      then Some (''row '' @ show_nat y @ '' width '' @ show_nat (length pr) @ '' != '' @ show_nat (length rr))
      else case cell_diff y 0 pr rr of Some d \<Rightarrow> Some d | None \<Rightarrow> row_diff (y + 1) ps rs)"
| "row_diff y _ _ = None"

definition first_cell_diff :: "grid \<Rightarrow> grid \<Rightarrow> string" where
  "first_cell_diff pred real =
     (if length pred \<noteq> length real
      then ''row count '' @ show_nat (length pred) @ '' != '' @ show_nat (length real)
      else case row_diff 0 pred real of Some d \<Rightarrow> d | None \<Rightarrow> ''grids differ (no cell-level diff found)'')"

definition flags_ok :: "prediction \<Rightarrow> transition \<Rightarrow> bool" where
  "flags_ok pred t \<longleftrightarrow>
     pr_level_up pred = tr_level_up t \<and> pr_dead pred = tr_dead t \<and> pr_win pred = tr_win t"

definition show_flags :: "bool \<Rightarrow> bool \<Rightarrow> bool \<Rightarrow> string" where
  "show_flags l d w =
     ''(level_up='' @ show_bool l @ '', dead='' @ show_bool d @ '', win='' @ show_bool w @ '')''"

definition backtest_one :: "prediction \<Rightarrow> transition \<Rightarrow> backtest_report \<Rightarrow> backtest_report" where
  "backtest_one pred t r =
     (if \<not> flags_ok pred t then
        r\<lparr>br_mismatches := br_mismatches r @ [\<lparr>mm_index = tr_index t, mm_kind = FlagsMismatch,
          mm_detail = ''predicted '' @ show_flags (pr_level_up pred) (pr_dead pred) (pr_win pred) @
            '' but observed '' @ show_flags (tr_level_up t) (tr_dead t) (tr_win t) @ '' at step '' @
            show_nat (tr_index t)\<rparr>]\<rparr>
      else if transition_terminal t then r\<lparr>br_skipped := br_skipped r + 1\<rparr>
      else if pr_grid pred \<noteq> tr_state_after t then
        r\<lparr>br_mismatches := br_mismatches r @ [\<lparr>mm_index = tr_index t, mm_kind = GridMismatch,
          mm_detail = ''grid mismatch at step '' @ show_nat (tr_index t) @ '': '' @
            first_cell_diff (pr_grid pred) (tr_state_after t)\<rparr>]\<rparr>
      else r\<lparr>br_exact := br_exact r + 1\<rparr>)"

fun backtest_from :: "world_model \<Rightarrow> transition list \<Rightarrow> backtest_report \<Rightarrow> backtest_report option" where
  "backtest_from m [] r = Some r"
| "backtest_from m (t # ts) r =
     Option.bind (wm_step m (tr_state_before t) (tr_action t)) (\<lambda>pred. backtest_from m ts (backtest_one pred t r))"

definition run_backtest :: "world_model \<Rightarrow> timeline \<Rightarrow> backtest_report option" where
  "run_backtest m line =
     backtest_from m (tl_records line)
       \<lparr>br_total = timeline_len line, br_exact = 0, br_skipped = 0, br_mismatches = []\<rparr>"

section \<open>Planner\<close>

datatype goal_via = ViaIsGoal | ViaLevelUp | ViaWin

fun goal_via_str :: "goal_via \<Rightarrow> string" where
  "goal_via_str ViaIsGoal = ''is_goal''"
| "goal_via_str ViaLevelUp = ''level_up''"
| "goal_via_str ViaWin = ''win''"

record bfs_report =
  bf_plan :: "string list option"
  bf_expanded :: nat
  bf_distinct :: nat
  bf_goal_via :: "goal_via option"

definition bfs_found :: "bfs_report \<Rightarrow> bool" where
  "bfs_found r \<longleftrightarrow> bf_plan r \<noteq> None"

definition bfs_summary :: "bfs_report \<Rightarrow> string" where
  "bfs_summary r =
     (case (bf_plan r, bf_goal_via r) of
        (Some p, Some via) \<Rightarrow> ''BFS: goal in '' @ show_nat (length p) @ '' step(s) via '' @ goal_via_str via @
          ''; expanded '' @ show_nat (bf_expanded r) @ '' nodes, '' @ show_nat (bf_distinct r) @ '' distinct states''
      | _ \<Rightarrow> ''BFS: no goal found; expanded '' @ show_nat (bf_expanded r) @ '' nodes, '' @
          show_nat (bf_distinct r) @ '' distinct states'')"

type_synonym frontier = "(grid \<times> string list) list"

text \<open>The goal a prediction reaches, in the order of the tests; a dead end reaches none.\<close>

definition reaches :: "world_model \<Rightarrow> prediction \<Rightarrow> goal_via option" where
  "reaches m pred =
     (if pr_dead pred then None else if pr_win pred then Some ViaWin
      else if pr_level_up pred then Some ViaLevelUp
      else if wm_is_goal m (pr_grid pred) then Some ViaIsGoal else None)"

text \<open>The loop over the actions from one state: \<open>Inl\<close> is the early return.\<close>

fun expand_state ::
  "world_model \<Rightarrow> grid \<Rightarrow> string list \<Rightarrow> string list \<Rightarrow> frontier \<Rightarrow> grid list \<Rightarrow>
   ((string list \<times> goal_via \<times> nat) + (frontier \<times> grid list)) option" where
  "expand_state m state path [] frontier seen = Some (Inr (frontier, seen))"
| "expand_state m state path (a # as) frontier seen = do {
     pred \<leftarrow> wm_step m state a;
     (case reaches m pred of
        Some via \<Rightarrow> Some (Inl (path @ [a], via, length seen))
      | None \<Rightarrow>
          if pr_dead pred \<or> pr_grid pred \<in> set seen then expand_state m state path as frontier seen
          else expand_state m state path as (frontier @ [(pr_grid pred, path @ [a])]) (seen @ [pr_grid pred]))
   }"

definition no_goal :: "nat \<Rightarrow> grid list \<Rightarrow> bfs_report" where
  "no_goal expanded seen =
     \<lparr>bf_plan = None, bf_expanded = expanded, bf_distinct = length seen, bf_goal_via = None\<rparr>"

function bfs_loop ::
  "world_model \<Rightarrow> string list \<Rightarrow> nat \<Rightarrow> frontier \<Rightarrow> grid list \<Rightarrow> nat \<Rightarrow> bfs_report option" where
  "bfs_loop m actions max_nodes [] seen expanded = Some (no_goal expanded seen)"
| "bfs_loop m actions max_nodes ((state, path) # rest) seen expanded =
     (if max_nodes \<le> expanded then Some (no_goal expanded seen)
      else case expand_state m state path actions rest seen of
          None \<Rightarrow> None
        | Some (Inl (plan, via, ndist)) \<Rightarrow>
            Some \<lparr>bf_plan = Some plan, bf_expanded = expanded + 1, bf_distinct = ndist, bf_goal_via = Some via\<rparr>
        | Some (Inr (frontier, seen')) \<Rightarrow> bfs_loop m actions max_nodes frontier seen' (expanded + 1))"
  by pat_completeness auto
termination
  by (relation "measure (\<lambda>(m, actions, max_nodes, frontier, seen, expanded). max_nodes - expanded)") auto

definition run_bfs :: "world_model \<Rightarrow> grid \<Rightarrow> string list \<Rightarrow> nat \<Rightarrow> bfs_report option" where
  "run_bfs m start actions max_nodes =
     (if wm_is_goal m start
      then Some \<lparr>bf_plan = Some [], bf_expanded = 0, bf_distinct = 1, bf_goal_via = Some ViaIsGoal\<rparr>
      else bfs_loop m actions max_nodes [(start, [])] [start] 0)"

section \<open>Executor\<close>

record observation =
  ob_grid :: grid
  ob_level_up :: bool
  ob_dead :: bool
  ob_win :: bool

definition observation_of :: "grid \<Rightarrow> observation" where
  "observation_of g = \<lparr>ob_grid = g, ob_level_up = False, ob_dead = False, ob_win = False\<rparr>"

definition observation_win :: "grid \<Rightarrow> observation" where
  "observation_win g = \<lparr>ob_grid = g, ob_level_up = False, ob_dead = False, ob_win = True\<rparr>"

record 'e environment =
  en_reset :: "'e \<Rightarrow> 'e \<times> observation"
  en_step :: "'e \<Rightarrow> string \<Rightarrow> ('e \<times> observation) option"
  en_actions_taken :: "'e \<Rightarrow> nat"
  en_legal_actions :: "'e \<Rightarrow> string list"

record execution_report =
  er_committed :: "string list"
  er_executed :: "string list"
  er_discarded :: "string list"
  er_mispredictions :: nat
  er_counterexample :: "transition option"
  er_counterexample_detail :: string
  er_final_state :: grid
  er_win :: bool
  er_level_up :: bool
  er_dead :: bool

definition halted :: "execution_report \<Rightarrow> bool" where
  "halted r \<longleftrightarrow> 0 < er_mispredictions r"

definition execution_summary :: "execution_report \<Rightarrow> string" where
  "execution_summary r =
     (let n = length (er_executed r) in
      if \<not> halted r then
        show_nat n @ ''/'' @ show_nat (length (er_committed r)) @ '' executed with 0 mispredictions -> '' @
        (if er_win r then ''WIN'' else if er_level_up r then ''level_up'' else ''ok'')
      else
        ''halted after '' @ show_nat n @ ''/'' @ show_nat (length (er_committed r)) @ '' actions: '' @
        er_counterexample_detail r @ ''; '' @ show_nat (length (er_discarded r)) @ '' queued action(s) discarded'')"

fun commit_from ::
  "'e environment \<Rightarrow> world_model \<Rightarrow> string list \<Rightarrow> nat \<Rightarrow> string list \<Rightarrow> 'e \<Rightarrow> timeline \<Rightarrow> grid \<Rightarrow> string list \<Rightarrow>
   ('e \<times> timeline \<times> execution_report) option" where
  "commit_from E m plan i [] e line cur executed = Some (e, line,
     \<lparr>er_committed = plan, er_executed = executed, er_discarded = [], er_mispredictions = 0,
      er_counterexample = None, er_counterexample_detail = [], er_final_state = cur,
      er_win = False, er_level_up = False, er_dead = False\<rparr>)"
| "commit_from E m plan i (a # rest) e line cur executed = do {
     pred \<leftarrow> wm_step m cur a;
     (e', obs) \<leftarrow> en_step E e a;
     let (line', t) = append_transition cur a (ob_grid obs) (ob_level_up obs) (ob_dead obs) (ob_win obs) line;
     let ok = (flags_ok pred t \<and> (transition_terminal t \<or> pr_grid pred = ob_grid obs));
     let report = \<lparr>er_committed = plan, er_executed = executed @ [a], er_discarded = rest,
            er_mispredictions = (if ok then 0 else 1),
            er_counterexample = (if ok then None else Some t),
            er_counterexample_detail = (if ok then [] else
              (if flags_ok pred t then ''grid misprediction'' else ''flag misprediction'') @
              '' at committed step '' @ show_nat i),
            er_final_state = ob_grid obs, er_win = ob_win obs, er_level_up = ob_level_up obs,
            er_dead = ob_dead obs\<rparr>;
     if \<not> ok \<or> transition_terminal t then Some (e', line', report)
     else commit_from E m plan (i + 1) rest e' line' (ob_grid obs) (executed @ [a])
   }"

definition commit_actions ::
  "'e environment \<Rightarrow> 'e \<Rightarrow> world_model \<Rightarrow> timeline \<Rightarrow> grid \<Rightarrow> string list \<Rightarrow>
   ('e \<times> timeline \<times> execution_report) option" where
  "commit_actions E e m line current plan = commit_from E m plan 0 plan e line current []"

section \<open>The outer loop\<close>

datatype intent = Plan | Experiment

record deliberation =
  de_actions :: "string list"
  de_intent :: intent
  de_note :: string

type_synonym 'd deliberator =
  "'d \<Rightarrow> grid \<Rightarrow> world_model \<Rightarrow> timeline \<Rightarrow> backtest_report \<Rightarrow> transition option \<Rightarrow>
   ('d \<times> world_model \<times> deliberation) option"

record episode_log =
  lg_backtests :: "string list"
  lg_bfs_reports :: "string list"
  lg_executions :: "string list"
  lg_notes :: "string list"
  lg_revisions_seen :: u32
  lg_won :: bool
  lg_env_actions :: nat

definition log_default :: episode_log where
  "log_default =
     \<lparr>lg_backtests = [], lg_bfs_reports = [], lg_executions = [], lg_notes = [], lg_revisions_seen = 0,
      lg_won = False, lg_env_actions = 0\<rparr>"

record ('e, 'd) schema_agent =
  ag_env :: 'e
  ag_model :: world_model
  ag_deliberator :: 'd
  ag_timeline :: timeline
  ag_max_cycles :: nat

definition agent_new :: "'e \<Rightarrow> world_model \<Rightarrow> 'd \<Rightarrow> ('e, 'd) schema_agent" where
  "agent_new env m d =
     \<lparr>ag_env = env, ag_model = m, ag_deliberator = d, ag_timeline = timeline_new, ag_max_cycles = 60\<rparr>"

text \<open>The variables of the loop, and whether it was left by \<open>break\<close>.\<close>

record ('e, 'd) loop_state =
  ls_agent :: "('e, 'd) schema_agent"
  ls_log :: episode_log
  ls_current :: grid
  ls_counterexample :: "transition option"
  ls_done :: bool

definition planning_nodes :: nat where
  "planning_nodes = 100000"

text \<open>The backtest gate: what a requested plan turns into, with the planner's report when it ran.\<close>

definition backtest_gate ::
  "string list \<Rightarrow> world_model \<Rightarrow> timeline \<Rightarrow> grid \<Rightarrow> deliberation \<Rightarrow> (deliberation \<times> bfs_report option) option" where
  "backtest_gate legal m line current delib =
     (if de_intent delib \<noteq> Plan then Some (delib, None)
      else do {
        post \<leftarrow> run_backtest m line;
        if \<not> (green post \<or> timeline_is_empty line) then Some (delib\<lparr>de_intent := Experiment\<rparr>, None)
        else do {
          bfs \<leftarrow> run_bfs m current legal planning_nodes;
          Some ((case bf_plan bfs of Some plan \<Rightarrow> delib\<lparr>de_actions := plan\<rparr> | None \<Rightarrow> delib), Some bfs)
        }
      })"

definition intent_tag :: "intent \<Rightarrow> string" where
  "intent_tag i = (case i of Plan \<Rightarrow> ''[plan]'' | Experiment \<Rightarrow> ''[experiment]'')"

definition deliberate_turn ::
  "'d deliberator \<Rightarrow> ('e, 'd) loop_state \<Rightarrow> (('e, 'd) loop_state \<times> deliberation) option" where
  "deliberate_turn D s = do {
     let ag = ls_agent s;
     report \<leftarrow> run_backtest (ag_model ag) (ag_timeline ag);
     (d', m', delib) \<leftarrow> D (ag_deliberator ag) (ls_current s) (ag_model ag) (ag_timeline ag) report (ls_counterexample s);
     let log = ls_log s;
     Some (s\<lparr>ls_agent := ag\<lparr>ag_deliberator := d', ag_model := m'\<rparr>,
             ls_log := log\<lparr>lg_backtests := lg_backtests log @ [backtest_summary report],
               lg_notes := lg_notes log @ (if de_note delib = [] then [] else [de_note delib])\<rparr>,
             ls_counterexample := None\<rparr>, delib)
   }"

definition execute_turn ::
  "'e environment \<Rightarrow> ('e, 'd) loop_state \<Rightarrow> deliberation \<Rightarrow> ('e, 'd) loop_state option" where
  "execute_turn E s delib = do {
     let ag = ls_agent s; let log = ls_log s;
     (e', line', result) \<leftarrow>
       commit_actions E (ag_env ag) (ag_model ag) (ag_timeline ag) (ls_current s) (de_actions delib);
     let log' = log\<lparr>lg_executions := lg_executions log @ [intent_tag (de_intent delib) @ '' '' @ execution_summary result]\<rparr>;
     let s' = s\<lparr>ls_agent := ag\<lparr>ag_env := e', ag_timeline := line'\<rparr>, ls_log := log', ls_current := er_final_state result\<rparr>;
     if er_win result then Some (s'\<lparr>ls_log := log'\<lparr>lg_won := True\<rparr>, ls_done := True\<rparr>)
     else if er_dead result then
       (case en_reset E e' of (e'', obs) \<Rightarrow>
          Some (s'\<lparr>ls_agent := ag\<lparr>ag_env := e'', ag_timeline := line'\<rparr>, ls_current := ob_grid obs\<rparr>))
     else if halted result then Some (s'\<lparr>ls_counterexample := er_counterexample result\<rparr>)
     else Some s'
   }"

definition cycle :: "'e environment \<Rightarrow> 'd deliberator \<Rightarrow> ('e, 'd) loop_state \<Rightarrow> ('e, 'd) loop_state option" where
  "cycle E D s = do {
     (s1, delib) \<leftarrow> deliberate_turn D s;
     let ag = ls_agent s1; let log = ls_log s1;
     (delib', bfs) \<leftarrow> backtest_gate (en_legal_actions E (ag_env ag)) (ag_model ag) (ag_timeline ag) (ls_current s1) delib;
     let s2 = s1\<lparr>ls_log := log\<lparr>lg_bfs_reports := lg_bfs_reports log @
           (case bfs of None \<Rightarrow> [] | Some b \<Rightarrow> [bfs_summary b])\<rparr>\<rparr>;
     if de_actions delib' = [] then Some s2 else execute_turn E s2 delib'
   }"

fun cycles :: "nat \<Rightarrow> 'e environment \<Rightarrow> 'd deliberator \<Rightarrow> ('e, 'd) loop_state \<Rightarrow> ('e, 'd) loop_state option" where
  "cycles 0 E D s = Some s"
| "cycles (Suc n) E D s =
     Option.bind (cycle E D s) (\<lambda>s'. if ls_done s' then Some s' else cycles n E D s')"

definition agent_run ::
  "'e environment \<Rightarrow> 'd deliberator \<Rightarrow> ('e, 'd) schema_agent \<Rightarrow> (('e, 'd) schema_agent \<times> episode_log) option" where
  "agent_run E D ag =
     (case en_reset E (ag_env ag) of (e, obs) \<Rightarrow> do {
        s \<leftarrow> cycles (ag_max_cycles ag) E D
          \<lparr>ls_agent = ag\<lparr>ag_env := e\<rparr>, ls_log = log_default, ls_current = ob_grid obs,
           ls_counterexample = None, ls_done = False\<rparr>;
        let ag' = ls_agent s;
        Some (ag', (ls_log s)\<lparr>lg_revisions_seen := wm_revision (ag_model ag'),
          lg_env_actions := en_actions_taken E (ag_env ag')\<rparr>)
      })"

end
