(* ===== verification/Schema_Planner.thy ===== *)
theory Schema_Planner
  imports Schema_Harness
begin

text \<open>
  Correctness of the breadth-first planner \<open>run_bfs\<close> of \<open>crates/schema/src/planner.rs\<close>: what it
  returns is a shortest sequence of actions that reaches a goal inside the model, a search that ends
  before its budget proves that there is none, and a budget of as many nodes as there are states is
  enough. The invariant is the one of a breadth-first search: the frontier is sorted by distance,
  its paths are shortest, and every visited state off the frontier is closed.
\<close>

section \<open>What a plan does inside the model\<close>

text \<open>The state after a sequence of actions none of which ends the episode, and the goal a plan
  reaches with its last action.\<close>

fun walk :: "world_model \<Rightarrow> grid \<Rightarrow> string list \<Rightarrow> grid option" where
  "walk m s [] = Some s"
| "walk m s (a # as) =
     Option.bind (wm_step m s a) (\<lambda>pred.
       if pr_dead pred \<or> reaches m pred \<noteq> None then None else walk m (pr_grid pred) as)"

fun leads_to :: "world_model \<Rightarrow> grid \<Rightarrow> string list \<Rightarrow> goal_via option" where
  "leads_to m s [] = (if wm_is_goal m s then Some ViaIsGoal else None)"
| "leads_to m s (a # as) =
     Option.bind (wm_step m s a) (\<lambda>pred.
       case reaches m pred of
         Some via \<Rightarrow> if as = [] then Some via else None
       | None \<Rightarrow> if pr_dead pred then None else leads_to m (pr_grid pred) as)"

definition closed_state :: "world_model \<Rightarrow> string list \<Rightarrow> grid set \<Rightarrow> grid \<Rightarrow> bool" where
  "closed_state m acts V t \<longleftrightarrow>
     (\<forall>a\<in>set acts. \<exists>pred. wm_step m t a = Some pred \<and> reaches m pred = None \<and>
        (pr_dead pred \<or> pr_grid pred \<in> V))"

lemma closed_state_mono: "closed_state m acts V t \<Longrightarrow> V \<subseteq> W \<Longrightarrow> closed_state m acts W t"
  unfolding closed_state_def by blast

lemma walk_append: "walk m s (p @ q) = Option.bind (walk m s p) (\<lambda>t. walk m t q)"
  by (induction p arbitrary: s) (auto split: Option.bind_split)

lemma leads_to_append: "walk m s p = Some t \<Longrightarrow> leads_to m s (p @ q) = leads_to m t q"
  by (induction p arbitrary: s) (auto split: Option.bind_splits if_splits)

lemma reaches_dead: "pr_dead pred \<Longrightarrow> reaches m pred = None"
  by (simp add: reaches_def)

lemma leads_to_last:
  "leads_to m s q = Some via \<Longrightarrow> q \<noteq> [] \<Longrightarrow>
   \<exists>p a t pred. q = p @ [a] \<and> walk m s p = Some t \<and> wm_step m t a = Some pred \<and> reaches m pred = Some via"
proof (induction q arbitrary: s)
  case (Cons a as)
  from Cons.prems(1) obtain pred where st: "wm_step m s a = Some pred"
    by (auto split: Option.bind_splits)
  show ?case
  proof (cases "reaches m pred")
    case None
    with Cons.prems(1) st have d: "\<not> pr_dead pred" and l: "leads_to m (pr_grid pred) as = Some via"
      by (auto split: if_splits)
    have "as \<noteq> []"
      using l None d by (auto simp: reaches_def split: if_splits)
    from Cons.IH [OF l this] obtain p b t pr where
      "as = p @ [b]" "walk m (pr_grid pred) p = Some t" "wm_step m t b = Some pr" "reaches m pr = Some via"
      by blast
    with st None d show ?thesis
      by (intro exI [of _ "a # p"] exI [of _ b] exI [of _ t] exI [of _ pr]) simp
  next
    case (Some v)
    with Cons.prems(1) st have "as = []" "v = via"
      by (auto split: if_splits)
    with st Some show ?thesis
      by (intro exI [of _ "[]"] exI [of _ a] exI [of _ s] exI [of _ pred]) simp
  qed
qed simp

section \<open>The invariant of the search\<close>

definition bfs_inv :: "world_model \<Rightarrow> string list \<Rightarrow> grid \<Rightarrow> frontier \<Rightarrow> grid list \<Rightarrow> bool" where
  "bfs_inv m acts s F seen \<longleftrightarrow>
     (\<forall>(t, p)\<in>set F. walk m s p = Some t \<and> set p \<subseteq> set acts \<and> t \<in> set seen \<and>
        (\<forall>q. set q \<subseteq> set acts \<and> walk m s q = Some t \<longrightarrow> length p \<le> length q)) \<and>
     s \<in> set seen \<and>
     (\<forall>t\<in>set seen. t \<in> fst ` set F \<or> closed_state m acts (set seen) t) \<and>
     sorted (map (length \<circ> snd) F) \<and>
     (\<forall>(t, p)\<in>set F. length p \<le> Suc (length (snd (hd F)))) \<and>
     distinct seen"

lemma bfs_inv_start: "bfs_inv m acts s [(s, [])] [s]"
  by (simp add: bfs_inv_def)

lemma bfs_seen_cases:
  assumes "bfs_inv m acts s F seen" "t \<in> set seen"
  shows "closed_state m acts (set seen) t \<or> (\<exists>p. (t, p) \<in> set F)"
  using assms unfolding bfs_inv_def by (metis (mono_tags, lifting) imageE prod.collapse)

text \<open>Every path inside the model ends in a closed state or crosses the frontier.\<close>

lemma bfs_cut:
  assumes inv: "bfs_inv m acts s F seen" and q: "set q \<subseteq> set acts" "walk m s q = Some t"
  shows "(t \<in> set seen \<and> closed_state m acts (set seen) t) \<or>
    (\<exists>q1 q2 t' p. q = q1 @ q2 \<and> (t', p) \<in> set F \<and> walk m s q1 = Some t')"
  using q
proof (induction q arbitrary: t rule: rev_induct)
  case Nil
  then have t: "t \<in> set seen"
    using inv by (simp add: bfs_inv_def)
  from bfs_seen_cases [OF inv t] show ?case
    using Nil t by auto
next
  case (snoc a q)
  from snoc.prems(2) obtain u where u: "walk m s q = Some u"
    by (auto simp: walk_append split: Option.bind_splits)
  from snoc.IH [OF _ u] snoc.prems(1) consider
      "closed_state m acts (set seen) u"
    | q1 q2 t' p where "q = q1 @ q2" "(t', p) \<in> set F" "walk m s q1 = Some t'"
    by auto
  then show ?case
  proof cases
    case 1
    with snoc.prems u have t: "t \<in> set seen"
      by (fastforce simp: walk_append closed_state_def split: Option.bind_splits if_splits)
    from bfs_seen_cases [OF inv t] show ?thesis
    proof
      assume "\<exists>p. (t, p) \<in> set F"
      with snoc.prems(2) show ?thesis
        by (metis append_Nil2)
    qed (use t in simp)
  next
    case 2
    then show ?thesis
      by (metis append.assoc)
  qed
qed

lemma bfs_head_min:
  assumes "bfs_inv m acts s ((t, p) # F) seen" "(t', p') \<in> set ((t, p) # F)"
  shows "length p \<le> length p'"
  using assms unfolding bfs_inv_def by auto

lemma bfs_fresh_longer:
  assumes inv: "bfs_inv m acts s ((t, p) # F) seen" and fresh: "u \<notin> set seen"
    and q: "set q \<subseteq> set acts" "walk m s q = Some u"
  shows "length p < length q"
proof -
  from bfs_cut [OF inv q] fresh obtain q1 q2 t' p' where
    d: "q = q1 @ q2" "(t', p') \<in> set ((t, p) # F)" "walk m s q1 = Some t'"
    by blast
  have seen': "t' \<in> set seen" and len: "length p' \<le> length q1"
    using inv d q(1) unfolding bfs_inv_def by auto
  have "q2 \<noteq> []"
    using d q(2) fresh seen' by auto
  moreover have "length p \<le> length p'"
    by (rule bfs_head_min [OF inv d(2)])
  ultimately show ?thesis
    using len d(1) by (cases q2) auto
qed

lemma bfs_inv_push:
  assumes inv: "bfs_inv m acts s ((t, p) # F) seen" and a: "a \<in> set acts"
    and step: "wm_step m t a = Some pred" "reaches m pred = None" "\<not> pr_dead pred"
    and fresh: "pr_grid pred \<notin> set seen"
  shows "bfs_inv m acts s ((t, p) # F @ [(pr_grid pred, p @ [a])]) (seen @ [pr_grid pred])"
proof -
  have w: "walk m s (p @ [a]) = Some (pr_grid pred)"
    using inv step by (simp add: bfs_inv_def walk_append)
  have sh: "\<forall>q. set q \<subseteq> set acts \<and> walk m s q = Some (pr_grid pred) \<longrightarrow> length (p @ [a]) \<le> length q"
    using bfs_fresh_longer [OF inv fresh] by (auto simp: Suc_le_eq)
  have bound: "\<forall>x\<in>set F. length (snd x) \<le> Suc (length p)"
    using inv unfolding bfs_inv_def by auto
  have srt: "sorted (map (length \<circ> snd) (((t, p) # F) @ [(pr_grid pred, p @ [a])]))"
    using inv bound unfolding bfs_inv_def by (auto simp: sorted_append)
  have cl: "\<forall>u\<in>set seen. u \<in> fst ` set ((t, p) # F) \<or> closed_state m acts (set (seen @ [pr_grid pred])) u"
    using inv unfolding bfs_inv_def by (auto intro: closed_state_mono)
  show ?thesis
    using inv w sh srt cl a fresh bound unfolding bfs_inv_def by auto
qed

lemma bfs_inv_pop:
  assumes inv: "bfs_inv m acts s ((t, p) # F) seen" and cl: "closed_state m acts (set seen) t"
  shows "bfs_inv m acts s F seen"
proof -
  have b: "length (snd x) \<le> Suc (length p)" "length p \<le> length (snd x)" if "x \<in> set F" for x
    using inv that unfolding bfs_inv_def by auto
  have "length (snd x) \<le> Suc (length (snd (hd F)))" if "x \<in> set F" for x
    using b(1) [OF that] b(2) [of "hd F"] that by (cases F) auto
  then show ?thesis
    using inv cl unfolding bfs_inv_def by auto
qed

section \<open>The loop over the actions\<close>

lemma expand_state_continue:
  assumes "expand_state m t p as F seen = Some (Inr (F', seen'))"
    and "bfs_inv m acts s ((t, p) # F) seen" "set as \<subseteq> set acts"
  shows "bfs_inv m acts s ((t, p) # F') seen' \<and> set seen \<subseteq> set seen' \<and>
    closed_state m as (set seen') t \<and> length seen' + length F = length seen + length F'"
  using assms
proof (induction m t p as F seen rule: expand_state.induct)
  case (2 m t p a as F seen)
  from 2(3) obtain pred where st: "wm_step m t a = Some pred" and r: "reaches m pred = None"
    by (auto split: Option.bind_splits option.splits)
  have a: "a \<in> set acts" "set as \<subseteq> set acts"
    using 2(5) by auto
  show ?case
  proof (cases "pr_dead pred \<or> pr_grid pred \<in> set seen")
    case True
    have run: "expand_state m t p as F seen = Some (Inr (F', seen'))"
      using 2(3) st r True by simp
    have ih: "bfs_inv m acts s ((t, p) # F') seen' \<and> set seen \<subseteq> set seen' \<and>
        closed_state m as (set seen') t \<and> length seen' + length F = length seen + length F'"
      by (rule 2(1) [OF st r True run 2(4) a(2)])
    with True st r show ?thesis
      by (auto simp: closed_state_def)
  next
    case False
    have run: "expand_state m t p as (F @ [(pr_grid pred, p @ [a])]) (seen @ [pr_grid pred]) = Some (Inr (F', seen'))"
      using 2(3) st r False by simp
    have inv: "bfs_inv m acts s ((t, p) # F @ [(pr_grid pred, p @ [a])]) (seen @ [pr_grid pred])"
      using bfs_inv_push [OF 2(4) a(1) st r] False by simp
    have "bfs_inv m acts s ((t, p) # F') seen' \<and> set (seen @ [pr_grid pred]) \<subseteq> set seen' \<and>
        closed_state m as (set seen') t \<and>
        length seen' + length (F @ [(pr_grid pred, p @ [a])]) = length (seen @ [pr_grid pred]) + length F'"
      by (rule 2(2) [OF st r False run inv a(2)])
    with st r show ?thesis
      by (auto simp: closed_state_def)
  qed
qed (simp add: closed_state_def)

lemma expand_state_found:
  assumes "expand_state m t p as F seen = Some (Inl (plan, via, n))" "set as \<subseteq> set acts"
  shows "\<exists>a pred. a \<in> set acts \<and> plan = p @ [a] \<and> wm_step m t a = Some pred \<and> reaches m pred = Some via"
  using assms
  by (induction m t p as F seen rule: expand_state.induct)
    (auto split: Option.bind_splits option.splits if_splits)

lemma expand_state_distinct:
  assumes "expand_state m t p as F seen = Some (Inl (plan, via, n))"
  shows "n \<le> length seen + length as"
  using assms
  by (induction m t p as F seen rule: expand_state.induct)
    (fastforce split: Option.bind_splits option.splits if_splits)+

lemma expand_state_grows:
  assumes "expand_state m t p as F seen = Some (Inr (F', seen'))"
  shows "length seen' \<le> length seen + length as"
  using assms
  by (induction m t p as F seen rule: expand_state.induct)
    (fastforce split: Option.bind_splits option.splits if_splits)+

section \<open>The search\<close>

definition shortest_plan :: "world_model \<Rightarrow> string list \<Rightarrow> grid \<Rightarrow> string list \<Rightarrow> goal_via \<Rightarrow> bool" where
  "shortest_plan m acts s p via \<longleftrightarrow>
     set p \<subseteq> set acts \<and> leads_to m s p = Some via \<and>
     (\<forall>q. set q \<subseteq> set acts \<and> leads_to m s q \<noteq> None \<longrightarrow> length p \<le> length q)"

text \<open>A plan leaves the closed region, so it crosses the frontier.\<close>

lemma plan_crosses:
  assumes inv: "bfs_inv m acts s F seen" and ng: "\<not> wm_is_goal m s"
    and q: "set q \<subseteq> set acts" "leads_to m s q = Some via"
  shows "\<exists>q1 q2 t' p. q = q1 @ q2 \<and> q2 \<noteq> [] \<and> (t', p) \<in> set F \<and> length p \<le> length q1"
proof -
  have "q \<noteq> []"
    using q(2) ng by auto
  from leads_to_last [OF q(2) this] obtain p a t pred where
    d: "q = p @ [a]" "walk m s p = Some t" "wm_step m t a = Some pred" "reaches m pred = Some via"
    by blast
  have "\<not> closed_state m acts (set seen) t"
    unfolding closed_state_def using d q(1) by (auto intro!: bexI [of _ a])
  with bfs_cut [OF inv _ d(2)] d(1) q(1) obtain q1 q2 t' p' where
    c: "p = q1 @ q2" "(t', p') \<in> set F" "walk m s q1 = Some t'"
    by auto
  have "length p' \<le> length q1"
    using inv c q(1) d(1) unfolding bfs_inv_def by auto
  with c d(1) show ?thesis
    by (intro exI [of _ q1] exI [of _ "q2 @ [a]"]) auto
qed

lemma found_is_shortest:
  assumes inv: "bfs_inv m acts s ((t, p) # F) seen" and ng: "\<not> wm_is_goal m s"
    and a: "a \<in> set acts" "wm_step m t a = Some pred" "reaches m pred = Some via"
  shows "shortest_plan m acts s (p @ [a]) via"
proof -
  have w: "walk m s p = Some t" "set p \<subseteq> set acts"
    using inv by (auto simp: bfs_inv_def)
  have "leads_to m s (p @ [a]) = Some via"
    using a by (simp add: leads_to_append [OF w(1)])
  moreover have "length (p @ [a]) \<le> length q" if "set q \<subseteq> set acts" "leads_to m s q \<noteq> None" for q
  proof -
    from plan_crosses [OF inv ng that(1)] that(2) obtain q1 q2 t' p' where
      "q = q1 @ q2" "q2 \<noteq> []" "(t', p') \<in> set ((t, p) # F)" "length p' \<le> length q1"
      by blast
    with bfs_head_min [OF inv] show ?thesis
      by (cases q2) fastforce+
  qed
  ultimately show ?thesis
    using a(1) w(2) by (simp add: shortest_plan_def)
qed

lemma bfs_loop_correct:
  assumes "bfs_loop m acts n F seen k = Some r" "bfs_inv m acts s F seen" "\<not> wm_is_goal m s"
  shows "case bf_plan r of
      Some p \<Rightarrow> (\<exists>via. bf_goal_via r = Some via \<and> shortest_plan m acts s p via)
    | None \<Rightarrow> bf_goal_via r = None \<and>
        (bf_expanded r < n \<longrightarrow> (\<forall>q. set q \<subseteq> set acts \<longrightarrow> leads_to m s q = None))"
  using assms
proof (induction m acts n F seen k rule: bfs_loop.induct)
  case (1 m acts n seen k)
  have "leads_to m s q = None" if "set q \<subseteq> set acts" for q
    using plan_crosses [OF 1(2,3) that] by fastforce
  with 1(1) show ?case
    by (auto simp: no_goal_def)
next
  case (2 m acts n t p rest seen k)
  show ?case
  proof (cases "n \<le> k")
    case True
    with 2(2) show ?thesis
      by (auto simp: no_goal_def)
  next
    case False
    with 2(2) obtain x where x: "expand_state m t p acts rest seen = Some x"
      by (auto split: option.splits)
    show ?thesis
    proof (cases x)
      case (Inl y)
      obtain plan via d where y: "y = (plan, via, d)"
        by (cases y)
      from expand_state_found [of m t p acts rest seen plan via d acts] x Inl y
      obtain a pred where "a \<in> set acts" "plan = p @ [a]" "wm_step m t a = Some pred" "reaches m pred = Some via"
        by auto
      with found_is_shortest [OF 2(3,4)] 2(2) False x Inl y show ?thesis
        by auto
    next
      case (Inr y)
      obtain F' seen' where y: "y = (F', seen')"
        by (cases y)
      have c: "bfs_inv m acts s ((t, p) # F') seen'" "closed_state m acts (set seen') t"
        using expand_state_continue [of m t p acts rest seen F' seen' acts s] x Inr y 2(3) by auto
      have run: "bfs_loop m acts n F' seen' (k + 1) = Some r"
        using 2(2) False x Inr y by simp
      show ?thesis
        by (rule 2(1) [OF False x Inr y [symmetric] run bfs_inv_pop [OF c] 2(4)])
    qed
  qed
qed

text \<open>Every expanded state is a different one of the visited states.\<close>

lemma bfs_loop_bounds:
  assumes "bfs_loop m acts n F seen k = Some r" "k \<le> n" "length seen \<le> 1 + k * length acts"
  shows "bf_expanded r \<le> n \<and> bf_distinct r \<le> 1 + bf_expanded r * length acts"
  using assms
proof (induction m acts n F seen k rule: bfs_loop.induct)
  case (2 m acts n t p rest seen k)
  show ?case
  proof (cases "n \<le> k")
    case False
    with 2(2) obtain x where x: "expand_state m t p acts rest seen = Some x"
      by (auto split: option.splits)
    show ?thesis
    proof (cases x)
      case (Inl y)
      with 2(2,4) False x show ?thesis
        by (cases y) (auto dest!: expand_state_distinct)
    next
      case (Inr y)
      obtain F' seen' where y: "(F', seen') = y"
        by (cases y) simp
      have "length seen' \<le> 1 + (k + 1) * length acts"
        using expand_state_grows [of m t p acts rest seen F' seen'] x Inr y 2(4) by simp
      with 2(1) [OF False x Inr y] 2(2) False x Inr y show ?thesis
        by auto
    qed
  qed (use 2 in \<open>auto simp: no_goal_def\<close>)
qed (auto simp: no_goal_def)

text \<open>A search within a closed set of states needs no more nodes than the set has.\<close>

definition model_closed :: "world_model \<Rightarrow> string list \<Rightarrow> grid set \<Rightarrow> bool" where
  "model_closed m acts S \<longleftrightarrow>
     (\<forall>t\<in>S. \<forall>a\<in>set acts. \<exists>pred. wm_step m t a = Some pred \<and> (pr_dead pred \<or> pr_grid pred \<in> S))"

lemma expand_state_total:
  assumes "model_closed m acts S" "t \<in> S" "set as \<subseteq> set acts" "set seen \<subseteq> S"
  shows "\<exists>x. expand_state m t p as F seen = Some x \<and> (case x of Inl _ \<Rightarrow> True | Inr (F', seen') \<Rightarrow> set seen' \<subseteq> S)"
  using assms
proof (induction m t p as F seen rule: expand_state.induct)
  case (2 m t p a as F seen)
  from 2(3-5) obtain pred where st: "wm_step m t a = Some pred" and g: "pr_dead pred \<or> pr_grid pred \<in> S"
    unfolding model_closed_def by fastforce
  have as: "set as \<subseteq> set acts"
    using 2(5) by simp
  show ?case
  proof (cases "reaches m pred")
    case r: None
    show ?thesis
    proof (cases "pr_dead pred \<or> pr_grid pred \<in> set seen")
      case True
      with 2(1) [OF st r True 2(3,4) as 2(6)] st r show ?thesis
        by simp
    next
      case False
      with g 2(6) have "set (seen @ [pr_grid pred]) \<subseteq> S"
        by auto
      with 2(2) [OF st r False 2(3,4) as] st r False show ?thesis
        by simp
    qed
  qed (use st in simp)
qed simp

lemma bfs_loop_total:
  assumes "model_closed m acts S" "bfs_inv m acts s F seen" "set seen \<subseteq> S"
  shows "bfs_loop m acts n F seen k \<noteq> None"
  using assms
proof (induction m acts n F seen k rule: bfs_loop.induct)
  case (2 m acts n t p rest seen k)
  have "t \<in> S"
    using 2(3,4) by (auto simp: bfs_inv_def)
  from expand_state_total [OF 2(2) this subset_refl 2(4)] obtain x where
    x: "expand_state m t p acts rest seen = Some x"
      "case x of Inl _ \<Rightarrow> True | Inr (F', seen') \<Rightarrow> set seen' \<subseteq> S"
    by blast
  show ?case
  proof (cases "n \<le> k \<or> isl x")
    case False
    then obtain F' seen' where y: "x = Inr (F', seen')"
      by (cases x) auto
    have c: "bfs_inv m acts s ((t, p) # F') seen'" "closed_state m acts (set seen') t"
      using expand_state_continue [of m t p acts rest seen F' seen' acts s] x y 2(3) by auto
    with 2(1) [OF _ x(1) y _ 2(2) bfs_inv_pop [OF c]] False x y show ?thesis
      by simp
  qed (use x in \<open>auto split: sum.splits\<close>)
qed simp

lemma bfs_loop_exhausts:
  assumes "bfs_loop m acts n F seen k = Some r" "bfs_inv m acts s F seen"
    and "model_closed m acts S" "set seen \<subseteq> S" "finite S" "card S \<le> n" "length seen = length F + k"
    and "bf_plan r = None" "\<not> wm_is_goal m s" "set q \<subseteq> set acts"
  shows "leads_to m s q = None"
  using assms
proof (induction m acts n F seen k rule: bfs_loop.induct)
  case (1 m acts n seen k)
  then show ?case
    using plan_crosses [OF 1(2,9,10)] by fastforce
next
  case (2 m acts n t p rest seen k)
  have "length seen \<le> card S"
    using 2(3,5,6) card_mono [of S "set seen"] by (simp add: bfs_inv_def distinct_card)
  then have k: "\<not> n \<le> k"
    using 2(7,8) by simp
  have "t \<in> S"
    using 2(3,5) by (auto simp: bfs_inv_def)
  from expand_state_total [OF 2(4) this subset_refl 2(5)] obtain x where
    x: "expand_state m t p acts rest seen = Some x"
      "case x of Inl _ \<Rightarrow> True | Inr (F', seen') \<Rightarrow> set seen' \<subseteq> S"
    by blast
  with 2(2,9) k obtain F' seen' where y: "x = Inr (F', seen')"
    by (auto split: sum.splits prod.splits)
  have c: "bfs_inv m acts s ((t, p) # F') seen'" "closed_state m acts (set seen') t"
      "length seen' = length F' + (k + 1)"
    using expand_state_continue [of m t p acts rest seen F' seen' acts s] x y 2(3,8) by auto
  from 2(1) [OF k x(1) y _ _ bfs_inv_pop [OF c(1,2)] 2(4) _ 2(6,7) c(3) 2(9-11)] 2(2) k x y show ?case
    by simp
qed

end
