(* ===== verification/Schema_Executor.thy ===== *)
theory Schema_Executor
  imports Schema_Planner
begin

text \<open>
  Exactness of \<open>run_backtest\<close> and the contract of \<open>commit_actions\<close> (\<open>backtest.rs\<close>, \<open>executor.rs\<close>
  of \<open>crates/schema\<close>). Both rest on one notion, a transition the model explains; the backtest report
  is a function of the explained transitions and the executor stops at the first one that is not.
  Two interfaces are stated as locales: an environment that counts its actions, and a model that is
  faithful to the environment on a set of states.
\<close>

section \<open>Explained transitions\<close>

fun explains :: "prediction option \<Rightarrow> transition \<Rightarrow> bool" where
  "explains None t = False"
| "explains (Some pred) t = (flags_ok pred t \<and> (transition_terminal t \<or> pr_grid pred = tr_state_after t))"

definition matches :: "world_model \<Rightarrow> transition \<Rightarrow> bool" where
  "matches m t = explains (wm_step m (tr_state_before t) (tr_action t)) t"

definition mismatch_kind_of :: "world_model \<Rightarrow> transition \<Rightarrow> mismatch_kind" where
  "mismatch_kind_of m t =
     (case wm_step m (tr_state_before t) (tr_action t) of
        Some pred \<Rightarrow> if flags_ok pred t then GridMismatch else FlagsMismatch | None \<Rightarrow> FlagsMismatch)"

lemma backtest_from_report:
  assumes "backtest_from m ts r = Some r'"
  shows "br_total r' = br_total r
    \<and> br_exact r' = br_exact r + length (filter (\<lambda>t. matches m t \<and> \<not> transition_terminal t) ts)
    \<and> br_skipped r' = br_skipped r + length (filter (\<lambda>t. matches m t \<and> transition_terminal t) ts)
    \<and> map (\<lambda>x. (mm_index x, mm_kind x)) (br_mismatches r') =
       map (\<lambda>x. (mm_index x, mm_kind x)) (br_mismatches r) @
       map (\<lambda>t. (tr_index t, mismatch_kind_of m t)) (filter (\<lambda>t. \<not> matches m t) ts)"
  using assms
proof (induction ts arbitrary: r)
  case (Cons t ts)
  then obtain pred where st: "wm_step m (tr_state_before t) (tr_action t) = Some pred"
    and run: "backtest_from m ts (backtest_one pred t r) = Some r'"
    by (auto split: Option.bind_splits)
  show ?case
    using Cons.IH [OF run] st by (auto simp: backtest_one_def matches_def mismatch_kind_of_def)
qed simp

lemma backtest_from_total:
  "(\<forall>t\<in>set ts. wm_step m (tr_state_before t) (tr_action t) \<noteq> None) \<Longrightarrow> backtest_from m ts r \<noteq> None"
  by (induction ts arbitrary: r) auto

lemma filter_partition_length:
  "length (filter (\<lambda>t. P t \<and> \<not> Q t) ts) + length (filter (\<lambda>t. P t \<and> Q t) ts) +
   length (filter (\<lambda>t. \<not> P t) ts) = length ts"
  by (induction ts) auto

lemma run_backtest_report:
  assumes "run_backtest m line = Some r"
  shows "br_total r = length (tl_records line)"
    and "br_exact r = length (filter (\<lambda>t. matches m t \<and> \<not> transition_terminal t) (tl_records line))"
    and "br_skipped r = length (filter (\<lambda>t. matches m t \<and> transition_terminal t) (tl_records line))"
    and "map (\<lambda>x. (mm_index x, mm_kind x)) (br_mismatches r) =
       map (\<lambda>t. (tr_index t, mismatch_kind_of m t)) (filter (\<lambda>t. \<not> matches m t) (tl_records line))"
  using backtest_from_report [OF assms [unfolded run_backtest_def]]
  by (simp_all add: timeline_len_def)

lemma mismatches_empty_iff:
  assumes "run_backtest m line = Some r"
  shows "br_mismatches r = [] \<longleftrightarrow> (\<forall>t\<in>set (tl_records line). matches m t)"
  using arg_cong [OF run_backtest_report(4) [OF assms], of length]
  by (auto simp: filter_empty_conv)

lemma green_iff:
  assumes "run_backtest m line = Some r"
  shows "green r \<longleftrightarrow> tl_records line \<noteq> [] \<and> (\<forall>t\<in>set (tl_records line). matches m t)"
  using mismatches_empty_iff [OF assms] run_backtest_report(1) [OF assms] by (auto simp: green_def)

section \<open>The timeline\<close>

text \<open>The records are numbered by their position.\<close>

definition timeline_ok :: "timeline \<Rightarrow> bool" where
  "timeline_ok line \<longleftrightarrow> map tr_index (tl_records line) = [0..<length (tl_records line)]"

lemma timeline_ok_new [simp]: "timeline_ok timeline_new"
  by (simp add: timeline_ok_def timeline_new_def)

lemma append_transition_records [simp]:
  "tl_records (fst (append_transition b a g l d w line)) =
     tl_records line @ [snd (append_transition b a g l d w line)]"
  by (simp add: append_transition_def Let_def)

lemma timeline_ok_append [simp]:
  "timeline_ok line \<Longrightarrow> timeline_ok (fst (append_transition b a g l d w line))"
  by (simp add: timeline_ok_def append_transition_def Let_def)

lemma append_transition_fields [simp]:
  "tr_state_before (snd (append_transition b a g l d w line)) = b"
  "tr_action (snd (append_transition b a g l d w line)) = a"
  "tr_state_after (snd (append_transition b a g l d w line)) = g"
  "tr_level_up (snd (append_transition b a g l d w line)) = l"
  "tr_dead (snd (append_transition b a g l d w line)) = d"
  "tr_win (snd (append_transition b a g l d w line)) = w"
  by (simp_all add: append_transition_def Let_def)

text \<open>Consecutive records: each starts in the state the previous one ended in.\<close>

fun chained :: "grid \<Rightarrow> transition list \<Rightarrow> bool" where
  "chained g [] = True"
| "chained g (t # ts) = (tr_state_before t = g \<and> chained (tr_state_after t) ts)"

definition end_state :: "grid \<Rightarrow> transition list \<Rightarrow> grid" where
  "end_state g ts = (if ts = [] then g else tr_state_after (last ts))"

text \<open>A transition that an environment produced.\<close>

definition genuine :: "'e environment \<Rightarrow> transition \<Rightarrow> bool" where
  "genuine E t \<longleftrightarrow>
     (\<exists>e e' obs. en_step E e (tr_action t) = Some (e', obs) \<and> tr_state_after t = ob_grid obs \<and>
        tr_level_up t = ob_level_up obs \<and> tr_dead t = ob_dead obs \<and> tr_win t = ob_win obs)"

section \<open>The executor\<close>

definition commit_post ::
  "'e environment \<Rightarrow> world_model \<Rightarrow> grid \<Rightarrow> transition list \<Rightarrow> execution_report \<Rightarrow> bool" where
  "commit_post E m g new r \<longleftrightarrow>
     map tr_action new = er_executed r \<and> chained g new \<and> er_final_state r = end_state g new \<and>
     (\<forall>t\<in>set new. genuine E t) \<and>
     (\<forall>t\<in>set (butlast new). matches m t \<and> \<not> transition_terminal t) \<and>
     er_mispredictions r = (if new \<noteq> [] \<and> \<not> matches m (last new) then 1 else 0) \<and>
     er_counterexample r = (if new \<noteq> [] \<and> \<not> matches m (last new) then Some (last new) else None) \<and>
     (er_discarded r \<noteq> [] \<longrightarrow> new \<noteq> [] \<and> (\<not> matches m (last new) \<or> transition_terminal (last new))) \<and>
     (er_win r \<longrightarrow> new \<noteq> [] \<and> tr_win (last new)) \<and>
     (er_dead r \<longrightarrow> new \<noteq> [] \<and> tr_dead (last new)) \<and>
     (new \<noteq> [] \<and> tr_win (last new) \<longrightarrow> er_win r) \<and>
     (new \<noteq> [] \<and> tr_dead (last new) \<longrightarrow> er_dead r)"

lemma commit_post_cons:
  assumes "commit_post E m (tr_state_after t) new (r\<lparr>er_executed := dn\<rparr>)"
    and "matches m t" "\<not> transition_terminal t" "genuine E t" "tr_state_before t = g" "tr_action t = a"
  shows "commit_post E m g (t # new) (r\<lparr>er_executed := a # dn\<rparr>)"
  using assms by (cases "new = []") (simp_all add: commit_post_def end_state_def transition_terminal_def)

lemma commit_from_contract:
  assumes "commit_from E m plan i rest e line g ex = Some (e', line', r)"
  shows "\<exists>new. tl_records line' = tl_records line @ new
    \<and> (timeline_ok line \<longrightarrow> timeline_ok line')
    \<and> er_committed r = plan \<and> er_executed r @ er_discarded r = ex @ rest
    \<and> (\<exists>dn. er_executed r = ex @ dn \<and> commit_post E m g new (r\<lparr>er_executed := dn\<rparr>))"
  using assms
proof (induction rest arbitrary: i e line g ex)
  case Nil
  then show ?case
    by (auto simp: commit_post_def end_state_def)
next
  case (Cons a rest)
  from Cons.prems obtain pred e1 obs where st: "wm_step m g a = Some pred" and en: "en_step E e a = Some (e1, obs)"
    by (auto split: Option.bind_splits)
  define app where "app = append_transition g a (ob_grid obs) (ob_level_up obs) (ob_dead obs) (ob_win obs) line"
  obtain line1 t where app': "app = (line1, t)"
    by (cases app)
  have t: "tr_state_before t = g" "tr_action t = a" "tr_state_after t = ob_grid obs"
    "tr_level_up t = ob_level_up obs" "tr_dead t = ob_dead obs" "tr_win t = ob_win obs"
    using app' by (auto simp: app_def append_transition_def Let_def)
  have rec: "tl_records line1 = tl_records line @ [t]"
    and ok1: "timeline_ok line \<Longrightarrow> timeline_ok line1"
    using append_transition_records timeline_ok_append app' unfolding app_def by (metis fst_conv snd_conv)+
  have gen: "genuine E t"
    unfolding genuine_def using en t by metis
  have mt: "matches m t \<longleftrightarrow> flags_ok pred t \<and> (transition_terminal t \<or> pr_grid pred = ob_grid obs)"
    using st t by (simp add: matches_def)
  show ?case
  proof (cases "\<not> matches m t \<or> transition_terminal t")
    case True
    with Cons.prems st en app' mt have r: "line' = line1" "er_committed r = plan" "er_executed r = ex @ [a]"
        "er_discarded r = rest" "er_mispredictions r = (if matches m t then 0 else 1)"
        "er_counterexample r = (if matches m t then None else Some t)" "er_final_state r = ob_grid obs"
        "er_win r = ob_win obs" "er_dead r = ob_dead obs"
      by (auto simp: app_def Let_def split: if_splits)
    show ?thesis
      by (rule exI [of _ "[t]"]) (use r t rec ok1 gen True in \<open>auto simp: commit_post_def end_state_def\<close>)
  next
    case False
    with Cons.prems st en app' mt have run:
      "commit_from E m plan (i + 1) rest e1 line1 (ob_grid obs) (ex @ [a]) = Some (e', line', r)"
      by (auto simp: app_def Let_def split: if_splits)
    from Cons.IH [OF run] obtain new dn where n: "tl_records line' = tl_records line1 @ new"
      "timeline_ok line1 \<longrightarrow> timeline_ok line'" "er_committed r = plan"
      "er_executed r @ er_discarded r = (ex @ [a]) @ rest" "er_executed r = (ex @ [a]) @ dn"
      "commit_post E m (ob_grid obs) new (r\<lparr>er_executed := dn\<rparr>)"
      by auto
    show ?thesis
      by (rule exI [of _ "t # new"], intro conjI exI [of _ "a # dn"])
        (use n rec ok1 t gen False commit_post_cons [where E = E and m = m and t = t and new = new and r = r and dn = dn and g = g and a = a] in simp_all)
  qed
qed

end
