(* ===== verification/Schema_Grid.thy ===== *)
theory Schema_Grid
  imports Schema_Executor
begin

text \<open>
  Grids as maps from positions to colors, and the interpreter of rule programs on rectangular grids:
  it never indexes out of bounds and keeps the shape of the grid, so a rule program gives a model on
  which backtesting and planning cannot panic.
\<close>

section \<open>Cells\<close>

abbreviation shape :: "grid \<Rightarrow> nat list" where
  "shape g \<equiv> map length g"

definition rect :: "grid \<Rightarrow> bool" where
  "rect g \<longleftrightarrow> list_all (\<lambda>n. n = hd (shape g)) (shape g)"

lemma rect_shape: "shape g' = shape g \<Longrightarrow> rect g' = rect g"
  by (simp add: rect_def)

definition inside :: "nat list \<Rightarrow> nat \<Rightarrow> nat \<Rightarrow> bool" where
  "inside ns x y \<longleftrightarrow> y < length ns \<and> x < ns ! y"

lemma cell_None_iff: "cell g x y = None \<longleftrightarrow> \<not> inside (shape g) x y"
  by (auto simp: cell_def inside_def)

lemma cell_Some_inside: "cell g x y = Some c \<Longrightarrow> inside (shape g) x y"
  using cell_None_iff [of g x y] by simp

lemma rect_row: "rect g \<Longrightarrow> y < length g \<Longrightarrow> length (g ! y) = length (g ! 0)"
  by (cases g; cases y) (auto simp: rect_def list_all_iff)

lemma set_cell_ok: "set_cell x y c g = None \<longleftrightarrow> cell g x y = None"
  by (simp add: set_cell_def cell_def)

lemma set_cell_shape: "set_cell x y c g = Some g' \<Longrightarrow> shape g' = shape g"
  by (auto simp: set_cell_def map_update list_update_same_conv split: if_splits)

lemma cell_set_cell:
  "set_cell x y c g = Some g' \<Longrightarrow> cell g' x' y' = (if x' = x \<and> y' = y then Some c else cell g x' y')"
  by (auto simp: set_cell_def cell_def nth_list_update split: if_splits)

lemma in_bounds_iff: "rect g \<Longrightarrow> in_bounds g x y \<longleftrightarrow> 0 \<le> x \<and> 0 \<le> y \<and> inside (shape g) (nat x) (nat y)"
  using rect_row [of g "nat y"] by (auto simp: in_bounds_def inside_def)

lemma find_in_row_Some: "find_in_row c n r = Some x \<Longrightarrow> n \<le> x \<and> x - n < length r \<and> r ! (x - n) = c"
proof (induction r arbitrary: n)
  case (Cons v r)
  show ?case
  proof (cases "v = c")
    case False
    with Cons.prems Cons.IH [of "n + 1"] have "n + 1 \<le> x" "x - (n + 1) < length r" "r ! (x - (n + 1)) = c"
      by simp_all
    moreover from this(1) have "x - n = Suc (x - (n + 1))"
      by simp
    ultimately show ?thesis
      by simp
  qed (use Cons.prems in simp)
qed simp

lemma find_in_row_None: "find_in_row c n r = None \<longleftrightarrow> c \<notin> set r"
  by (induction r arbitrary: n) auto

lemma find_in_rows_Some:
  "find_in_rows c n g = Some (x, y) \<Longrightarrow> n \<le> y \<and> y - n < length g \<and> x < length (g ! (y - n)) \<and> g ! (y - n) ! x = c"
proof (induction g arbitrary: n)
  case (Cons r g)
  show ?case
  proof (cases "find_in_row c 0 r")
    case None
    with Cons.prems Cons.IH [of "n + 1"] have i: "n + 1 \<le> y" "y - (n + 1) < length g"
      "x < length (g ! (y - (n + 1)))" "g ! (y - (n + 1)) ! x = c"
      by simp_all
    from i(1) have "y - n = Suc (y - (n + 1))"
      by simp
    with i show ?thesis
      by simp
  next
    case (Some z)
    with Cons.prems find_in_row_Some [OF Some] show ?thesis
      by simp
  qed
qed simp

lemma find_in_rows_None: "find_in_rows c n g = None \<longleftrightarrow> (\<forall>r\<in>set g. c \<notin> set r)"
proof (induction g arbitrary: n)
  case (Cons r g)
  then show ?case
    using find_in_row_None [of c 0 r] by (cases "find_in_row c 0 r") auto
qed simp

lemma player_cell: "player g = Some (x, y) \<Longrightarrow> cell g x y = Some 1"
  using find_in_rows_Some [of 1 0 g x y] by (simp add: player_def cell_def)

lemma cell_in_set: "cell g x y = Some c \<Longrightarrow> \<exists>r\<in>set g. c \<in> set r"
  by (auto simp: cell_def split: if_splits) (metis nth_mem)

lemma player_exists: "cell g x y = Some 1 \<Longrightarrow> \<exists>p. player g = Some p"
  using cell_in_set [of g x y 1] find_in_rows_None [of 1 0 g] by (auto simp: player_def)

section \<open>Rule programs on rectangular grids\<close>

text \<open>A computation that does not panic and keeps the shape of the grid.\<close>

definition keeps :: "grid \<Rightarrow> grid option \<Rightarrow> bool" where
  "keeps g res \<longleftrightarrow> (\<exists>g'. res = Some g' \<and> shape g' = shape g)"

lemma keeps_set_cell: "inside (shape g) x y \<Longrightarrow> keeps g (set_cell x y c g)"
  using set_cell_ok [of x y c g] cell_None_iff [of g x y] set_cell_shape by (auto simp: keeps_def)

lemma keeps_bind:
  "keeps g res \<Longrightarrow> (\<And>g'. shape g' = shape g \<Longrightarrow> keeps g' (f g')) \<Longrightarrow> keeps g (Option.bind res f)"
  by (fastforce simp: keeps_def)

lemma keeps_apply_writes: "rect g \<Longrightarrow> keeps g (apply_writes ws g)"
proof (induction ws arbitrary: g)
  case (Cons w ws)
  show ?case
  proof (cases "cw_y w < length g \<and> cw_x w < length (g ! 0)")
    case True
    then have i: "inside (shape g) (cw_x w) (cw_y w)"
      using rect_row [OF Cons.prems] by (simp add: inside_def)
    have "keeps g (Option.bind (set_cell (cw_x w) (cw_y w) (cw_color w) g) (apply_writes ws))"
      by (rule keeps_bind [OF keeps_set_cell [OF i] Cons.IH]) (use Cons.prems in \<open>simp add: rect_def\<close>)
    with True show ?thesis
      by simp
  qed (use Cons in auto)
qed (simp add: keeps_def)

lemma apply_move_keeps:
  assumes r: "rect g" and p: "inside (shape g) px py" and t: "inside (shape g) tx ty"
  shows "apply_move g px py tx ty dx dy b eff = Some (Inl ()) \<or>
    (\<exists>g' d. apply_move g px py tx ty dx dy b eff = Some (Inr (g', d)) \<and> shape g' = shape g)"
proof -
  have push: "keeps g (do { g1 \<leftarrow> set_cell (nat (int tx + dx)) (nat (int ty + dy)) c g;
      g2 \<leftarrow> set_cell tx ty 1 g1; set_cell px py 0 g2 })" if "in_bounds g (int tx + dx) (int ty + dy)" for c
    by (rule keeps_bind [OF keeps_set_cell keeps_bind [OF keeps_set_cell keeps_set_cell]])
      (use that r p t in \<open>simp_all add: in_bounds_iff\<close>)
  have adv: "keeps g (do { g1 \<leftarrow> set_cell px py 0 g; set_cell tx ty 1 g1 })"
    by (rule keeps_bind [OF keeps_set_cell keeps_set_cell]) (use p t in simp_all)
  obtain c where c: "cell g tx ty = Some c"
    using t cell_None_iff [of g tx ty] by blast
  show ?thesis
    using push [of c] adv c
    by (auto simp: apply_move_def keeps_def Let_def bind_eq_Some_conv)
qed

lemma apply_effect_keeps:
  assumes "rect g" "inside (shape g) px py" "inside (shape g) tx ty"
  shows "\<exists>pred. apply_effect g px py tx ty dx dy b eff = Some pred \<and> shape (pr_grid pred) = shape g"
  using apply_move_keeps [OF assms, of dx dy b eff]
proof
  assume "apply_move g px py tx ty dx dy b eff = Some (Inl ())"
  then show ?thesis
    by (simp add: apply_effect_def prediction_of_def)
next
  assume "\<exists>g' d. apply_move g px py tx ty dx dy b eff = Some (Inr (g', d)) \<and> shape g' = shape g"
  then obtain g' d where m: "apply_move g px py tx ty dx dy b eff = Some (Inr (g', d))" "shape g' = shape g"
    by blast
  obtain g'' where "apply_writes (ef_writes eff) g' = Some g''" "shape g'' = shape g'"
    using keeps_apply_writes [of g' "ef_writes eff"] assms(1) rect_shape [OF m(2)] by (auto simp: keeps_def)
  with m show ?thesis
    by (simp add: apply_effect_def)
qed

lemma run_rules_keeps:
  assumes "rect g" "inside (shape g) px py" "inside (shape g) tx ty"
  shows "\<exists>pred. run_rules rs g px py tx ty dx dy v = Some pred \<and> shape (pr_grid pred) = shape g"
proof (induction rs)
  case (Cons r rs)
  have "beyond_cell g x y \<noteq> None" for x y
    using cell_None_iff [of g "nat x" "nat y"] by (auto simp: beyond_cell_def in_bounds_iff [OF assms(1)])
  then obtain b where "beyond_cell g (int tx + dx) (int ty + dy) = Some b"
    by blast
  then show ?case
    using Cons.IH apply_effect_keeps [OF assms] by simp
qed (simp add: prediction_of_def)

lemma program_step_keeps:
  assumes "rect g"
  shows "\<exists>pred. program_step p g a = Some pred \<and> shape (pr_grid pred) = shape g"
proof (cases "player g")
  case (Some q)
  obtain px py where q: "q = (px, py)"
    by (cases q)
  obtain dx dy where d: "delta a = (dx, dy)"
    by (cases "delta a")
  have pc: "inside (shape g) px py"
    using player_cell [of g px py] Some q cell_Some_inside by blast
  show ?thesis
  proof (cases "in_bounds g (int px + dx) (int py + dy)")
    case True
    with assms have t: "inside (shape g) (nat (int px + dx)) (nat (int py + dy))"
      by (simp add: in_bounds_iff)
    then obtain c where "cell g (nat (int px + dx)) (nat (int py + dy)) = Some c"
      using cell_None_iff by blast
    then show ?thesis
      using run_rules_keeps [OF assms pc t] True Some q d by (simp add: program_step_def)
  next
    case False
    with Some q d show ?thesis
      by (simp add: program_step_def prediction_of_def)
  qed
qed (simp add: program_step_def prediction_of_def)

lemma program_model_closed:
  assumes "wm_step m = program_step p" "rect g"
  shows "model_closed m acts {g'. shape g' = shape g}"
  unfolding model_closed_def
proof (intro ballI)
  fix t a
  assume "t \<in> {g'. shape g' = shape g}"
  then have "shape t = shape g"
    by simp
  with program_step_keeps [of t p a] assms rect_shape [of t g]
  show "\<exists>pred. wm_step m t a = Some pred \<and> (pr_dead pred \<or> pr_grid pred \<in> {g'. shape g' = shape g})"
    by auto
qed

end
