(* ===== verification/Schema_Envs.thy ===== *)
theory Schema_Envs
  imports Schema_Grid
begin

text \<open>
  The demo environments of the Schema harness (\<open>crates/schema/src/envs.rs\<close>) and the two interfaces
  the harness relies on: an environment counts the actions taken in it, and a model is faithful to an
  environment when it predicts every observation. Both are interpreted on \<open>ToggleMaze\<close> and
  \<open>CartDock\<close>, whose hidden rules are each written as a rule program.
\<close>

section \<open>The environments\<close>

definition env_actions :: "string list" where
  "env_actions = [''up'', ''down'', ''left'', ''right'']"

definition env_delta :: "string \<Rightarrow> int \<times> int" where
  "env_delta action =
     (if action = ''up'' then (0, -1) else if action = ''down'' then (0, 1)
      else if action = ''left'' then (-1, 0) else if action = ''right'' then (1, 0) else (0, 0))"

fun color_row :: "u8 \<Rightarrow> nat \<Rightarrow> nat \<Rightarrow> u8 list \<Rightarrow> (nat \<times> nat) list" where
  "color_row c y x [] = []"
| "color_row c y x (v # vs) = (if v = c then [(x, y)] else []) @ color_row c y (x + 1) vs"

fun color_rows :: "u8 \<Rightarrow> nat \<Rightarrow> grid \<Rightarrow> (nat \<times> nat) list" where
  "color_rows c y [] = []"
| "color_rows c y (row # rows) = color_row c y 0 row @ color_rows c (y + 1) rows"

definition find_color :: "grid \<Rightarrow> u8 \<Rightarrow> (nat \<times> nat) list" where
  "find_color g color = color_rows color 0 g"

text \<open>\<open>find_color(grid, 1)[0]\<close>: a grid without a player is a panic.\<close>

definition env_player :: "grid \<Rightarrow> (nat \<times> nat) option" where
  "env_player g = (case find_color g 1 of [] \<Rightarrow> None | p # _ \<Rightarrow> Some p)"

text \<open>Indexing with \<open>(p as i32 + d) as usize\<close>: a negative sum is a huge index, a panic.\<close>

definition cell_at :: "grid \<Rightarrow> int \<Rightarrow> int \<Rightarrow> u8 option" where
  "cell_at g x y = (if 0 \<le> x \<and> 0 \<le> y then cell g (nat x) (nat y) else None)"

definition target_of :: "grid \<Rightarrow> string \<Rightarrow> (nat \<times> nat \<times> int \<times> int) option" where
  "target_of g action =
     map_option (\<lambda>(px, py). case env_delta action of (dx, dy) \<Rightarrow> (px, py, int px + dx, int py + dy)) (env_player g)"

record game =
  gm_grid :: grid
  gm_actions_taken :: nat

text \<open>\<open>g[py][px] = 0; g[ty][tx] = 1\<close>\<close>

definition moved :: "grid \<Rightarrow> nat \<Rightarrow> nat \<Rightarrow> nat \<Rightarrow> nat \<Rightarrow> grid option" where
  "moved g px py tx ty = Option.bind (set_cell px py 0 g) (set_cell tx ty 1)"

definition game_after :: "game \<Rightarrow> grid \<Rightarrow> game" where
  "game_after e g = \<lparr>gm_grid = g, gm_actions_taken = gm_actions_taken e + 1\<rparr>"

definition game_reset :: "grid \<Rightarrow> game \<Rightarrow> game \<times> observation" where
  "game_reset layout e = (e\<lparr>gm_grid := layout\<rparr>, observation_of layout)"

definition toggle_layout :: grid where
  "toggle_layout = [[5, 5, 5, 5, 5, 5, 5], [5, 1, 0, 7, 0, 3, 5], [5, 5, 5, 5, 5, 5, 5]]"

definition toggle_new :: game where
  "toggle_new = \<lparr>gm_grid = toggle_layout, gm_actions_taken = 0\<rparr>"

definition toggle_step :: "game \<Rightarrow> string \<Rightarrow> (game \<times> observation) option" where
  "toggle_step e action = do {
     (px, py, tx, ty) \<leftarrow> target_of (gm_grid e) action;
     v \<leftarrow> cell_at (gm_grid e) tx ty;
     (if v = 0 \<or> v = 7 then
        map_option (\<lambda>g. (game_after e g, observation_of g)) (moved (gm_grid e) px py (nat tx) (nat ty))
      else if v = 3 then
        map_option (\<lambda>g. (game_after e g, observation_win g)) (moved (gm_grid e) px py (nat tx) (nat ty))
      else Some (game_after e (gm_grid e), observation_of (gm_grid e)))
   }"

definition toggle_maze :: "game environment" where
  "toggle_maze =
     \<lparr>en_reset = game_reset toggle_layout, en_step = toggle_step, en_actions_taken = gm_actions_taken,
      en_legal_actions = (\<lambda>_. env_actions)\<rparr>"

definition cart_layout :: grid where
  "cart_layout =
     [[5, 5, 5, 5, 5, 5, 5], [5, 1, 0, 4, 0, 6, 5], [5, 5, 5, 5, 5, 5, 5], [5, 5, 5, 3, 5, 5, 5],
      [5, 5, 5, 5, 5, 5, 5]]"

definition cart_gate :: "nat \<times> nat" where
  "cart_gate = (3, 2)"

definition cart_new :: game where
  "cart_new = \<lparr>gm_grid = cart_layout, gm_actions_taken = 0\<rparr>"

text \<open>The push: the cart one cell on, and the gate opened when it lands on the dock.\<close>

definition cart_push :: "grid \<Rightarrow> nat \<Rightarrow> nat \<Rightarrow> int \<Rightarrow> int \<Rightarrow> int \<Rightarrow> int \<Rightarrow> grid option" where
  "cart_push g px py tx ty dx dy = do {
     beyond \<leftarrow> cell_at g (tx + dx) (ty + dy);
     (if beyond = 0 \<or> beyond = 6 then do {
        g1 \<leftarrow> set_cell (nat (tx + dx)) (nat (ty + dy)) 4 g;
        g2 \<leftarrow> set_cell (nat tx) (nat ty) 1 g1;
        g3 \<leftarrow> set_cell px py 0 g2;
        (if beyond = 6 then set_cell (fst cart_gate) (snd cart_gate) 0 g3 else Some g3)
      } else Some g)
   }"

definition cart_step :: "game \<Rightarrow> string \<Rightarrow> (game \<times> observation) option" where
  "cart_step e action = do {
     (px, py, tx, ty) \<leftarrow> target_of (gm_grid e) action;
     let (dx, dy) = env_delta action;
     v \<leftarrow> cell_at (gm_grid e) tx ty;
     (if v = 0 then
        map_option (\<lambda>g. (game_after e g, observation_of g)) (moved (gm_grid e) px py (nat tx) (nat ty))
      else if v = 3 then
        map_option (\<lambda>g. (game_after e g, observation_win g)) (moved (gm_grid e) px py (nat tx) (nat ty))
      else if v = 4 then
        map_option (\<lambda>g. (game_after e g, observation_of g)) (cart_push (gm_grid e) px py tx ty dx dy)
      else Some (game_after e (gm_grid e), observation_of (gm_grid e)))
   }"

definition cart_dock :: "game environment" where
  "cart_dock =
     \<lparr>en_reset = game_reset cart_layout, en_step = cart_step, en_actions_taken = gm_actions_taken,
      en_legal_actions = (\<lambda>_. env_actions)\<rparr>"

section \<open>Interfaces\<close>

locale counting_environment =
  fixes E :: "'e environment"
  assumes step_counts: "en_step E e a = Some (e', obs) \<Longrightarrow> en_actions_taken E e' = Suc (en_actions_taken E e)"
    and reset_keeps: "en_actions_taken E (fst (en_reset E e)) = en_actions_taken E e"
begin

lemma commit_counts:
  "commit_from E m plan i rest e line g ex = Some (e', line', r) \<Longrightarrow>
   en_actions_taken E e' + length (tl_records line) = en_actions_taken E e + length (tl_records line')"
proof (induction rest arbitrary: i e line g ex)
  case (Cons a rest)
  from Cons.prems obtain pred e1 obs where st: "wm_step m g a = Some pred" and en: "en_step E e a = Some (e1, obs)"
    by (auto split: Option.bind_splits)
  obtain line1 t where app:
    "append_transition g a (ob_grid obs) (ob_level_up obs) (ob_dead obs) (ob_win obs) line = (line1, t)"
    by fastforce
  have "length (tl_records line1) = Suc (length (tl_records line))"
    using append_transition_records [of g a "ob_grid obs" "ob_level_up obs" "ob_dead obs" "ob_win obs" line]
    by (simp add: app)
  moreover have "e' = e1 \<and> line' = line1 \<or>
      commit_from E m plan (i + 1) rest e1 line1 (ob_grid obs) (ex @ [a]) = Some (e', line', r)"
    using Cons.prems st en app by (auto simp: Let_def split: if_splits)
  ultimately show ?case
    using step_counts [OF en] Cons.IH [of "i + 1" e1 line1 "ob_grid obs" "ex @ [a]"] by auto
qed simp

end

text \<open>The goal a sequence of actions reaches in the environment, with its last action.\<close>

fun env_goal :: "'e environment \<Rightarrow> 'e \<Rightarrow> string list \<Rightarrow> goal_via option" where
  "env_goal E e [] = None"
| "env_goal E e (a # as) =
     Option.bind (en_step E e a) (\<lambda>(e', obs).
       if ob_dead obs then None
       else if ob_win obs then (if as = [] then Some ViaWin else None)
       else if ob_level_up obs then (if as = [] then Some ViaLevelUp else None)
       else env_goal E e' as)"

text \<open>A prediction and an observation that agree.\<close>

definition agrees :: "prediction \<Rightarrow> observation \<Rightarrow> bool" where
  "agrees pred obs \<longleftrightarrow>
     pr_grid pred = ob_grid obs \<and> pr_level_up pred = ob_level_up obs \<and> pr_dead pred = ob_dead obs \<and>
     pr_win pred = ob_win obs"

locale faithful_model =
  fixes E :: "'e environment" and m :: world_model and R :: "'e \<Rightarrow> grid \<Rightarrow> bool" and acts :: "string list"
  assumes faithful: "R e g \<Longrightarrow> a \<in> set acts \<Longrightarrow>
      \<exists>e' obs pred. en_step E e a = Some (e', obs) \<and> wm_step m g a = Some pred \<and> agrees pred obs \<and> R e' (ob_grid obs)"
    and no_goal_states: "\<not> wm_is_goal m g"
begin

lemma goals_agree:
  "R e g \<Longrightarrow> set q \<subseteq> set acts \<Longrightarrow> leads_to m g q = env_goal E e q"
proof (induction q arbitrary: e g)
  case (Cons a q)
  then obtain e' obs pred where s: "en_step E e a = Some (e', obs)" "wm_step m g a = Some pred"
      "agrees pred obs" "R e' (ob_grid obs)"
    using faithful [of e g a] by auto
  with Cons.IH [OF s(4)] Cons.prems show ?case
    by (auto simp: reaches_def agrees_def no_goal_states)
qed (simp add: no_goal_states)

lemma plan_executes:
  "R e g \<Longrightarrow> set q \<subseteq> set acts \<Longrightarrow> leads_to m g q = Some via \<Longrightarrow>
   \<exists>e' line' r. commit_from E m plan i q e line g ex = Some (e', line', r) \<and> er_mispredictions r = 0 \<and>
     er_executed r = ex @ q \<and> er_discarded r = [] \<and> er_win r = (via = ViaWin) \<and>
     (via = ViaLevelUp \<longrightarrow> er_level_up r) \<and> \<not> er_dead r"
proof (induction q arbitrary: e g i line ex)
  case (Cons a q)
  then obtain e' obs pred where s: "en_step E e a = Some (e', obs)" "wm_step m g a = Some pred"
      "agrees pred obs" "R e' (ob_grid obs)"
    using faithful [of e g a] by auto
  show ?case
  proof (cases "reaches m pred")
    case None
    with Cons.prems s have nt: "\<not> ob_dead obs" "\<not> ob_win obs" "\<not> ob_level_up obs"
      and l: "leads_to m (ob_grid obs) q = Some via"
      by (auto simp: reaches_def agrees_def split: if_splits)
    from Cons.IH [OF s(4) _ l, of "i + 1"
        "fst (append_transition g a (ob_grid obs) False False False line)" "ex @ [a]"] Cons.prems(2) s nt
    show ?thesis
      by (auto simp: agrees_def flags_ok_def append_transition_def transition_terminal_def Let_def)
  next
    case (Some v)
    with Cons.prems s have "q = []" "v = via"
      by (auto split: if_splits)
    with Some s show ?thesis
      by (auto simp: reaches_def agrees_def flags_ok_def append_transition_def transition_terminal_def Let_def
          no_goal_states split: if_splits)
  qed
qed (simp add: no_goal_states)

end

end
