(* ===== verification/Schema_Agent.thy ===== *)
theory Schema_Agent
  imports Schema_Envs
begin

text \<open>
  The outer loop of the Schema harness (\<open>crates/schema/src/agent.rs\<close>): what one cycle does and what
  holds of a whole run. The timeline is only appended to, with real transitions; a win is a win
  that was observed; a plan is only asked for, and tagged as one, under a model that explains the
  whole history.
\<close>

section \<open>One commit\<close>

lemma commit_actions_contract:
  assumes "commit_actions E e m line g plan = Some (e', line', r)"
  shows "\<exists>new. tl_records line' = tl_records line @ new \<and> (timeline_ok line \<longrightarrow> timeline_ok line') \<and>
    er_committed r = plan \<and> er_executed r @ er_discarded r = plan \<and> commit_post E m g new r"
proof -
  from commit_from_contract [OF assms [unfolded commit_actions_def]] obtain new dn where
    n: "tl_records line' = tl_records line @ new" "timeline_ok line \<longrightarrow> timeline_ok line'"
      "er_committed r = plan" "er_executed r @ er_discarded r = [] @ plan" "er_executed r = [] @ dn"
      "commit_post E m g new (r\<lparr>er_executed := dn\<rparr>)"
    by blast
  have "dn = er_executed r"
    using n(5) by simp
  then have e: "r\<lparr>er_executed := dn\<rparr> = r"
    by simp
  show ?thesis
    using n(1-4) n(6) [unfolded e] by (intro exI [of _ new]) simp
qed

lemma commit_postD:
  "commit_post E m g new r \<Longrightarrow> map tr_action new = er_executed r"
  "commit_post E m g new r \<Longrightarrow> chained g new"
  "commit_post E m g new r \<Longrightarrow> er_final_state r = end_state g new"
  "commit_post E m g new r \<Longrightarrow> \<forall>t\<in>set new. genuine E t"
  "commit_post E m g new r \<Longrightarrow> \<forall>t\<in>set (butlast new). matches m t \<and> \<not> transition_terminal t"
  "commit_post E m g new r \<Longrightarrow> er_mispredictions r = (if new \<noteq> [] \<and> \<not> matches m (last new) then 1 else 0)"
  "commit_post E m g new r \<Longrightarrow>
     er_counterexample r = (if new \<noteq> [] \<and> \<not> matches m (last new) then Some (last new) else None)"
  "commit_post E m g new r \<Longrightarrow>
     er_discarded r \<noteq> [] \<longrightarrow> new \<noteq> [] \<and> (\<not> matches m (last new) \<or> transition_terminal (last new))"
  unfolding commit_post_def by (elim conjE, assumption)+

lemma commit_post_halted: "commit_post E m g new r \<Longrightarrow> halted r \<longleftrightarrow> new \<noteq> [] \<and> \<not> matches m (last new)"
  by (simp add: halted_def commit_postD(6))

lemma commit_post_dead: "commit_post E m g new r \<Longrightarrow> er_dead r \<longleftrightarrow> new \<noteq> [] \<and> tr_dead (last new)"
  unfolding commit_post_def by blast

lemma commit_post_win: "commit_post E m g new r \<Longrightarrow> er_win r \<longleftrightarrow> new \<noteq> [] \<and> tr_win (last new)"
  unfolding commit_post_def by blast

lemma commit_post_no_early_win: "commit_post E m g new r \<Longrightarrow> t \<in> set (butlast new) \<Longrightarrow> \<not> tr_win t"
  unfolding commit_post_def transition_terminal_def by blast

section \<open>The backtest gate\<close>

lemma gate_cases:
  assumes "backtest_gate legal m line cur d = Some (d', bfs)"
  obtains (none) "de_intent d \<noteq> Plan \<and> d' = d \<and> bfs = None"
  | (held) r where "de_intent d = Plan" "run_backtest m line = Some r" "\<not> green r" "tl_records line \<noteq> []"
      "d' = d\<lparr>de_intent := Experiment\<rparr>" "bfs = None"
  | (go) r b where "de_intent d = Plan" "run_backtest m line = Some r" "green r \<or> tl_records line = []"
      "run_bfs m cur legal planning_nodes = Some b" "bfs = Some b" "de_intent d' = Plan"
      "de_actions d' = the_default (de_actions d) (bf_plan b)"
  using assms
  by (auto simp: backtest_gate_def timeline_is_empty_def the_default_def split: if_splits Option.bind_splits option.splits)

lemma gate_certified:
  assumes "backtest_gate legal m line cur d = Some (d', bfs)"
  shows "(de_intent d' = Plan \<longleftrightarrow> de_intent d = Plan \<and> (\<forall>t\<in>set (tl_records line). matches m t)) \<and>
    (bfs \<noteq> None \<longleftrightarrow> de_intent d' = Plan)"
  using assms
  by (cases rule: gate_cases) (auto simp: green_iff)

section \<open>One cycle\<close>

definition appended :: "('e, 'd) loop_state \<Rightarrow> ('e, 'd) loop_state \<Rightarrow> transition list \<Rightarrow> bool" where
  "appended s s' new \<longleftrightarrow>
     tl_records (ag_timeline (ls_agent s')) = tl_records (ag_timeline (ls_agent s)) @ new \<and>
     (timeline_ok (ag_timeline (ls_agent s)) \<longrightarrow> timeline_ok (ag_timeline (ls_agent s')))"

lemma deliberate_turn_frame:
  assumes "deliberate_turn D s = Some (s1, delib)"
  shows "ag_timeline (ls_agent s1) = ag_timeline (ls_agent s)" "ag_env (ls_agent s1) = ag_env (ls_agent s)"
    "ls_current s1 = ls_current s" "ls_counterexample s1 = None" "ls_done s1 = ls_done s"
    "lg_won (ls_log s1) = lg_won (ls_log s)" "lg_bfs_reports (ls_log s1) = lg_bfs_reports (ls_log s)"
    "lg_executions (ls_log s1) = lg_executions (ls_log s)"
    "length (lg_backtests (ls_log s1)) = Suc (length (lg_backtests (ls_log s)))"
    "ag_max_cycles (ls_agent s1) = ag_max_cycles (ls_agent s)"
  using assms by (auto simp: deliberate_turn_def Let_def split: Option.bind_splits prod.splits)

lemma execute_turn_frame:
  assumes "execute_turn E s delib = Some s'"
  obtains e' line' r where
    "commit_actions E (ag_env (ls_agent s)) (ag_model (ls_agent s)) (ag_timeline (ls_agent s)) (ls_current s)
       (de_actions delib) = Some (e', line', r)"
    "ag_timeline (ls_agent s') = line'" "ag_model (ls_agent s') = ag_model (ls_agent s)"
    "ag_env (ls_agent s') = (if er_dead r \<and> \<not> er_win r then fst (en_reset E e') else e')"
    "ls_current s' = (if er_dead r \<and> \<not> er_win r then ob_grid (snd (en_reset E e')) else er_final_state r)"
    "ls_done s' = (er_win r \<or> ls_done s)" "lg_won (ls_log s') = (er_win r \<or> lg_won (ls_log s))"
    "lg_bfs_reports (ls_log s') = lg_bfs_reports (ls_log s)"
    "lg_backtests (ls_log s') = lg_backtests (ls_log s)"
    "lg_executions (ls_log s') = lg_executions (ls_log s) @ [intent_tag (de_intent delib) @ '' '' @ execution_summary r]"
    "ls_counterexample s' = (if halted r \<and> \<not> er_win r \<and> \<not> er_dead r then er_counterexample r else ls_counterexample s)"
  using assms
  by (auto simp: execute_turn_def Let_def split: Option.bind_splits prod.splits if_splits)

text \<open>What a cycle does: a deliberation, the gate, and at most one commit.\<close>

lemma cycle_cases:
  assumes "cycle E D s = Some s'"
  obtains s1 delib delib' bfs s2 where "deliberate_turn D s = Some (s1, delib)"
    "backtest_gate (en_legal_actions E (ag_env (ls_agent s1))) (ag_model (ls_agent s1))
       (ag_timeline (ls_agent s1)) (ls_current s1) delib = Some (delib', bfs)"
    "s2 = s1\<lparr>ls_log := (ls_log s1)\<lparr>lg_bfs_reports := lg_bfs_reports (ls_log s1) @
       (case bfs of None \<Rightarrow> [] | Some b \<Rightarrow> [bfs_summary b])\<rparr>\<rparr>"
    "if de_actions delib' = [] then s' = s2 else execute_turn E s2 delib' = Some s'"
  using assms
  by (auto simp: cycle_def Let_def split: Option.bind_splits prod.splits if_splits)

lemma cycle_appends:
  assumes "cycle E D s = Some s'" "\<not> ls_done s" "\<not> lg_won (ls_log s)"
  shows "\<exists>new. appended s s' new \<and> (\<forall>t\<in>set new. genuine E t) \<and> (\<forall>t\<in>set (butlast new). \<not> tr_win t) \<and>
    (ls_done s' \<longleftrightarrow> new \<noteq> [] \<and> tr_win (last new)) \<and> (lg_won (ls_log s') \<longleftrightarrow> ls_done s') \<and>
    length (lg_backtests (ls_log s')) = Suc (length (lg_backtests (ls_log s)))"
proof -
  from assms(1) obtain s1 delib delib' bfs s2 where c: "deliberate_turn D s = Some (s1, delib)"
    "s2 = s1\<lparr>ls_log := (ls_log s1)\<lparr>lg_bfs_reports := lg_bfs_reports (ls_log s1) @
       (case bfs of None \<Rightarrow> [] | Some b \<Rightarrow> [bfs_summary b])\<rparr>\<rparr>"
    "if de_actions delib' = [] then s' = s2 else execute_turn E s2 delib' = Some s'"
    by (rule cycle_cases)
  note f = deliberate_turn_frame [OF c(1)]
  show ?thesis
  proof (cases "de_actions delib' = []")
    case True
    with c assms f show ?thesis
      by (intro exI [of _ "[]"]) (simp add: appended_def)
  next
    case False
    with c(3) have "execute_turn E s2 delib' = Some s'"
      by simp
    then show ?thesis
    proof (rule execute_turn_frame, goal_cases)
      case (1 e' line' r)
      from commit_actions_contract [OF 1(1)] obtain new where
        n: "tl_records line' = tl_records (ag_timeline (ls_agent s2)) @ new"
        "timeline_ok (ag_timeline (ls_agent s2)) \<longrightarrow> timeline_ok line'"
        "commit_post E (ag_model (ls_agent s2)) (ls_current s2) new r"
        by blast
      have g: "\<forall>t\<in>set new. genuine E t"
        using n(3) by (simp add: commit_post_def)
      show ?case
        by (intro exI [of _ new])
          (use 1 n(1,2) c(2) f assms(2,3) g commit_post_win [OF n(3)] commit_post_no_early_win [OF n(3)] in
            \<open>simp add: appended_def\<close>)
    qed
  qed
qed

section \<open>A whole run\<close>

lemma appended_refl: "appended s s []"
  by (simp add: appended_def)

lemma appended_trans: "appended s s1 new1 \<Longrightarrow> appended s1 s2 new2 \<Longrightarrow> appended s s2 (new1 @ new2)"
  by (simp add: appended_def)

lemma cycles_append:
  assumes "cycles n E D s = Some s'" "\<not> ls_done s" "\<not> lg_won (ls_log s)"
  shows "\<exists>new. appended s s' new \<and> (\<forall>t\<in>set new. genuine E t) \<and> (\<forall>t\<in>set (butlast new). \<not> tr_win t) \<and>
    (lg_won (ls_log s') \<longleftrightarrow> new \<noteq> [] \<and> tr_win (last new)) \<and>
    length (lg_backtests (ls_log s')) \<le> length (lg_backtests (ls_log s)) + n"
  using assms
proof (induction n arbitrary: s)
  case 0
  then show ?case
    by (intro exI [of _ "[]"]) (simp add: appended_refl)
next
  case (Suc n)
  then obtain s1 where s1: "cycle E D s = Some s1" "if ls_done s1 then s' = s1 else cycles n E D s1 = Some s'"
    by (auto split: Option.bind_splits if_splits)
  from cycle_appends [OF s1(1) Suc.prems(2,3)] obtain new1 where n1: "appended s s1 new1"
    "\<forall>t\<in>set new1. genuine E t" "\<forall>t\<in>set (butlast new1). \<not> tr_win t"
    "ls_done s1 \<longleftrightarrow> new1 \<noteq> [] \<and> tr_win (last new1)" "lg_won (ls_log s1) \<longleftrightarrow> ls_done s1"
    "length (lg_backtests (ls_log s1)) = Suc (length (lg_backtests (ls_log s)))"
    by blast
  show ?case
  proof (cases "ls_done s1")
    case True
    with s1 n1 show ?thesis
      by (intro exI [of _ new1]) simp
  next
    case False
    with Suc.IH [of s1] s1 n1 obtain new2 where n2: "appended s1 s' new2" "\<forall>t\<in>set new2. genuine E t"
      "\<forall>t\<in>set (butlast new2). \<not> tr_win t" "lg_won (ls_log s') \<longleftrightarrow> new2 \<noteq> [] \<and> tr_win (last new2)"
      "length (lg_backtests (ls_log s')) \<le> length (lg_backtests (ls_log s1)) + n"
      by auto
    have nw: "\<forall>t\<in>set new1. \<not> tr_win t"
      using n1(3,4) False by (cases new1 rule: rev_cases) auto
    show ?thesis
      by (intro exI [of _ "new1 @ new2"])
        (use n1 n2 nw appended_trans [OF n1(1) n2(1)] in \<open>auto simp: butlast_append dest: in_set_butlastD\<close>)
  qed
qed

lemma agent_run_appends:
  assumes "agent_run E D ag = Some (ag', log)"
  shows "\<exists>new. tl_records (ag_timeline ag') = tl_records (ag_timeline ag) @ new \<and>
    (timeline_ok (ag_timeline ag) \<longrightarrow> timeline_ok (ag_timeline ag')) \<and> (\<forall>t\<in>set new. genuine E t) \<and>
    (\<forall>t\<in>set (butlast new). \<not> tr_win t) \<and> (lg_won log \<longleftrightarrow> new \<noteq> [] \<and> tr_win (last new)) \<and>
    length (lg_backtests log) \<le> ag_max_cycles ag"
proof -
  obtain e obs where r: "en_reset E (ag_env ag) = (e, obs)"
    by fastforce
  define s0 where "s0 = \<lparr>ls_agent = ag\<lparr>ag_env := e\<rparr>, ls_log = log_default, ls_current = ob_grid obs,
       ls_counterexample = None, ls_done = False\<rparr>"
  from assms r obtain s where s: "cycles (ag_max_cycles ag) E D s0 = Some s" "ag' = ls_agent s"
      "lg_won log = lg_won (ls_log s)" "lg_backtests log = lg_backtests (ls_log s)"
    by (auto simp: agent_run_def Let_def s0_def split: Option.bind_splits)
  have "\<not> ls_done s0" "\<not> lg_won (ls_log s0)" "lg_backtests (ls_log s0) = []"
      "ag_timeline (ls_agent s0) = ag_timeline ag"
    by (simp_all add: s0_def log_default_def)
  with cycles_append [OF s(1)] s show ?thesis
    by (auto simp: appended_def)
qed

context counting_environment
begin

lemma execute_turn_counts:
  assumes "execute_turn E s delib = Some s'"
  shows "en_actions_taken E (ag_env (ls_agent s')) + length (tl_records (ag_timeline (ls_agent s))) =
    en_actions_taken E (ag_env (ls_agent s)) + length (tl_records (ag_timeline (ls_agent s')))"
  using assms
proof (rule execute_turn_frame, goal_cases)
  case (1 e' line' r)
  then show ?case
    using commit_counts [OF 1(1) [unfolded commit_actions_def]] reset_keeps [of e'] by simp
qed

lemma cycle_counts:
  assumes "cycle E D s = Some s'"
  shows "en_actions_taken E (ag_env (ls_agent s')) + length (tl_records (ag_timeline (ls_agent s))) =
    en_actions_taken E (ag_env (ls_agent s)) + length (tl_records (ag_timeline (ls_agent s')))"
  using assms
proof (rule cycle_cases, goal_cases)
  case (1 s1 delib delib' bfs s2)
  then show ?case
    using deliberate_turn_frame [OF 1(1)] execute_turn_counts [of s2 delib' s'] by (simp split: if_splits)
qed

lemma cycles_counts:
  "cycles n E D s = Some s' \<Longrightarrow>
   en_actions_taken E (ag_env (ls_agent s')) + length (tl_records (ag_timeline (ls_agent s))) =
   en_actions_taken E (ag_env (ls_agent s)) + length (tl_records (ag_timeline (ls_agent s')))"
proof (induction n arbitrary: s)
  case (Suc n)
  then obtain s1 where s1: "cycle E D s = Some s1" "s' = s1 \<or> cycles n E D s1 = Some s'"
    by (auto split: Option.bind_splits if_splits)
  with cycle_counts [OF s1(1)] Suc.IH [of s1] show ?case
    by auto
qed simp

lemma run_counts:
  assumes "agent_run E D ag = Some (ag', log)"
  shows "lg_env_actions log + length (tl_records (ag_timeline ag)) =
    en_actions_taken E (ag_env ag) + length (tl_records (ag_timeline ag'))"
proof -
  obtain e obs where r: "en_reset E (ag_env ag) = (e, obs)"
    by fastforce
  with assms obtain s where s: "cycles (ag_max_cycles ag) E D
      \<lparr>ls_agent = ag\<lparr>ag_env := e\<rparr>, ls_log = log_default, ls_current = ob_grid obs,
       ls_counterexample = None, ls_done = False\<rparr> = Some s" "ag' = ls_agent s"
      "lg_env_actions log = en_actions_taken E (ag_env ag')"
    by (auto simp: agent_run_def Let_def split: Option.bind_splits)
  with cycles_counts [OF s(1)] reset_keeps [of "ag_env ag"] r show ?thesis
    by simp
qed

end

end
