(* ===== verification/Schema_Worlds.thy ===== *)
theory Schema_Worlds
  imports Schema_Agent
begin

text \<open>
  The hidden rules of the demo environments as rule programs. On walled grids, where every cell that
  is not a wall has its four neighbours, the rule program predicts every observation of the
  environment, so what the planner proves inside the model holds of the environment.
\<close>

section \<open>Walled grids\<close>

text \<open>A position with its four neighbours inside the grid.\<close>

definition interior :: "nat list \<Rightarrow> nat \<Rightarrow> nat \<Rightarrow> bool" where
  "interior ns x y \<longleftrightarrow>
     0 < x \<and> 0 < y \<and> inside ns x y \<and> inside ns (x + 1) y \<and> inside ns x (y + 1) \<and> inside ns x (y - 1)"

definition fenced :: "grid \<Rightarrow> bool" where
  "fenced g \<longleftrightarrow> (\<forall>y<length g. \<forall>x<length (g ! y). g ! y ! x \<noteq> 5 \<longrightarrow> interior (shape g) x y)"

definition walled :: "grid \<Rightarrow> bool" where
  "walled g \<longleftrightarrow> rect g \<and> player g \<noteq> None \<and> fenced g"

lemma fenced_cell: "fenced g \<Longrightarrow> cell g x y = Some c \<Longrightarrow> c \<noteq> 5 \<Longrightarrow> interior (shape g) x y"
  by (auto simp: fenced_def cell_def split: if_splits)

lemma fencedI: "(\<And>x y c. cell g x y = Some c \<Longrightarrow> c \<noteq> 5 \<Longrightarrow> interior (shape g) x y) \<Longrightarrow> fenced g"
  by (auto simp: fenced_def cell_def)

text \<open>Writing an interior cell keeps the fence.\<close>

lemma set_cell_fenced:
  assumes "set_cell x y c g = Some g'" "fenced g" "interior (shape g) x y"
  shows "fenced g'"
proof (rule fencedI)
  fix x' y' d
  assume "cell g' x' y' = Some d" "d \<noteq> 5"
  with assms show "interior (shape g') x' y'"
    using cell_set_cell [OF assms(1), of x' y'] set_cell_shape [OF assms(1)] fenced_cell [OF assms(2), of x' y' d]
    by (auto split: if_splits)
qed

lemma set_cell_interior: "interior (shape g) x y \<Longrightarrow> \<exists>g'. set_cell x y c g = Some g'"
  using set_cell_ok [of x y c g] cell_None_iff [of g x y] by (auto simp: interior_def)

lemma env_delta_eq: "env_delta a = delta a"
  by (simp add: env_delta_def delta_def deltas_def)

lemma delta_cases: "delta a \<in> {(0, -1), (0, 1), (-1, 0), (1, 0), (0, 0)}"
  by (simp add: delta_def deltas_def)

text \<open>The two readings of the player's position agree.\<close>

lemma color_row_hd: "color_row c y x r = [] \<longleftrightarrow> find_in_row c x r = None"
  "find_in_row c x r = Some x' \<Longrightarrow> hd (color_row c y x r) = (x', y)"
  by (induction r arbitrary: x) auto

lemma env_player_eq: "env_player g = player g"
proof -
  have "(case color_rows 1 n g of [] \<Rightarrow> None | p # _ \<Rightarrow> Some p) = find_in_rows 1 n g" for n
  proof (induction g arbitrary: n)
    case (Cons r g)
    show ?case
      using Cons.IH [of "n + 1"] color_row_hd [where c = 1 and y = n and x = 0 and r = r]
      by (cases "color_row 1 n 0 r") (auto split: option.splits)
  qed simp
  then show ?thesis
    by (simp add: env_player_def find_color_def player_def)
qed

lemma interior_step:
  assumes "interior (shape g) x y" "delta a = (dx, dy)"
  shows "0 \<le> int x + dx \<and> 0 \<le> int y + dy \<and> inside (shape g) (nat (int x + dx)) (nat (int y + dy))"
proof -
  have "nat (int x + 1) = x + 1" "nat (int y + 1) = y + 1" "nat (int x - 1) = x - 1" "nat (int y - 1) = y - 1"
    by simp_all
  moreover have "inside (shape g) (x - 1) y"
    using assms(1) by (auto simp: interior_def inside_def)
  ultimately show ?thesis
    using assms delta_cases [of a] by (auto simp: interior_def)
qed

text \<open>The target of an action on a walled grid.\<close>

lemma walled_target:
  assumes w: "walled g"
  obtains px py dx dy tx ty c where "player g = Some (px, py)" "delta a = (dx, dy)" "interior (shape g) px py"
    "int px + dx = int tx" "int py + dy = int ty" "cell g tx ty = Some c" "in_bounds g (int tx) (int ty)"
    "target_of g a = Some (px, py, int tx, int ty)" "cell_at g (int tx) (int ty) = Some c"
proof -
  obtain px py where p: "player g = Some (px, py)"
    using w by (auto simp: walled_def)
  obtain dx dy where d: "delta a = (dx, dy)"
    by (cases "delta a")
  have i: "interior (shape g) px py"
    using fenced_cell [OF _ player_cell [OF p]] w by (simp add: walled_def)
  define tx ty where "tx = nat (int px + dx)" and "ty = nat (int py + dy)"
  with interior_step [OF i d] have t: "int px + dx = int tx" "int py + dy = int ty" "inside (shape g) tx ty"
    by simp_all
  then obtain c where c: "cell g tx ty = Some c"
    using cell_None_iff by blast
  show ?thesis
    by (rule that [OF p d i t(1,2) c])
      (use p d t c w in \<open>auto simp: in_bounds_iff walled_def target_of_def env_player_eq env_delta_eq cell_at_def\<close>)
qed

lemma moved_walled:
  assumes w: "walled g" and p: "interior (shape g) px py" and t: "interior (shape g) tx ty"
  shows "\<exists>g'. moved g px py tx ty = Some g' \<and> walled g' \<and> shape g' = shape g"
proof -
  obtain g1 where g1: "set_cell px py 0 g = Some g1"
    using set_cell_interior [OF p] by blast
  then have s1: "shape g1 = shape g"
    by (rule set_cell_shape)
  obtain g2 where g2: "set_cell tx ty 1 g1 = Some g2"
    using set_cell_interior [of g1 tx ty 1] t s1 by auto
  then have s2: "shape g2 = shape g"
    using set_cell_shape s1 by simp
  have "fenced g2"
    using set_cell_fenced [OF g2 set_cell_fenced [OF g1]] w p t s1 by (simp add: walled_def)
  moreover have "player g2 \<noteq> None"
    using player_exists [of g2 tx ty] cell_set_cell [OF g2, of tx ty] by auto
  ultimately show ?thesis
    using g1 g2 s2 w rect_shape [OF s2] by (auto simp: moved_def walled_def)
qed

section \<open>ToggleMaze\<close>

definition toggle_program :: rule_program where
  "toggle_program =
     \<lparr>rp_rules = [rule_new 0 effect_advance, rule_new 7 effect_advance, rule_new 3 effect_advance_win],
      rp_goal_absent_colors = []\<rparr>"

lemma toggle_rules:
  "rp_rules toggle_program = [rule_new 0 effect_advance, rule_new 7 effect_advance, rule_new 3 effect_advance_win]"
  by (simp add: toggle_program_def)

definition toggle_model :: world_model where
  "toggle_model = from_program toggle_program ''the hidden rules''"

definition toggle_state :: "game \<Rightarrow> grid \<Rightarrow> bool" where
  "toggle_state e g \<longleftrightarrow> gm_grid e = g \<and> walled g"

lemma program_step_at:
  "player g = Some (px, py) \<Longrightarrow> delta a = (dx, dy) \<Longrightarrow> int px + dx = int tx \<Longrightarrow> int py + dy = int ty \<Longrightarrow>
   in_bounds g (int tx) (int ty) \<Longrightarrow> cell g tx ty = Some c \<Longrightarrow>
   program_step p g a = run_rules (rp_rules p) g px py tx ty dx dy c"
  by (simp add: program_step_def)

lemma apply_advance:
  "ef_push eff = False \<Longrightarrow> ef_player_advances eff \<Longrightarrow> ef_writes eff = [] \<Longrightarrow> ef_writes_when_beyond eff = None \<Longrightarrow>
   apply_effect g px py tx ty dx dy b eff =
     map_option (\<lambda>g'. \<lparr>pr_grid = g', pr_level_up = False, pr_dead = ef_dead eff, pr_win = ef_win eff\<rparr>)
       (moved g px py tx ty)"
  by (auto simp: apply_effect_def apply_move_def moved_def map_conv_bind_option split: Option.bind_split)

lemma effect_simps [simp]:
  "ef_push effect_advance = False" "ef_player_advances effect_advance" "ef_writes effect_advance = []"
  "ef_writes_when_beyond effect_advance = None" "ef_win effect_advance = False" "ef_dead effect_advance = False"
  "ef_push effect_advance_win = False" "ef_player_advances effect_advance_win" "ef_writes effect_advance_win = []"
  "ef_writes_when_beyond effect_advance_win = None" "ef_win effect_advance_win" "ef_dead effect_advance_win = False"
  by (simp_all add: effect_advance_def effect_advance_win_def effect_default_def)

lemma rule_new_simps [simp]:
  "ru_on_target (rule_new c eff) = c" "ru_beyond_any_of (rule_new c eff) = None" "ru_effect (rule_new c eff) = eff"
  by (simp_all add: rule_new_def)

lemma guard_ok_unguarded [simp]: "ru_beyond_any_of r = None \<Longrightarrow> guard_ok r b"
  by (simp add: guard_ok_def)

lemma beyond_cell_ok: "rect g \<Longrightarrow> \<exists>b. beyond_cell g x y = Some b"
  using cell_None_iff [of g "nat x" "nat y"] by (auto simp: beyond_cell_def in_bounds_iff)

lemma toggle_faithful:
  assumes "toggle_state e g"
  shows "\<exists>e' obs pred. toggle_step e a = Some (e', obs) \<and> program_step toggle_program g a = Some pred \<and>
    agrees pred obs \<and> toggle_state e' (ob_grid obs)"
proof -
  have g: "gm_grid e = g" and w: "walled g"
    using assms by (simp_all add: toggle_state_def)
  obtain px py dx dy tx ty c where t: "player g = Some (px, py)" "delta a = (dx, dy)" "interior (shape g) px py"
    "int px + dx = int tx" "int py + dy = int ty" "cell g tx ty = Some c" "in_bounds g (int tx) (int ty)"
    "target_of g a = Some (px, py, int tx, int ty)" "cell_at g (int tx) (int ty) = Some c"
    using walled_target [OF w] by metis
  obtain b where b: "beyond_cell g (int tx + dx) (int ty + dy) = Some b"
    using beyond_cell_ok w unfolding walled_def by blast
  note ps = program_step_at [OF t(1,2,4,5,7,6), of toggle_program]
  note simps = toggle_step_def g t(8,9) ps toggle_rules agrees_def toggle_state_def observation_of_def
    observation_win_def prediction_of_def game_after_def
  show ?thesis
  proof (cases "c = 0 \<or> c = 7 \<or> c = 3")
    case True
    then have "c \<noteq> 5"
      by auto
    with t(6) w have "interior (shape g) tx ty"
      using fenced_cell by (simp add: walled_def)
    with moved_walled [OF w t(3)] obtain g' where m: "moved g px py tx ty = Some g'" "walled g'"
      by blast
    from True show ?thesis
      by (elim disjE) (simp_all add: simps m b apply_advance)
  qed (simp add: simps w)
qed

interpretation toggle_counts: counting_environment toggle_maze
  by unfold_locales
    (auto simp: toggle_maze_def toggle_step_def game_reset_def game_after_def split: Option.bind_splits if_splits)

interpretation toggle_world: faithful_model toggle_maze toggle_model toggle_state env_actions
  using toggle_faithful
  by unfold_locales (auto simp: toggle_maze_def toggle_model_def from_program_def program_is_goal_def toggle_program_def)

section \<open>CartDock\<close>

definition cart_program :: rule_program where
  "cart_program =
     \<lparr>rp_rules =
        [rule_new 0 effect_advance, rule_new 3 effect_advance_win,
         \<lparr>ru_on_target = 4, ru_beyond_any_of = Some [0, 6], ru_note = [], ru_effect =
            effect_advance\<lparr>ef_push := True, ef_writes := [\<lparr>cw_x = 3, cw_y = 2, cw_color = 0\<rparr>],
              ef_writes_when_beyond := Some 6\<rparr>\<rparr>],
      rp_goal_absent_colors = []\<rparr>"

lemma cart_rules:
  "rp_rules cart_program =
     [rule_new 0 effect_advance, rule_new 3 effect_advance_win,
      \<lparr>ru_on_target = 4, ru_beyond_any_of = Some [0, 6], ru_note = [], ru_effect =
         effect_advance\<lparr>ef_push := True, ef_writes := [\<lparr>cw_x = 3, cw_y = 2, cw_color = 0\<rparr>],
           ef_writes_when_beyond := Some 6\<rparr>\<rparr>]"
  by (simp add: cart_program_def)

definition cart_model :: world_model where
  "cart_model = from_program cart_program ''the hidden rules''"

text \<open>The gate is inside the fence and no dock is next to it, so opening it cannot erase the player.\<close>

definition gate_clear :: "grid \<Rightarrow> bool" where
  "gate_clear g \<longleftrightarrow> interior (shape g) 3 2 \<and>
     list_all (\<lambda>(x, y). cell g x y \<noteq> Some 6) [(2, 2), (4, 2), (3, 1), (3, 3)]"

definition cart_state :: "game \<Rightarrow> grid \<Rightarrow> bool" where
  "cart_state e g \<longleftrightarrow> gm_grid e = g \<and> walled g \<and> gate_clear g"

definition tidy :: "grid \<Rightarrow> bool" where
  "tidy g \<longleftrightarrow> rect g \<and> fenced g \<and> gate_clear g"

lemma set_cell_tidy:
  assumes "tidy g" "interior (shape g) x y" "c \<noteq> 6"
  shows "\<exists>g'. set_cell x y c g = Some g' \<and> tidy g' \<and> shape g' = shape g \<and>
    (\<forall>x' y'. cell g' x' y' = (if x' = x \<and> y' = y then Some c else cell g x' y'))"
proof -
  obtain g' where g': "set_cell x y c g = Some g'"
    using set_cell_interior [OF assms(2)] by blast
  note s = set_cell_shape [OF g'] and c = cell_set_cell [OF g']
  have "gate_clear g'"
    using assms(1,3) s c unfolding tidy_def gate_clear_def list_all_iff by simp
  moreover have "fenced g'"
    using set_cell_fenced [OF g' _ assms(2)] assms(1) by (simp add: tidy_def)
  ultimately show ?thesis
    using g' s c assms(1) rect_shape [OF s] by (auto simp: tidy_def)
qed

lemma moved_cart_state:
  assumes "walled g" "gate_clear g" "interior (shape g) px py" "interior (shape g) tx ty"
  shows "\<exists>g'. moved g px py tx ty = Some g' \<and> walled g' \<and> gate_clear g'"
proof -
  obtain g1 where g1: "set_cell px py 0 g = Some g1" "tidy g1" "shape g1 = shape g"
    using set_cell_tidy [of g px py 0] assms by (auto simp: tidy_def walled_def)
  obtain g2 where g2: "set_cell tx ty 1 g1 = Some g2" "tidy g2" "cell g2 tx ty = Some 1"
    using set_cell_tidy [of g1 tx ty 1] g1 assms by (auto simp: tidy_def walled_def)
  show ?thesis
    using g1 g2 player_exists [OF g2(3)] by (auto simp: moved_def walled_def tidy_def)
qed

text \<open>A push on a tidy grid: the program's effect and the environment's step write the same cells.\<close>

lemma cart_push_agrees:
  assumes w: "walled g" "gate_clear g" and p: "interior (shape g) px py" and t: "interior (shape g) tx ty"
    and d: "delta a = (dx, dy)" and c: "cell g tx ty = Some 4"
    and x: "int px + dx = int tx" "int py + dy = int ty"
    and b: "cell_at g (int tx + dx) (int ty + dy) = Some b" and ok: "b = 0 \<or> b = 6"
    and eff: "eff = effect_advance\<lparr>ef_push := True, ef_writes := [\<lparr>cw_x = 3, cw_y = 2, cw_color = 0\<rparr>],
           ef_writes_when_beyond := Some 6\<rparr>"
  shows "\<exists>g'. cart_push g px py (int tx) (int ty) dx dy = Some g' \<and> walled g' \<and> gate_clear g' \<and>
    apply_effect g px py tx ty dx dy (Some b) eff = Some (prediction_of g')"
proof -
  define bx by' where "bx = nat (int tx + dx)" and "by' = nat (int ty + dy)"
  have nn: "int tx + dx = int bx" "int ty + dy = int by'" and cb: "cell g bx by' = Some b"
    using b by (auto simp: cell_at_def bx_def by'_def split: if_splits)
  have ib: "interior (shape g) bx by'"
    using fenced_cell [OF _ cb] ok w(1) by (auto simp: walled_def)
  have bnd: "in_bounds g (int bx) (int by')"
    using w(1) cell_Some_inside [OF cb] by (simp add: in_bounds_iff walled_def)
  obtain g1 where g1: "set_cell bx by' 4 g = Some g1" "tidy g1" "shape g1 = shape g"
    using set_cell_tidy [of g bx by' 4] w ib by (auto simp: tidy_def walled_def)
  obtain g2 where g2: "set_cell tx ty 1 g1 = Some g2" "tidy g2" "shape g2 = shape g" "cell g2 tx ty = Some 1"
    using set_cell_tidy [of g1 tx ty 1] g1 t by auto
  obtain g3 where g3: "set_cell px py 0 g2 = Some g3" "tidy g3" "shape g3 = shape g"
      "cell g3 tx ty = (if tx = px \<and> ty = py then Some 0 else Some 1)"
    using set_cell_tidy [of g2 px py 0] g2 p by auto
  obtain g4 where g4: "set_cell 3 2 0 g3 = Some g4" "tidy g4" "shape g4 = shape g"
      "cell g4 tx ty = (if tx = 3 \<and> ty = 2 then Some 0 else cell g3 tx ty)"
    using set_cell_tidy [of g3 3 2 0] g3 w(2) by (auto simp: gate_clear_def)
  have ne: "\<not> (tx = px \<and> ty = py)"
  proof
    assume e: "tx = px \<and> ty = py"
    then have "dx = 0" "dy = 0"
      using x by simp_all
    then have "cell g bx by' = Some 4"
      using c by (simp add: bx_def by'_def)
    with cb ok show False
      by auto
  qed
  have gate: "\<not> (tx = 3 \<and> ty = 2)" if "b = 6"
  proof
    assume e: "tx = 3 \<and> ty = 2"
    have "(bx, by') \<in> {(2, 2), (4, 2), (3, 1), (3, 3), (3, 2)}"
      using delta_cases [of a] d e by (auto simp: bx_def by'_def)
    then show False
      using cb that w(2) c e by (auto simp: gate_clear_def)
  qed
  have gb: "2 < length g3 \<and> 3 < length (g3 ! 0)"
    using g3(2) rect_row [of g3 2] by (auto simp: gate_clear_def interior_def inside_def tidy_def)
  show ?thesis
  proof (cases "b = 6")
    case True
    have "walled g4"
      using g3 g4 gate [OF True] ne player_exists [of g4 tx ty] by (auto simp: walled_def tidy_def)
    with True g1 g2 g3 g4 b bnd nn c gb show ?thesis
      by (simp add: cart_push_def cart_gate_def apply_effect_def apply_move_def eff prediction_of_def tidy_def)
  next
    case False
    have "walled g3"
      using g3 ne player_exists [of g3 tx ty] by (auto simp: walled_def tidy_def)
    with False ok g1 g2 g3 b bnd nn c show ?thesis
      by (simp add: cart_push_def apply_effect_def apply_move_def eff prediction_of_def tidy_def)
  qed
qed

lemma cart_faithful:
  assumes "cart_state e g"
  shows "\<exists>e' obs pred. cart_step e a = Some (e', obs) \<and> program_step cart_program g a = Some pred \<and>
    agrees pred obs \<and> cart_state e' (ob_grid obs)"
proof -
  have g: "gm_grid e = g" and w: "walled g" "gate_clear g"
    using assms by (simp_all add: cart_state_def)
  obtain px py dx dy tx ty c where t: "player g = Some (px, py)" "delta a = (dx, dy)" "interior (shape g) px py"
    "int px + dx = int tx" "int py + dy = int ty" "cell g tx ty = Some c" "in_bounds g (int tx) (int ty)"
    "target_of g a = Some (px, py, int tx, int ty)" "cell_at g (int tx) (int ty) = Some c"
    using walled_target [OF w(1)] by metis
  note ps = program_step_at [OF t(1,2,4,5,7,6), of cart_program]
  note simps = cart_step_def g t(2,8,9) env_delta_eq ps cart_rules agrees_def cart_state_def observation_of_def
    observation_win_def prediction_of_def game_after_def
  have it: "interior (shape g) tx ty" if "c = 0 \<or> c = 3 \<or> c = 4"
    using fenced_cell [OF _ t(6)] that w(1) by (auto simp: walled_def)
  obtain b where b: "beyond_cell g (int tx + dx) (int ty + dy) = Some b"
    using beyond_cell_ok w unfolding walled_def by blast
  consider "c = 0 \<or> c = 3" | "c = 4" | "c \<noteq> 0" "c \<noteq> 3" "c \<noteq> 4"
    by blast
  then show ?thesis
  proof cases
    case 1
    with it obtain g' where m: "moved g px py tx ty = Some g'" "walled g'" "gate_clear g'"
      using moved_cart_state [OF w t(3)] by blast
    from 1 show ?thesis
      by (elim disjE) (simp_all add: simps m b apply_advance)
  next
    case 2
    have inn: "0 \<le> int tx + dx \<and> 0 \<le> int ty + dy \<and> inside (shape g) (nat (int tx + dx)) (nat (int ty + dy))"
      by (rule interior_step [OF it t(2)]) (use 2 in simp)
    then obtain v where v: "cell g (nat (int tx + dx)) (nat (int ty + dy)) = Some v"
      using cell_None_iff by blast
    have cv: "cell_at g (int tx + dx) (int ty + dy) = Some v" "b = Some v"
      using inn v b w(1) by (auto simp: cell_at_def beyond_cell_def in_bounds_iff walled_def)
    show ?thesis
    proof (cases "v = 0 \<or> v = 6")
      case True
      note pa = cart_push_agrees [OF w t(3) it t(2) _ t(4,5) cv(1) True refl]
      from pa 2 t(6) obtain g' where "cart_push g px py (int tx) (int ty) dx dy = Some g'" "walled g'" "gate_clear g'"
        "apply_effect g px py tx ty dx dy (Some v) (effect_advance\<lparr>ef_push := True,
           ef_writes := [\<lparr>cw_x = 3, cw_y = 2, cw_color = 0\<rparr>], ef_writes_when_beyond := Some 6\<rparr>) = Some (prediction_of g')"
        by blast
      with True show ?thesis
        by (auto simp: simps 2 b cv guard_ok_def)
    next
      case False
      then show ?thesis
        by (simp add: simps 2 b cv guard_ok_def cart_push_def w)
    qed
  qed (simp add: simps w)
qed

interpretation cart_counts: counting_environment cart_dock
  by unfold_locales
    (auto simp: cart_dock_def cart_step_def game_reset_def game_after_def Let_def
      split: Option.bind_splits if_splits prod.splits)

interpretation cart_world: faithful_model cart_dock cart_model cart_state env_actions
  using cart_faithful
  by unfold_locales (auto simp: cart_dock_def cart_model_def from_program_def program_is_goal_def cart_program_def)

end
