(* ===== verification/Schema_Session.thy ===== *)
theory Schema_Session
  imports Schema_Agent Schema_Worlds
begin

text \<open>
  Persistence and the deliberation protocol of the Schema harness (\<open>session.rs\<close>, \<open>protocol.rs\<close> of
  \<open>crates/schema/src\<close>). Serialization belongs to serde and the provider to the agent runtime, so
  \<open>to_json\<close>, \<open>from_json\<close> and the provider are arguments of the definitions.
\<close>

section \<open>Digests and sessions\<close>

record transition_digest =
  td_index :: nat
  td_action :: string
  td_state_before :: grid
  td_state_after :: grid
  td_level_up :: bool
  td_dead :: bool
  td_win :: bool

definition digest_of :: "transition \<Rightarrow> transition_digest" where
  "digest_of t =
     \<lparr>td_index = tr_index t, td_action = tr_action t, td_state_before = tr_state_before t,
      td_state_after = tr_state_after t, td_level_up = tr_level_up t, td_dead = tr_dead t, td_win = tr_win t\<rparr>"

record session =
  ss_task :: string
  ss_program :: rule_program
  ss_revision :: u32
  ss_history :: "string list"
  ss_timeline :: "transition_digest list"

definition session_capture :: "string \<Rightarrow> world_model \<Rightarrow> timeline \<Rightarrow> session" where
  "session_capture task m line =
     \<lparr>ss_task = task, ss_program = the_default program_vacuous (wm_program m), ss_revision = wm_revision m,
      ss_history = wm_history m, ss_timeline = map digest_of (tl_records line)\<rparr>"

definition restore_model :: "session \<Rightarrow> world_model" where
  "restore_model s =
     (from_program (ss_program s) ''restored from session'')
       \<lparr>wm_revision := ss_revision s, wm_history := ss_history s\<rparr>"

definition restore_timeline :: "session \<Rightarrow> timeline" where
  "restore_timeline s =
     fold (\<lambda>t line. fst (append_transition (td_state_before t) (td_action t) (td_state_after t) (td_level_up t)
       (td_dead t) (td_win t) line)) (ss_timeline s) timeline_new"

section \<open>The protocol\<close>

record deliberation_request =
  rq_current_grid :: grid
  rq_legal_actions :: "string list"
  rq_timeline :: "transition_digest list"
  rq_current_program :: rule_program
  rq_backtest_summary :: string
  rq_counterexample :: "transition_digest option"

record deliberation_response =
  rs_revised_program :: "rule_program option"
  rs_intent :: string
  rs_actions :: "string list"
  rs_note :: string

record 'p protocol_deliberator =
  pd_provider :: 'p
  pd_transcript :: "(string \<times> string) list"

definition deliberation_request_of ::
  "grid \<Rightarrow> world_model \<Rightarrow> timeline \<Rightarrow> backtest_report \<Rightarrow> transition option \<Rightarrow> deliberation_request" where
  "deliberation_request_of current m line report ce =
     \<lparr>rq_current_grid = current, rq_legal_actions = [''up'', ''down'', ''left'', ''right''],
      rq_timeline = map digest_of (tl_records line),
      rq_current_program = the_default program_vacuous (wm_program m),
      rq_backtest_summary = backtest_summary report, rq_counterexample = map_option digest_of ce\<rparr>"

definition install_response :: "deliberation_response \<Rightarrow> world_model \<Rightarrow> world_model" where
  "install_response resp m =
     (case rs_revised_program resp of
        None \<Rightarrow> m
      | Some p \<Rightarrow> revise_program p (if rs_note resp = [] then ''protocol revision'' else rs_note resp) m)"

definition respond :: "deliberation_response \<Rightarrow> world_model \<Rightarrow> world_model \<times> deliberation" where
  "respond resp m =
     (install_response resp m,
      \<lparr>de_actions = rs_actions resp, de_intent = (if rs_intent resp = ''plan'' then Plan else Experiment),
       de_note = rs_note resp\<rparr>)"

definition protocol_deliberate ::
  "(deliberation_request \<Rightarrow> string) \<Rightarrow> (string \<Rightarrow> string + deliberation_response) \<Rightarrow>
   ('p \<Rightarrow> string \<Rightarrow> ('p \<times> string) option) \<Rightarrow> 'p protocol_deliberator deliberator" where
  "protocol_deliberate to_json from_json provider d current m line report ce = do {
     let prompt = to_json (deliberation_request_of current m line report ce);
     (p', raw) \<leftarrow> provider (pd_provider d) prompt;
     let d' = d\<lparr>pd_provider := p', pd_transcript := pd_transcript d @ [(prompt, raw)]\<rparr>;
     (case from_json raw of
        Inl e \<Rightarrow> Some (d', m, \<lparr>de_actions = [], de_intent = Experiment,
          de_note = ''unparseable deliberation response: '' @ e\<rparr>)
      | Inr resp \<Rightarrow> Some (d', respond resp m))
   }"

section \<open>What a session keeps\<close>

definition program_backed :: "world_model \<Rightarrow> bool" where
  "program_backed m \<longleftrightarrow>
     (\<exists>p. wm_program m = Some p \<and> wm_step m = program_step p \<and> wm_is_goal m = program_is_goal p)"

lemma program_backed_from_program [simp]: "program_backed (from_program p d)"
  by (simp add: program_backed_def from_program_def)

lemma program_backed_revise_program [simp]: "program_backed (revise_program p d m)"
  by (simp add: program_backed_def revise_program_def)

lemma program_backed_install: "program_backed m \<Longrightarrow> program_backed (install_response resp m)"
  by (simp add: install_response_def split: option.split)

lemma restore_model_iff: "restore_model (session_capture task m line) = m \<longleftrightarrow> program_backed m"
  by (cases m) (auto simp: restore_model_def session_capture_def from_program_def program_backed_def the_default_def
      split: option.splits)

lemma restore_fold:
  "tl_records (fold (\<lambda>t line. fst (append_transition (td_state_before t) (td_action t) (td_state_after t) (td_level_up t)
       (td_dead t) (td_win t) line)) (map digest_of ts) line) =
   tl_records line @ map (\<lambda>(i, t). t\<lparr>tr_index := i\<rparr>) (enumerate (length (tl_records line)) ts)"
proof (induction ts arbitrary: line)
  case (Cons t ts)
  then show ?case
    by (cases t) (simp add: append_transition_def digest_of_def Let_def)
qed simp

lemma reindex_id_iff:
  "map (\<lambda>(i, t). t\<lparr>tr_index := i\<rparr>) (enumerate n ts) = ts \<longleftrightarrow> map tr_index ts = [n..<n + length ts]"
proof (induction ts arbitrary: n)
  case (Cons t ts)
  have "t\<lparr>tr_index := n\<rparr> = t \<longleftrightarrow> tr_index t = n"
    by (cases t) auto
  moreover have "[n..<n + length (t # ts)] = n # [Suc n..<Suc n + length ts]"
    by (simp add: upt_conv_Cons del: upt_Suc)
  ultimately show ?case
    using Cons.IH [of "Suc n"] by (simp del: upt_Suc)
qed simp

lemma restore_timeline_iff: "restore_timeline (session_capture task m line) = line \<longleftrightarrow> timeline_ok line"
proof -
  have "restore_timeline (session_capture task m line) = line \<longleftrightarrow>
      tl_records (restore_timeline (session_capture task m line)) = tl_records line"
    by (cases "restore_timeline (session_capture task m line)"; cases line) simp
  also have "\<dots> \<longleftrightarrow> timeline_ok line"
    using reindex_id_iff [of 0 "tl_records line"]
    by (simp add: restore_timeline_def session_capture_def restore_fold timeline_new_def timeline_ok_def)
  finally show ?thesis .
qed

end
