(* ===== verification/Schema_Total.thy ===== *)
theory Schema_Total
  imports Schema_Session
begin

text \<open>
  The harness does not panic. An environment whose visible states are rectangular and that answers
  every action in them is an interface; over it, an agent whose deliberator keeps the model program
  backed runs to its end, whatever that deliberator answers. The protocol deliberator is one, so a
  malformed or adversarial provider cannot break the loop, and the session of a finished run restores
  exactly.
\<close>

section \<open>Models that answer every action\<close>

text \<open>A model that never panics on the states of a set and whose predictions stay in it.\<close>

definition answers :: "grid set \<Rightarrow> world_model \<Rightarrow> bool" where
  "answers S m \<longleftrightarrow> (\<forall>t\<in>S. \<forall>a. \<exists>pred. wm_step m t a = Some pred \<and> (pr_dead pred \<or> pr_grid pred \<in> S))"

lemma answers_closed: "answers S m \<Longrightarrow> model_closed m acts S"
  by (simp add: answers_def model_closed_def)

lemma answers_step: "answers S m \<Longrightarrow> t \<in> S \<Longrightarrow> \<exists>pred. wm_step m t a = Some pred"
  unfolding answers_def by blast

lemma program_backed_answers: "program_backed m \<Longrightarrow> answers {g. rect g} m"
proof -
  assume "program_backed m"
  then obtain p where p: "wm_step m = program_step p"
    by (auto simp: program_backed_def)
  have "\<exists>pred. program_step p g a = Some pred \<and> rect (pr_grid pred)" if "rect g" for g a
    using program_step_keeps [OF that, of p a] rect_shape that by metis
  then show ?thesis
    unfolding answers_def p by blast
qed

lemma run_bfs_total:
  assumes "answers S m" "g \<in> S"
  shows "\<exists>r. run_bfs m g acts n = Some r"
  using bfs_loop_total [OF answers_closed [OF assms(1)] bfs_inv_start [of m acts g], of n 0] assms(2)
  by (auto simp: run_bfs_def)

lemma run_backtest_total:
  assumes "answers S m" "\<forall>t\<in>set (tl_records line). tr_state_before t \<in> S"
  shows "\<exists>r. run_backtest m line = Some r"
  using backtest_from_total answers_step [OF assms(1)] assms(2) unfolding run_backtest_def by blast

lemma backtest_gate_total:
  assumes "answers S m" "\<forall>t\<in>set (tl_records line). tr_state_before t \<in> S" "g \<in> S"
  shows "\<exists>x. backtest_gate legal m line g d = Some x"
  using run_backtest_total [OF assms(1,2)] run_bfs_total [OF assms(1,3), of legal planning_nodes]
  by (auto simp: backtest_gate_def)

section \<open>Environments that answer every action\<close>

text \<open>
  \<open>V e g\<close>: the environment in state \<open>e\<close> shows the grid \<open>g\<close>; \<open>S\<close>: the states models are asked about.
\<close>

locale total_world =
  fixes E :: "'e environment" and V :: "'e \<Rightarrow> grid \<Rightarrow> bool" and S :: "grid set"
  assumes step_total: "V e g \<Longrightarrow> \<exists>e' obs. en_step E e a = Some (e', obs) \<and> V e' (ob_grid obs)"
    and reset_total: "V (fst (en_reset E e)) (ob_grid (snd (en_reset E e)))"
    and visible: "V e g \<Longrightarrow> g \<in> S"
begin

text \<open>A transition taken from a visible state.\<close>

definition real :: "transition \<Rightarrow> bool" where
  "real t \<longleftrightarrow> (\<exists>e e' obs. V e (tr_state_before t) \<and> en_step E e (tr_action t) = Some (e', obs) \<and>
     tr_state_after t = ob_grid obs \<and> tr_level_up t = ob_level_up obs \<and> tr_dead t = ob_dead obs \<and>
     tr_win t = ob_win obs)"

definition all_real :: "timeline \<Rightarrow> bool" where
  "all_real line \<longleftrightarrow> (\<forall>t\<in>set (tl_records line). real t)"

lemma all_real_states: "all_real line \<Longrightarrow> \<forall>t\<in>set (tl_records line). tr_state_before t \<in> S"
  using visible unfolding all_real_def real_def by blast

lemma commit_total:
  assumes "answers S m" "V e g" "all_real line"
  shows "\<exists>e' line' r. commit_from E m plan i rest e line g ex = Some (e', line', r) \<and>
    V e' (er_final_state r) \<and> all_real line' \<and> (\<forall>t. er_counterexample r = Some t \<longrightarrow> real t)"
  using assms(2,3)
proof (induction rest arbitrary: i e line g ex)
  case (Cons a rest)
  obtain pred where p: "wm_step m g a = Some pred"
    using answers_step [OF assms(1) visible [OF Cons.prems(1)]] by blast
  obtain e1 obs where s: "en_step E e a = Some (e1, obs)" "V e1 (ob_grid obs)"
    using step_total [OF Cons.prems(1)] by blast
  obtain line1 t where app:
    "append_transition g a (ob_grid obs) (ob_level_up obs) (ob_dead obs) (ob_win obs) line = (line1, t)"
    by fastforce
  have t: "real t"
    unfolding real_def
    by (rule exI [of _ e], rule exI [of _ e1], rule exI [of _ obs])
      (use app s Cons.prems(1) in \<open>auto simp: append_transition_def Let_def\<close>)
  have r1: "all_real line1"
    using Cons.prems(2) t app by (auto simp: append_transition_def all_real_def Let_def)
  from Cons.IH [OF s(2) r1, of "i + 1" "ex @ [a]"] s r1 t show ?case
    by (auto simp: p s(1) app Let_def)
qed simp

text \<open>What the loop keeps, for a predicate \<open>I\<close> on the deliberator and \<open>M\<close> on the model.\<close>

definition loop_ok :: "('d \<Rightarrow> bool) \<Rightarrow> (world_model \<Rightarrow> bool) \<Rightarrow> ('e, 'd) loop_state \<Rightarrow> bool" where
  "loop_ok I M s \<longleftrightarrow> V (ag_env (ls_agent s)) (ls_current s) \<and> I (ag_deliberator (ls_agent s)) \<and>
     M (ag_model (ls_agent s)) \<and> all_real (ag_timeline (ls_agent s)) \<and>
     (\<forall>t. ls_counterexample s = Some t \<longrightarrow> real t)"

definition seat_ok :: "('d \<Rightarrow> bool) \<Rightarrow> (world_model \<Rightarrow> bool) \<Rightarrow> 'd deliberator \<Rightarrow> bool" where
  "seat_ok I M D \<longleftrightarrow> (\<forall>m. M m \<longrightarrow> answers S m) \<and>
     (\<forall>d e g m line r ce. I d \<and> V e g \<and> M m \<and> all_real line \<and> (\<forall>t. ce = Some t \<longrightarrow> real t) \<longrightarrow>
       (\<exists>d' m' delib. D d g m line r ce = Some (d', m', delib) \<and> I d' \<and> M m'))"

lemma deliberate_turn_total:
  assumes ok: "loop_ok I M s" and seat: "seat_ok I M D"
  shows "\<exists>s1 delib. deliberate_turn D s = Some (s1, delib) \<and> loop_ok I M s1"
proof -
  have a: "answers S (ag_model (ls_agent s))"
    using assms by (simp add: loop_ok_def seat_ok_def)
  obtain r where r: "run_backtest (ag_model (ls_agent s)) (ag_timeline (ls_agent s)) = Some r"
    using run_backtest_total [OF a all_real_states] ok unfolding loop_ok_def by blast
  obtain d' m' delib where d: "D (ag_deliberator (ls_agent s)) (ls_current s) (ag_model (ls_agent s))
      (ag_timeline (ls_agent s)) r (ls_counterexample s) = Some (d', m', delib)" "I d'" "M m'"
    using ok seat unfolding loop_ok_def seat_ok_def by metis
  from r d ok show ?thesis
    by (simp add: deliberate_turn_def Let_def loop_ok_def)
qed

lemma execute_turn_total:
  assumes ok: "loop_ok I M s" and seat: "seat_ok I M D"
  shows "\<exists>s'. execute_turn E s delib = Some s' \<and> loop_ok I M s'"
proof -
  have a: "answers S (ag_model (ls_agent s))"
    using assms by (simp add: loop_ok_def seat_ok_def)
  obtain e' line' r where c: "commit_actions E (ag_env (ls_agent s)) (ag_model (ls_agent s))
      (ag_timeline (ls_agent s)) (ls_current s) (de_actions delib) = Some (e', line', r)"
      "V e' (er_final_state r)" "all_real line'" "\<forall>t. er_counterexample r = Some t \<longrightarrow> real t"
    using commit_total [OF a] ok unfolding loop_ok_def commit_actions_def by metis
  with ok reset_total [of e'] show ?thesis
    by (auto simp: execute_turn_def Let_def loop_ok_def split: prod.split)
qed

lemma cycle_total:
  assumes ok: "loop_ok I M s" and seat: "seat_ok I M D"
  shows "\<exists>s'. cycle E D s = Some s' \<and> loop_ok I M s'"
proof -
  obtain s1 delib where d: "deliberate_turn D s = Some (s1, delib)" "loop_ok I M s1"
    using deliberate_turn_total [OF assms] by blast
  have a: "answers S (ag_model (ls_agent s1))" "ls_current s1 \<in> S"
    "\<forall>t\<in>set (tl_records (ag_timeline (ls_agent s1))). tr_state_before t \<in> S"
    using d(2) seat visible all_real_states unfolding loop_ok_def seat_ok_def by blast+
  obtain delib' bfs where b: "backtest_gate (en_legal_actions E (ag_env (ls_agent s1))) (ag_model (ls_agent s1))
      (ag_timeline (ls_agent s1)) (ls_current s1) delib = Some (delib', bfs)"
    using backtest_gate_total [OF a(1,3,2)] by (metis surj_pair)
  define s2 where "s2 = s1\<lparr>ls_log := (ls_log s1)\<lparr>lg_bfs_reports := lg_bfs_reports (ls_log s1) @
       (case bfs of None \<Rightarrow> [] | Some b \<Rightarrow> [bfs_summary b])\<rparr>\<rparr>"
  have "loop_ok I M s2"
    using d(2) by (simp add: loop_ok_def s2_def)
  with execute_turn_total [OF this seat, of delib'] d b show ?thesis
    by (auto simp: cycle_def Let_def s2_def)
qed

lemma cycles_total: "loop_ok I M s \<Longrightarrow> seat_ok I M D \<Longrightarrow> \<exists>s'. cycles n E D s = Some s' \<and> loop_ok I M s'"
proof (induction n arbitrary: s)
  case (Suc n)
  then obtain s1 where "cycle E D s = Some s1" "loop_ok I M s1"
    using cycle_total by blast
  with Suc show ?case
    by simp
qed simp

lemma run_total:
  assumes "I (ag_deliberator ag)" "M (ag_model ag)" "all_real (ag_timeline ag)" "seat_ok I M D"
  shows "\<exists>ag' log. agent_run E D ag = Some (ag', log) \<and> I (ag_deliberator ag') \<and> M (ag_model ag') \<and>
    all_real (ag_timeline ag')"
proof -
  obtain e obs where r: "en_reset E (ag_env ag) = (e, obs)"
    by fastforce
  define s0 where "s0 = \<lparr>ls_agent = ag\<lparr>ag_env := e\<rparr>, ls_log = log_default, ls_current = ob_grid obs,
       ls_counterexample = None, ls_done = False\<rparr>"
  have "loop_ok I M s0"
    using assms(1-3) reset_total [of "ag_env ag"] r by (simp add: loop_ok_def s0_def)
  then obtain s where "cycles (ag_max_cycles ag) E D s0 = Some s" "loop_ok I M s"
    using cycles_total assms(4) by blast
  with r show ?thesis
    by (auto simp: agent_run_def Let_def s0_def loop_ok_def)
qed

end

lemma toggle_layout_walled: "walled toggle_layout"
  by code_simp

lemma cart_layout_walled: "walled cart_layout \<and> gate_clear cart_layout"
  by code_simp

lemma toggle_maze_total:
  "toggle_state e g \<Longrightarrow> \<exists>e' obs. en_step toggle_maze e a = Some (e', obs) \<and> toggle_state e' (ob_grid obs)"
  using toggle_faithful [of e g a] by (auto simp: toggle_maze_def)

lemma toggle_maze_reset: "toggle_state (fst (en_reset toggle_maze e)) (ob_grid (snd (en_reset toggle_maze e)))"
  by (simp add: toggle_maze_def game_reset_def toggle_state_def observation_of_def toggle_layout_walled)

lemma cart_dock_total:
  "cart_state e g \<Longrightarrow> \<exists>e' obs. en_step cart_dock e a = Some (e', obs) \<and> cart_state e' (ob_grid obs)"
  using cart_faithful [of e g a] by (auto simp: cart_dock_def)

lemma cart_dock_reset: "cart_state (fst (en_reset cart_dock e)) (ob_grid (snd (en_reset cart_dock e)))"
  by (simp add: cart_dock_def game_reset_def cart_state_def observation_of_def cart_layout_walled)

interpretation toggle_total: total_world toggle_maze toggle_state "{g. walled g}"
  using toggle_maze_total toggle_maze_reset by unfold_locales (simp_all add: toggle_state_def)

interpretation toggle_rect: total_world toggle_maze toggle_state "{g. rect g}"
  using toggle_maze_total toggle_maze_reset by unfold_locales (simp_all add: toggle_state_def walled_def)

interpretation cart_rect: total_world cart_dock cart_state "{g. rect g}"
  using cart_dock_total cart_dock_reset by unfold_locales (simp_all add: cart_state_def walled_def)

section \<open>The protocol seat\<close>

lemma protocol_keeps_program:
  assumes "program_backed m" "\<forall>p s. provider p s \<noteq> None"
  shows "\<exists>d' m' delib. protocol_deliberate to_json from_json provider d g m line r ce = Some (d', m', delib) \<and>
    program_backed m'"
proof -
  obtain p' raw where "provider (pd_provider d) (to_json (deliberation_request_of g m line r ce)) = Some (p', raw)"
    using assms(2) by fastforce
  with assms(1) show ?thesis
    by (simp add: protocol_deliberate_def Let_def respond_def program_backed_install split: sum.split)
qed

lemma protocol_seat_ok:
  assumes "\<forall>p s. provider p s \<noteq> None"
  shows "toggle_rect.seat_ok (\<lambda>_. True) program_backed (protocol_deliberate to_json from_json provider)"
    and "cart_rect.seat_ok (\<lambda>_. True) program_backed (protocol_deliberate to_json from_json provider)"
  using protocol_keeps_program [OF _ assms] program_backed_answers
  unfolding toggle_rect.seat_ok_def cart_rect.seat_ok_def by blast+

end
