(* ===== verification/Schema_Deliberators.thy ===== *)
theory Schema_Deliberators
  imports Schema_Total "HOL-Library.Product_Lexorder"
begin

text \<open>
  The demo deliberators of the Schema harness (\<open>crates/schema/src/deliberators.rs\<close>): candidate
  elimination with discriminating probes on \<open>ToggleMaze\<close>, and a joint revision learned from a
  counterexample on \<open>CartDock\<close>. A \<open>BTreeMap\<close> is the list of its entries sorted by key; a computation
  that may index out of bounds returns an option.
\<close>

section \<open>Maps sorted by key\<close>

fun bt_insert :: "'k::linorder \<Rightarrow> 'v \<Rightarrow> ('k \<times> 'v) list \<Rightarrow> ('k \<times> 'v) list" where
  "bt_insert k v [] = [(k, v)]"
| "bt_insert k v ((k', v') # m) =
     (if k < k' then (k, v) # (k', v') # m else if k = k' then (k, v) # m else (k', v') # bt_insert k v m)"

lemma map_of_bt_insert: "map_of (bt_insert k v m) k' = (if k' = k then Some v else map_of m k')"
  by (induction m) auto

fun option_filter :: "('a \<Rightarrow> bool option) \<Rightarrow> 'a list \<Rightarrow> 'a list option" where
  "option_filter f [] = Some []"
| "option_filter f (x # xs) = do { b \<leftarrow> f x; ys \<leftarrow> option_filter f xs; Some (if b then x # ys else ys) }"

section \<open>Hypotheses about colors\<close>

datatype semantics = Blocking | Passable | Lethal

type_synonym sem_map = "(u8 \<times> semantics) list"

definition all_semantics :: "semantics list" where
  "all_semantics = [Blocking, Passable, Lethal]"

definition sem_predict :: "sem_map \<Rightarrow> grid \<Rightarrow> string \<Rightarrow> prediction option" where
  "sem_predict sem state action = do {
     (px, py, tx, ty) \<leftarrow> target_of state action;
     v \<leftarrow> cell_at state tx ty;
     (if v = 3 then map_option prediction_win (moved state px py (nat tx) (nat ty))
      else case (if v = 0 then Passable else the_default Blocking (map_of sem v)) of
          Passable \<Rightarrow> map_option prediction_of (moved state px py (nat tx) (nat ty))
        | Lethal \<Rightarrow> Some (prediction_dead state)
        | Blocking \<Rightarrow> Some (prediction_of state))
   }"

record toggle_deliberator =
  tg_unknown_colors :: "u8 list"
  tg_candidates :: "sem_map list"

definition toggle_deliberator_new :: "grid \<Rightarrow> toggle_deliberator" where
  "toggle_deliberator_new g =
     (let colors = sort (remdups (filter (\<lambda>c. c \<notin> set [0, 1, 3]) (concat g)))
      in \<lparr>tg_unknown_colors = colors,
          tg_candidates = foldl (\<lambda>cs c. concat (map (\<lambda>m. map (\<lambda>s. bt_insert c s m) all_semantics) cs)) [[]] colors\<rparr>)"

fun consistent :: "sem_map \<Rightarrow> transition list \<Rightarrow> bool option" where
  "consistent sem [] = Some True"
| "consistent sem (t # ts) = do {
     p \<leftarrow> sem_predict sem (tr_state_before t) (tr_action t);
     (if \<not> flags_ok p t \<or> (\<not> transition_terminal t \<and> pr_grid p \<noteq> tr_state_after t) then Some False
      else consistent sem ts)
   }"

definition ambiguous_colors :: "toggle_deliberator \<Rightarrow> u8 list option" where
  "ambiguous_colors d =
     option_filter (\<lambda>c. map_option (\<lambda>vals. 1 < length (remdups vals)) (those (map (\<lambda>m. map_of m c) (tg_candidates d))))
       (tg_unknown_colors d)"

section \<open>Discriminating probes\<close>

type_synonym probe_queue = "((nat \<times> nat) \<times> string list) list"

text \<open>The loop over the four directions from one position: \<open>Inl\<close> is the probe found.\<close>

fun probe_dirs ::
  "grid \<Rightarrow> u8 list \<Rightarrow> nat \<times> nat \<Rightarrow> string list \<Rightarrow> string list \<Rightarrow> probe_queue \<Rightarrow> (nat \<times> nat) list \<Rightarrow>
   (string list + probe_queue \<times> (nat \<times> nat) list) option" where
  "probe_dirs g targets p path [] queue seen = Some (Inr (queue, seen))"
| "probe_dirs g targets p path (a # as) queue seen =
     (let (dx, dy) = env_delta a; nx = int (fst p) + dx; ny = int (snd p) + dy in
      if ny < 0 \<or> nx < 0 \<or> length g \<le> nat ny \<or> length (g ! 0) \<le> nat nx
      then probe_dirs g targets p path as queue seen
      else do {
        v \<leftarrow> cell g (nat nx) (nat ny);
        (if v \<in> set targets then Some (Inl (path @ [a]))
         else if v = 0 \<and> (nat nx, nat ny) \<notin> set seen
         then probe_dirs g targets p path as (queue @ [((nat nx, nat ny), path @ [a])]) (seen @ [(nat nx, nat ny)])
         else probe_dirs g targets p path as queue seen)
      })"

definition positions :: "grid \<Rightarrow> (nat \<times> nat) set" where
  "positions g = {(x, y). cell g x y \<noteq> None}"

lemma finite_positions [simp]: "finite (positions g)"
proof (rule finite_subset)
  show "positions g \<subseteq> (\<Union>y<length g. (\<lambda>x. (x, y)) ` {..<length (g ! y)})"
    by (auto simp: positions_def cell_def split: if_splits)
qed simp

definition unseen :: "grid \<Rightarrow> (nat \<times> nat) list \<Rightarrow> nat" where
  "unseen g seen = card (positions g - set seen)"

lemma unseen_push:
  assumes "cell g x y = Some v" "(x, y) \<notin> set seen"
  shows "unseen g (seen @ [(x, y)]) < unseen g seen"
  unfolding unseen_def
proof (rule psubset_card_mono)
  show "positions g - set (seen @ [(x, y)]) \<subset> positions g - set seen"
    using assms by (auto simp: positions_def)
qed simp

lemma probe_dirs_progress:
  "probe_dirs g targets p path as queue seen = Some (Inr (queue', seen')) \<Longrightarrow>
   unseen g seen' < unseen g seen \<or> (queue' = queue \<and> seen' = seen)"
proof (induction g targets p path as queue seen rule: probe_dirs.induct)
  case (2 g targets p path a as queue seen)
  obtain dx dy where d: "env_delta a = (dx, dy)"
    by (cases "env_delta a")
  define nx ny where n: "nx = int (fst p) + dx" "ny = int (snd p) + dy"
  show ?case
  proof (cases "ny < 0 \<or> nx < 0 \<or> length g \<le> nat ny \<or> length (g ! 0) \<le> nat nx")
    case True
    with 2(1) [OF d [symmetric] refl n] 2(4) d n show ?thesis
      by auto
  next
    case False
    with 2(4) d n obtain v where v: "cell g (nat nx) (nat ny) = Some v"
      by (auto simp: Let_def split: Option.bind_splits)
    have eq: "probe_dirs g targets p path (a # as) queue seen =
        (if v \<in> set targets then Some (Inl (path @ [a]))
         else if v = 0 \<and> (nat nx, nat ny) \<notin> set seen
         then probe_dirs g targets p path as (queue @ [((nat nx, nat ny), path @ [a])]) (seen @ [(nat nx, nat ny)])
         else probe_dirs g targets p path as queue seen)"
      using False v by (simp add: d n Let_def)
    note run0 = 2(4) [unfolded eq]
    show ?thesis
    proof (cases "v \<notin> set targets \<and> v = 0 \<and> (nat nx, nat ny) \<notin> set seen")
      case True
      have run: "probe_dirs g targets p path as (queue @ [((nat nx, nat ny), path @ [a])]) (seen @ [(nat nx, nat ny)]) =
          Some (Inr (queue', seen'))"
        using run0 True by (auto split: if_splits)
      have "unseen g (seen @ [(nat nx, nat ny)]) < unseen g seen"
        using unseen_push [OF v] True by simp
      with 2(2) [OF d [symmetric] refl n False v _ _ run] True show ?thesis
        by auto
    next
      case c: False
      with run0 have "v \<notin> set targets" "probe_dirs g targets p path as queue seen = Some (Inr (queue', seen'))"
        by (auto split: if_splits)
      with 2(3) [OF d [symmetric] refl n False v] c show ?thesis
        by auto
    qed
  qed
qed simp

function probe_loop ::
  "grid \<Rightarrow> u8 list \<Rightarrow> probe_queue \<Rightarrow> (nat \<times> nat) list \<Rightarrow> string list option option" where
  "probe_loop g targets [] seen = Some None"
| "probe_loop g targets ((p, path) # queue) seen =
     (case probe_dirs g targets p path env_actions queue seen of
        None \<Rightarrow> None
      | Some (Inl found) \<Rightarrow> Some (Some found)
      | Some (Inr (queue', seen')) \<Rightarrow> probe_loop g targets queue' seen')"
  by pat_completeness auto
termination
  by (relation "measures [\<lambda>(g, targets, queue, seen). unseen g seen, \<lambda>(g, targets, queue, seen). length queue]")
    (auto dest: probe_dirs_progress)

definition toggle_probe_path :: "grid \<Rightarrow> u8 list \<Rightarrow> string list option option" where
  "toggle_probe_path g targets = Option.bind (env_player g) (\<lambda>p. probe_loop g targets [(p, [])] [p])"

section \<open>The toggle deliberator\<close>

fun show_semantics :: "semantics \<Rightarrow> string" where
  "show_semantics Blocking = ''Blocking''"
| "show_semantics Passable = ''Passable''"
| "show_semantics Lethal = ''Lethal''"

definition show_sem_map :: "sem_map \<Rightarrow> string" where
  "show_sem_map m = ''{'' @ join '', '' (map (\<lambda>(c, s). show_u8 c @ '': '' @ show_semantics s) m) @ ''}''"

definition show_strings :: "string list \<Rightarrow> string" where
  "show_strings xs = ''['' @ join '', '' (map (\<lambda>x. [dq] @ x @ [dq]) xs) @ '']''"

definition toggle_deliberate :: "toggle_deliberator deliberator" where
  "toggle_deliberate d current m line report ce = do {
     cs \<leftarrow> option_filter (\<lambda>c. consistent c (tl_records line)) (tg_candidates d);
     best \<leftarrow> (case cs of [] \<Rightarrow> None | b # _ \<Rightarrow> Some b);
     let d' = d\<lparr>tg_candidates := cs\<rparr>;
     let desc = ''mechanism hypothesis '' @ show_sem_map best @ '' ('' @ show_nat (length cs) @
       '' candidate(s) consistent with '' @ show_nat (timeline_len line) @ ''-step history)'';
     let m' = revise (Some (sem_predict best)) None desc m;
     ambiguous \<leftarrow> ambiguous_colors d';
     probe \<leftarrow> (if ambiguous = [] then Some None else toggle_probe_path current ambiguous);
     Some (d', m', (case probe of
       Some p \<Rightarrow> \<lparr>de_actions = p, de_intent = Experiment,
         de_note = ''Ambiguity over colors '' @ show_u8s ambiguous @ '': committing discriminating probe '' @
           show_strings p @ ''; outcomes differ across '' @ show_nat (length cs) @ '' surviving candidates.''\<rparr>
     | None \<Rightarrow> \<lparr>de_actions = [], de_intent = Plan,
         de_note = ''Unique-enough mechanism '' @ show_sem_map best @ ''; backtest '' @ backtest_summary report @
           ''; handing plan to in-model BFS.''\<rparr>))
   }"

section \<open>The cart deliberator\<close>

record cart_deliberator =
  cd_dock_cells :: "(nat \<times> nat) list"
  cd_reflow :: "((nat \<times> nat) \<times> u8) list"
  cd_unified :: bool

definition cart_deliberator_new :: "grid \<Rightarrow> cart_deliberator" where
  "cart_deliberator_new g = \<lparr>cd_dock_cells = find_color g 6, cd_reflow = [], cd_unified = False\<rparr>"

fun write_cells :: "((nat \<times> nat) \<times> u8) list \<Rightarrow> grid \<Rightarrow> grid option" where
  "write_cells [] g = Some g"
| "write_cells (((x, y), c) # ws) g = Option.bind (set_cell x y c g) (write_cells ws)"

definition cart_predict ::
  "(nat \<times> nat) list \<Rightarrow> ((nat \<times> nat) \<times> u8) list \<Rightarrow> bool \<Rightarrow> grid \<Rightarrow> string \<Rightarrow> prediction option" where
  "cart_predict dock reflow unified state action = do {
     (px, py, tx, ty) \<leftarrow> target_of state action;
     let (dx, dy) = env_delta action;
     v \<leftarrow> cell_at state tx ty;
     (if v = 0 then map_option prediction_of (moved state px py (nat tx) (nat ty))
      else if v = 3 then map_option prediction_win (moved state px py (nat tx) (nat ty))
      else if v = 4 then do {
        beyond \<leftarrow> cell_at state (tx + dx) (ty + dy);
        (if beyond = 0 \<or> beyond = 6 then do {
           g1 \<leftarrow> set_cell (nat (tx + dx)) (nat (ty + dy)) 4 state;
           g2 \<leftarrow> set_cell (nat tx) (nat ty) 1 g1;
           g3 \<leftarrow> set_cell px py 0 g2;
           g4 \<leftarrow> (if unified \<and> (nat (tx + dx), nat (ty + dy)) \<in> set dock then write_cells reflow g3 else Some g3);
           Some (prediction_of g4)
         } else Some (prediction_of state))
      } else Some (prediction_of state))
   }"

definition cart_install :: "cart_deliberator \<Rightarrow> string \<Rightarrow> world_model \<Rightarrow> world_model" where
  "cart_install d description m =
     revise (Some (cart_predict (cd_dock_cells d) (cd_reflow d) (cd_unified d))) None description m"

fun any_docked :: "(nat \<times> nat) list \<Rightarrow> grid \<Rightarrow> bool option" where
  "any_docked [] g = Some False"
| "any_docked ((x, y) # ps) g = Option.bind (cell g x y) (\<lambda>v. if v = 4 then Some True else any_docked ps g)"

fun learn_row :: "nat \<Rightarrow> nat \<Rightarrow> u8 list \<Rightarrow> u8 list \<Rightarrow> ((nat \<times> nat) \<times> u8) list \<Rightarrow> ((nat \<times> nat) \<times> u8) list" where
  "learn_row y x (pv # ps) (ov # os) reflow =
     learn_row y (x + 1) ps os (if pv \<noteq> ov then bt_insert (x, y) ov reflow else reflow)"
| "learn_row y x _ _ reflow = reflow"

fun learn_rows :: "nat \<Rightarrow> grid \<Rightarrow> grid \<Rightarrow> ((nat \<times> nat) \<times> u8) list \<Rightarrow> ((nat \<times> nat) \<times> u8) list" where
  "learn_rows y (p # ps) (r # rs) reflow = learn_rows (y + 1) ps rs (learn_row y 0 p r reflow)"
| "learn_rows y _ _ reflow = reflow"

definition show_pos :: "nat \<times> nat \<Rightarrow> string" where
  "show_pos p = ''('' @ show_nat (fst p) @ '', '' @ show_nat (snd p) @ '')''"

definition show_reflow :: "((nat \<times> nat) \<times> u8) list \<Rightarrow> string" where
  "show_reflow m = ''{'' @ join '', '' (map (\<lambda>(p, c). show_pos p @ '': '' @ show_u8 c) m) @ ''}''"

text \<open>The auxiliary model's goal: the cart on a dock cell. The dock cells were found in the initial
  grid and no step changes the shape, so the closure does not index out of bounds.\<close>

definition cart_aux_model :: "cart_deliberator \<Rightarrow> world_model" where
  "cart_aux_model d =
     model_new (cart_predict (cd_dock_cells d) (cd_reflow d) False)
       (\<lambda>g. any_docked (cd_dock_cells d) g = Some True) ''aux: cart-on-dock probe goal''"

definition cart_learn :: "cart_deliberator \<Rightarrow> world_model \<Rightarrow> transition \<Rightarrow>
  (cart_deliberator \<times> world_model \<times> deliberation) option" where
  "cart_learn d m ce = do {
     pred \<leftarrow> cart_predict (cd_dock_cells d) (cd_reflow d) False (tr_state_before ce) (tr_action ce);
     let d' = d\<lparr>cd_reflow := learn_rows 0 (pr_grid pred) (tr_state_after ce) (cd_reflow d), cd_unified := True\<rparr>;
     let m' = cart_install d'
       (''representation revision: cart unified as a board cell; dock event rewrites cells ['' @
        join '', '' (map (show_pos \<circ> fst) (cd_reflow d')) @
        ''] to observed values (learned from counterexample diff)'') m;
     Some (d', m', \<lparr>de_actions = [], de_intent = Plan,
       de_note = ''Counterexample at dock: sprite-overlay representation cannot express the board reflow. '' @
         ''Revised representation jointly with rules; learned reflow '' @ show_reflow (cd_reflow d') @ ''.''\<rparr>)
   }"

definition cart_deliberate :: "cart_deliberator deliberator" where
  "cart_deliberate d current m line report ce =
     (let m1 = (if wm_revision m = 0
            then cart_install d ''initial representation: static board + cart sprite; walls immutable'' m else m);
          plan = \<lparr>de_actions = [], de_intent = Plan,
            de_note = ''Backtest '' @ backtest_summary report @ ''; planning.''\<rparr>
      in case (ce, cd_unified d) of
           (Some t, False) \<Rightarrow> cart_learn d m1 t
         | _ \<Rightarrow> do {
             docked \<leftarrow> (if cd_unified d then Some True else any_docked (cd_dock_cells d) current);
             (if docked then Some (d, m1, plan)
              else do {
                bfs \<leftarrow> run_bfs (cart_aux_model d) current env_actions planning_nodes;
                Some (d, m1, (case bf_plan bfs of
                    Some p \<Rightarrow> \<lparr>de_actions = p, de_intent = Experiment,
                      de_note = ''Goal unreachable under current model; driving cart to dock as observation point ('' @
                        bfs_summary bfs @ '').''\<rparr>
                  | None \<Rightarrow> plan))
              })
           })"

end
