(* ===== verification/Schema_Discovery.thy ===== *)
theory Schema_Discovery
  imports Schema_Deliberators
begin

text \<open>
  Candidate elimination on \<open>ToggleMaze\<close> is safe: the hypothesis that describes the hidden mechanism
  agrees with every observation, so it is never eliminated, the list of candidates never runs empty
  (\<open>candidates[0]\<close> does not panic) and every model the deliberator installs answers every action.
\<close>

section \<open>Filters and probes that do not panic\<close>

lemma option_filter_total:
  "\<forall>x\<in>set xs. f x \<noteq> None \<Longrightarrow> option_filter f xs = Some (filter (\<lambda>x. f x = Some True) xs)"
  by (induction xs) auto

lemma probe_dirs_total: "rect g \<Longrightarrow> probe_dirs g targets p path as queue seen \<noteq> None"
proof (induction as arbitrary: queue seen)
  case (Cons a as)
  obtain dx dy where d: "env_delta a = (dx, dy)"
    by (cases "env_delta a")
  have c: "cell g x y = None \<longrightarrow> length g \<le> y \<or> length (g ! 0) \<le> x" for x y
    using rect_row [OF Cons.prems, of y] by (auto simp: cell_def)
  show ?case
    using Cons.IH [OF Cons.prems] c [of "nat (int (fst p) + dx)" "nat (int (snd p) + dy)"]
    by (auto simp: d Let_def split: Option.bind_splits)
qed simp

lemma probe_loop_total: "rect g \<Longrightarrow> probe_loop g targets queue seen \<noteq> None"
proof (induction g targets queue seen rule: probe_loop.induct)
  case (2 g targets p path queue seen)
  obtain x where x: "probe_dirs g targets p path env_actions queue seen = Some x"
    using probe_dirs_total [OF 2(2)] by blast
  show ?case
  proof (cases x)
    case (Inr y)
    obtain queue' seen' where y: "y = (queue', seen')"
      by (cases y)
    with 2(1) [OF x Inr y [symmetric] 2(2)] x Inr show ?thesis
      by simp
  qed (use x in simp)
qed simp

lemma toggle_probe_path_total: "walled g \<Longrightarrow> \<exists>p. toggle_probe_path g targets = Some p"
  using probe_loop_total [of g] by (auto simp: toggle_probe_path_def env_player_eq walled_def
      simp del: probe_loop.simps)

section \<open>The true mechanism\<close>

definition toggle_truth :: sem_map where
  "toggle_truth = [(5, Blocking), (7, Passable)]"

definition toggle_candidates :: "sem_map list" where
  "toggle_candidates = tg_candidates (toggle_deliberator_new toggle_layout)"

lemma toggle_candidates_eq:
  "toggle_candidates =
     [[(5, Blocking), (7, Blocking)], [(5, Blocking), (7, Passable)], [(5, Blocking), (7, Lethal)],
      [(5, Passable), (7, Blocking)], [(5, Passable), (7, Passable)], [(5, Passable), (7, Lethal)],
      [(5, Lethal), (7, Blocking)], [(5, Lethal), (7, Passable)], [(5, Lethal), (7, Lethal)]]"
  by code_simp

lemma toggle_unknown_colors_eq: "tg_unknown_colors (toggle_deliberator_new toggle_layout) = [5, 7]"
  by code_simp

text \<open>One step of a hypothesis on a walled grid.\<close>

lemma sem_predict_at:
  assumes "target_of g a = Some (px, py, int tx, int ty)" "cell_at g (int tx) (int ty) = Some c"
  shows "sem_predict sem g a =
    (if c = 3 then map_option prediction_win (moved g px py tx ty)
     else case (if c = 0 then Passable else the_default Blocking (map_of sem c)) of
         Passable \<Rightarrow> map_option prediction_of (moved g px py tx ty)
       | Lethal \<Rightarrow> Some (prediction_dead g) | Blocking \<Rightarrow> Some (prediction_of g))"
  using assms by (simp add: sem_predict_def split: semantics.split)

lemma moved_total:
  assumes "walled g" "interior (shape g) px py" "cell g tx ty = Some c"
  shows "\<exists>g'. moved g px py tx ty = Some g'"
proof -
  obtain g1 where g1: "set_cell px py 0 g = Some g1" "shape g1 = shape g"
    using set_cell_interior [OF assms(2)] set_cell_shape by blast
  then have "cell g1 tx ty \<noteq> None"
    using cell_Some_inside [OF assms(3)] cell_None_iff [of g1 tx ty] by simp
  with g1 show ?thesis
    using set_cell_ok [of tx ty 1 g1] by (auto simp: moved_def)
qed

lemma sem_predict_total: "walled g \<Longrightarrow> \<exists>pred. sem_predict sem g a = Some pred"
proof -
  assume w: "walled g"
  obtain px py dx dy tx ty c where t: "player g = Some (px, py)" "delta a = (dx, dy)" "interior (shape g) px py"
    "int px + dx = int tx" "int py + dy = int ty" "cell g tx ty = Some c" "in_bounds g (int tx) (int ty)"
    "target_of g a = Some (px, py, int tx, int ty)" "cell_at g (int tx) (int ty) = Some c"
    using walled_target [OF w] by metis
  obtain g' where "moved g px py tx ty = Some g'"
    using moved_total [OF w t(3,6)] by blast
  then show ?thesis
    by (simp add: sem_predict_at [OF t(8,9)] split: semantics.split)
qed

text \<open>A hypothesis that takes walls to block keeps the grid walled.\<close>

lemma sem_predict_walled:
  assumes w: "walled g" and s: "map_of sem 5 = Some Blocking" and p: "sem_predict sem g a = Some pred"
  shows "walled (pr_grid pred)"
proof -
  obtain px py dx dy tx ty c where t: "player g = Some (px, py)" "delta a = (dx, dy)" "interior (shape g) px py"
    "int px + dx = int tx" "int py + dy = int ty" "cell g tx ty = Some c" "in_bounds g (int tx) (int ty)"
    "target_of g a = Some (px, py, int tx, int ty)" "cell_at g (int tx) (int ty) = Some c"
    using walled_target [OF w] by metis
  show ?thesis
  proof (cases "c = 5")
    case True
    with p s w show ?thesis
      by (auto simp: sem_predict_at [OF t(8,9)] the_default_def prediction_of_def)
  next
    case False
    with t(6) w have "interior (shape g) tx ty"
      using fenced_cell by (simp add: walled_def)
    with moved_walled [OF w t(3)] obtain g' where "moved g px py tx ty = Some g'" "walled g'"
      by blast
    with p w show ?thesis
      by (auto simp: sem_predict_at [OF t(8,9)] prediction_of_def prediction_win_def prediction_dead_def
          split: if_splits semantics.splits)
  qed
qed

lemma sem_predict_answers: "map_of sem 5 = Some Blocking \<Longrightarrow> answers {g. walled g} (revise (Some (sem_predict sem)) goal d m)"
  unfolding answers_def using sem_predict_total sem_predict_walled
  by (fastforce simp: revise_def the_default_def)

lemma sem_predict_truth:
  assumes w: "walled g"
  shows "sem_predict toggle_truth g a = program_step toggle_program g a"
proof -
  obtain px py dx dy tx ty c where t: "player g = Some (px, py)" "delta a = (dx, dy)" "interior (shape g) px py"
    "int px + dx = int tx" "int py + dy = int ty" "cell g tx ty = Some c" "in_bounds g (int tx) (int ty)"
    "target_of g a = Some (px, py, int tx, int ty)" "cell_at g (int tx) (int ty) = Some c"
    using walled_target [OF w] by metis
  obtain b where b: "beyond_cell g (int tx + dx) (int ty + dy) = Some b"
    using beyond_cell_ok w unfolding walled_def by blast
  obtain g' where m: "moved g px py tx ty = Some g'"
    using moved_total [OF w t(3,6)] by blast
  show ?thesis
    by (simp add: sem_predict_at [OF t(8,9)] program_step_at [OF t(1,2,4,5,7,6)] toggle_rules b m apply_advance
        toggle_truth_def the_default_def prediction_of_def prediction_win_def)
qed

section \<open>The truth survives\<close>

lemma consistent_total:
  "\<forall>t\<in>set ts. walled (tr_state_before t) \<Longrightarrow> consistent sem ts \<noteq> None"
proof (induction ts)
  case (Cons t ts)
  with sem_predict_total [of "tr_state_before t" sem "tr_action t"] show ?case
    by auto
qed simp

lemma consistent_truth: "\<forall>t\<in>set ts. toggle_total.real t \<Longrightarrow> consistent toggle_truth ts = Some True"
proof (induction ts)
  case (Cons t ts)
  then obtain e e' obs where e: "toggle_state e (tr_state_before t)"
    "en_step toggle_maze e (tr_action t) = Some (e', obs)" "tr_state_after t = ob_grid obs"
    "tr_level_up t = ob_level_up obs" "tr_dead t = ob_dead obs" "tr_win t = ob_win obs"
    unfolding toggle_total.real_def by auto
  from toggle_faithful [OF e(1), of "tr_action t"] e(2) obtain pred where
    p: "program_step toggle_program (tr_state_before t) (tr_action t) = Some pred" "agrees pred obs"
    by (auto simp: toggle_maze_def)
  have "sem_predict toggle_truth (tr_state_before t) (tr_action t) = Some pred"
    using sem_predict_truth p(1) e(1) by (simp add: toggle_state_def)
  with p(2) e Cons show ?case
    by (simp add: agrees_def flags_ok_def)
qed simp

definition toggle_seat :: "toggle_deliberator \<Rightarrow> bool" where
  "toggle_seat d \<longleftrightarrow> tg_unknown_colors d = [5, 7] \<and>
     (\<exists>P. tg_candidates d = filter P toggle_candidates \<and> P toggle_truth)"

lemma toggle_seat_new: "toggle_seat (toggle_deliberator_new toggle_layout)"
  unfolding toggle_seat_def toggle_unknown_colors_eq
  by (intro conjI exI [of _ "\<lambda>_. True"]) (simp_all add: toggle_candidates_def)

lemma toggle_seat_retain:
  assumes "toggle_seat d" "\<forall>t\<in>set ts. toggle_total.real t"
  obtains cs where "option_filter (\<lambda>c. consistent c ts) (tg_candidates d) = Some cs"
    "toggle_seat (d\<lparr>tg_candidates := cs\<rparr>)"
proof -
  obtain P where P: "tg_candidates d = filter P toggle_candidates" "P toggle_truth" "tg_unknown_colors d = [5, 7]"
    using assms(1) by (auto simp: toggle_seat_def)
  have "\<forall>t\<in>set ts. walled (tr_state_before t)"
    using assms(2) by (auto simp: toggle_total.real_def toggle_state_def)
  from option_filter_total [of "tg_candidates d" "\<lambda>c. consistent c ts"] consistent_total [OF this]
  have f: "option_filter (\<lambda>c. consistent c ts) (tg_candidates d) =
      Some (filter (\<lambda>c. consistent c ts = Some True) (filter P toggle_candidates))"
    using P(1) by auto
  have "toggle_seat (d\<lparr>tg_candidates := filter (\<lambda>c. consistent c ts = Some True) (filter P toggle_candidates)\<rparr>)"
    unfolding toggle_seat_def using P(2,3) consistent_truth [OF assms(2)]
    by (auto intro!: exI [of _ "\<lambda>c. consistent c ts = Some True \<and> P c"] simp: conj_commute)
  with f that show thesis
    by blast
qed

lemma toggle_seat_hd:
  assumes "toggle_seat d"
  obtains b rest where "tg_candidates d = b # rest" "map_of b 5 = Some Blocking"
proof -
  obtain P where P: "tg_candidates d = filter P toggle_candidates" "P toggle_truth"
    using assms by (auto simp: toggle_seat_def)
  then show thesis
    using that unfolding toggle_candidates_eq toggle_truth_def by (auto split: if_splits)
qed

lemma toggle_seat_ambiguous: "toggle_seat d \<Longrightarrow> \<exists>cs. ambiguous_colors d = Some cs"
proof -
  assume s: "toggle_seat d"
  have "\<forall>m\<in>set toggle_candidates. map_of m 5 \<noteq> None \<and> map_of m 7 \<noteq> None"
    unfolding toggle_candidates_eq by simp
  with s have "\<forall>m\<in>set (tg_candidates d). map_of m 5 \<noteq> None \<and> map_of m 7 \<noteq> None"
    by (auto simp: toggle_seat_def)
  then have "those (map (\<lambda>m. map_of m c) (tg_candidates d)) \<noteq> None" if "c = 5 \<or> c = 7" for c
  proof (induction "tg_candidates d" arbitrary: d)
    case (Cons m ms)
    from Cons(1) [of "d\<lparr>tg_candidates := ms\<rparr>"] Cons(2) [symmetric] Cons(3) that show ?case
      by auto
  qed simp
  with s show ?thesis
    unfolding ambiguous_colors_def by (subst option_filter_total) (auto simp: toggle_seat_def)
qed

lemma toggle_deliberate_ok:
  assumes d: "toggle_seat d" and g: "walled g" and l: "\<forall>t\<in>set (tl_records line). toggle_total.real t"
  shows "\<exists>d' m' delib. toggle_deliberate d g m line r ce = Some (d', m', delib) \<and> toggle_seat d' \<and>
    answers {g. walled g} m'"
proof -
  obtain cs where cs: "option_filter (\<lambda>c. consistent c (tl_records line)) (tg_candidates d) = Some cs"
    "toggle_seat (d\<lparr>tg_candidates := cs\<rparr>)"
    by (rule toggle_seat_retain [OF d l])
  obtain b rest where b: "cs = b # rest" "map_of b 5 = Some Blocking"
    using toggle_seat_hd [OF cs(2)] by auto
  obtain am where am: "ambiguous_colors (d\<lparr>tg_candidates := cs\<rparr>) = Some am"
    using toggle_seat_ambiguous [OF cs(2)] by blast
  obtain pr where pr: "toggle_probe_path g am = Some pr"
    using toggle_probe_path_total [OF g] by blast
  have ans: "answers {g. walled g} (revise (Some (sem_predict b)) None desc m)" for desc
    by (rule sem_predict_answers [OF b(2)])
  show ?thesis
    using cs am pr ans unfolding toggle_deliberate_def b(1) by (simp add: Let_def)
qed

lemma toggle_seat_ok: "toggle_total.seat_ok toggle_seat (answers {g. walled g}) toggle_deliberate"
  unfolding toggle_total.seat_ok_def
  using toggle_deliberate_ok by (simp add: toggle_total.all_real_def toggle_state_def)

lemma vacuous_answers: "answers S model_vacuous"
  by (simp add: answers_def model_vacuous_def model_new_def prediction_of_def)

end
