(* ===== verification/Schema_Provider.thy ===== *)
theory Schema_Provider
  imports Schema_Discovery
begin

text \<open>
  The scripted provider of the protocol demo (\<open>crates/schema/src/demo_provider.rs\<close>), and the fact
  that makes the protocol a seam: with a lossless encoding the protocol deliberator runs like the
  function from requests to responses behind it.
\<close>

section \<open>The scripted provider\<close>

definition dirs :: "(string \<times> int \<times> int) list" where
  "dirs = [(''up'', 0, -1), (''down'', 0, 1), (''left'', -1, 0), (''right'', 1, 0)]"

definition dir_delta :: "string \<Rightarrow> int \<times> int" where
  "dir_delta action = (case find (\<lambda>(a, _). a = action) dirs of Some (_, d) \<Rightarrow> d | None \<Rightarrow> (0, 0))"

datatype sem = SemPassable | SemWinning | SemLethal | SemBlocking

fun sem_name :: "sem \<Rightarrow> string" where
  "sem_name SemPassable = ''passable''"
| "sem_name SemWinning = ''winning''"
| "sem_name SemLethal = ''lethal''"
| "sem_name SemBlocking = ''blocking''"

fun classify :: "(u8 \<times> sem) list \<Rightarrow> transition_digest list \<Rightarrow> (u8 \<times> sem) list option" where
  "classify out [] = Some out"
| "classify out (t # ts) =
     (case player (td_state_before t) of
        None \<Rightarrow> classify out ts
      | Some (px, py) \<Rightarrow>
          (let (dx, dy) = dir_delta (td_action t); tx = int px + dx; ty = int py + dy in
           if ty < 0 \<or> tx < 0 \<or> length (td_state_before t) \<le> nat ty \<or> length (td_state_before t ! 0) \<le> nat tx
           then classify out ts
           else do {
             target \<leftarrow> cell (td_state_before t) (nat tx) (nat ty);
             (if target = 0 \<or> target = 1 then classify out ts
              else classify (bt_insert target
                (if td_win t then SemWinning else if td_dead t then SemLethal
                 else if player (td_state_after t) = Some (nat tx, nat ty) then SemPassable else SemBlocking) out) ts)
           }))"

definition learned_effect :: "sem \<Rightarrow> effect option" where
  "learned_effect s =
     (case s of SemPassable \<Rightarrow> Some effect_advance | SemWinning \<Rightarrow> Some effect_advance_win
      | SemLethal \<Rightarrow> Some (effect_default\<lparr>ef_dead := True\<rparr>) | SemBlocking \<Rightarrow> None)"

definition learned_rule :: "u8 \<times> sem \<Rightarrow> rule list" where
  "learned_rule cs =
     (case cs of (color, s) \<Rightarrow>
        if color = 0 \<or> color = 3 then []
        else (case learned_effect s of
            None \<Rightarrow> []
          | Some eff \<Rightarrow> [\<lparr>ru_on_target = color, ru_beyond_any_of = None, ru_note = ''learned '' @ sem_name s,
              ru_effect = eff\<rparr>]))"

definition author_program :: "(u8 \<times> sem) list \<Rightarrow> rule_program" where
  "author_program sems =
     \<lparr>rp_rules =
        [\<lparr>ru_on_target = 0, ru_beyond_any_of = None, ru_note = ''floor'', ru_effect = effect_advance\<rparr>,
         \<lparr>ru_on_target = 3, ru_beyond_any_of = None, ru_note = ''goal'', ru_effect = effect_advance_win\<rparr>] @
        concat (map learned_rule sems),
      rp_goal_absent_colors = []\<rparr>"

definition unknown_colors :: "grid \<Rightarrow> (u8 \<times> sem) list \<Rightarrow> u8 list" where
  "unknown_colors g sems =
     sort (remdups (filter (\<lambda>v. v \<noteq> 0 \<and> v \<noteq> 1 \<and> v \<noteq> 3 \<and> map_of sems v = None) (concat g)))"

definition demo_probe_path :: "grid \<Rightarrow> u8 list \<Rightarrow> string list option option" where
  "demo_probe_path g targets =
     (case player g of None \<Rightarrow> Some None | Some p \<Rightarrow> probe_loop g targets [(p, [])] [p])"

definition toggle_respond :: "deliberation_request \<Rightarrow> deliberation_response option" where
  "toggle_respond req = do {
     sems \<leftarrow> classify [] (rq_timeline req);
     let unknown = unknown_colors (rq_current_grid req) sems;
     probe \<leftarrow> (if unknown = [] then Some None else demo_probe_path (rq_current_grid req) unknown);
     let (intent, actions, note) =
       (if unknown = [] then (''plan'', [], ''mechanism fully classified; certify and plan to goal'')
        else (case probe of
            Some p \<Rightarrow> (''experiment'', p, ''probing ambiguous color(s) '' @ show_u8s unknown @ '' via '' @
              show_strings p @ '' to learn their semantics'')
          | None \<Rightarrow> (''plan'', [], ''no reachable probe; planning with current model'')));
     Some \<lparr>rs_revised_program = Some (author_program sems), rs_intent = intent, rs_actions = actions, rs_note = note\<rparr>
   }"

definition toggle_provider ::
  "(string \<Rightarrow> string + deliberation_request) \<Rightarrow> (deliberation_response \<Rightarrow> string) \<Rightarrow> string \<Rightarrow> string option" where
  "toggle_provider parse_request response_json prompt =
     (case parse_request prompt of
        Inl e \<Rightarrow> Some (response_json
          \<lparr>rs_revised_program = None, rs_intent = ''experiment'', rs_actions = [],
           rs_note = ''could not parse request: '' @ e\<rparr>)
      | Inr req \<Rightarrow> map_option response_json (toggle_respond req))"

section \<open>The protocol as a refinement\<close>

text \<open>A deliberator without an encoding: the response is installed as it is.\<close>

definition direct_deliberate ::
  "(deliberation_request \<Rightarrow> deliberation_response option) \<Rightarrow> unit deliberator" where
  "direct_deliberate answer d current m line report ce =
     map_option (\<lambda>resp. ((), respond resp m)) (answer (deliberation_request_of current m line report ce))"

text \<open>An agent seen through an abstraction of its deliberator.\<close>

definition agent_abs :: "('d \<Rightarrow> 'c) \<Rightarrow> ('e, 'd) schema_agent \<Rightarrow> ('e, 'c) schema_agent" where
  "agent_abs f ag =
     \<lparr>ag_env = ag_env ag, ag_model = ag_model ag, ag_deliberator = f (ag_deliberator ag),
      ag_timeline = ag_timeline ag, ag_max_cycles = ag_max_cycles ag\<rparr>"

definition loop_abs :: "('d \<Rightarrow> 'c) \<Rightarrow> ('e, 'd) loop_state \<Rightarrow> ('e, 'c) loop_state" where
  "loop_abs f s =
     \<lparr>ls_agent = agent_abs f (ls_agent s), ls_log = ls_log s, ls_current = ls_current s,
      ls_counterexample = ls_counterexample s, ls_done = ls_done s\<rparr>"

definition seat_refines :: "('d \<Rightarrow> 'c) \<Rightarrow> 'd deliberator \<Rightarrow> 'c deliberator \<Rightarrow> bool" where
  "seat_refines f D C \<longleftrightarrow>
     (\<forall>d g m line r ce. C (f d) g m line r ce = map_option (\<lambda>(d', m', de). (f d', m', de)) (D d g m line r ce))"

lemma loop_abs_simps [simp]:
  "ls_agent (loop_abs f s) = agent_abs f (ls_agent s)" "ls_log (loop_abs f s) = ls_log s"
  "ls_current (loop_abs f s) = ls_current s" "ls_counterexample (loop_abs f s) = ls_counterexample s"
  "ls_done (loop_abs f s) = ls_done s" "ag_env (agent_abs f ag) = ag_env ag"
  "ag_model (agent_abs f ag) = ag_model ag" "ag_deliberator (agent_abs f ag) = f (ag_deliberator ag)"
  "ag_timeline (agent_abs f ag) = ag_timeline ag" "ag_max_cycles (agent_abs f ag) = ag_max_cycles ag"
  by (simp_all add: loop_abs_def agent_abs_def)

lemma deliberate_turn_abs:
  assumes "seat_refines f D C"
  shows "deliberate_turn C (loop_abs f s) = map_option (\<lambda>(s1, de). (loop_abs f s1, de)) (deliberate_turn D s)"
  using assms unfolding seat_refines_def
  by (auto simp: deliberate_turn_def Let_def loop_abs_def agent_abs_def split: Option.bind_split option.split)

lemma execute_turn_abs: "execute_turn E (loop_abs f s) de = map_option (loop_abs f) (execute_turn E s de)"
  by (auto simp: execute_turn_def Let_def loop_abs_def agent_abs_def split: Option.bind_split prod.split)

lemma cycle_abs:
  assumes "seat_refines f D C"
  shows "cycle E C (loop_abs f s) = map_option (loop_abs f) (cycle E D s)"
proof (cases "deliberate_turn D s")
  case (Some x)
  obtain s1 de where x: "x = (s1, de)"
    by (cases x)
  have upd: "(loop_abs f s1)\<lparr>ls_log := l\<rparr> = loop_abs f (s1\<lparr>ls_log := l\<rparr>)" for l
    by (simp add: loop_abs_def)
  show ?thesis
    using Some x deliberate_turn_abs [OF assms, of s]
    by (auto simp: cycle_def Let_def upd execute_turn_abs split: Option.bind_split)
qed (use deliberate_turn_abs [OF assms, of s] in \<open>simp add: cycle_def\<close>)

lemma cycles_abs:
  "seat_refines f D C \<Longrightarrow> cycles n E C (loop_abs f s) = map_option (loop_abs f) (cycles n E D s)"
proof (induction n arbitrary: s)
  case (Suc n)
  then show ?case
    by (cases "cycle E D s") (simp_all add: cycle_abs)
qed simp

lemma agent_run_abs:
  assumes "seat_refines f D C"
  shows "agent_run E C (agent_abs f ag) = map_option (\<lambda>(ag', log). (agent_abs f ag', log)) (agent_run E D ag)"
proof -
  obtain e obs where r: "en_reset E (ag_env ag) = (e, obs)"
    by fastforce
  let ?s = "\<lparr>ls_agent = ag\<lparr>ag_env := e\<rparr>, ls_log = log_default, ls_current = ob_grid obs,
     ls_counterexample = None, ls_done = False\<rparr>"
  have init: "loop_abs f ?s = \<lparr>ls_agent = (agent_abs f ag)\<lparr>ag_env := e\<rparr>, ls_log = log_default,
     ls_current = ob_grid obs, ls_counterexample = None, ls_done = False\<rparr>"
    by (simp add: loop_abs_def agent_abs_def)
  show ?thesis
    using cycles_abs [OF assms, of "ag_max_cycles ag" E ?s, unfolded init]
    by (auto simp: agent_run_def r Let_def split: Option.bind_split)
qed

text \<open>With encodings that decode to what was encoded, the protocol is its provider's answer.\<close>

lemma protocol_refines_direct:
  assumes "\<And>q. parse_request (request_json q) = Inr q" "\<And>r. parse_response (response_json r) = Inr r"
  shows "seat_refines (\<lambda>_. ())
    (protocol_deliberate request_json parse_response
      (\<lambda>p prompt. map_option (Pair p) (toggle_provider parse_request response_json prompt)))
    (direct_deliberate toggle_respond)"
  using assms
  by (auto simp: seat_refines_def protocol_deliberate_def direct_deliberate_def toggle_provider_def Let_def
      split: Option.bind_split)

end
