(* ===== verification/Schema_Codec.thy ===== *)
theory Schema_Codec
  imports Schema_Provider "HOL-Library.Countable"
begin

text \<open>
  The messages of the deliberation protocol are countable, so lossless text encodings of them exist:
  the laws the protocol demo assumes of serde can hold.
\<close>

instance word :: (len) countable
  by (rule countable_classI [of unat]) (simp add: word_unat_eq_iff)

instance cell_write_ext :: (countable) countable
  by (rule countable_classI [of "\<lambda>r. to_nat (cw_x r, cw_y r, cw_color r, cell_write.more r)"]) simp

instance effect_ext :: (countable) countable
  by (rule countable_classI [of "\<lambda>r. to_nat (ef_player_advances r, ef_push r, ef_win r, ef_dead r, ef_writes r,
      ef_writes_when_beyond r, effect.more r)"]) simp

instance rule_ext :: (countable) countable
  by (rule countable_classI [of "\<lambda>r. to_nat (ru_on_target r, ru_beyond_any_of r, ru_note r, ru_effect r, rule.more r)"])
    simp

instance rule_program_ext :: (countable) countable
  by (rule countable_classI [of "\<lambda>r. to_nat (rp_rules r, rp_goal_absent_colors r, rule_program.more r)"]) simp

instance transition_digest_ext :: (countable) countable
  by (rule countable_classI [of "\<lambda>r. to_nat (td_index r, td_action r, td_state_before r, td_state_after r,
      td_level_up r, td_dead r, td_win r, transition_digest.more r)"]) simp

instance deliberation_request_ext :: (countable) countable
  by (rule countable_classI [of "\<lambda>r. to_nat (rq_current_grid r, rq_legal_actions r, rq_timeline r,
      rq_current_program r, rq_backtest_summary r, rq_counterexample r, deliberation_request.more r)"]) simp

instance deliberation_response_ext :: (countable) countable
  by (rule countable_classI [of "\<lambda>r. to_nat (rs_revised_program r, rs_intent r, rs_actions r, rs_note r,
      deliberation_response.more r)"]) simp

definition unary_text :: "'a::countable \<Rightarrow> string" where
  "unary_text x = replicate (to_nat x) (CHR ''x'')"

definition unary_parse :: "string \<Rightarrow> 'e + 'a::countable" where
  "unary_parse s = Inr (from_nat (length s))"

lemma unary_parse_text [simp]: "unary_parse (unary_text x) = Inr x"
  by (simp add: unary_parse_def unary_text_def)

end
