(* ===== verification/Schema_Demos.thy ===== *)
theory Schema_Demos
  imports Schema_Codec "HOL-Library.Code_Target_Nat"
begin

text \<open>
  The demos of the Schema CLI (\<open>crates/schema/src/main.rs\<close>), run inside the logic: each wins its
  environment and ends with a model that explains the whole history. What they print is left out.
  The protocol demo takes serde's encodings as arguments.
\<close>

definition demo_toggle :: "bool option" where
  "demo_toggle = do {
     let (env, first) = en_reset toggle_maze toggle_new;
     (ag, log) \<leftarrow> agent_run toggle_maze toggle_deliberate
       (agent_new env model_vacuous (toggle_deliberator_new (ob_grid first)));
     final \<leftarrow> run_backtest (ag_model ag) (ag_timeline ag);
     Some (lg_won log \<and> green final)
   }"

definition demo_cart :: "bool option" where
  "demo_cart = do {
     let (env, first) = en_reset cart_dock cart_new;
     (ag, log) \<leftarrow> agent_run cart_dock cart_deliberate
       (agent_new env model_vacuous (cart_deliberator_new (ob_grid first)));
     final \<leftarrow> run_backtest (ag_model ag) (ag_timeline ag);
     Some (lg_won log \<and> green final \<and> cd_unified (ag_deliberator ag))
   }"

definition demo_protocol ::
  "(deliberation_request \<Rightarrow> string) \<Rightarrow> (string \<Rightarrow> string + deliberation_request) \<Rightarrow>
   (deliberation_response \<Rightarrow> string) \<Rightarrow> (string \<Rightarrow> string + deliberation_response) \<Rightarrow> bool option" where
  "demo_protocol request_json parse_request response_json parse_response = do {
     let (env, _) = en_reset toggle_maze toggle_new;
     (ag, log) \<leftarrow> agent_run toggle_maze
       (protocol_deliberate request_json parse_response
         (\<lambda>p prompt. map_option (Pair p) (toggle_provider parse_request response_json prompt)))
       (agent_new env (from_program program_vacuous ''vacuous program'')
         \<lparr>pd_provider = (), pd_transcript = []\<rparr>);
     final \<leftarrow> run_backtest (ag_model ag) (ag_timeline ag);
     Some (lg_won log \<and> green final)
   }"

definition demo_direct :: "bool option" where
  "demo_direct = do {
     let (env, _) = en_reset toggle_maze toggle_new;
     (ag, log) \<leftarrow> agent_run toggle_maze (direct_deliberate toggle_respond)
       (agent_new env (from_program program_vacuous ''vacuous program'') ());
     final \<leftarrow> run_backtest (ag_model ag) (ag_timeline ag);
     Some (lg_won log \<and> green final)
   }"

lemma demo_direct_wins: "demo_direct = Some True"
  by code_simp

lemma agent_abs_new: "agent_abs f (agent_new e m d) = agent_new e m (f d)"
  by (simp add: agent_abs_def agent_new_def)

lemma demo_protocol_direct:
  assumes "\<And>q. parse_request (request_json q) = Inr q" "\<And>r. parse_response (response_json r) = Inr r"
  shows "demo_protocol request_json parse_request response_json parse_response = demo_direct"
proof -
  obtain env obs where r: "en_reset toggle_maze toggle_new = (env, obs)"
    by fastforce
  show ?thesis
    using agent_run_abs [OF protocol_refines_direct [OF assms], of toggle_maze
        "agent_new env (from_program program_vacuous ''vacuous program'') \<lparr>pd_provider = (), pd_transcript = []\<rparr>"]
    by (auto simp: demo_protocol_def demo_direct_def r agent_abs_new split: Option.bind_split)
qed

end
