(* ===== verification/Schema_Properties.thy ===== *)
theory Schema_Properties
  imports Schema_Demos
begin

text \<open>
  The properties of the Schema harness: exact backtesting, a complete and shortest planner, gated
  execution, an outer loop whose record is the truth, lossless sessions, a protocol that cannot break
  the loop, and the demos run to their win.
\<close>

section \<open>Concrete inputs for the witnesses\<close>

text \<open>A two-cell floor, and a deliberator that always commits one step to the right.\<close>

definition floor_model :: world_model where
  "floor_model = from_program \<lparr>rp_rules = [rule_new 0 effect_advance], rp_goal_absent_colors = []\<rparr> ''floor''"

definition floor_states :: "grid list" where
  "floor_states = [[[1, 0]], [[0, 1]]]"

definition poke :: "unit deliberator" where
  "poke d g m line r ce = Some (d, m, \<lparr>de_actions = [''right''], de_intent = Experiment, de_note = []\<rparr>)"

definition poke_agent :: "(game, unit) schema_agent" where
  "poke_agent = (agent_new toggle_new toggle_model ())\<lparr>ag_max_cycles := 1\<rparr>"

definition poke_state :: "(game, unit) loop_state" where
  "poke_state = \<lparr>ls_agent = poke_agent, ls_log = log_default, ls_current = toggle_layout,
     ls_counterexample = None, ls_done = False\<rparr>"

definition plan_seat :: "unit deliberator" where
  "plan_seat d g m line r ce = Some (d, m, \<lparr>de_actions = [], de_intent = Plan, de_note = []\<rparr>)"

lemma Some_witness: "(case x of None \<Rightarrow> False | Some y \<Rightarrow> P y) \<Longrightarrow> \<exists>y. x = Some y \<and> P y"
  by (cases x) auto

lemma model_closed_list:
  "model_closed m acts (set ts) \<longleftrightarrow>
     list_all (\<lambda>t. list_all (\<lambda>a. case wm_step m t a of
        None \<Rightarrow> False | Some pred \<Rightarrow> pr_dead pred \<or> pr_grid pred \<in> set ts) acts) ts"
proof -
  have "(\<exists>pred. x = Some pred \<and> Q pred) \<longleftrightarrow> (case x of None \<Rightarrow> False | Some pred \<Rightarrow> Q pred)" for x and Q :: "prediction \<Rightarrow> bool"
    by (cases x) auto
  then show ?thesis
    by (simp add: model_closed_def list_all_iff)
qed

section \<open>Backtest\<close>

text \<open>C1. The backtest report counts every recorded transition exactly once and lists, in order and
  with the right kind, the ones the model does not explain; it is green exactly when there is a
  history and the model explains all of it (flags on every step, grids on the non-terminal ones).\<close>

theorem backtest_exact:
  assumes "run_backtest m line = Some r"
  shows "br_total r = timeline_len line
    \<and> br_exact r + br_skipped r + length (br_mismatches r) = br_total r
    \<and> map (\<lambda>x. (mm_index x, mm_kind x)) (br_mismatches r) =
        map (\<lambda>t. (tr_index t, mismatch_kind_of m t)) (filter (\<lambda>t. \<not> matches m t) (tl_records line))
    \<and> br_skipped r = length (filter (\<lambda>t. matches m t \<and> transition_terminal t) (tl_records line))
    \<and> (green r \<longleftrightarrow> \<not> timeline_is_empty line \<and> (\<forall>t\<in>set (tl_records line). matches m t))"
proof (intro conjI)
  note r = run_backtest_report [OF assms]
  have "length (br_mismatches r) = length (filter (\<lambda>t. \<not> matches m t) (tl_records line))"
    using arg_cong [OF r(4), of length] by simp
  then show "br_exact r + br_skipped r + length (br_mismatches r) = br_total r"
    using filter_partition_length [of "matches m" transition_terminal "tl_records line"] r(1-3) by simp
qed (use run_backtest_report [OF assms] green_iff [OF assms] in
  \<open>simp_all add: timeline_len_def timeline_is_empty_def\<close>)

theorem backtest_exact_witness:
  "\<exists>r. run_backtest toggle_model (fst (append_transition toggle_layout ''right'' toggle_layout False False False
      timeline_new)) = Some r \<and> br_exact r + br_skipped r + length (br_mismatches r) = 1"
proof -
  have "\<exists>r. run_backtest toggle_model (fst (append_transition toggle_layout ''right'' toggle_layout False False
      False timeline_new)) = Some r \<and> br_total r = 1"
    by (rule Some_witness) code_simp
  then show ?thesis
    using backtest_exact by metis
qed

section \<open>Planner\<close>

text \<open>C2. A plan the search returns reaches the goal it names inside the model, with its last action
  and not before, and no sequence of the given actions that reaches a goal is shorter; a search that
  returns none before its budget is used up proves that no sequence of actions reaches a goal. The
  search expands at most the budget and visits at most one state per expanded node and action.\<close>

theorem bfs_shortest:
  assumes "run_bfs m s acts n = Some r"
  shows "(case bf_plan r of
      Some p \<Rightarrow> (\<exists>via. bf_goal_via r = Some via \<and> leads_to m s p = Some via) \<and> set p \<subseteq> set acts \<and>
        (\<forall>q. set q \<subseteq> set acts \<and> leads_to m s q \<noteq> None \<longrightarrow> length p \<le> length q)
    | None \<Rightarrow> bf_expanded r < n \<longrightarrow> (\<forall>q. set q \<subseteq> set acts \<longrightarrow> leads_to m s q = None)) \<and>
    bf_expanded r \<le> n \<and> bf_distinct r \<le> 1 + bf_expanded r * length acts"
proof (cases "wm_is_goal m s")
  case True
  with assms show ?thesis
    by (auto simp: run_bfs_def)
next
  case False
  with assms have l: "bfs_loop m acts n [(s, [])] [s] 0 = Some r"
    by (simp add: run_bfs_def)
  from bfs_loop_correct [OF l bfs_inv_start False] bfs_loop_bounds [OF l] show ?thesis
    by (auto simp: shortest_plan_def split: option.splits)
qed

theorem bfs_shortest_witness:
  "\<exists>r. run_bfs toggle_model toggle_layout env_actions 100 = Some r \<and>
     (\<forall>q. set q \<subseteq> set env_actions \<and> leads_to toggle_model toggle_layout q \<noteq> None \<longrightarrow> 4 \<le> length q)"
proof -
  have "\<exists>r. run_bfs toggle_model toggle_layout env_actions 100 = Some r \<and>
      bf_plan r = Some (replicate 4 ''right'')"
    by (rule Some_witness) code_simp
  then show ?thesis
    using bfs_shortest [of toggle_model toggle_layout env_actions 100] by fastforce
qed

text \<open>Inside a finite set of states closed under the model's predictions the search answers, and a
  budget of as many nodes as there are states decides: it returns no plan exactly when there is none.\<close>

theorem bfs_decides:
  assumes "model_closed m acts S" "finite S" "card S \<le> n" "s \<in> S"
  shows "\<exists>r. run_bfs m s acts n = Some r \<and>
    (bf_plan r = None \<longleftrightarrow> (\<forall>q. set q \<subseteq> set acts \<longrightarrow> leads_to m s q = None))"
proof (cases "wm_is_goal m s")
  case True
  then have "leads_to m s [] \<noteq> None"
    by simp
  with True show ?thesis
    by (auto simp: run_bfs_def intro!: exI [of _ "[] :: string list"])
next
  case False
  obtain r where l: "bfs_loop m acts n [(s, [])] [s] 0 = Some r"
    using bfs_loop_total [OF assms(1) bfs_inv_start, of s n 0] assms(4) by auto
  have complete: "leads_to m s q = None" if "bf_plan r = None" "set q \<subseteq> set acts" for q
    by (rule bfs_loop_exhausts [OF l bfs_inv_start assms(1) _ assms(2,3) _ that(1) False that(2)])
      (use assms(4) in simp_all)
  have sound: "\<exists>via. set p \<subseteq> set acts \<and> leads_to m s p = Some via" if "bf_plan r = Some p" for p
    using bfs_loop_correct [OF l bfs_inv_start False] that by (auto simp: shortest_plan_def)
  have "bf_plan r = None \<longleftrightarrow> (\<forall>q. set q \<subseteq> set acts \<longrightarrow> leads_to m s q = None)"
    using complete sound by (cases "bf_plan r") fastforce+
  then show ?thesis
    by (simp add: run_bfs_def False l del: bfs_loop.simps)
qed

theorem bfs_decides_witness:
  "\<exists>r. run_bfs floor_model [[1, 0]] env_actions 2 = Some r \<and>
     (bf_plan r = None \<longleftrightarrow> (\<forall>q. set q \<subseteq> set env_actions \<longrightarrow> leads_to floor_model [[1, 0]] q = None))"
proof (rule bfs_decides [where S = "set floor_states"])
  show "model_closed floor_model env_actions (set floor_states)"
    unfolding model_closed_list by code_simp
  show "card (set floor_states) \<le> 2"
    using card_length [of floor_states] by (simp add: floor_states_def)
qed (simp_all add: floor_states_def)

text \<open>C7. The interpreter of rule programs never indexes out of bounds on a rectangular grid and keeps
  its shape, so a search with a program-backed model always returns.\<close>

theorem program_step_safe:
  assumes "rect g"
  shows "(\<exists>pred. program_step p g a = Some pred \<and> map length (pr_grid pred) = map length g) \<and>
    (\<exists>r. run_bfs (from_program p d) g acts n = Some r)"
  using program_step_keeps [OF assms] run_bfs_total [OF program_backed_answers, of "from_program p d" g acts n] assms
  by auto

theorem program_step_safe_witness:
  "rect toggle_layout \<and> (\<exists>r. run_bfs (from_program cart_program []) toggle_layout env_actions 7 = Some r)"
proof -
  have r: "rect toggle_layout"
    by code_simp
  with program_step_safe [OF r, of cart_program _ "[]" env_actions 7] show ?thesis
    by blast
qed

section \<open>Executor\<close>

text \<open>C3. Committing a plan records one transition per executed action, each produced by the environment
  and starting where the previous one ended. What was executed and what was discarded make up the
  plan; all but the last transition were explained by the model and not terminal; a misprediction is
  counted, and surfaces as the counterexample, exactly when the last transition is not explained; and
  actions are only discarded after a misprediction or a terminal transition.\<close>

theorem commit_contract:
  assumes "commit_actions E e m line g plan = Some (e', line', r)"
  shows "\<exists>new. tl_records line' = tl_records line @ new \<and> (timeline_ok line \<longrightarrow> timeline_ok line')
    \<and> er_executed r @ er_discarded r = plan \<and> map tr_action new = er_executed r
    \<and> chained g new \<and> er_final_state r = end_state g new \<and> (\<forall>t\<in>set new. genuine E t)
    \<and> (\<forall>t\<in>set (butlast new). matches m t \<and> \<not> transition_terminal t)
    \<and> (halted r \<longleftrightarrow> new \<noteq> [] \<and> \<not> matches m (last new))
    \<and> er_counterexample r = (if halted r then Some (last new) else None)
    \<and> (er_discarded r \<noteq> [] \<longrightarrow> halted r \<or> transition_terminal (last new))"
proof -
  from commit_actions_contract [OF assms] obtain new where n:
    "tl_records line' = tl_records line @ new" "timeline_ok line \<longrightarrow> timeline_ok line'"
    "er_executed r @ er_discarded r = plan" and p: "commit_post E m g new r"
    by blast
  note h = commit_post_halted [OF p]
  have d: "er_discarded r \<noteq> [] \<longrightarrow> halted r \<or> transition_terminal (last new)"
    using commit_postD(8) [OF p] h by blast
  show ?thesis
    by (rule exI [of _ new], intro conjI n h d commit_postD(1-5) [OF p] commit_postD(1) [OF p])
      (simp add: commit_postD(7) [OF p] h)
qed

theorem commit_contract_witness:
  "\<exists>e' line' r. commit_actions toggle_maze toggle_new floor_model timeline_new toggle_layout
      [''right'', ''right'', ''right''] = Some (e', line', r) \<and>
     er_executed r = [''right'', ''right''] \<and> (\<exists>t. er_counterexample r = Some t \<and> \<not> matches floor_model t)"
proof -
  have "\<exists>y. commit_actions toggle_maze toggle_new floor_model timeline_new toggle_layout
      [''right'', ''right'', ''right''] = Some y \<and>
      (case y of (_, _, r) \<Rightarrow> er_executed r = [''right'', ''right''] \<and> halted r)"
    by (rule Some_witness) code_simp
  then obtain e' line' r where c: "commit_actions toggle_maze toggle_new floor_model timeline_new toggle_layout
      [''right'', ''right'', ''right''] = Some (e', line', r)" "er_executed r = [''right'', ''right'']" "halted r"
    by auto
  from commit_contract [OF c(1)] c(2,3) show ?thesis
    by (intro exI [of _ e'] exI [of _ line'] exI [of _ r]) (auto simp: c(1))
qed

end
