(* ===== verification/Schema_Outcomes.thy ===== *)
theory Schema_Outcomes
  imports Schema_Properties
begin

text \<open>
  The properties of the harness that span its parts: planning against the real environment, the outer
  loop, sessions, the protocol and the demos.
\<close>

section \<open>Plans in the real environment\<close>

lemma cart_no_level_up: "en_step cart_dock e a = Some (e', obs) \<Longrightarrow> \<not> ob_level_up obs"
  by (auto simp: cart_dock_def cart_step_def Let_def observation_of_def observation_win_def
      split: Option.bind_splits if_splits prod.splits)

lemma cart_goal_is_win: "env_goal cart_dock e q = Some via \<Longrightarrow> via = ViaWin"
  by (induction q arbitrary: e) (auto split: Option.bind_splits if_splits dest: cart_no_level_up)

text \<open>In the cart environment, from any state with a fenced grid and a clear gate, a plan found
  inside the model of its rules runs to the end without a misprediction and wins, no shorter sequence
  of actions wins, and a search that ends before its budget without a plan proves that no sequence of
  actions wins.\<close>

theorem cart_plans_win:
  assumes "cart_state e g" "run_bfs cart_model g env_actions n = Some b"
  shows "case bf_plan b of
      Some p \<Rightarrow> (\<exists>e' line' r. commit_actions cart_dock e cart_model line g p = Some (e', line', r) \<and>
          er_executed r = p \<and> er_mispredictions r = 0 \<and> er_win r) \<and>
        (\<forall>q. set q \<subseteq> set env_actions \<and> env_goal cart_dock e q \<noteq> None \<longrightarrow> length p \<le> length q)
    | None \<Rightarrow> bf_expanded b < n \<longrightarrow> (\<forall>q. set q \<subseteq> set env_actions \<longrightarrow> env_goal cart_dock e q = None)"
proof -
  have l: "bfs_loop cart_model env_actions n [(g, [])] [g] 0 = Some b"
    using assms(2) cart_world.no_goal_states [of g] by (simp add: run_bfs_def)
  note r = bfs_loop_correct [OF l bfs_inv_start cart_world.no_goal_states]
  note agree = cart_world.goals_agree [OF assms(1)]
  show ?thesis
  proof (cases "bf_plan b")
    case None
    with r agree show ?thesis
      by simp
  next
    case (Some p)
    with r obtain via where p: "shortest_plan cart_model env_actions g p via"
      by auto
    have "via = ViaWin"
      using cart_goal_is_win [of e p via] agree [of p] p by (simp add: shortest_plan_def)
    with cart_world.plan_executes [OF assms(1), of p via p 0 line "[]"] p Some agree show ?thesis
      by (auto simp: shortest_plan_def commit_actions_def)
  qed
qed

theorem cart_plans_win_witness:
  "\<exists>b p. run_bfs cart_model cart_layout env_actions 100 = Some b \<and> bf_plan b = Some p \<and>
     (\<exists>e' line' r. commit_actions cart_dock cart_new cart_model timeline_new cart_layout p = Some (e', line', r) \<and>
        er_win r)"
proof -
  have s: "cart_state cart_new cart_layout"
    by (simp add: cart_state_def cart_new_def cart_layout_walled)
  have "\<exists>b. run_bfs cart_model cart_layout env_actions 100 = Some b \<and> bf_plan b \<noteq> None"
    by (rule Some_witness) code_simp
  then obtain b p where b: "run_bfs cart_model cart_layout env_actions 100 = Some b" "bf_plan b = Some p"
    by auto
  from cart_plans_win [OF s b(1), of timeline_new] b show ?thesis
    by auto
qed

section \<open>The outer loop\<close>

text \<open>C4. A run only appends to the timeline, and only transitions the environment produced. It reports a
  win exactly when the last of them is an observed win, no earlier one is, it deliberates at most
  \<open>max_cycles\<close> times, and the action count it reports is the number of transitions it recorded.\<close>

theorem run_is_recorded:
  assumes "agent_run E D ag = Some (ag', log)" "E = toggle_maze \<or> E = cart_dock"
  shows "\<exists>new. tl_records (ag_timeline ag') = tl_records (ag_timeline ag) @ new
    \<and> (timeline_ok (ag_timeline ag) \<longrightarrow> timeline_ok (ag_timeline ag'))
    \<and> (\<forall>t\<in>set new. genuine E t) \<and> (lg_won log \<longleftrightarrow> new \<noteq> [] \<and> tr_win (last new))
    \<and> (\<forall>t\<in>set (butlast new). \<not> tr_win t) \<and> length (lg_backtests log) \<le> ag_max_cycles ag
    \<and> lg_env_actions log = en_actions_taken E (ag_env ag) + length new"
proof -
  obtain new where n: "tl_records (ag_timeline ag') = tl_records (ag_timeline ag) @ new"
    "timeline_ok (ag_timeline ag) \<longrightarrow> timeline_ok (ag_timeline ag')" "\<forall>t\<in>set new. genuine E t"
    "\<forall>t\<in>set (butlast new). \<not> tr_win t" "lg_won log \<longleftrightarrow> new \<noteq> [] \<and> tr_win (last new)"
    "length (lg_backtests log) \<le> ag_max_cycles ag"
    using agent_run_appends [OF assms(1)] by blast
  have "lg_env_actions log + length (tl_records (ag_timeline ag)) =
      en_actions_taken E (ag_env ag) + length (tl_records (ag_timeline ag'))"
    using assms toggle_counts.run_counts cart_counts.run_counts by blast
  with n show ?thesis
    by (intro exI [of _ new]) simp
qed

theorem run_is_recorded_witness:
  "\<exists>ag' log. agent_run toggle_maze poke poke_agent = Some (ag', log) \<and> lg_env_actions log = 1 \<and>
     (\<exists>t. tl_records (ag_timeline ag') = [t] \<and> genuine toggle_maze t)"
proof -
  have "\<exists>y. agent_run toggle_maze poke poke_agent = Some y \<and>
      (case y of (ag', log) \<Rightarrow> lg_env_actions log = 1 \<and> length (tl_records (ag_timeline ag')) = 1)"
    by (rule Some_witness) code_simp
  then obtain ag' log where r: "agent_run toggle_maze poke poke_agent = Some (ag', log)"
    "lg_env_actions log = 1" "length (tl_records (ag_timeline ag')) = 1"
    by auto
  obtain t where "tl_records (ag_timeline ag') = [t]"
    using r(3) by (cases "tl_records (ag_timeline ag')") auto
  moreover have "tl_records (ag_timeline poke_agent) = []"
    by (simp add: poke_agent_def agent_new_def timeline_new_def)
  ultimately show ?thesis
    using run_is_recorded [OF r(1)] r by auto
qed

text \<open>C5. A cycle runs the planner, or logs an execution under the tag \<open>[plan]\<close>, only when the model the
  deliberator left explains every transition recorded so far.\<close>

theorem planning_needs_certified_model:
  assumes "cycle E D s = Some s'"
    and "lg_bfs_reports (ls_log s') \<noteq> lg_bfs_reports (ls_log s) \<or>
      (\<exists>x. lg_executions (ls_log s') = lg_executions (ls_log s) @ [''[plan]'' @ x])"
  shows "\<forall>t\<in>set (tl_records (ag_timeline (ls_agent s))). matches (ag_model (ls_agent s')) t"
proof -
  from assms(1) obtain s1 delib delib' bfs s2 where c: "deliberate_turn D s = Some (s1, delib)"
    "backtest_gate (en_legal_actions E (ag_env (ls_agent s1))) (ag_model (ls_agent s1))
       (ag_timeline (ls_agent s1)) (ls_current s1) delib = Some (delib', bfs)"
    "s2 = s1\<lparr>ls_log := (ls_log s1)\<lparr>lg_bfs_reports := lg_bfs_reports (ls_log s1) @
       (case bfs of None \<Rightarrow> [] | Some b \<Rightarrow> [bfs_summary b])\<rparr>\<rparr>"
    "if de_actions delib' = [] then s' = s2 else execute_turn E s2 delib' = Some s'"
    by (rule cycle_cases)
  note f = deliberate_turn_frame [OF c(1)]
  have "ag_model (ls_agent s') = ag_model (ls_agent s1) \<and> (bfs \<noteq> None \<or> de_intent delib' = Plan)"
  proof (cases "de_actions delib' = []")
    case True
    with c(3,4) f assms(2) show ?thesis
      by (auto split: option.splits)
  next
    case False
    with c(4) have "execute_turn E s2 delib' = Some s'"
      by simp
    then show ?thesis
      by (rule execute_turn_frame)
        (use assms(2) c(3) f in \<open>auto simp: intent_tag_def split: intent.splits option.splits\<close>)
  qed
  with gate_certified [OF c(2)] f(1) show ?thesis
    by auto
qed

theorem planning_needs_certified_model_witness:
  "\<exists>s'. cycle toggle_maze plan_seat poke_state = Some s' \<and> length (lg_bfs_reports (ls_log s')) = 1 \<and>
     (\<forall>t\<in>set (tl_records (ag_timeline (ls_agent poke_state))). matches (ag_model (ls_agent s')) t)"
proof -
  have "\<exists>s'. cycle toggle_maze plan_seat poke_state = Some s' \<and> length (lg_bfs_reports (ls_log s')) = 1"
    by (rule Some_witness) code_simp
  then obtain s' where s': "cycle toggle_maze plan_seat poke_state = Some s'" "length (lg_bfs_reports (ls_log s')) = 1"
    by auto
  moreover have "lg_bfs_reports (ls_log s') \<noteq> lg_bfs_reports (ls_log poke_state)"
    using s'(2) by (auto simp: poke_state_def log_default_def)
  ultimately show ?thesis
    using planning_needs_certified_model [OF s'(1)] by blast
qed

text \<open>What a cycle hands to the next deliberation: the last transition it recorded, if the model does
  not explain it and it neither won nor died. A misprediction that kills the player is not handed on.\<close>

theorem counterexample_carried:
  assumes "cycle E D s = Some s'"
  shows "\<exists>new. tl_records (ag_timeline (ls_agent s')) = tl_records (ag_timeline (ls_agent s)) @ new \<and>
    ls_counterexample s' =
      (if new \<noteq> [] \<and> \<not> matches (ag_model (ls_agent s')) (last new) \<and> \<not> tr_win (last new) \<and> \<not> tr_dead (last new)
       then Some (last new) else None)"
proof -
  from assms obtain s1 delib delib' bfs s2 where c: "deliberate_turn D s = Some (s1, delib)"
    "s2 = s1\<lparr>ls_log := (ls_log s1)\<lparr>lg_bfs_reports := lg_bfs_reports (ls_log s1) @
       (case bfs of None \<Rightarrow> [] | Some b \<Rightarrow> [bfs_summary b])\<rparr>\<rparr>"
    "if de_actions delib' = [] then s' = s2 else execute_turn E s2 delib' = Some s'"
    by (rule cycle_cases)
  note f = deliberate_turn_frame [OF c(1)]
  show ?thesis
  proof (cases "de_actions delib' = []")
    case True
    with c f show ?thesis
      by (intro exI [of _ "[]"]) simp
  next
    case False
    with c(3) have "execute_turn E s2 delib' = Some s'"
      by simp
    then show ?thesis
    proof (rule execute_turn_frame, goal_cases)
      case (1 e' line' r)
      from commit_actions_contract [OF 1(1)] obtain new where
        n: "tl_records line' = tl_records (ag_timeline (ls_agent s2)) @ new"
        and p: "commit_post E (ag_model (ls_agent s2)) (ls_current s2) new r"
        by blast
      have ce: "er_counterexample r = Some (last new)" if "halted r"
        using commit_postD(7) [OF p] that commit_post_halted [OF p] by simp
      show ?case
        by (intro exI [of _ new])
          (use 1 n c(2) f ce commit_post_halted [OF p] commit_post_win [OF p] commit_post_dead [OF p] in auto)
    qed
  qed
qed

theorem counterexample_carried_witness:
  "\<exists>s'. cycle toggle_maze poke poke_state = Some s' \<and>
     (\<exists>t. tl_records (ag_timeline (ls_agent s')) = [t] \<and> (ls_counterexample s' = None \<or> ls_counterexample s' = Some t))"
proof -
  have "\<exists>s'. cycle toggle_maze poke poke_state = Some s' \<and> length (tl_records (ag_timeline (ls_agent s'))) = 1"
    by (rule Some_witness) code_simp
  then obtain s' where s': "cycle toggle_maze poke poke_state = Some s'"
    "length (tl_records (ag_timeline (ls_agent s'))) = 1"
    by auto
  obtain t where "tl_records (ag_timeline (ls_agent s')) = [t]"
    using s'(2) by (cases "tl_records (ag_timeline (ls_agent s'))") auto
  moreover have "tl_records (ag_timeline (ls_agent poke_state)) = []"
    by (simp add: poke_state_def poke_agent_def agent_new_def timeline_new_def)
  ultimately show ?thesis
    using counterexample_carried [OF s'(1)] s'(1) by auto
qed

section \<open>Sessions and the protocol\<close>

text \<open>A session restores the model it captured exactly when that model is backed by its rule program,
  and the timeline exactly when its records are numbered consecutively.\<close>

theorem session_restores_iff:
  "(restore_model (session_capture task m line) = m \<longleftrightarrow> program_backed m) \<and>
   (restore_timeline (session_capture task m line) = line \<longleftrightarrow> timeline_ok line)"
  by (simp add: restore_model_iff restore_timeline_iff)



text \<open>A run only sees its deliberator through its answers: a deliberator that answers like another
  one behind an abstraction of its state gives the same run, with the state abstracted.\<close>

theorem seat_is_abstract:
  assumes "seat_refines f D C"
  shows "agent_run E C (agent_abs f ag) = map_option (\<lambda>(ag', log). (agent_abs f ag', log)) (agent_run E D ag)"
  by (rule agent_run_abs [OF assms])

theorem seat_is_abstract_witness:
  "agent_run toggle_maze (direct_deliberate toggle_respond)
     (agent_abs (\<lambda>_. ()) (agent_new toggle_new toggle_model \<lparr>pd_provider = (), pd_transcript = []\<rparr>)) =
   map_option (\<lambda>(ag', log). (agent_abs (\<lambda>_. ()) ag', log))
     (agent_run toggle_maze
       (protocol_deliberate unary_text unary_parse
         (\<lambda>p prompt. map_option (Pair p) (toggle_provider unary_parse unary_text prompt)))
       (agent_new toggle_new toggle_model \<lparr>pd_provider = (), pd_transcript = []\<rparr>))"
  by (rule seat_is_abstract [OF protocol_refines_direct]) simp_all

section \<open>Discovery and the demos\<close>

text \<open>The toggle deliberator never panics in its maze, for any number of cycles, and never
  eliminates the true mechanism.\<close>

theorem toggle_truth_survives:
  "\<exists>ag' log. agent_run toggle_maze toggle_deliberate
      ((agent_new toggle_new model_vacuous (toggle_deliberator_new toggle_layout))\<lparr>ag_max_cycles := n\<rparr>) =
        Some (ag', log) \<and>
    toggle_truth \<in> set (tg_candidates (ag_deliberator ag'))"
proof -
  let ?ag = "(agent_new toggle_new model_vacuous (toggle_deliberator_new toggle_layout))\<lparr>ag_max_cycles := n\<rparr>"
  have "toggle_seat (ag_deliberator ?ag)" "answers {g. walled g} (ag_model ?ag)"
    "toggle_total.all_real (ag_timeline ?ag)"
    using toggle_seat_new vacuous_answers by (simp_all add: agent_new_def toggle_total.all_real_def timeline_new_def)
  from toggle_total.run_total [OF this toggle_seat_ok] obtain ag' log where
    r: "agent_run toggle_maze toggle_deliberate ?ag = Some (ag', log)" "toggle_seat (ag_deliberator ag')"
    by blast
  then have "toggle_truth \<in> set (tg_candidates (ag_deliberator ag'))"
    by (auto simp: toggle_seat_def toggle_candidates_eq toggle_truth_def)
  with r(1) show ?thesis
    by blast
qed

text \<open>The demos win: candidate elimination discovers the mechanism of the maze and the joint revision
  learns the gate of the cart environment, each ending with a model that explains its whole history.\<close>

theorem demos_win: "demo_toggle = Some True \<and> demo_cart = Some True"
  by code_simp

text \<open>With encodings that lose nothing the protocol demo wins: a provider that only reads the request
  authors a rule program that explains the history and plans to the goal.\<close>

theorem demo_protocol_wins:
  assumes "\<And>q. parse_request (request_json q) = Inr q" "\<And>r. parse_response (response_json r) = Inr r"
  shows "demo_protocol request_json parse_request response_json parse_response = Some True"
  using demo_protocol_direct [OF assms] demo_direct_wins by simp

theorem demo_protocol_wins_witness: "demo_protocol unary_text unary_parse unary_text unary_parse = Some True"
  by (rule demo_protocol_wins) simp_all

section \<open>The structural diff\<close>

definition guarded_rule :: rule where
  "guarded_rule = (rule_new 4 effect_default)\<lparr>ru_beyond_any_of := Some [0]\<rparr>"

text \<open>Without two rules of one key a program does not differ from itself.\<close>

lemma diff_refl: "distinct (map rule_key (rp_rules p)) \<Longrightarrow> program_diff p p = []"
proof -
  assume d: "distinct (map rule_key (rp_rules p))"
  have "diff_new p r = []" if "r \<in> set (rp_rules p)" for r
  proof (cases "find (\<lambda>q. rule_key q = rule_key r) (rp_rules p)")
    case None
    with that show ?thesis
      by (auto simp: find_None_iff)
  next
    case (Some q)
    then have "q \<in> set (rp_rules p)" "rule_key q = rule_key r"
      by (auto simp: find_Some_iff)
    with d that have "q = r"
      by (auto simp: distinct_map dest: inj_onD)
    with Some show ?thesis
      by (simp add: diff_new_def)
  qed
  then show ?thesis
    by (auto simp: program_diff_def list_ex_iff filter_empty_conv)
qed

text \<open>The structural diff misjudges programs: swapping two rules with overlapping keys changes what a
  step does but yields no line, and a program with two rules of one key differs from itself.\<close>

theorem diff_misjudges:
  "program_diff \<lparr>rp_rules = [rule_new 4 effect_advance, guarded_rule], rp_goal_absent_colors = []\<rparr>
       \<lparr>rp_rules = [guarded_rule, rule_new 4 effect_advance], rp_goal_absent_colors = []\<rparr> = [] \<and>
   map_option pr_grid (program_step \<lparr>rp_rules = [rule_new 4 effect_advance, guarded_rule], rp_goal_absent_colors = []\<rparr>
       [[1, 4, 0]] ''right'') = Some [[0, 1, 0]] \<and>
   map_option pr_grid (program_step \<lparr>rp_rules = [guarded_rule, rule_new 4 effect_advance], rp_goal_absent_colors = []\<rparr>
       [[1, 4, 0]] ''right'') = Some [[1, 4, 0]] \<and>
   program_diff \<lparr>rp_rules = [rule_new 4 effect_advance, rule_new 4 effect_default], rp_goal_absent_colors = []\<rparr>
       \<lparr>rp_rules = [rule_new 4 effect_advance, rule_new 4 effect_default], rp_goal_absent_colors = []\<rparr> \<noteq> []"
  by code_simp

end
