(* ===== verification/Rust_Float.thy ===== *)
theory Rust_Float
  imports Rust_F64
begin

text \<open>
  Rust's \<open>f32\<close> and \<open>f64\<close> with signs, for the thresholds of the compaction manager: a finite value is
  an exact rational, every operation rounds its exact result to nearest, ties to even, and overflows
  to an infinity. The sign of zero is not kept: nothing here divides by a zero result or prints one.
\<close>

datatype float_val = Num rat | PosInf | NegInf | NotNum

record float_format =
  precision :: nat
  min_exponent :: int
  max_exponent :: nat

definition f32_format :: float_format where
  "f32_format = \<lparr>precision = 24, min_exponent = - 149, max_exponent = 128\<rparr>"

definition f64_format :: float_format where
  "f64_format = \<lparr>precision = 53, min_exponent = - 1074, max_exponent = 1024\<rparr>"

text \<open>The nearest value of the format to a non-negative rational, before the overflow check.\<close>

definition round_abs :: "float_format \<Rightarrow> rat \<Rightarrow> rat" where
  "round_abs f q =
     (if q = 0 then 0
      else let e = max (floor_log2 q - (int (precision f) - 1)) (min_exponent f)
           in of_int (round_half_even (q / pow2 e)) * pow2 e)"

definition fround :: "float_format \<Rightarrow> rat \<Rightarrow> float_val" where
  "fround f q =
     (let v = round_abs f \<bar>q\<bar>
      in if 2 ^ max_exponent f \<le> v then (if q < 0 then NegInf else PosInf)
         else Num (if q < 0 then - v else v))"

abbreviation as_f32 :: "nat \<Rightarrow> float_val" where
  "as_f32 n \<equiv> fround f32_format (of_nat n)"

abbreviation as_f64 :: "nat \<Rightarrow> float_val" where
  "as_f64 n \<equiv> fround f64_format (of_nat n)"

fun fneg :: "float_val \<Rightarrow> float_val" where
  "fneg (Num q) = Num (- q)"
| "fneg PosInf = NegInf"
| "fneg NegInf = PosInf"
| "fneg NotNum = NotNum"

fun fadd :: "float_format \<Rightarrow> float_val \<Rightarrow> float_val \<Rightarrow> float_val" where
  "fadd f (Num a) (Num b) = fround f (a + b)"
| "fadd f NotNum _ = NotNum"
| "fadd f _ NotNum = NotNum"
| "fadd f PosInf NegInf = NotNum"
| "fadd f NegInf PosInf = NotNum"
| "fadd f PosInf _ = PosInf"
| "fadd f NegInf _ = NegInf"
| "fadd f (Num a) PosInf = PosInf"
| "fadd f (Num a) NegInf = NegInf"

definition fsub :: "float_format \<Rightarrow> float_val \<Rightarrow> float_val \<Rightarrow> float_val" where
  "fsub f x y = fadd f x (fneg y)"

definition inf_of_sign :: "rat \<Rightarrow> float_val" where
  "inf_of_sign s = (if s = 0 then NotNum else if 0 < s then PosInf else NegInf)"

fun fmul :: "float_format \<Rightarrow> float_val \<Rightarrow> float_val \<Rightarrow> float_val" where
  "fmul f (Num a) (Num b) = fround f (a * b)"
| "fmul f NotNum _ = NotNum"
| "fmul f _ NotNum = NotNum"
| "fmul f PosInf PosInf = PosInf"
| "fmul f NegInf NegInf = PosInf"
| "fmul f PosInf NegInf = NegInf"
| "fmul f NegInf PosInf = NegInf"
| "fmul f (Num a) PosInf = inf_of_sign a"
| "fmul f (Num a) NegInf = inf_of_sign (- a)"
| "fmul f PosInf (Num a) = inf_of_sign a"
| "fmul f NegInf (Num a) = inf_of_sign (- a)"

text \<open>Division of non-negative values, the only one the modelled code has.\<close>

fun fdiv_nonneg :: "float_format \<Rightarrow> float_val \<Rightarrow> float_val \<Rightarrow> float_val" where
  "fdiv_nonneg f (Num a) (Num b) =
     (if b = 0 then (if a = 0 then NotNum else PosInf) else fround f (a / b))"
| "fdiv_nonneg f PosInf (Num b) = PosInf"
| "fdiv_nonneg f (Num a) PosInf = Num 0"
| "fdiv_nonneg f _ _ = NotNum"

fun flt :: "float_val \<Rightarrow> float_val \<Rightarrow> bool" where
  "flt (Num a) (Num b) = (a < b)"
| "flt NotNum _ = False"
| "flt _ NotNum = False"
| "flt NegInf y = (y \<noteq> NegInf)"
| "flt x PosInf = (x \<noteq> PosInf)"
| "flt _ _ = False"

definition fle :: "float_val \<Rightarrow> float_val \<Rightarrow> bool" where
  "fle x y \<longleftrightarrow> flt x y \<or> (x = y \<and> x \<noteq> NotNum)"

text \<open>\<open>x.max(0.0)\<close>: a NaN gives the other argument.\<close>

fun fmax0 :: "float_val \<Rightarrow> float_val" where
  "fmax0 (Num a) = Num (max a 0)"
| "fmax0 PosInf = PosInf"
| "fmax0 _ = Num 0"

section \<open>Rounding is monotone\<close>

lemma pow2_powi: "pow2 e = 2 powi e"
  unfolding pow2_def power_int_def by (auto simp: power_divide)

lemma pow2_int: "pow2 (int k) = of_int (2 ^ k)"
  by (simp add: pow2_def)

lemma pow2_add: "pow2 (a + b) = pow2 a * pow2 b"
  by (simp add: pow2_powi power_int_add)

lemma pow2_mono: "a \<le> b \<Longrightarrow> pow2 a \<le> pow2 b"
  by (simp add: pow2_powi power_int_increasing)

lemma pow2_split: "pow2 a = pow2 (a - b) * pow2 b"
  using pow2_add [of "a - b" b] by simp

lemma floor_log2_bounds:
  assumes "0 < q"
  shows "pow2 (floor_log2 q) \<le> q \<and> q < pow2 (floor_log2 q + 1)"
proof -
  obtain n d where q: "quotient_of q = (n, d)" by fastforce
  then have d: "0 < d" using quotient_of_denom_pos by blast
  have eq: "q = of_int n / of_int d" using q by (rule quotient_of_div)
  then have n: "0 < n" using assms d by (simp add: zero_less_divide_iff)
  define a b where "a = bitlen n" and "b = bitlen d"
  have pos: "0 < a" "0 < b" using n d by (simp_all add: a_def b_def bitlen_alt_def)
  have "2 ^ nat (a - 1) \<le> n \<and> n < 2 ^ nat a" "2 ^ nat (b - 1) \<le> d \<and> d < 2 ^ nat b"
    using bitlen_bounds [OF n] bitlen_bounds [OF d] by (simp_all add: a_def b_def)
  then have "pow2 (a - 1) \<le> of_int n \<and> of_int n < pow2 a"
    and "pow2 (b - 1) \<le> of_int d \<and> of_int d < pow2 b"
    using pos pow2_int [of "nat (a - 1)"] pow2_int [of "nat a"] pow2_int [of "nat (b - 1)"]
      pow2_int [of "nat b"] by (simp_all only: of_int_le_iff of_int_less_iff nat_0_le)
  moreover have "q * of_int d = of_int n" using d eq by simp
  ultimately have lo: "pow2 (a - 1) < q * pow2 b" and hi: "q * pow2 (b - 1) < pow2 a"
    using mult_strict_left_mono [of "of_int d" "pow2 b" q] assms
      mult_left_mono [of "pow2 (b - 1)" "of_int d" q] by linarith+
  have "pow2 (a - b - 1) < q"
    using lo pow2_split [of "a - 1" b] by (simp add: algebra_simps)
  moreover have "q < pow2 (a - b + 1)"
    using hi pow2_split [of a "b - 1"] by (simp add: algebra_simps)
  ultimately show ?thesis
    using q by (auto simp: floor_log2_def a_def [symmetric] b_def [symmetric] Let_def)
qed

lemma floor_log2_mono:
  assumes "0 < a" and "a \<le> b"
  shows "floor_log2 a \<le> floor_log2 b"
proof (rule ccontr)
  assume "\<not> ?thesis"
  then have "pow2 (floor_log2 b + 1) \<le> pow2 (floor_log2 a)" by (intro pow2_mono) simp
  then show False using floor_log2_bounds [of a] floor_log2_bounds [of b] assms by simp
qed

lemma round_half_even_bounds: "\<lfloor>q\<rfloor> \<le> round_half_even q \<and> round_half_even q \<le> \<lfloor>q\<rfloor> + 1"
  by (simp add: round_half_even_def Let_def)

lemma round_half_even_mono:
  assumes "a \<le> b"
  shows "round_half_even a \<le> round_half_even b"
proof (cases "\<lfloor>a\<rfloor> = \<lfloor>b\<rfloor>")
  case True
  then show ?thesis using assms by (auto simp: round_half_even_def Let_def)
next
  case False
  then have "\<lfloor>a\<rfloor> + 1 \<le> \<lfloor>b\<rfloor>" using floor_mono [OF assms] by simp
  then show ?thesis using round_half_even_bounds [of a] round_half_even_bounds [of b] by linarith
qed

lemma round_half_even_power: "0 \<le> k \<Longrightarrow> of_int (round_half_even (pow2 k)) = pow2 k"
  using round_half_even_int [of "2 ^ nat k"] by simp

lemma round_half_even_nonneg: "0 \<le> q \<Longrightarrow> 0 \<le> round_half_even q"
  using round_half_even_mono [of 0 q] round_half_even_int [of 0] by simp

lemma round_abs_nonneg: "0 \<le> q \<Longrightarrow> 0 \<le> round_abs f q"
  using round_half_even_nonneg by (simp add: round_abs_def Let_def less_imp_le)

lemma round_abs_mono:
  assumes "0 \<le> a" and "a \<le> b" and p: "0 < precision f"
  shows "round_abs f a \<le> round_abs f b"
proof (cases "a = 0")
  case True
  then show ?thesis using round_abs_nonneg [of b f] assms by (simp add: round_abs_def)
next
  case False
  then have a: "0 < a" and b: "0 < b" using assms by auto
  define r where "r = int (precision f) - 1"
  define ea eb where "ea = max (floor_log2 a - r) (min_exponent f)"
    and "eb = max (floor_log2 b - r) (min_exponent f)"
  have r: "0 \<le> r" using p by (simp add: r_def)
  have ra: "round_abs f a = of_int (round_half_even (a / pow2 ea)) * pow2 ea"
    and rb: "round_abs f b = of_int (round_half_even (b / pow2 eb)) * pow2 eb"
    using a b by (simp_all add: round_abs_def Let_def ea_def eb_def r_def)
  have le: "ea \<le> eb" using floor_log2_mono [OF a assms(2)] by (simp add: ea_def eb_def)
  show ?thesis
  proof (cases "ea = eb")
    case True
    have "round_half_even (a / pow2 eb) \<le> round_half_even (b / pow2 eb)"
      using assms(2) by (intro round_half_even_mono divide_right_mono) (simp_all add: less_imp_le)
    then show ?thesis using True by (simp add: ra rb mult_right_mono less_imp_le)
  next
    case False
    then have lt: "ea < eb" and eb: "eb = floor_log2 b - r" and "floor_log2 a < floor_log2 b"
      using le by (auto simp: ea_def eb_def max_def split: if_splits)
    define t where "t = floor_log2 b"
    have "pow2 (floor_log2 a + 1) \<le> pow2 t"
      using \<open>floor_log2 a < floor_log2 b\<close> by (intro pow2_mono) (simp add: t_def)
    then have at: "a \<le> pow2 t" using floor_log2_bounds [OF a] by simp
    have tb: "pow2 t \<le> b" using floor_log2_bounds [OF b] by (simp add: t_def)
    have "a / pow2 ea \<le> pow2 (t - ea)"
      using at pow2_split [of t ea] by (simp add: field_simps)
    then have "of_int (round_half_even (a / pow2 ea)) \<le> (pow2 (t - ea) :: rat)"
      using round_half_even_mono [of "a / pow2 ea" "pow2 (t - ea)"]
        round_half_even_power [of "t - ea"] lt eb r t_def by (smt (verit) of_int_le_iff)
    then have "round_abs f a \<le> pow2 t"
      using pow2_split [of t ea] by (simp add: ra mult_right_mono less_imp_le)
    moreover have "pow2 (t - eb) \<le> b / pow2 eb"
      using tb pow2_split [of t eb] by (simp add: field_simps)
    then have "pow2 (t - eb) \<le> (of_int (round_half_even (b / pow2 eb)) :: rat)"
      using round_half_even_mono [of "pow2 (t - eb)" "b / pow2 eb"]
        round_half_even_power [of "t - eb"] eb r t_def by (smt (verit) of_int_le_iff)
    then have "pow2 t \<le> round_abs f b"
      using pow2_split [of t eb] by (simp add: rb mult_right_mono less_imp_le)
    ultimately show ?thesis by simp
  qed
qed

section \<open>Evaluating a rounding\<close>

lemma round_half_even_eqI:
  assumes "of_int r - 1 / 2 < q" and "q < of_int r + 1 / 2"
  shows "round_half_even q = r"
proof (cases "of_int r \<le> q")
  case True
  then have "\<lfloor>q\<rfloor> = r" using assms by (intro floor_unique) auto
  then show ?thesis using assms by (simp add: round_half_even_def Let_def)
next
  case False
  then have "\<lfloor>q\<rfloor> = r - 1" using assms by (intro floor_unique) auto
  then show ?thesis using assms by (simp add: round_half_even_def Let_def)
qed

lemma floor_log2_eqI:
  assumes "0 < q" and "pow2 k \<le> q" and "q < pow2 (k + 1)"
  shows "floor_log2 q = k"
proof (rule ccontr)
  assume "floor_log2 q \<noteq> k"
  then consider "floor_log2 q + 1 \<le> k" | "k + 1 \<le> floor_log2 q" by linarith
  then show False
    using pow2_mono [of "floor_log2 q + 1" k] pow2_mono [of "k + 1" "floor_log2 q"]
      floor_log2_bounds [OF assms(1)] assms by cases auto
qed

lemma round_abs_at:
  assumes "0 < q" and "pow2 k \<le> q" and "q < pow2 (k + 1)"
    and "e = max (k - (int (precision f) - 1)) (min_exponent f)"
  shows "round_abs f q = of_int (round_half_even (q / pow2 e)) * pow2 e"
  using assms floor_log2_eqI [OF assms(1-3)] by (simp add: round_abs_def Let_def)

lemma round_abs_nat:
  assumes "n < 2 ^ precision f" and "0 < precision f" and "min_exponent f \<le> 0"
  shows "round_abs f (of_nat n) = of_nat n"
proof (cases "n = 0")
  case False
  define e where "e = max (floor_log2 (of_nat n) - (int (precision f) - 1)) (min_exponent f)"
  have "(of_nat n :: rat) < of_nat (2 ^ precision f)" using assms(1) by (simp only: of_nat_less_iff)
  then have "(of_nat n :: rat) < pow2 (int (precision f))" by (simp add: pow2_def)
  then have "pow2 (floor_log2 (of_nat n)) < pow2 (int (precision f))"
    using floor_log2_bounds [of "of_nat n"] False order.strict_trans1 by (metis of_nat_0_less_iff neq0_conv)
  then have "floor_log2 (of_nat n) < int (precision f)"
    using pow2_mono [of "int (precision f)" "floor_log2 (of_nat n)"] by (meson not_le)
  then have e: "e \<le> 0" using assms(3) by (simp add: e_def)
  define k where "k = nat (- e)"
  have p: "pow2 e = 1 / 2 ^ k" using e by (cases "e = 0") (auto simp: pow2_def k_def)
  have "(of_nat n :: rat) / pow2 e = of_int (int n * 2 ^ k)" by (simp add: p)
  then have "of_int (round_half_even (of_nat n / pow2 e)) * pow2 e = (of_nat n :: rat)"
    by (simp add: p del: of_int_mult) (simp add: p)
  then show ?thesis using False by (simp add: round_abs_def Let_def e_def)
qed (simp add: round_abs_def)

end
