(* ===== verification/Message_Types.thy ===== *)
theory Message_Types
  imports Rust_Float
begin

text \<open>
  Conversation messages (\<open>crates/jcode-message-types/src/lib.rs\<close>): content blocks, messages, the
  stable hash, time stamps, the fresh-turn checks and tool ids. A tool input is a \<open>serde_json::Value\<close>
  and a time stamp a \<open>chrono::DateTime\<close>: both are types of other crates, so they are type variables,
  and the functions of those crates the code calls are arguments.
\<close>

unbundle bit_operations_syntax

section \<open>Data\<close>

datatype role = User | Assistant

record cache_control =
  cc_kind :: string
  cc_ttl :: "string option"

datatype 'j content_block =
    Text string "cache_control option"
  | Reasoning string
  | ReasoningTrace string
  | AnthropicThinking string string
  | OpenAIReasoning string "string list" "string option" "string option"
  | ToolUse string string 'j "string option"
  | ToolResult string string "bool option"
  | Image string string
  | OpenAICompaction string

record ('j, 't) message =
  msg_role :: role
  msg_content :: "'j content_block list"
  msg_timestamp :: "'t option"
  msg_tool_duration_ms :: "u64 option"

definition cc_ephemeral :: "string option \<Rightarrow> cache_control" where
  "cc_ephemeral ttl = \<lparr>cc_kind = ''ephemeral'', cc_ttl = ttl\<rparr>"

text \<open>The constructors; \<open>now\<close> is the clock.\<close>

definition message_user :: "'t \<Rightarrow> string \<Rightarrow> ('j, 't) message" where
  "message_user now text =
     \<lparr>msg_role = User, msg_content = [Text text None], msg_timestamp = Some now,
      msg_tool_duration_ms = None\<rparr>"

definition user_with_images :: "'t \<Rightarrow> string \<Rightarrow> (string \<times> string) list \<Rightarrow> ('j, 't) message" where
  "user_with_images now text images =
     \<lparr>msg_role = User,
      msg_content = map (\<lambda>(media_type, data). Image media_type data) images @ [Text text None],
      msg_timestamp = Some now, msg_tool_duration_ms = None\<rparr>"

definition assistant_text :: "'t \<Rightarrow> string \<Rightarrow> ('j, 't) message" where
  "assistant_text now text =
     \<lparr>msg_role = Assistant, msg_content = [Text text None], msg_timestamp = Some now,
      msg_tool_duration_ms = None\<rparr>"

definition tool_result_with_duration ::
    "'t \<Rightarrow> string \<Rightarrow> string \<Rightarrow> bool \<Rightarrow> u64 option \<Rightarrow> ('j, 't) message" where
  "tool_result_with_duration now tool_use_id content is_error duration =
     \<lparr>msg_role = User,
      msg_content = [ToolResult tool_use_id content (if is_error then Some True else None)],
      msg_timestamp = Some now, msg_tool_duration_ms = duration\<rparr>"

definition tool_result :: "'t \<Rightarrow> string \<Rightarrow> string \<Rightarrow> bool \<Rightarrow> ('j, 't) message" where
  "tool_result now tool_use_id content is_error =
     tool_result_with_duration now tool_use_id content is_error None"

definition estimate_tokens :: "string \<Rightarrow> nat" where
  "estimate_tokens s = length s div 4"

section \<open>Time stamps\<close>

text \<open>\<open>format!("{:.1}s", d as f64 / 1000.0)\<close>: the decimal digits of the exact value of the quotient,
  rounded to one place, ties to even.\<close>

definition show_tenths :: "rat \<Rightarrow> string" where
  "show_tenths q =
     (let t = nat (round_half_even (10 * q))
      in show_nat (t div 10) @ ''.'' @ show_nat (t mod 10))"

definition seconds_text :: "nat \<Rightarrow> string" where
  "seconds_text d =
     (case fdiv_nonneg f64_format (as_f64 d) (as_f64 1000) of
        Num q \<Rightarrow> show_tenths q @ ''s''
      | _ \<Rightarrow> ''infs'')"

definition format_duration :: "u64 \<Rightarrow> string" where
  "format_duration duration_ms =
     (let d = unat duration_ms
      in if d \<le> 999 then show_nat d @ ''ms''
         else if d \<le> 9999 then seconds_text d
         else if d \<le> 59999 then show_nat (d div 1000) @ ''s''
         else (let total_seconds = d div 1000; minutes = total_seconds div 60;
                   seconds = total_seconds mod 60
               in if seconds = 0 then show_nat minutes @ ''m''
                  else show_nat minutes @ ''m '' @ show_nat seconds @ ''s''))"

fun first_text :: "'j content_block list \<Rightarrow> string option" where
  "first_text [] = None"
| "first_text (Text t c # bs) = Some (trim_start t)"
| "first_text (b # bs) = first_text bs"

definition system_reminder :: string where
  "system_reminder = ''<system-reminder>''"

definition is_internal_system_reminder :: "('j, 't) message \<Rightarrow> bool" where
  "is_internal_system_reminder m =
     (case first_text (msg_content m) of None \<Rightarrow> False | Some t \<Rightarrow> prefix system_reminder t)"

text \<open>\<open>fmt\<close> is \<open>to_rfc3339_opts\<close> and \<open>minus_ms\<close> is \<open>checked_sub_signed\<close> of \<open>chrono\<close>.\<close>

definition tool_result_tag ::
    "('t \<Rightarrow> string) \<Rightarrow> ('t \<Rightarrow> nat \<Rightarrow> 't option) \<Rightarrow> ('j, 't) message \<Rightarrow> 't \<Rightarrow> string" where
  "tool_result_tag fmt minus_ms m ts =
     (case msg_tool_duration_ms m of
        Some d \<Rightarrow>
          (let start_ts = the_default ts (minus_ms ts (min (unat d) (2 ^ 63 - 1)))
           in ''[tool timing: start='' @ fmt start_ts @ '' finish='' @ fmt ts @ '' duration='' @
              format_duration d @ '']'')
      | None \<Rightarrow> ''['' @ fmt ts @ '']'')"

text \<open>The loop of \<open>with_timestamps\<close> over the blocks: the first text or tool result is tagged.\<close>

fun tag_blocks :: "string \<Rightarrow> string \<Rightarrow> bool \<Rightarrow> 'j content_block list \<Rightarrow> 'j content_block list" where
  "tag_blocks text_tag result_tag tagged [] = []"
| "tag_blocks text_tag result_tag tagged (b # bs) =
     (case b of
        Text t c \<Rightarrow>
          if \<not> tagged then Text (text_tag @ '' '' @ t) c # tag_blocks text_tag result_tag True bs
          else b # tag_blocks text_tag result_tag tagged bs
      | ToolResult i t e \<Rightarrow>
          if \<not> tagged
          then ToolResult i (result_tag @ '' '' @ t) e # tag_blocks text_tag result_tag True bs
          else b # tag_blocks text_tag result_tag tagged bs
      | _ \<Rightarrow> b # tag_blocks text_tag result_tag tagged bs)"

definition with_timestamp ::
    "('t \<Rightarrow> string) \<Rightarrow> ('t \<Rightarrow> nat \<Rightarrow> 't option) \<Rightarrow> ('j, 't) message \<Rightarrow> ('j, 't) message" where
  "with_timestamp fmt minus_ms m =
     (case msg_timestamp m of
        None \<Rightarrow> m
      | Some ts \<Rightarrow>
          if msg_role m \<noteq> User \<or> is_internal_system_reminder m then m
          else m\<lparr>msg_content :=
                   tag_blocks (''['' @ fmt ts @ '']'') (tool_result_tag fmt minus_ms m ts) False
                     (msg_content m)\<rparr>)"

definition with_timestamps ::
    "('t \<Rightarrow> string) \<Rightarrow> ('t \<Rightarrow> nat \<Rightarrow> 't option) \<Rightarrow> ('j, 't) message list \<Rightarrow> ('j, 't) message list" where
  "with_timestamps fmt minus_ms = map (with_timestamp fmt minus_ms)"

section \<open>The stable hash\<close>

definition stable_hash_seed :: u64 where "stable_hash_seed = 0xcbf29ce484222325"

definition stable_hash_prime :: u64 where "stable_hash_prime = 0x100000001b3"

definition hash_step :: "u64 \<Rightarrow> u8 \<Rightarrow> u64" where
  "hash_step hash b = (hash XOR ucast b) * stable_hash_prime"

definition stable_hash_bytes :: "u8 list \<Rightarrow> u64" where
  "stable_hash_bytes bytes = fold (\<lambda>b hash. hash_step hash b) bytes stable_hash_seed"

definition to_le_bytes :: "u64 \<Rightarrow> u8 list" where
  "to_le_bytes w = map (\<lambda>i. ucast (drop_bit (8 * i) w)) [0..<8]"

definition extend_stable_hash :: "u64 \<Rightarrow> u64 \<Rightarrow> u64" where
  "extend_stable_hash acc next = stable_hash_bytes (to_le_bytes acc @ to_le_bytes next)"

section \<open>Fresh user turns and dynamic system context\<close>

definition user_prose :: "string \<Rightarrow> bool" where
  "user_prose text \<longleftrightarrow> trim text \<noteq> [] \<and> \<not> prefix system_reminder (trim text)"

definition is_tool_result :: "'j content_block \<Rightarrow> bool" where
  "is_tool_result b \<longleftrightarrow> (case b of ToolResult _ _ _ \<Rightarrow> True | _ \<Rightarrow> False)"

text \<open>The block loop of \<open>ends_with_fresh_user_turn\<close>: \<open>None\<close> where the code returns false inside it,
  else whether a user text was seen.\<close>

fun scan_texts :: "bool \<Rightarrow> 'j content_block list \<Rightarrow> bool option" where
  "scan_texts saw [] = Some saw"
| "scan_texts saw (Text t c # bs) = scan_texts (saw \<or> user_prose t) bs"
| "scan_texts saw (b # bs) = None"

text \<open>The argument is the messages in reverse.\<close>

fun fresh_turn_loop :: "('j, 't) message list \<Rightarrow> bool" where
  "fresh_turn_loop [] = False"
| "fresh_turn_loop (m # ms) =
     (if msg_role m \<noteq> User then False
      else if list_ex is_tool_result (msg_content m) then False
      else if msg_content m = [] then False
      else case scan_texts False (msg_content m) of
             None \<Rightarrow> False
           | Some saw \<Rightarrow>
               if saw then True
               else if is_internal_system_reminder m then fresh_turn_loop ms
               else False)"

definition ends_with_fresh_user_turn :: "('j, 't) message list \<Rightarrow> bool" where
  "ends_with_fresh_user_turn ms = fresh_turn_loop (rev ms)"

fun scan_prompt :: "bool \<Rightarrow> 'j content_block list \<Rightarrow> bool" where
  "scan_prompt saw [] = saw"
| "scan_prompt saw (Text t c # bs) = scan_prompt (saw \<or> user_prose t) bs"
| "scan_prompt saw (Image mt d # bs) = scan_prompt saw bs"
| "scan_prompt saw (b # bs) = False"

definition is_fresh_user_text_message :: "('j, 't) message \<Rightarrow> bool" where
  "is_fresh_user_text_message m \<longleftrightarrow> msg_role m = User \<and> scan_prompt False (msg_content m)"

definition dynamic_system_context_message :: "'t \<Rightarrow> string \<Rightarrow> ('j, 't) message option" where
  "dynamic_system_context_message now system_dynamic =
     (let trimmed = trim system_dynamic
      in if trimmed = [] then None
         else Some (message_user now
                (''<system-reminder>'' @ nl # trimmed @ nl # ''</system-reminder>'')))"

definition rposition :: "('a \<Rightarrow> bool) \<Rightarrow> 'a list \<Rightarrow> nat option" where
  "rposition P xs =
     (case filter (\<lambda>i. P (xs ! i)) [0..<length xs] of [] \<Rightarrow> None | is \<Rightarrow> Some (last is))"

definition messages_with_dynamic_system_context ::
    "'t \<Rightarrow> ('j, 't) message list \<Rightarrow> string \<Rightarrow> ('j, 't) message list" where
  "messages_with_dynamic_system_context now messages system_dynamic =
     (case dynamic_system_context_message now system_dynamic of
        None \<Rightarrow> messages
      | Some d \<Rightarrow>
          (let insert_at = (case rposition is_fresh_user_text_message messages of
                              Some idx \<Rightarrow> idx + 1 | None \<Rightarrow> length messages)
           in take insert_at messages @ d # drop insert_at messages))"

section \<open>Tool ids\<close>

text \<open>A character of several bytes gives one underscore: its continuation bytes are dropped.\<close>

definition tool_id_char :: "char \<Rightarrow> bool" where
  "tool_id_char c \<longleftrightarrow> is_ascii_alphanumeric c \<or> c = CHR ''_'' \<or> c = CHR ''-''"

definition sanitize_tool_id :: "string \<Rightarrow> string" where
  "sanitize_tool_id i =
     (if i = [] then ''unknown''
      else let sanitized = map (\<lambda>c. if tool_id_char c then c else CHR ''_'')
                             (filter (\<lambda>c. \<not> is_cont c) i)
           in if sanitized = [] then ''unknown'' else sanitized)"

end
