(* ===== verification/Compaction_Core.thy ===== *)
theory Compaction_Core
  imports Message_Types
begin

text \<open>
  The pure part of context compaction (\<open>crates/jcode-compaction-core/src/lib.rs\<close>): budgets, prompts,
  the safe cut-off, character and token estimates, emergency summaries, truncation and image
  stripping. \<open>json\<close> is \<open>Value::to_string\<close> of a tool input, \<open>lower\<close> and \<open>alnum\<close> are the Unicode tables
  of \<open>str::to_lowercase\<close> and \<open>char::is_alphanumeric\<close>.
\<close>

section \<open>Constants and data\<close>

definition default_token_budget :: nat where "default_token_budget = 200000"

definition compaction_threshold :: float_val where
  "compaction_threshold = fround f32_format (80 / 100)"

definition critical_threshold :: float_val where
  "critical_threshold = fround f32_format (95 / 100)"

definition manual_compact_min_threshold :: float_val where
  "manual_compact_min_threshold = fround f32_format (10 / 100)"

definition recent_turns_to_keep :: nat where "recent_turns_to_keep = 10"

definition min_turns_to_keep :: nat where "min_turns_to_keep = 2"

definition emergency_tool_result_max_chars :: nat where "emergency_tool_result_max_chars = 4000"

definition emergency_image_max_chars :: nat where "emergency_image_max_chars = 1024"

definition payload_image_char_budget :: nat where
  "payload_image_char_budget = 12 * 1024 * 1024"

definition chars_per_token :: nat where "chars_per_token = 4"

definition image_token_cost :: nat where "image_token_cost = 1600"

definition system_overhead_tokens :: nat where "system_overhead_tokens = 18000"

definition token_history_window :: nat where "token_history_window = 20"

definition embed_max_chars_per_msg :: nat where "embed_max_chars_per_msg = 512"

definition embedding_history_window :: nat where "embedding_history_window = 10"

definition semantic_embed_cache_capacity :: nat where "semantic_embed_cache_capacity = 256"

definition summary_prompt :: string where
  "summary_prompt =
     ''Summarize our conversation so you can continue this work later.'' @ [nl, nl] @
     ''Write in natural language with these sections:'' @ [nl] @
     ''- **Context:** What we'' @ sq # ''re working on and why (1-2 sentences)'' @ [nl] @
     ''- **What we did:** Key actions taken, files changed, problems solved'' @ [nl] @
     ''- **Current state:** What works, what'' @ sq # ''s broken, what'' @ sq # ''s next'' @ [nl] @
     ''- **User preferences:** Specific requirements or decisions they made'' @ [nl, nl] @
     ''Be concise but preserve important details. You can search the full conversation later if '' @
     ''you need exact error messages or code snippets.''"

record summary =
  sum_text :: string
  sum_openai_encrypted_content :: "string option"
  sum_covers_up_to_turn :: nat
  sum_original_turn_count :: nat

record compaction_event =
  ev_trigger :: string
  ev_pre_tokens :: "nat option"
  ev_post_tokens :: "nat option"
  ev_tokens_saved :: "nat option"
  ev_duration_ms :: "nat option"
  ev_messages_dropped :: "nat option"
  ev_messages_compacted :: "nat option"
  ev_summary_chars :: "nat option"
  ev_active_messages :: "nat option"

datatype compaction_action = ActionNone | BackgroundStarted string | HardCompacted nat

record compaction_stats =
  st_total_turns :: nat
  st_active_messages :: nat
  st_has_summary :: bool
  st_is_compacting :: bool
  st_token_estimate :: nat
  st_effective_tokens :: nat
  st_observed_input_tokens :: "nat option"
  st_context_usage :: float_val

section \<open>Machine integers\<close>

definition usize_max :: nat where "usize_max = 2 ^ 64 - 1"

definition sat_add :: "nat \<Rightarrow> nat \<Rightarrow> nat" where
  "sat_add a b = min (a + b) usize_max"

text \<open>\<open>saturating_sub\<close> is subtraction on \<open>nat\<close>.\<close>

section \<open>Cutting strings at character boundaries\<close>

definition is_char_boundary :: "string \<Rightarrow> nat \<Rightarrow> bool" where
  "is_char_boundary s i \<longleftrightarrow>
     i = 0 \<or> i = length s \<or> (i < length s \<and> \<not> is_cont (s ! i))"

fun boundary_down :: "string \<Rightarrow> nat \<Rightarrow> nat" where
  "boundary_down s 0 = 0"
| "boundary_down s (Suc e) = (if is_char_boundary s (Suc e) then Suc e else boundary_down s e)"

definition truncate_str_boundary :: "string \<Rightarrow> nat \<Rightarrow> string" where
  "truncate_str_boundary value max_bytes =
     (if length value \<le> max_bytes then value
      else take (boundary_down value (min max_bytes (length value))) value)"

function boundary_up :: "string \<Rightarrow> nat \<Rightarrow> nat" where
  "boundary_up s i =
     (if i < length s \<and> \<not> is_char_boundary s i then boundary_up s (i + 1) else i)"
  by pat_completeness auto
termination by (relation "measure (\<lambda>(s, i). length s - i)") auto

declare boundary_up.simps [simp del]

definition tail_str_boundary :: "string \<Rightarrow> nat \<Rightarrow> string" where
  "tail_str_boundary value max_bytes =
     (if length value \<le> max_bytes then value
      else drop (boundary_up value (length value - max_bytes)) value)"

section \<open>Prompts\<close>

definition compacted_summary_text_block :: "string \<Rightarrow> string" where
  "compacted_summary_text_block summary =
     ''## Previous Conversation Summary'' @ [nl, nl] @ summary @ [nl, nl] @ ''---'' @ [nl, nl]"

definition role_heading :: "role \<Rightarrow> string" where
  "role_heading r = (case r of User \<Rightarrow> ''User'' | Assistant \<Rightarrow> ''Assistant'')"

fun block_text :: "('j \<Rightarrow> string) \<Rightarrow> 'j content_block \<Rightarrow> string" where
  "block_text json (Text text c) = text @ [nl]"
| "block_text json (ToolUse i name input th) =
     ''[Tool: '' @ name @ '' - '' @ json input @ '']'' @ [nl]"
| "block_text json (ToolResult i content e) =
     ''[Result: '' @
     (if 500 < length content then truncate_str_boundary content 500 @ ''... (truncated)''
      else content) @
     '']'' @ [nl]"
| "block_text json (Reasoning t) = []"
| "block_text json (ReasoningTrace t) = []"
| "block_text json (AnthropicThinking t s) = []"
| "block_text json (OpenAIReasoning i s e st) = []"
| "block_text json (Image mt d) = ''[Image]'' @ [nl]"
| "block_text json (OpenAICompaction e) = ''[OpenAI native compaction]'' @ [nl]"

definition message_text :: "('j \<Rightarrow> string) \<Rightarrow> ('j, 't) message \<Rightarrow> string" where
  "message_text json m =
     ''**'' @ role_heading (msg_role m) @ '':**'' @ [nl] @
     concat (map (block_text json) (msg_content m)) @ [nl]"

definition build_compaction_conversation_text ::
    "('j \<Rightarrow> string) \<Rightarrow> ('j, 't) message list \<Rightarrow> summary option \<Rightarrow> string" where
  "build_compaction_conversation_text json messages existing =
     (case existing of
        Some s \<Rightarrow> ''## Previous Summary'' @ [nl, nl] @ sum_text s @ [nl, nl] @
                  ''## New Conversation'' @ [nl, nl]
      | None \<Rightarrow> []) @
     concat (map (message_text json) messages)"

definition build_compaction_prompt ::
    "('j \<Rightarrow> string) \<Rightarrow> ('j, 't) message list \<Rightarrow> summary option \<Rightarrow> nat \<Rightarrow> string" where
  "build_compaction_prompt json messages existing max_prompt_chars =
     (let text = build_compaction_conversation_text json messages existing;
          overhead = length summary_prompt + 50;
          text = (if max_prompt_chars < length text + overhead \<and> overhead < max_prompt_chars
                  then truncate_str_boundary text (max_prompt_chars - overhead) @ [nl, nl] @
                    ''... [earlier conversation truncated to fit context window]'' @ [nl]
                  else text)
      in text @ [nl, nl] @ ''---'' @ [nl, nl] @ summary_prompt)"

section \<open>The safe cut-off\<close>

text \<open>The two sets of tool ids of \<open>safe_compaction_cutoff\<close>: those called in the kept part, and those
  answered there without a call seen so far.\<close>

type_synonym tool_scan = "string set \<times> string set"

fun scan_block :: "'j content_block \<Rightarrow> tool_scan \<Rightarrow> tool_scan" where
  "scan_block (ToolUse i name input th) (available, missing) =
     (insert i available, missing - {i})"
| "scan_block (ToolResult i content e) (available, missing) =
     (if i \<notin> available then (available, insert i missing) else (available, missing))"
| "scan_block b s = s"

definition scan_message :: "('j, 't) message \<Rightarrow> tool_scan \<Rightarrow> tool_scan" where
  "scan_message m s = fold scan_block (msg_content m) s"

text \<open>The walk backward over the messages before the cut-off; \<open>idx\<close> messages remain.\<close>

fun walk_back :: "('j, 't) message list \<Rightarrow> nat \<Rightarrow> tool_scan \<Rightarrow> nat" where
  "walk_back messages 0 s = 0"
| "walk_back messages (Suc idx) s =
     (let s' = scan_message (messages ! idx) s
      in if snd s' = {} then idx else walk_back messages idx s')"

definition safe_compaction_cutoff :: "('j, 't) message list \<Rightarrow> nat \<Rightarrow> nat" where
  "safe_compaction_cutoff messages initial_cutoff =
     (let cutoff = min initial_cutoff (length messages);
          s = fold scan_message (drop cutoff messages) ({}, {})
      in if snd s = {} then cutoff else walk_back messages cutoff s)"

section \<open>Character and token estimates\<close>

definition opt_len :: "string option \<Rightarrow> nat" where
  "opt_len x = (case x of None \<Rightarrow> 0 | Some s \<Rightarrow> length s)"

fun block_char_count :: "('j \<Rightarrow> string) \<Rightarrow> 'j content_block \<Rightarrow> nat" where
  "block_char_count json (Text text c) = length text"
| "block_char_count json (Reasoning text) = length text"
| "block_char_count json (ReasoningTrace text) = length text"
| "block_char_count json (AnthropicThinking thinking signature) =
     length thinking + length signature"
| "block_char_count json (OpenAIReasoning i summary encrypted status) =
     length i + sum_list (map length summary) + opt_len encrypted + opt_len status"
| "block_char_count json (ToolUse i name input th) = length (json input) + 50"
| "block_char_count json (ToolResult i content e) = length content + 20"
| "block_char_count json (Image mt d) = image_token_cost * chars_per_token"
| "block_char_count json (OpenAICompaction e) = length e"

definition content_char_count :: "('j \<Rightarrow> string) \<Rightarrow> 'j content_block list \<Rightarrow> nat" where
  "content_char_count json content = sum_list (map (block_char_count json) content)"

definition message_char_count :: "('j \<Rightarrow> string) \<Rightarrow> ('j, 't) message \<Rightarrow> nat" where
  "message_char_count json m = content_char_count json (msg_content m)"

definition summary_payload_char_count :: "summary \<Rightarrow> nat" where
  "summary_payload_char_count s =
     (case sum_openai_encrypted_content s of Some v \<Rightarrow> length v | None \<Rightarrow> length (sum_text s))"

definition estimate_compaction_tokens_from_chars :: "nat \<Rightarrow> nat \<Rightarrow> nat" where
  "estimate_compaction_tokens_from_chars total_chars token_budget =
     (let msg_tokens = total_chars div chars_per_token;
          overhead = (if default_token_budget div 2 \<le> token_budget then system_overhead_tokens else 0)
      in msg_tokens + overhead)"

definition estimate_compaction_tokens :: "summary option \<Rightarrow> nat \<Rightarrow> nat \<Rightarrow> nat" where
  "estimate_compaction_tokens s active_chars token_budget =
     estimate_compaction_tokens_from_chars
       ((case s of None \<Rightarrow> 0 | Some v \<Rightarrow> summary_payload_char_count v) + active_chars) token_budget"

definition effective_context_tokens_from_usage ::
    "(string \<Rightarrow> string) \<Rightarrow> string \<Rightarrow> u64 \<Rightarrow> u64 option \<Rightarrow> u64 option \<Rightarrow> u64" where
  "effective_context_tokens_from_usage lower provider_name input_tokens cache_read cache_creation =
     (if input_tokens = 0 then 0
      else let read = the_default 0 cache_read; creation = the_default 0 cache_creation;
               name = lower provider_name;
               split = (str_contains name ''anthropic'' \<or> str_contains name ''claude'' \<or>
                        0 < creation \<or> input_tokens < read);
               add = (\<lambda>a b. if unat a + unat b < 2 ^ 64 then a + b else - 1)
           in if split then add (add input_tokens read) creation else input_tokens)"

section \<open>Text for embeddings\<close>

definition push_semantic_excerpt :: "string \<Rightarrow> nat \<Rightarrow> string \<Rightarrow> string" where
  "push_semantic_excerpt source max_chars target =
     (if source = [] then target
      else target @ (if target = [] then [] else '' '') @ take_chars max_chars source)"

fun push_goal_block :: "'j content_block \<Rightarrow> string \<Rightarrow> string" where
  "push_goal_block (Text t c) text = push_semantic_excerpt t 200 text"
| "push_goal_block (ToolResult i t e) text = push_semantic_excerpt t 100 text"
| "push_goal_block b text = text"

definition semantic_goal_text :: "('j, 't) message list \<Rightarrow> string" where
  "semantic_goal_text messages = fold push_goal_block (concat (map msg_content messages)) []"

fun push_text_block :: "'j content_block \<Rightarrow> string \<Rightarrow> string" where
  "push_text_block (Text t c) text = push_semantic_excerpt t embed_max_chars_per_msg text"
| "push_text_block b text = text"

definition semantic_message_text :: "('j, 't) message \<Rightarrow> string" where
  "semantic_message_text m = fold push_text_block (msg_content m) []"

end
