(* ===== verification/Compaction_Emergency.thy ===== *)
theory Compaction_Emergency
  imports Compaction_Core
begin

text \<open>
  The emergency side of compaction (\<open>crates/jcode-compaction-core/src/lib.rs\<close>): the summary of dropped
  messages, truncation of large payloads, image stripping and the recognition of size errors, with
  the three functions on oversized OpenAI payloads of \<open>crates/jcode-provider-openai/src/request.rs\<close>.
\<close>

section \<open>Characters\<close>

function chars_of :: "string \<Rightarrow> string list" where
  "chars_of [] = []"
| "chars_of (c # cs) = (c # takeWhile is_cont cs) # chars_of (dropWhile is_cont cs)"
  by pat_completeness auto
termination by (relation "measure length") (auto simp: le_imp_less_Suc length_dropWhile_le)

definition trim_matches :: "(string \<Rightarrow> bool) \<Rightarrow> string \<Rightarrow> string" where
  "trim_matches P s = concat (rev (dropWhile P (rev (dropWhile P (chars_of s)))))"

section \<open>The summary of dropped messages\<close>

definition looks_like_file_reference :: "string \<Rightarrow> bool" where
  "looks_like_file_reference word \<longleftrightarrow>
     (str_contains word ''/'' \<or> str_contains word ''.'') \<and>
     3 < length word \<and> length word < 120 \<and> \<not> prefix ''http'' word \<and>
     (str_contains word ''.rs'' \<or> str_contains word ''.ts'' \<or> str_contains word ''.py'' \<or>
      str_contains word ''.toml'' \<or> str_contains word ''.json'' \<or>
      prefix ''src/'' word \<or> prefix ''./'' word)"

definition clean_file_reference :: "(string \<Rightarrow> bool) \<Rightarrow> string \<Rightarrow> string" where
  "clean_file_reference alnum word =
     trim_matches (\<lambda>c. \<not> alnum c \<and> c \<noteq> ''/'' \<and> c \<noteq> ''.'' \<and> c \<noteq> ''_'' \<and> c \<noteq> ''-'') word"

definition extract_file_mentions :: "(string \<Rightarrow> bool) \<Rightarrow> string \<Rightarrow> string list \<Rightarrow> string list" where
  "extract_file_mentions alnum text mentions =
     mentions @
     filter (\<lambda>w. w \<noteq> [])
       (map (clean_file_reference alnum)
         (filter looks_like_file_reference (split_whitespace text)))"

fun collect_hint ::
    "(string \<Rightarrow> bool) \<Rightarrow> 'j content_block \<Rightarrow> string set \<times> string list \<Rightarrow> string set \<times> string list" where
  "collect_hint alnum (ToolUse i name input th) (tools, files) = (insert name tools, files)"
| "collect_hint alnum (Text text c) (tools, files) = (tools, extract_file_mentions alnum text files)"
| "collect_hint alnum b hints = hints"

definition collect_emergency_summary_hints ::
    "(string \<Rightarrow> bool) \<Rightarrow> ('j, 't) message \<Rightarrow> string set \<times> string list \<Rightarrow> string set \<times> string list" where
  "collect_emergency_summary_hints alnum m hints = fold (collect_hint alnum) (msg_content m) hints"

definition build_emergency_summary_text ::
    "(string \<Rightarrow> bool) \<Rightarrow> string option \<Rightarrow> nat \<Rightarrow> nat \<Rightarrow> nat \<Rightarrow> ('j, 't) message list \<Rightarrow> string" where
  "build_emergency_summary_text alnum existing_summary dropped_count pre_tokens token_budget dropped =
     (let existing = (case existing_summary of None \<Rightarrow> [] | Some s \<Rightarrow> if s = [] then [] else [s]);
          notice = ''**[Emergency compaction]**: '' @ show_nat dropped_count @
            '' messages were dropped to recover from context overflow. The conversation had ~'' @
            show_nat (pre_tokens div 1000) @ ''k tokens which exceeded the '' @
            show_nat (token_budget div 1000) @ ''k limit.'';
          (tools, files) = fold (collect_emergency_summary_hints alnum) dropped ({}, []);
          tool_part = (if tools = {} then []
                       else [''Tools used: '' @ join '', '' (sorted_list_of_set tools)]);
          files = remdups_adj (sort files);
          file_part = (if files = [] then []
                       else [''Files referenced: '' @ join '', '' (take 30 files)])
      in join [nl, nl] (existing @ [notice] @ tool_part @ file_part))"

section \<open>Truncating large payloads\<close>

definition emergency_truncated_tool_result :: "string \<Rightarrow> nat \<Rightarrow> string" where
  "emergency_truncated_tool_result content max_chars =
     (let original_len = length content;
          head = truncate_str_boundary content (max_chars div 2);
          tail = tail_str_boundary content (max_chars div 4);
          truncated_len = original_len - (length head + length tail)
      in head @ [nl, nl] @ ''... ['' @ show_nat truncated_len @
         '' chars truncated for context recovery] ...'' @ [nl, nl] @ tail)"

text \<open>A loop over all blocks of all messages that may replace each one; the number counts the
  replaced blocks.\<close>

definition rewrite_blocks ::
    "('j content_block \<Rightarrow> 'j content_block option) \<Rightarrow> ('j, 't) message list \<Rightarrow>
     ('j, 't) message list \<times> nat" where
  "rewrite_blocks f messages =
     (map (\<lambda>m. m\<lparr>msg_content := map (\<lambda>b. the_default b (f b)) (msg_content m)\<rparr>) messages,
      sum_list (map (\<lambda>m. length (filter (\<lambda>b. f b \<noteq> None) (msg_content m))) messages))"

fun truncate_result_block :: "nat \<Rightarrow> 'j content_block \<Rightarrow> 'j content_block option" where
  "truncate_result_block max_chars (ToolResult i content e) =
     (if max_chars < length content
      then Some (ToolResult i (emergency_truncated_tool_result content max_chars) e) else None)"
| "truncate_result_block max_chars b = None"

definition emergency_truncate_tool_results ::
    "('j, 't) message list \<Rightarrow> nat \<Rightarrow> ('j, 't) message list \<times> nat" where
  "emergency_truncate_tool_results messages max_chars =
     rewrite_blocks (truncate_result_block max_chars) messages"

definition image_omitted_for_context :: "string \<Rightarrow> nat \<Rightarrow> string" where
  "image_omitted_for_context media_type original_len =
     ''[Image omitted during emergency context recovery: media_type='' @ media_type @
     '', original_base64_chars='' @ show_nat original_len @
     ''. Rely on adjacent browser/tool text, screenshots saved to disk, or re-open/re-screenshot '' @
     ''if visual details are needed.]''"

fun truncate_payload_block :: "nat \<Rightarrow> nat \<Rightarrow> 'j content_block \<Rightarrow> 'j content_block option" where
  "truncate_payload_block max_result max_image (ToolResult i content e) =
     (if max_result < length content
      then Some (ToolResult i (emergency_truncated_tool_result content max_result) e) else None)"
| "truncate_payload_block max_result max_image (Image media_type data) =
     (if max_image < length data
      then Some (Text (image_omitted_for_context media_type (length data)) None) else None)"
| "truncate_payload_block max_result max_image b = None"

definition emergency_truncate_large_payloads ::
    "('j, 't) message list \<Rightarrow> nat \<Rightarrow> nat \<Rightarrow> ('j, 't) message list \<times> nat" where
  "emergency_truncate_large_payloads messages max_result max_image =
     rewrite_blocks (truncate_payload_block max_result max_image) messages"

section \<open>Stripping images\<close>

definition image_omitted_for_size :: "string \<Rightarrow> nat \<Rightarrow> string" where
  "image_omitted_for_size media_type original_len =
     ''[Image omitted during request-size recovery: media_type='' @ media_type @
     '', original_base64_chars='' @ show_nat original_len @
     ''. The request body exceeded the provider size limit; older images were dropped. Rely on '' @
     ''adjacent browser/tool text, screenshots saved to disk, or re-open/re-screenshot if visual '' @
     ''details are needed.]''"

text \<open>\<open>(content index, block index, payload length)\<close> of every inline image, oldest first.\<close>

definition images_of :: "nat \<Rightarrow> 'j content_block list \<Rightarrow> (nat \<times> nat \<times> nat) list" where
  "images_of ci content =
     concat (map (\<lambda>(bi, b). case b of Image mt data \<Rightarrow> [(ci, bi, length data)] | _ \<Rightarrow> [])
       (enumerate 0 content))"

definition collect_images :: "'j content_block list list \<Rightarrow> (nat \<times> nat \<times> nat) list" where
  "collect_images contents = concat (map (\<lambda>(ci, content). images_of ci content) (enumerate 0 contents))"

definition images_total :: "(nat \<times> nat \<times> nat) list \<Rightarrow> nat" where
  "images_total images = fold (\<lambda>(ci, bi, len) payload. sat_add payload len) images 0"

fun strip_loop ::
    "nat \<Rightarrow> (nat \<times> nat \<times> nat) list \<Rightarrow> 'j content_block list list \<Rightarrow> nat \<Rightarrow> nat \<Rightarrow>
     'j content_block list list \<times> nat" where
  "strip_loop target [] contents payload stripped = (contents, stripped)"
| "strip_loop target ((ci, bi, len) # images) contents payload stripped =
     (if payload \<le> target then (contents, stripped)
      else case contents ! ci ! bi of
             Image media_type data \<Rightarrow>
               strip_loop target images
                 (contents[ci := (contents ! ci)[bi :=
                    Text (image_omitted_for_size media_type (length data)) None]])
                 (payload - len) (stripped + 1)
           | _ \<Rightarrow> strip_loop target images contents payload stripped)"

definition strip_large_images_in_contents ::
    "'j content_block list list \<Rightarrow> nat \<Rightarrow> 'j content_block list list \<times> nat" where
  "strip_large_images_in_contents contents target =
     (let images = collect_images contents; payload = images_total images
      in if payload \<le> target then (contents, 0) else strip_loop target images contents payload 0)"

definition emergency_strip_large_images ::
    "('j, 't) message list \<Rightarrow> nat \<Rightarrow> ('j, 't) message list \<times> nat" where
  "emergency_strip_large_images messages target =
     (let (contents, stripped) = strip_large_images_in_contents (map msg_content messages) target
      in (map2 (\<lambda>m c. m\<lparr>msg_content := c\<rparr>) messages contents, stripped))"

section \<open>Size errors\<close>

text \<open>\<open>haystack.match_indices(code)\<close>: successive matches do not overlap. Only called with a non-empty
  pattern.\<close>

function match_indices :: "string \<Rightarrow> string \<Rightarrow> nat \<Rightarrow> nat list" where
  "match_indices s p start =
     (if p = [] then []
      else case str_find (drop start s) p of
             None \<Rightarrow> []
           | Some k \<Rightarrow> (start + k) # match_indices s p (start + k + length p))"
  by pat_completeness auto
termination
proof (relation "measure (\<lambda>(s, p, start). Suc (length s) - start)", simp)
  fix s p :: string and start k
  assume p: "p \<noteq> []" and k: "str_find (drop start s) p = Some k"
  have "prefix p (drop k (drop start s))" using str_find_Some_prefix [OF k] by simp
  then have "length p \<le> length s - (k + start)" using prefix_length_le by fastforce
  with p show "((s, p, start + k + length p), (s, p, start))
      \<in> measure (\<lambda>(s, p, start). Suc (length s) - start)"
    by (cases p) auto
qed

declare match_indices.simps [simp del]

definition contains_independent_status_code :: "string \<Rightarrow> string \<Rightarrow> bool" where
  "contains_independent_status_code haystack code =
     list_ex (\<lambda>start.
         (start = 0 \<or> \<not> is_ascii_digit (haystack ! (start - 1))) \<and>
         (start + length code = length haystack \<or>
          \<not> is_ascii_digit (haystack ! (start + length code))))
       (match_indices haystack code 0)"

definition is_request_payload_too_large_error :: "string \<Rightarrow> bool" where
  "is_request_payload_too_large_error err =
     (let lower = to_ascii_lowercase err
      in str_contains lower ''request_too_large'' \<or>
         str_contains lower ''request too large'' \<or>
         str_contains lower ''payload too large'' \<or>
         str_contains lower ''request entity too large'' \<or>
         str_contains lower ''request exceeds the maximum size'' \<or>
         str_contains lower ''exceeds the maximum size'' \<or>
         contains_independent_status_code lower ''413'')"

section \<open>Oversized OpenAI payloads\<close>

definition openai_encrypted_content_provider_max_chars :: nat where
  "openai_encrypted_content_provider_max_chars = 10485760"

definition openai_encrypted_content_safe_max_chars :: nat where
  "openai_encrypted_content_safe_max_chars = 9500000"

definition openai_encrypted_content_is_sendable :: "string \<Rightarrow> bool" where
  "openai_encrypted_content_is_sendable e \<longleftrightarrow> length e \<le> openai_encrypted_content_safe_max_chars"

definition openai_encrypted_content_fallback_summary :: "nat \<Rightarrow> string" where
  "openai_encrypted_content_fallback_summary len =
     ''OpenAI native compaction state was discarded because its encrypted payload was '' @
     show_nat len @ '' chars, above Jcode'' @ sq # ''s safe replay limit of '' @
     show_nat openai_encrypted_content_safe_max_chars @ '' chars (provider hard limit: '' @
     show_nat openai_encrypted_content_provider_max_chars @
     '' chars). Earlier compacted details may be unavailable; use the recent visible messages and '' @
     ''session search/tools if exact prior details are needed.''"

definition is_openai_encrypted_content_too_large_error :: "string \<Rightarrow> bool" where
  "is_openai_encrypted_content_too_large_error err =
     (let lower = to_ascii_lowercase err
      in str_contains lower ''encrypted_content'' \<and>
         (str_contains lower ''string_above_max_length'' \<or> str_contains lower ''string too long'' \<or>
          str_contains lower ''maximum length'' \<or> str_contains lower ''large_string_param'' \<or>
          str_contains lower ''largestringparam''))"

end
