(* ===== verification/Compaction_State.thy ===== *)
theory Compaction_State
  imports Compaction_Emergency
begin

text \<open>
  The state of the compaction manager (\<open>crates/jcode-base/src/compaction.rs\<close>), its bookkeeping and its
  triggers. The caller owns the messages, so the operations take them as an argument. A background
  task is a value: what it was spawned with, or how it ended. Embedding vectors and their
  similarities come from an embedding backend and are a type variable and arguments. Logging is left
  out. \<open>None\<close> is a panic.
\<close>

section \<open>Modes and configuration (\<open>crates/jcode-config-types/src/lib.rs\<close>)\<close>

datatype compaction_mode = Reactive | Proactive | Semantic

fun mode_as_str :: "compaction_mode \<Rightarrow> string" where
  "mode_as_str Reactive = ''reactive''"
| "mode_as_str Proactive = ''proactive''"
| "mode_as_str Semantic = ''semantic''"

definition mode_parse :: "string \<Rightarrow> compaction_mode option" where
  "mode_parse input =
     (let s = to_ascii_lowercase (trim input)
      in if s = ''reactive'' then Some Reactive
         else if s = ''proactive'' then Some Proactive
         else if s = ''semantic'' then Some Semantic
         else None)"

record compaction_config =
  cfg_mode :: compaction_mode
  cfg_lookahead_turns :: nat
  cfg_ewma_alpha :: float_val
  cfg_proactive_floor :: float_val
  cfg_min_samples :: nat
  cfg_stall_window :: nat
  cfg_min_turns_between_compactions :: nat
  cfg_topic_shift_threshold :: float_val
  cfg_relevance_keep_threshold :: float_val
  cfg_goal_window_turns :: nat

definition default_compaction_config :: compaction_config where
  "default_compaction_config =
     \<lparr>cfg_mode = Reactive, cfg_lookahead_turns = 15,
      cfg_ewma_alpha = fround f32_format (3 / 10),
      cfg_proactive_floor = fround f32_format (40 / 100),
      cfg_min_samples = 3, cfg_stall_window = 5, cfg_min_turns_between_compactions = 10,
      cfg_topic_shift_threshold = fround f32_format (45 / 100),
      cfg_relevance_keep_threshold = fround f32_format (65 / 100),
      cfg_goal_window_turns = 5\<rparr>"

section \<open>State\<close>

record compaction_result =
  cr_summary_text :: string
  cr_openai_encrypted_content :: "string option"
  cr_covers_up_to_turn :: nat
  cr_duration_ms :: nat
  cr_summarized_messages :: nat

datatype task_outcome = TaskOk compaction_result | TaskErr string | TaskPanicked

text \<open>A spawned task holds a snapshot of the messages to summarize and of the summary.\<close>

datatype ('j, 't) task = Running "('j, 't) message list" "summary option" | Finished task_outcome

text \<open>\<open>ActiveCharEstimate\<close>.\<close>

record char_estimate =
  ce_chars :: nat
  ce_dirty :: bool

definition ce_default :: char_estimate where
  "ce_default = \<lparr>ce_chars = 0, ce_dirty = False\<rparr>"

definition ce_invalidate :: "char_estimate \<Rightarrow> char_estimate" where
  "ce_invalidate e = e\<lparr>ce_dirty := True\<rparr>"

definition ce_set_exact :: "nat \<Rightarrow> char_estimate \<Rightarrow> char_estimate" where
  "ce_set_exact chars e = e\<lparr>ce_chars := chars, ce_dirty := False\<rparr>"

definition ce_append_exact :: "nat \<Rightarrow> char_estimate \<Rightarrow> char_estimate" where
  "ce_append_exact chars e = e\<lparr>ce_chars := sat_add (ce_chars e) chars, ce_dirty := False\<rparr>"

definition ce_reset_pending :: "bool \<Rightarrow> char_estimate \<Rightarrow> char_estimate" where
  "ce_reset_pending maybe_has_active e = e\<lparr>ce_chars := 0, ce_dirty := maybe_has_active\<rparr>"

type_synonym 'e embed_cache = "(u64 \<times> 'e option \<times> u64) list"

record ('j, 't, 'e) manager =
  compacted_count :: nat
  active_summary :: "summary option"
  active_chars :: char_estimate
  pending_task :: "('j, 't) task option"
  pending_trigger :: "string option"
  pending_cutoff :: nat
  total_turns :: nat
  suppress_compaction :: bool
  token_budget :: nat
  observed_input_tokens :: "u64 option"
  last_compaction :: "compaction_event option"
  mode :: compaction_mode
  config :: compaction_config
  token_history :: "u64 list"
  turns_since_last_compact :: nat
  embedding_history :: "'e list"
  embed_cache :: "'e embed_cache"
  embed_cache_counter :: u64

definition new_manager :: "compaction_config \<Rightarrow> ('j, 't, 'e) manager" where
  "new_manager cfg =
     \<lparr>compacted_count = 0, active_summary = None, active_chars = ce_default, pending_task = None,
      pending_trigger = None, pending_cutoff = 0, total_turns = 0, suppress_compaction = False,
      token_budget = default_token_budget, observed_input_tokens = None, last_compaction = None,
      mode = cfg_mode cfg, config = cfg, token_history = [], turns_since_last_compact = 0,
      embedding_history = [], embed_cache = [], embed_cache_counter = 0\<rparr>"

definition with_budget :: "nat \<Rightarrow> ('j, 't, 'e) manager \<Rightarrow> ('j, 't, 'e) manager" where
  "with_budget budget m = m\<lparr>token_budget := budget\<rparr>"

definition set_mode :: "compaction_mode \<Rightarrow> ('j, 't, 'e) manager \<Rightarrow> ('j, 't, 'e) manager" where
  "set_mode md m = m\<lparr>mode := md, config := (config m)\<lparr>cfg_mode := md\<rparr>\<rparr>"

section \<open>Messages added and restored\<close>

definition notify_message_added :: "('j, 't, 'e) manager \<Rightarrow> ('j, 't, 'e) manager" where
  "notify_message_added m =
     m\<lparr>total_turns := total_turns m + 1, suppress_compaction := False,
       active_chars := ce_invalidate (active_chars m)\<rparr>"

definition notify_message_added_blocks ::
    "('j \<Rightarrow> string) \<Rightarrow> 'j content_block list \<Rightarrow> ('j, 't, 'e) manager \<Rightarrow> ('j, 't, 'e) manager" where
  "notify_message_added_blocks json content m =
     m\<lparr>total_turns := total_turns m + 1, suppress_compaction := False,
       active_chars := ce_append_exact (content_char_count json content) (active_chars m)\<rparr>"

definition notify_message_added_with ::
    "('j \<Rightarrow> string) \<Rightarrow> ('j, 't) message \<Rightarrow> ('j, 't, 'e) manager \<Rightarrow> ('j, 't, 'e) manager" where
  "notify_message_added_with json message m = notify_message_added_blocks json (msg_content message) m"

definition seed_restored_messages :: "nat \<Rightarrow> ('j, 't, 'e) manager \<Rightarrow> ('j, 't, 'e) manager" where
  "seed_restored_messages count m =
     m\<lparr>total_turns := count, suppress_compaction := 0 < count,
       active_chars := ce_reset_pending (0 < count) (active_chars m)\<rparr>"

definition seed_restored_messages_with ::
    "('j \<Rightarrow> string) \<Rightarrow> ('j, 't) message list \<Rightarrow> ('j, 't, 'e) manager \<Rightarrow> ('j, 't, 'e) manager" where
  "seed_restored_messages_with json all m =
     m\<lparr>total_turns := length all, suppress_compaction := all \<noteq> [],
       active_chars := ce_set_exact (sum_list (map (message_char_count json) all)) (active_chars m)\<rparr>"

record stored_compaction_state =
  scs_summary_text :: string
  scs_openai_encrypted_content :: "string option"
  scs_covers_up_to_turn :: nat
  scs_original_turn_count :: nat
  scs_compacted_count :: nat

definition restore_persisted_state ::
    "stored_compaction_state \<Rightarrow> nat \<Rightarrow> ('j, 't, 'e) manager \<Rightarrow> ('j, 't, 'e) manager" where
  "restore_persisted_state st n m =
     (let count = min (scs_compacted_count st) n
      in m\<lparr>pending_task := None, pending_trigger := None, pending_cutoff := 0,
           observed_input_tokens := None, last_compaction := None, token_history := [],
           turns_since_last_compact := 0, embedding_history := [], embed_cache := [],
           embed_cache_counter := 0, total_turns := n, compacted_count := count,
           active_chars := ce_reset_pending (count < n) (active_chars m),
           active_summary := Some \<lparr>sum_text = scs_summary_text st,
             sum_openai_encrypted_content = scs_openai_encrypted_content st,
             sum_covers_up_to_turn = scs_covers_up_to_turn st,
             sum_original_turn_count = scs_original_turn_count st\<rparr>,
           suppress_compaction := 0 < n\<rparr>)"

definition active_messages :: "('j, 't, 'e) manager \<Rightarrow> 'a list \<Rightarrow> 'a list" where
  "active_messages m all = drop (min (compacted_count m) (length all)) all"

definition restore_persisted_state_with ::
    "('j \<Rightarrow> string) \<Rightarrow> stored_compaction_state \<Rightarrow> ('j, 't) message list \<Rightarrow>
     ('j, 't, 'e) manager \<Rightarrow> ('j, 't, 'e) manager" where
  "restore_persisted_state_with json st all m =
     (let m = restore_persisted_state st (length all) m
      in m\<lparr>active_chars := ce_set_exact
             (sum_list (map (message_char_count json) (active_messages m all))) (active_chars m)\<rparr>)"

definition persisted_state :: "('j, 't, 'e) manager \<Rightarrow> stored_compaction_state option" where
  "persisted_state m =
     map_option (\<lambda>s. \<lparr>scs_summary_text = sum_text s,
         scs_openai_encrypted_content = sum_openai_encrypted_content s,
         scs_covers_up_to_turn = sum_covers_up_to_turn s,
         scs_original_turn_count = sum_original_turn_count s,
         scs_compacted_count = compacted_count m\<rparr>) (active_summary m)"

section \<open>Oversized native payloads\<close>

text \<open>The rewriting of a summary whose native payload is too large to send, shared by
  \<open>discard_oversized_openai_native_compaction\<close> and \<open>generate_compaction_artifact\<close>; \<open>None\<close> where the
  summary stays.\<close>

definition discarded_summary :: "summary \<Rightarrow> summary option" where
  "discarded_summary s =
     (case sum_openai_encrypted_content s of
        None \<Rightarrow> None
      | Some e \<Rightarrow>
          if openai_encrypted_content_is_sendable e then None
          else let fallback = openai_encrypted_content_fallback_summary (length e);
                   text = (if trim (sum_text s) = [] then fallback
                           else if \<not> str_contains (sum_text s)
                                  ''OpenAI native compaction state was discarded''
                           then sum_text s @ [nl, nl] @ fallback
                           else sum_text s)
               in Some (s\<lparr>sum_openai_encrypted_content := None, sum_text := text\<rparr>))"

definition discard_oversized_openai_native_compaction ::
    "('j, 't, 'e) manager \<Rightarrow> ('j, 't, 'e) manager \<times> bool" where
  "discard_oversized_openai_native_compaction m =
     (case active_summary m of
        None \<Rightarrow> (m, False)
      | Some s \<Rightarrow>
          (case discarded_summary s of
             None \<Rightarrow> (m, False)
           | Some s' \<Rightarrow>
               (m\<lparr>active_summary := Some s', observed_input_tokens := None\<rparr>, True)))"

section \<open>Estimates\<close>

definition active_messages_count :: "('j, 't, 'e) manager \<Rightarrow> nat" where
  "active_messages_count m = total_turns m - compacted_count m"

definition active_message_chars_with ::
    "('j \<Rightarrow> string) \<Rightarrow> ('j, 't) message list \<Rightarrow> ('j, 't, 'e) manager \<Rightarrow> nat" where
  "active_message_chars_with json all m =
     (if ce_dirty (active_chars m) \<or> active_messages_count m \<noteq> length (active_messages m all)
      then sum_list (map (message_char_count json) (active_messages m all))
      else ce_chars (active_chars m))"

definition token_estimate_with ::
    "('j \<Rightarrow> string) \<Rightarrow> ('j, 't) message list \<Rightarrow> ('j, 't, 'e) manager \<Rightarrow> nat" where
  "token_estimate_with json all m =
     estimate_compaction_tokens (active_summary m) (active_message_chars_with json all m)
       (token_budget m)"

definition token_estimate :: "('j, 't, 'e) manager \<Rightarrow> nat" where
  "token_estimate m = estimate_compaction_tokens (active_summary m) 0 (token_budget m)"

definition update_observed_input_tokens :: "u64 \<Rightarrow> ('j, 't, 'e) manager \<Rightarrow> ('j, 't, 'e) manager" where
  "update_observed_input_tokens tokens m = m\<lparr>observed_input_tokens := Some tokens\<rparr>"

definition observed :: "('j, 't, 'e) manager \<Rightarrow> nat" where
  "observed m = (case observed_input_tokens m of None \<Rightarrow> 0 | Some t \<Rightarrow> unat t)"

definition effective_token_count_with ::
    "('j \<Rightarrow> string) \<Rightarrow> ('j, 't) message list \<Rightarrow> ('j, 't, 'e) manager \<Rightarrow> nat" where
  "effective_token_count_with json all m = max (token_estimate_with json all m) (observed m)"

definition effective_token_count :: "('j, 't, 'e) manager \<Rightarrow> nat" where
  "effective_token_count m = max (token_estimate m) (observed m)"

text \<open>\<open>effective as f32 / budget as f32\<close>.\<close>

definition usage_of :: "nat \<Rightarrow> nat \<Rightarrow> float_val" where
  "usage_of tokens budget = fdiv_nonneg f32_format (as_f32 tokens) (as_f32 budget)"

definition context_usage_with ::
    "('j \<Rightarrow> string) \<Rightarrow> ('j, 't) message list \<Rightarrow> ('j, 't, 'e) manager \<Rightarrow> float_val" where
  "context_usage_with json all m = usage_of (effective_token_count_with json all m) (token_budget m)"

definition context_usage :: "('j, 't, 'e) manager \<Rightarrow> float_val" where
  "context_usage m = usage_of (effective_token_count m) (token_budget m)"

definition summary_chars :: "('j, 't, 'e) manager \<Rightarrow> nat" where
  "summary_chars m = (case active_summary m of None \<Rightarrow> 0 | Some s \<Rightarrow> summary_payload_char_count s)"

definition is_compacting :: "('j, 't, 'e) manager \<Rightarrow> bool" where
  "is_compacting m \<longleftrightarrow> pending_task m \<noteq> None"

definition stats_with ::
    "('j \<Rightarrow> string) \<Rightarrow> ('j, 't) message list \<Rightarrow> ('j, 't, 'e) manager \<Rightarrow> compaction_stats" where
  "stats_with json all m =
     \<lparr>st_total_turns = total_turns m, st_active_messages = length (active_messages m all),
      st_has_summary = (active_summary m \<noteq> None), st_is_compacting = is_compacting m,
      st_token_estimate = token_estimate_with json all m,
      st_effective_tokens = effective_token_count_with json all m,
      st_observed_input_tokens = map_option unat (observed_input_tokens m),
      st_context_usage = context_usage_with json all m\<rparr>"

definition stats :: "('j, 't, 'e) manager \<Rightarrow> compaction_stats" where
  "stats m =
     \<lparr>st_total_turns = total_turns m, st_active_messages = 0,
      st_has_summary = (active_summary m \<noteq> None), st_is_compacting = is_compacting m,
      st_token_estimate = token_estimate m, st_effective_tokens = effective_token_count m,
      st_observed_input_tokens = map_option unat (observed_input_tokens m),
      st_context_usage = context_usage m\<rparr>"

definition clamp_compacted_count_to_messages ::
    "'a list \<Rightarrow> ('j, 't, 'e) manager \<Rightarrow> ('j, 't, 'e) manager \<times> bool" where
  "clamp_compacted_count_to_messages all m =
     (if all = [] then (m, False)
      else if compacted_count m \<le> length all then (m, False)
      else (m\<lparr>compacted_count := length all, active_chars := ce_set_exact 0 (active_chars m)\<rparr>, True))"

end
