(* ===== verification/Compaction_Trigger.thy ===== *)
theory Compaction_Trigger
  imports Compaction_State
begin

text \<open>
  When the manager compacts and where it cuts (\<open>crates/jcode-base/src/compaction.rs\<close>): the token
  history, the anti-signals, the growth projection of the proactive mode, the topic shift and the
  relevance cut-off of the semantic mode with its embedding cache. \<open>None\<close> is a panic: the stall check
  indexes an empty window when the configured window is 0.
\<close>

text \<open>What the manager takes from elsewhere: \<open>Value::to_string\<close>, the Unicode table of
  \<open>char::is_alphanumeric\<close>, the embedding model, the hash of a text, the similarity of two embeddings,
  and that of the means of two groups of embeddings.\<close>

record ('j, 'e) externals =
  x_json :: "'j \<Rightarrow> string"
  x_alnum :: "string \<Rightarrow> bool"
  x_embed :: "string \<Rightarrow> 'e option"
  x_key :: "string \<Rightarrow> u64"
  x_cosine :: "'e \<Rightarrow> 'e \<Rightarrow> float_val"
  x_group_cosine :: "'e list \<Rightarrow> 'e list \<Rightarrow> float_val"

section \<open>The embedding cache\<close>

text \<open>The hash map is a list of entries; \<open>min_by_key\<close> takes the first entry of least recency.\<close>

fun oldest_entry :: "'e embed_cache \<Rightarrow> (u64 \<times> 'e option \<times> u64) option" where
  "oldest_entry [] = None"
| "oldest_entry (c # cs) =
     (case oldest_entry cs of
        None \<Rightarrow> Some c
      | Some d \<Rightarrow> Some (if snd (snd c) \<le> snd (snd d) then c else d))"

definition insert_semantic_embedding_cache ::
    "u64 \<Rightarrow> 'e option \<Rightarrow> ('j, 't, 'e) manager \<Rightarrow> ('j, 't, 'e) manager" where
  "insert_semantic_embedding_cache key embedding m =
     (let cache = (if semantic_embed_cache_capacity \<le> length (embed_cache m)
                   then (case oldest_entry (embed_cache m) of
                           None \<Rightarrow> embed_cache m
                         | Some c \<Rightarrow> filter (\<lambda>d. fst d \<noteq> fst c) (embed_cache m))
                   else embed_cache m);
          counter = embed_cache_counter m
      in m\<lparr>embed_cache_counter := counter + 1,
           embed_cache := filter (\<lambda>d. fst d \<noteq> key) cache @ [(key, embedding, counter)]\<rparr>)"

definition cached_semantic_embedding ::
    "('j, 'e) externals \<Rightarrow> string \<Rightarrow> ('j, 't, 'e) manager \<Rightarrow> ('j, 't, 'e) manager \<times> 'e option" where
  "cached_semantic_embedding x text m =
     (let key = x_key x text
      in case map_of (embed_cache m) key of
           Some (cached, recency) \<Rightarrow>
             (let counter = embed_cache_counter m
              in (m\<lparr>embed_cache_counter := counter + 1,
                    embed_cache := map (\<lambda>(k, e, r). (k, e, if k = key then counter else r))
                                     (embed_cache m)\<rparr>,
                  cached))
         | None \<Rightarrow>
             (let embedding = x_embed x text
              in (insert_semantic_embedding_cache key embedding m, embedding)))"

section \<open>Snapshots\<close>

definition push_window :: "nat \<Rightarrow> 'a \<Rightarrow> 'a list \<Rightarrow> 'a list" where
  "push_window window v vs = (let vs' = vs @ [v] in if window < length vs' then tl vs' else vs')"

definition push_token_snapshot :: "u64 \<Rightarrow> ('j, 't, 'e) manager \<Rightarrow> ('j, 't, 'e) manager" where
  "push_token_snapshot tokens m =
     m\<lparr>token_history := push_window token_history_window tokens (token_history m),
       turns_since_last_compact := turns_since_last_compact m + 1\<rparr>"

definition push_embedding_snapshot ::
    "('j, 'e) externals \<Rightarrow> string \<Rightarrow> ('j, 't, 'e) manager \<Rightarrow> ('j, 't, 'e) manager" where
  "push_embedding_snapshot x text m =
     (let snippet = take_chars embed_max_chars_per_msg text
      in case cached_semantic_embedding x snippet m of
           (m, None) \<Rightarrow> m
         | (m, Some emb) \<Rightarrow>
             m\<lparr>embedding_history :=
                 push_window embedding_history_window emb (embedding_history m)\<rparr>)"

section \<open>Triggers\<close>

definition anti_signals_block ::
    "('j, 'e) externals \<Rightarrow> ('j, 't) message list \<Rightarrow> ('j, 't, 'e) manager \<Rightarrow> bool option" where
  "anti_signals_block x all m =
     (let cfg = config m; history = token_history m
      in if pending_task m \<noteq> None then Some True
         else if flt (context_usage_with (x_json x) all m) (cfg_proactive_floor cfg) then Some True
         else if length history < cfg_min_samples cfg then Some True
         else let cooldown = (turns_since_last_compact m < cfg_min_turns_between_compactions cfg)
              in if cfg_stall_window cfg \<le> length history
                 then (let recent = take (cfg_stall_window cfg) (rev history)
                       in if recent = [] then None
                          else if hd recent \<le> last recent then Some True else Some cooldown)
                 else Some cooldown)"

text \<open>The loop over the deltas: \<open>prev\<close> is the snapshot before the rest.\<close>

fun ewma_loop :: "float_val \<Rightarrow> u64 \<Rightarrow> u64 list \<Rightarrow> float_val \<Rightarrow> float_val" where
  "ewma_loop alpha prev [] ewma = ewma"
| "ewma_loop alpha prev (s # ss) ewma =
     (let delta = fmax0 (fsub f64_format (as_f64 (unat s)) (as_f64 (unat prev)))
      in ewma_loop alpha s ss
           (fadd f64_format (fmul f64_format alpha delta)
              (fmul f64_format (fsub f64_format (Num 1) alpha) ewma)))"

definition projected_tokens :: "compaction_config \<Rightarrow> u64 list \<Rightarrow> float_val option" where
  "projected_tokens cfg snapshots =
     (case snapshots of
        s0 # s1 # rest \<Rightarrow>
          (let first = fmax0 (fsub f64_format (as_f64 (unat s1)) (as_f64 (unat s0)));
               ewma = ewma_loop (cfg_ewma_alpha cfg) s1 rest first;
               current = as_f64 (unat (last snapshots))
           in Some (fadd f64_format current
                      (fmul f64_format ewma (as_f64 (cfg_lookahead_turns cfg)))))
      | _ \<Rightarrow> None)"

definition should_compact_proactively ::
    "('j, 'e) externals \<Rightarrow> ('j, 't) message list \<Rightarrow> ('j, 't, 'e) manager \<Rightarrow> bool option" where
  "should_compact_proactively x all m =
     (case anti_signals_block x all m of
        None \<Rightarrow> None
      | Some True \<Rightarrow> Some False
      | Some False \<Rightarrow>
          (let threshold = fmul f64_format compaction_threshold (as_f64 (token_budget m))
           in case projected_tokens (config m) (token_history m) of
                None \<Rightarrow> Some False
              | Some projected \<Rightarrow> Some (fle threshold projected)))"

definition should_compact_semantic ::
    "('j, 'e) externals \<Rightarrow> ('j, 't) message list \<Rightarrow> ('j, 't, 'e) manager \<Rightarrow> bool option" where
  "should_compact_semantic x all m =
     (case anti_signals_block x all m of
        None \<Rightarrow> None
      | Some True \<Rightarrow> Some False
      | Some False \<Rightarrow>
          (let history_len = length (embedding_history m); half = history_len div 2
           in if history_len < 4 then should_compact_proactively x all m
              else let similarity = x_group_cosine x (take half (embedding_history m))
                                      (drop half (embedding_history m))
                   in if flt similarity (cfg_topic_shift_threshold (config m)) then Some True
                      else should_compact_proactively x all m))"

definition should_compact_with ::
    "('j, 'e) externals \<Rightarrow> ('j, 't) message list \<Rightarrow> ('j, 't, 'e) manager \<Rightarrow> bool option" where
  "should_compact_with x all m =
     (if suppress_compaction m then Some False
      else let enough = recent_turns_to_keep < length (active_messages m all)
           in case mode m of
                Reactive \<Rightarrow>
                  Some (pending_task m = None \<and>
                        fle compaction_threshold (context_usage_with (x_json x) all m) \<and> enough)
              | Proactive \<Rightarrow> if enough then should_compact_proactively x all m else Some False
              | Semantic \<Rightarrow> if enough then should_compact_semantic x all m else Some False)"

section \<open>The relevance cut-off\<close>

text \<open>The loop over the candidate messages: the count of relevant ones and the earliest.\<close>

fun relevance_loop ::
    "('j, 'e) externals \<Rightarrow> 'e \<Rightarrow> float_val \<Rightarrow> nat \<Rightarrow> ('j, 't) message list \<Rightarrow> nat \<Rightarrow> nat \<Rightarrow>
     ('j, 't, 'e) manager \<Rightarrow> ('j, 't, 'e) manager \<times> nat \<times> nat" where
  "relevance_loop x goal threshold idx [] high earliest m = (m, high, earliest)"
| "relevance_loop x goal threshold idx (msg # msgs) high earliest m =
     (let text = semantic_message_text msg
      in if text = [] then relevance_loop x goal threshold (idx + 1) msgs high earliest m
         else case cached_semantic_embedding x text m of
                (m, None) \<Rightarrow> relevance_loop x goal threshold (idx + 1) msgs high earliest m
              | (m, Some emb) \<Rightarrow>
                  if fle threshold (x_cosine x goal emb)
                  then relevance_loop x goal threshold (idx + 1) msgs (high + 1)
                         (min earliest idx) m
                  else relevance_loop x goal threshold (idx + 1) msgs high earliest m)"

definition semantic_cutoff ::
    "('j, 'e) externals \<Rightarrow> ('j, 't) message list \<Rightarrow> ('j, 't, 'e) manager \<Rightarrow>
     ('j, 't, 'e) manager \<times> nat" where
  "semantic_cutoff x active m =
     (let standard_cutoff = length active - recent_turns_to_keep
      in if standard_cutoff = 0 then (m, 0)
         else let goal_turns = min (cfg_goal_window_turns (config m)) (length active);
                  goal_text = semantic_goal_text (drop (length active - goal_turns) active)
              in if goal_text = [] then (m, standard_cutoff)
                 else case cached_semantic_embedding x goal_text m of
                        (m', None) \<Rightarrow> (m', standard_cutoff)
                      | (m', Some goal) \<Rightarrow>
                          (case relevance_loop x goal (cfg_relevance_keep_threshold (config m)) 0
                                  (take standard_cutoff active) 0 standard_cutoff m' of
                             (m'', high, earliest) \<Rightarrow>
                               if high = 0 then (m'', standard_cutoff)
                               else if earliest < 2 then (m'', standard_cutoff)
                               else (m'', earliest)))"

end
