(* ===== verification/Compaction_Manager.thy ===== *)
theory Compaction_Manager
  imports Compaction_Trigger
begin

text \<open>
  The operations of the compaction manager (\<open>crates/jcode-base/src/compaction.rs\<close>): starting a
  background compaction, applying its result, the messages sent to the provider, hard compaction and
  emergency recovery. The provider is an argument; the background task ends in a step of its own.
\<close>

section \<open>The background task\<close>

record native_compaction =
  nc_summary_text :: "string option"
  nc_openai_encrypted_content :: "string option"

record ('j, 't) provider =
  pv_native_compact ::
    "('j, 't) message list \<Rightarrow> string option \<Rightarrow> string option \<Rightarrow> string + native_compaction"
  pv_context_window :: nat
  pv_complete_simple :: "string \<Rightarrow> string \<Rightarrow> string + string"

text \<open>\<open>generate_compaction_artifact\<close>, with the time it took.\<close>

definition generate_compaction_artifact ::
    "('j \<Rightarrow> string) \<Rightarrow> ('j, 't) provider \<Rightarrow> nat \<Rightarrow> ('j, 't) message list \<Rightarrow> summary option \<Rightarrow>
     string + compaction_result" where
  "generate_compaction_artifact json pv elapsed messages existing_summary =
     (let existing = map_option (\<lambda>s. the_default s (discarded_summary s)) existing_summary;
          result = (\<lambda>text enc. \<lparr>cr_summary_text = text, cr_openai_encrypted_content = enc,
                      cr_covers_up_to_turn = length messages, cr_duration_ms = elapsed,
                      cr_summarized_messages = length messages\<rparr>);
          by_prompt = (\<lambda>_. let max_prompt_chars = (pv_context_window pv - 4000) * chars_per_token;
                               prompt = build_compaction_prompt json messages existing max_prompt_chars
                           in case pv_complete_simple pv prompt
                                ''You are a helpful assistant that summarizes conversations.'' of
                                Inl e \<Rightarrow> Inl e
                              | Inr text \<Rightarrow> Inr (result text None))
      in case pv_native_compact pv messages (map_option sum_text existing)
                (Option.bind existing sum_openai_encrypted_content) of
           Inr native \<Rightarrow>
             (case nc_openai_encrypted_content native of
                Some e \<Rightarrow>
                  if \<not> openai_encrypted_content_is_sendable e then by_prompt ()
                  else Inr (result (the_default [] (nc_summary_text native)) (Some e))
              | None \<Rightarrow> Inr (result (the_default [] (nc_summary_text native)) None))
         | Inl _ \<Rightarrow> by_prompt ())"

text \<open>What the task makes of its snapshot (the closure given to \<open>tokio::spawn\<close>).\<close>

definition task_result ::
    "('j \<Rightarrow> string) \<Rightarrow> ('j, 't) provider \<Rightarrow> nat \<Rightarrow> ('j, 't) message list \<Rightarrow> summary option \<Rightarrow>
     task_outcome" where
  "task_result json pv duration messages existing =
     (case generate_compaction_artifact json pv duration messages existing of
        Inl e \<Rightarrow> TaskErr e
      | Inr r \<Rightarrow> TaskOk (r\<lparr>cr_duration_ms := duration, cr_summarized_messages := length messages\<rparr>))"

text \<open>A step of the runtime: the task ends with an outcome.\<close>

definition deliver :: "task_outcome \<Rightarrow> ('j, 't, 'e) manager \<Rightarrow> ('j, 't, 'e) manager" where
  "deliver outcome m =
     (case pending_task m of
        Some (Running ms s) \<Rightarrow> m\<lparr>pending_task := Some (Finished outcome)\<rparr>
      | _ \<Rightarrow> m)"

definition task_finished :: "('j, 't, 'e) manager \<Rightarrow> bool" where
  "task_finished m \<longleftrightarrow> (case pending_task m of Some (Finished r) \<Rightarrow> True | _ \<Rightarrow> False)"

section \<open>Starting\<close>

definition spawn_compaction ::
    "string \<Rightarrow> nat \<Rightarrow> ('j, 't) message list \<Rightarrow> ('j, 't, 'e) manager \<Rightarrow> ('j, 't, 'e) manager" where
  "spawn_compaction trigger cutoff active m =
     m\<lparr>pending_cutoff := cutoff, pending_trigger := Some trigger,
       pending_task := Some (Running (take cutoff active) (active_summary m))\<rparr>"

definition maybe_start_compaction_with ::
    "('j, 'e) externals \<Rightarrow> ('j, 't) message list \<Rightarrow> ('j, 't, 'e) manager \<Rightarrow>
     ('j, 't, 'e) manager option" where
  "maybe_start_compaction_with x all m =
     (case should_compact_with x all m of
        None \<Rightarrow> None
      | Some False \<Rightarrow> Some m
      | Some True \<Rightarrow>
          (let active = active_messages m all;
               (m, cutoff) = (case mode m of
                                Semantic \<Rightarrow> semantic_cutoff x active m
                              | _ \<Rightarrow> (m, length active - recent_turns_to_keep))
           in if cutoff = 0 then Some m
              else let cutoff = safe_compaction_cutoff active cutoff
                   in if cutoff = 0 then Some m
                      else Some (spawn_compaction (mode_as_str (mode m)) cutoff active m)))"

text \<open>\<open>{:.1}\<close> of a percentage; a context below the manual threshold has a finite usage.\<close>

definition percent_tenths :: "float_val \<Rightarrow> string" where
  "percent_tenths usage =
     (case fmul f32_format usage (Num 100) of Num q \<Rightarrow> show_tenths q | NotNum \<Rightarrow> ''NaN'' | _ \<Rightarrow> ''inf'')"

definition force_compact_with ::
    "('j, 'e) externals \<Rightarrow> ('j, 't) message list \<Rightarrow> ('j, 't, 'e) manager \<Rightarrow>
     ('j, 't, 'e) manager \<times> (string + unit)" where
  "force_compact_with x all m =
     (if pending_task m \<noteq> None then (m, Inl ''Compaction already in progress'')
      else let active = active_messages m all; usage = context_usage_with (x_json x) all m
           in if length active \<le> recent_turns_to_keep
              then (m, Inl (''Not enough messages to compact (need more than '' @
                            show_nat recent_turns_to_keep @ '', have '' @
                            show_nat (length active) @ '')''))
              else if flt usage manual_compact_min_threshold
              then (m, Inl (''Context usage too low ('' @ percent_tenths usage @
                            ''%) - nothing to compact''))
              else let cutoff = length active - recent_turns_to_keep
                   in if cutoff = 0
                      then (m, Inl ''No messages available to compact after keeping recent turns'')
                      else let cutoff = safe_compaction_cutoff active cutoff
                           in if cutoff = 0
                              then (m, Inl ''Cannot compact - would split tool call/result pairs'')
                              else (spawn_compaction ''manual'' cutoff active m, Inr ()))"

section \<open>Applying a result\<close>

definition clear_pending :: "('j, 't, 'e) manager \<Rightarrow> ('j, 't, 'e) manager" where
  "clear_pending m = m\<lparr>pending_task := None, pending_cutoff := 0, pending_trigger := None\<rparr>"

text \<open>The branch of \<open>check_and_apply_compaction_with\<close> for a result; the task is already taken.\<close>

definition apply_result ::
    "('j, 'e) externals \<Rightarrow> compaction_result \<Rightarrow> ('j, 't) message list \<Rightarrow> ('j, 't, 'e) manager \<Rightarrow>
     ('j, 't, 'e) manager" where
  "apply_result x r all m =
     (let json = x_json x;
          trigger = the_default (mode_as_str (mode m)) (pending_trigger m);
          active = active_messages m all
      in if all \<noteq> [] \<and> length active - min_turns_to_keep < pending_cutoff m then clear_pending m
         else
           let pre_tokens = effective_token_count_with json all m;
               compacted_chars = sum_list (map (message_char_count json)
                                             (take (pending_cutoff m) active));
               summary = \<lparr>sum_text = cr_summary_text r,
                          sum_openai_encrypted_content = cr_openai_encrypted_content r,
                          sum_covers_up_to_turn = cr_covers_up_to_turn r,
                          sum_original_turn_count = pending_cutoff m\<rparr>;
               count = sat_add (compacted_count m) (pending_cutoff m);
               m1 = m\<lparr>compacted_count := if all \<noteq> [] then min count (length all) else count\<rparr>;
               m2 = m1\<lparr>active_chars := ce_set_exact
                         (active_message_chars_with json all m1 - compacted_chars)
                         (active_chars m1)\<rparr>;
               m3 = fst (discard_oversized_openai_native_compaction
                           (m2\<lparr>active_summary := Some summary\<rparr>));
               m4 = m3\<lparr>observed_input_tokens := None\<rparr>;
               post_tokens = effective_token_count_with json all m4;
               event = \<lparr>ev_trigger = trigger, ev_pre_tokens = Some pre_tokens,
                        ev_post_tokens = Some post_tokens,
                        ev_tokens_saved = Some (pre_tokens - post_tokens),
                        ev_duration_ms = Some (cr_duration_ms r), ev_messages_dropped = None,
                        ev_messages_compacted = Some (cr_summarized_messages r),
                        ev_summary_chars = map_option (\<lambda>s. length (sum_text s)) (active_summary m4),
                        ev_active_messages = Some (active_messages_count m4)\<rparr>
           in clear_pending (m4\<lparr>last_compaction := Some event, turns_since_last_compact := 0\<rparr>))"

definition check_and_apply_compaction_with ::
    "('j, 'e) externals \<Rightarrow> ('j, 't) message list \<Rightarrow> ('j, 't, 'e) manager \<Rightarrow> ('j, 't, 'e) manager" where
  "check_and_apply_compaction_with x all m0 =
     (let m = fst (clamp_compacted_count_to_messages all m0)
      in case pending_task m of
           None \<Rightarrow> m
         | Some (Running ms s) \<Rightarrow> m
         | Some (Finished (TaskOk r)) \<Rightarrow> apply_result x r all (m\<lparr>pending_task := None\<rparr>)
         | Some (Finished (TaskErr e)) \<Rightarrow> clear_pending m
         | Some (Finished TaskPanicked) \<Rightarrow> clear_pending m)"

definition check_and_apply_compaction ::
    "('j, 'e) externals \<Rightarrow> ('j, 't, 'e) manager \<Rightarrow> ('j, 't, 'e) manager" where
  "check_and_apply_compaction x m =
     (let m = check_and_apply_compaction_with x [] m
      in m\<lparr>active_chars := ce_invalidate (active_chars m)\<rparr>)"

definition take_compaction_event ::
    "('j, 't, 'e) manager \<Rightarrow> ('j, 't, 'e) manager \<times> compaction_event option" where
  "take_compaction_event m = (m\<lparr>last_compaction := None\<rparr>, last_compaction m)"

definition poll_compaction_event_with ::
    "('j, 'e) externals \<Rightarrow> ('j, 't) message list \<Rightarrow> ('j, 't, 'e) manager \<Rightarrow>
     ('j, 't, 'e) manager \<times> compaction_event option" where
  "poll_compaction_event_with x all m =
     take_compaction_event (check_and_apply_compaction_with x all m)"

section \<open>Messages for the provider\<close>

definition summary_message :: "summary \<Rightarrow> ('j, 't) message" where
  "summary_message s =
     \<lparr>msg_role = User,
      msg_content = [case sum_openai_encrypted_content s of
                       Some e \<Rightarrow> OpenAICompaction e
                     | None \<Rightarrow> Text (compacted_summary_text_block (sum_text s)) None],
      msg_timestamp = None, msg_tool_duration_ms = None\<rparr>"

definition messages_for_api_with ::
    "('j, 'e) externals \<Rightarrow> ('j, 't) message list \<Rightarrow> ('j, 't, 'e) manager \<Rightarrow>
     ('j, 't, 'e) manager \<times> ('j, 't) message list" where
  "messages_for_api_with x all m =
     (let m = check_and_apply_compaction_with x all m;
          m = fst (discard_oversized_openai_native_compaction m);
          active = active_messages m all
      in (m, case active_summary m of
               Some s \<Rightarrow> summary_message s # active
             | None \<Rightarrow> active))"

section \<open>Hard compaction\<close>

text \<open>\<open>remaining_suffix_chars\<close>: entry \<open>i\<close> is the saturating sum of the counts from \<open>i\<close> on.\<close>

fun suffix_chars :: "nat list \<Rightarrow> nat list" where
  "suffix_chars [] = [0]"
| "suffix_chars (c # cs) = (let rest = suffix_chars cs in sat_add (hd rest) c # rest)"

text \<open>The loop that keeps fewer and fewer turns.\<close>

function hard_cutoff ::
    "nat \<Rightarrow> ('j, 't) message list \<Rightarrow> nat list \<Rightarrow> nat \<Rightarrow> nat" where
  "hard_cutoff budget active remaining turns_to_keep =
     (let cutoff = safe_compaction_cutoff active (length active - turns_to_keep)
      in if 0 < cutoff \<and> remaining ! cutoff div chars_per_token \<le> budget then cutoff
         else if turns_to_keep \<le> min_turns_to_keep
         then safe_compaction_cutoff active (length active - min_turns_to_keep)
         else hard_cutoff budget active remaining (max (turns_to_keep div 2) min_turns_to_keep))"
  by pat_completeness auto
termination
  by (relation "measure (\<lambda>(budget, active, remaining, turns_to_keep). turns_to_keep)")
    (auto simp: min_turns_to_keep_def)

declare hard_cutoff.simps [simp del]

definition em_dash :: string where "em_dash = [CHR 0xE2, CHR 0x80, CHR 0x94]"

definition hard_compact_with ::
    "('j, 'e) externals \<Rightarrow> ('j, 't) message list \<Rightarrow> ('j, 't, 'e) manager \<Rightarrow>
     ('j, 't, 'e) manager \<times> (string + nat)" where
  "hard_compact_with x all m0 =
     (let json = x_json x;
          m = fst (clamp_compacted_count_to_messages all m0);
          active = active_messages m all
      in if length active \<le> min_turns_to_keep
         then (m, Inl (''Not enough messages to compact (have '' @ show_nat (length active) @
                       '', need more than '' @ show_nat min_turns_to_keep @ '')''))
         else
           let pre_tokens = effective_token_count_with json all m;
               remaining = suffix_chars (map (message_char_count json) active);
               cutoff = hard_cutoff (token_budget m) active remaining
                          (min recent_turns_to_keep (length active - 1))
           in if cutoff = 0
              then (m, Inl (''Cannot compact '' @ em_dash @ '' would split tool call/result pairs''))
              else
                let m1 = (if pending_task m \<noteq> None then clear_pending m else m);
                    text = build_emergency_summary_text (x_alnum x)
                             (map_option sum_text (active_summary m1)) cutoff pre_tokens
                             (token_budget m1) (take cutoff active);
                    m2 = m1\<lparr>compacted_count := min (sat_add (compacted_count m1) cutoff) (length all),
                            active_chars := ce_set_exact (remaining ! cutoff) (active_chars m1),
                            active_summary := Some \<lparr>sum_text = text,
                              sum_openai_encrypted_content = None,
                              sum_covers_up_to_turn = cutoff, sum_original_turn_count = cutoff\<rparr>,
                            observed_input_tokens := None\<rparr>;
                    post_tokens = effective_token_count_with json all m2;
                    event = \<lparr>ev_trigger = ''hard_compact'', ev_pre_tokens = Some pre_tokens,
                             ev_post_tokens = Some post_tokens,
                             ev_tokens_saved = Some (pre_tokens - post_tokens),
                             ev_duration_ms = Some 0, ev_messages_dropped = Some cutoff,
                             ev_messages_compacted = Some cutoff,
                             ev_summary_chars =
                               map_option (\<lambda>s. length (sum_text s)) (active_summary m2),
                             ev_active_messages = Some (active_messages_count m2)\<rparr>
                in (m2\<lparr>last_compaction := Some event\<rparr>, Inr cutoff))"

section \<open>Fitting the context\<close>

text \<open>\<open>wait_for_pending_compaction_at_hard_threshold\<close>. The clock decides how many polls the wait has;
  each entry is what the runtime does during one pause. The result says whether the task ended.\<close>

fun wait_for_pending ::
    "('j, 'e) externals \<Rightarrow> ('j, 't) message list \<Rightarrow> task_outcome option list \<Rightarrow>
     ('j, 't, 'e) manager \<Rightarrow> ('j, 't, 'e) manager \<times> bool" where
  "wait_for_pending x all [] m =
     (if task_finished m then (check_and_apply_compaction_with x all m, True) else (m, False))"
| "wait_for_pending x all (p # ps) m =
     (if task_finished m then (check_and_apply_compaction_with x all m, True)
      else wait_for_pending x all ps (case p of None \<Rightarrow> m | Some outcome \<Rightarrow> deliver outcome m))"

text \<open>The soft path at the end of \<open>ensure_context_fits\<close>.\<close>

definition start_in_background ::
    "('j, 'e) externals \<Rightarrow> ('j, 't) message list \<Rightarrow> ('j, 't, 'e) manager \<Rightarrow>
     (('j, 't, 'e) manager \<times> compaction_action) option" where
  "start_in_background x all m =
     (case maybe_start_compaction_with x all m of
        None \<Rightarrow> None
      | Some m' \<Rightarrow>
          Some (m', if \<not> is_compacting m \<and> is_compacting m'
                    then BackgroundStarted
                           (the_default (mode_as_str (mode m')) (pending_trigger m'))
                    else ActionNone))"

definition ensure_context_fits ::
    "('j, 'e) externals \<Rightarrow> task_outcome option list \<Rightarrow> ('j, 't) message list \<Rightarrow>
     ('j, 't, 'e) manager \<Rightarrow> (('j, 't, 'e) manager \<times> compaction_action) option" where
  "ensure_context_fits x polls all m =
     (let json = x_json x;
          usage = context_usage_with json all
      in if fle critical_threshold (usage m)
         then
           let m1 = (if pending_task m \<noteq> None then fst (wait_for_pending x all polls m) else m)
           in if pending_task m \<noteq> None \<and> flt (usage m1) critical_threshold
              then start_in_background x all m1
              else case hard_compact_with x all m1 of
                     (m2, Inr dropped) \<Rightarrow> Some (m2, HardCompacted dropped)
                   | (m2, Inl reason) \<Rightarrow> start_in_background x all m2
         else start_in_background x all m)"

section \<open>Emergency recovery\<close>

definition emergency_truncate_with ::
    "('j, 't) message list \<Rightarrow> ('j, 't, 'e) manager \<Rightarrow>
     ('j, 't, 'e) manager \<times> ('j, 't) message list \<times> nat" where
  "emergency_truncate_with all m =
     (let start = min (compacted_count m) (length all);
          (active, truncated) = emergency_truncate_large_payloads (drop start all)
             emergency_tool_result_max_chars emergency_image_max_chars
      in (if 0 < truncated
          then m\<lparr>observed_input_tokens := None, active_chars := ce_invalidate (active_chars m)\<rparr>
          else m,
          take start all @ active, truncated))"

record emergency_recovery =
  er_pre_usage :: float_val
  er_dropped :: "nat option"
  er_truncated :: nat

definition recover_within_budget ::
    "('j, 'e) externals \<Rightarrow> ('j, 't) message list \<Rightarrow> ('j, 't, 'e) manager \<Rightarrow>
     ('j, 't, 'e) manager \<times> ('j, 't) message list \<times> emergency_recovery" where
  "recover_within_budget x all m =
     (let json = x_json x;
          pre_usage = context_usage_with json all m;
          (m1, result) = hard_compact_with x all m;
          dropped = (case result of Inr n \<Rightarrow> Some n | Inl _ \<Rightarrow> None);
          still_over = (flt (Num 1) (context_usage_with json all m1) \<or> dropped = None);
          (m2, all', truncated) = (if still_over then emergency_truncate_with all m1 else (m1, all, 0))
      in (m2, all', \<lparr>er_pre_usage = pre_usage, er_dropped = dropped, er_truncated = truncated\<rparr>))"

definition did_anything :: "emergency_recovery \<Rightarrow> bool" where
  "did_anything r \<longleftrightarrow> 0 < the_default 0 (er_dropped r) \<or> 0 < er_truncated r"

definition percent_whole :: "float_val \<Rightarrow> string" where
  "percent_whole usage =
     (case fmul f32_format usage (Num 100) of
        Num q \<Rightarrow> show_nat (nat (round_half_even q)) | NotNum \<Rightarrow> ''NaN'' | _ \<Rightarrow> ''inf'')"

definition high_voltage :: string where "high_voltage = [CHR 0xE2, CHR 0x9A, CHR 0xA1]"

definition recovery_summary_line :: "float_val \<Rightarrow> emergency_recovery \<Rightarrow> string" where
  "recovery_summary_line trigger_usage r =
     (let pct = percent_whole trigger_usage
      in case er_dropped r of
           Some dropped \<Rightarrow>
             high_voltage @ '' Emergency compaction: dropped '' @ show_nat dropped @
             '' old messages'' @
             (if er_truncated r = 0 then []
              else '' and truncated '' @ show_nat (er_truncated r) @ '' tool result(s)'') @
             '' (context was at '' @ pct @ ''%).''
         | None \<Rightarrow>
             high_voltage @ '' Emergency truncation: shortened '' @ show_nat (er_truncated r) @
             '' large tool result(s) to fit context.'')"

section \<open>Transfer\<close>

definition build_transfer_compaction_state ::
    "('j \<Rightarrow> string) \<Rightarrow> ('j, 't) provider \<Rightarrow> nat \<Rightarrow> ('j, 't) message list \<Rightarrow>
     stored_compaction_state option \<Rightarrow> string + stored_compaction_state option" where
  "build_transfer_compaction_state json pv elapsed messages existing =
     (if messages = [] then Inr (map_option (\<lambda>st. st\<lparr>scs_compacted_count := 0\<rparr>) existing)
      else let existing_summary = map_option (\<lambda>st. \<lparr>sum_text = scs_summary_text st,
                 sum_openai_encrypted_content = scs_openai_encrypted_content st,
                 sum_covers_up_to_turn = scs_covers_up_to_turn st,
                 sum_original_turn_count = scs_original_turn_count st\<rparr>) existing;
               prior_turns = (case existing of None \<Rightarrow> 0
                 | Some st \<Rightarrow> max (scs_original_turn_count st) (scs_covers_up_to_turn st))
           in case generate_compaction_artifact json pv elapsed messages existing_summary of
                Inl e \<Rightarrow> Inl e
              | Inr r \<Rightarrow>
                  Inr (Some \<lparr>scs_summary_text = cr_summary_text r,
                    scs_openai_encrypted_content = cr_openai_encrypted_content r,
                    scs_covers_up_to_turn = prior_turns + length messages,
                    scs_original_turn_count = prior_turns + length messages,
                    scs_compacted_count = 0\<rparr>))"

end
