(* ===== verification/Compaction_Facts.thy ===== *)
theory Compaction_Facts
  imports Compaction_Emergency
begin

text \<open>
  Facts about the pure part of compaction: cutting at character boundaries, the safe cut-off against
  its specification, image stripping against a reference, size errors and usage thresholds.
\<close>

section \<open>Character boundaries\<close>

lemma boundary_down_le: "boundary_down s e \<le> e"
  by (induction s e rule: boundary_down.induct) auto

lemma boundary_down_boundary: "is_char_boundary s (boundary_down s e)"
  by (induction s e rule: boundary_down.induct) (auto simp: is_char_boundary_def)

lemma boundary_up_bounds: "i \<le> length s \<Longrightarrow> i \<le> boundary_up s i \<and> boundary_up s i \<le> length s"
proof (induction s i rule: boundary_up.induct)
  case (1 s i)
  then show ?case by (subst (1 2) boundary_up.simps) (auto simp: is_char_boundary_def)
qed

lemma boundary_up_boundary: "i \<le> length s \<Longrightarrow> is_char_boundary s (boundary_up s i)"
proof (induction s i rule: boundary_up.induct)
  case (1 s i)
  then show ?case by (subst boundary_up.simps) (auto simp: is_char_boundary_def)
qed

lemma truncate_str_boundary_prefix: "prefix (truncate_str_boundary s n) s"
  by (simp add: truncate_str_boundary_def take_is_prefix)

lemma truncate_str_boundary_length: "length (truncate_str_boundary s n) \<le> n"
  using boundary_down_le [of s n] by (auto simp: truncate_str_boundary_def min_def)

lemma tail_str_boundary_suffix: "suffix (tail_str_boundary s n) s"
  by (simp add: tail_str_boundary_def suffix_drop)

lemma tail_str_boundary_length: "length (tail_str_boundary s n) \<le> n"
  using boundary_up_bounds [of "length s - n" s] by (auto simp: tail_str_boundary_def)

text \<open>Well-formed UTF-8 as far as lead and continuation bytes go.\<close>

function is_utf8 :: "string \<Rightarrow> bool" where
  "is_utf8 [] = True"
| "is_utf8 (c # cs) =
     (let k = len_utf8 c - 1
      in \<not> is_cont c \<and> k \<le> length cs \<and> list_all is_cont (take k cs) \<and> is_utf8 (drop k cs))"
  by pat_completeness auto
termination by (relation "measure length") auto

lemma is_utf8_lead: "is_utf8 s \<Longrightarrow> s \<noteq> [] \<Longrightarrow> \<not> is_cont (hd s)"
  by (cases s) (auto simp: Let_def)

lemma is_utf8_take_drop:
  assumes "is_utf8 s" and "is_char_boundary s i"
  shows "is_utf8 (take i s) \<and> is_utf8 (drop i s)"
  using assms
proof (induction s arbitrary: i rule: is_utf8.induct)
  case (2 c cs)
  define k where "k = len_utf8 c - 1"
  have c: "\<not> is_cont c" "k \<le> length cs" "list_all is_cont (take k cs)" "is_utf8 (drop k cs)"
    using "2.prems" by (simp_all add: k_def Let_def)
  show ?case
  proof (cases "i = 0")
    case False
    then obtain j where i: "i = Suc j" by (cases i) auto
    show ?thesis
    proof (cases "j < k")
      case True
      then have "j < length cs" and "is_cont (cs ! j)"
        using c by (auto simp: list_all_length)
      then show ?thesis using "2.prems" i True by (auto simp: is_char_boundary_def)
    next
      case False
      then have "is_char_boundary (drop k cs) (j - k)"
        using "2.prems"(2) i c(2) by (auto simp: is_char_boundary_def)
      then have "is_utf8 (take (j - k) (drop k cs)) \<and> is_utf8 (drop (j - k) (drop k cs))"
        using "2.IH" [of k "j - k"] c by (simp add: k_def)
      moreover have "len_utf8 c - Suc 0 = k" by (simp add: k_def)
      ultimately show ?thesis using False c i by (simp add: Let_def drop_take)
    qed
  qed (use "2.prems" in simp)
qed simp

lemma truncate_str_boundary_utf8: "is_utf8 s \<Longrightarrow> is_utf8 (truncate_str_boundary s n)"
  by (simp add: truncate_str_boundary_def is_utf8_take_drop boundary_down_boundary)

lemma tail_str_boundary_utf8: "is_utf8 s \<Longrightarrow> is_utf8 (tail_str_boundary s n)"
  by (simp add: tail_str_boundary_def is_utf8_take_drop boundary_up_boundary)

lemma is_utf8_append: "is_utf8 s \<Longrightarrow> is_utf8 t \<Longrightarrow> is_utf8 (s @ t)"
  by (induction s rule: is_utf8.induct) (auto simp: Let_def)

text \<open>No truncation cuts inside a character, and a cut keeps as much as the bound allows: the next
  boundary lies beyond it.\<close>

lemma boundary_down_greatest: "is_char_boundary s k \<Longrightarrow> k \<le> e \<Longrightarrow> k \<le> boundary_down s e"
  by (induction s e rule: boundary_down.induct) (auto simp: le_Suc_eq)

section \<open>The safe cut-off\<close>

fun called :: "'j content_block \<Rightarrow> string set" where
  "called (ToolUse i name input th) = {i}"
| "called b = {}"

fun answered :: "'j content_block \<Rightarrow> string set" where
  "answered (ToolResult i content e) = {i}"
| "answered b = {}"

definition calls :: "('j, 't) message list \<Rightarrow> string set" where
  "calls ms = (\<Union>m \<in> set ms. \<Union>b \<in> set (msg_content m). called b)"

definition tool_answers :: "('j, 't) message list \<Rightarrow> string set" where
  "tool_answers ms = (\<Union>m \<in> set ms. \<Union>b \<in> set (msg_content m). answered b)"

lemma calls_simps [simp]:
  "calls [] = {}" "calls (m # ms) = (\<Union>b \<in> set (msg_content m). called b) \<union> calls ms"
  "calls (ms @ ns) = calls ms \<union> calls ns"
  by (auto simp: calls_def)

lemma answers_simps [simp]:
  "tool_answers [] = {}" "tool_answers (m # ms) = (\<Union>b \<in> set (msg_content m). answered b) \<union> tool_answers ms"
  "tool_answers (ms @ ns) = tool_answers ms \<union> tool_answers ns"
  by (auto simp: tool_answers_def)

text \<open>Every tool result has its call in the same messages.\<close>

definition paired :: "('j, 't) message list \<Rightarrow> bool" where
  "paired ms \<longleftrightarrow> tool_answers ms \<subseteq> calls ms"

lemma paired_Nil [simp]: "paired []"
  by (simp add: paired_def)

lemma scan_block_state:
  "A \<inter> M = {} \<Longrightarrow>
   scan_block b (A, M) = (A \<union> called b, (M \<union> answered b) - (A \<union> called b))"
  by (cases b) auto

lemma scan_blocks:
  "A \<inter> M = {} \<Longrightarrow>
   fold scan_block bs (A, M) =
     (A \<union> (\<Union>b \<in> set bs. called b),
      (M \<union> (\<Union>b \<in> set bs. answered b)) - (A \<union> (\<Union>b \<in> set bs. called b)))"
proof (induction bs arbitrary: A M)
  case (Cons b bs)
  have "(A \<union> called b) \<inter> ((M \<union> answered b) - (A \<union> called b)) = {}" by blast
  from Cons.IH [OF this] Cons.prems show ?case by (auto simp: scan_block_state)
qed auto

lemma scan_message_state:
  "A \<inter> M = {} \<Longrightarrow>
   scan_message m (A, M) = (A \<union> calls [m], (M \<union> tool_answers [m]) - (A \<union> calls [m]))"
  by (simp add: scan_message_def scan_blocks)

lemma scan_messages:
  "A \<inter> M = {} \<Longrightarrow>
   fold scan_message ms (A, M) = (A \<union> calls ms, (M \<union> tool_answers ms) - (A \<union> calls ms))"
proof (induction ms arbitrary: A M)
  case (Cons m ms)
  have "(A \<union> calls [m]) \<inter> ((M \<union> tool_answers [m]) - (A \<union> calls [m])) = {}" by blast
  from Cons.IH [OF this] Cons.prems show ?case
    by (auto simp: scan_message_state)
qed auto

definition scan_state :: "('j, 't) message list \<Rightarrow> tool_scan" where
  "scan_state ms = (calls ms, tool_answers ms - calls ms)"

lemma scan_state_Cons: "scan_message m (scan_state ms) = scan_state (m # ms)"
  unfolding scan_state_def by (subst scan_message_state) auto

lemma scan_state_empty: "snd (scan_state ms) = {} \<longleftrightarrow> paired ms"
  by (auto simp: scan_state_def paired_def)

definition safe_cuts :: "('j, 't) message list \<Rightarrow> nat \<Rightarrow> nat set" where
  "safe_cuts ms n = insert 0 {k. k \<le> min n (length ms) \<and> paired (drop k ms)}"

lemma safe_cuts_finite [simp]: "finite (safe_cuts ms n)"
  by (simp add: safe_cuts_def)

lemma safe_cuts_0 [simp]: "safe_cuts ms 0 = {0}"
  by (auto simp: safe_cuts_def)

lemma Max_safe_cuts_step:
  assumes "n \<le> length ms"
  shows "Max (safe_cuts ms n) =
    (if paired (drop n ms) then n else case n of 0 \<Rightarrow> 0 | Suc k \<Rightarrow> Max (safe_cuts ms k))"
proof (cases "paired (drop n ms)")
  case True
  then have "n \<in> safe_cuts ms n" using assms by (simp add: safe_cuts_def)
  then show ?thesis using True assms by (intro trans [OF Max_eqI [of _ n]]) (auto simp: safe_cuts_def)
next
  case False
  show ?thesis
  proof (cases n)
    case (Suc k)
    then have "safe_cuts ms n = safe_cuts ms k"
      using False assms by (auto simp: safe_cuts_def le_Suc_eq)
    then show ?thesis using False Suc by simp
  qed (use False in simp)
qed

lemma walk_back_Max:
  assumes "n \<le> length ms" and "\<not> paired (drop n ms)"
  shows "walk_back ms n (scan_state (drop n ms)) = Max (safe_cuts ms n)"
  using assms
proof (induction n)
  case (Suc n)
  then have step: "scan_message (ms ! n) (scan_state (drop (Suc n) ms)) = scan_state (drop n ms)"
    by (simp add: scan_state_Cons Cons_nth_drop_Suc)
  show ?case
    using Suc by (simp add: step scan_state_empty Max_safe_cuts_step [of "Suc n"]
        Max_safe_cuts_step [of n ms])
qed (simp add: Max_safe_cuts_step)

lemma safe_cuts_min: "safe_cuts ms n = safe_cuts ms (min n (length ms))"
  by (simp add: safe_cuts_def)

lemma safe_cutoff_is_Max: "safe_compaction_cutoff ms n = Max (safe_cuts ms n)"
proof -
  define c where "c = min n (length ms)"
  have c: "c \<le> length ms" by (simp add: c_def)
  have scan: "fold scan_message (drop c ms) ({}, {}) = scan_state (drop c ms)"
    by (simp add: scan_messages scan_state_def)
  have "safe_compaction_cutoff ms n =
      (if paired (drop c ms) then c else walk_back ms c (scan_state (drop c ms)))"
    unfolding safe_compaction_cutoff_def Let_def c_def [symmetric] scan scan_state_empty ..
  also have "\<dots> = Max (safe_cuts ms c)"
    using walk_back_Max [OF c] Max_safe_cuts_step [OF c] by simp
  finally show ?thesis by (simp only: safe_cuts_min [of ms n] c_def)
qed

lemma safe_cutoff_le: "safe_compaction_cutoff ms n \<le> min n (length ms)"
  unfolding safe_cutoff_is_Max by (rule Max.boundedI) (auto simp: safe_cuts_def)

lemma safe_cutoff_paired:
  assumes "0 < safe_compaction_cutoff ms n"
  shows "paired (drop (safe_compaction_cutoff ms n) ms)"
proof -
  have "safe_compaction_cutoff ms n \<in> safe_cuts ms n"
    unfolding safe_cutoff_is_Max by (rule Max_in) (auto simp: safe_cuts_def)
  then show ?thesis using assms by (auto simp: safe_cuts_def)
qed

lemma safe_cutoff_greatest:
  "k \<le> n \<Longrightarrow> k \<le> length ms \<Longrightarrow> paired (drop k ms) \<Longrightarrow> k \<le> safe_compaction_cutoff ms n"
  unfolding safe_cutoff_is_Max by (rule Max_ge) (auto simp: safe_cuts_def)

end
