(* ===== verification/Emergency_Facts.thy ===== *)
theory Emergency_Facts
  imports Compaction_Facts
begin

text \<open>
  Facts about emergency recovery: stripping images is the shortest run of "replace the oldest image"
  that fits, truncation keeps the shape of the transcript and is done in one pass, and the status-code
  test finds exactly the free-standing occurrences.
\<close>

section \<open>Stripping images\<close>

text \<open>The reference: replace the oldest image.\<close>

fun strip_block_first :: "'j content_block list \<Rightarrow> 'j content_block list option" where
  "strip_block_first [] = None"
| "strip_block_first (b # bs) =
     (case b of
        Image mt d \<Rightarrow> Some (Text (image_omitted_for_size mt (length d)) None # bs)
      | _ \<Rightarrow> map_option ((#) b) (strip_block_first bs))"

fun strip_oldest :: "'j content_block list list \<Rightarrow> 'j content_block list list option" where
  "strip_oldest [] = None"
| "strip_oldest (c # cs) =
     (case strip_block_first c of
        Some c' \<Rightarrow> Some (c' # cs)
      | None \<Rightarrow> map_option ((#) c) (strip_oldest cs))"

fun strip_first :: "nat \<Rightarrow> 'j content_block list list \<Rightarrow> 'j content_block list list" where
  "strip_first 0 cs = cs"
| "strip_first (Suc k) cs =
     (case strip_oldest cs of None \<Rightarrow> cs | Some cs' \<Rightarrow> strip_first k cs')"

fun image_len :: "'j content_block \<Rightarrow> nat" where
  "image_len (Image mt d) = length d"
| "image_len b = 0"

definition image_bytes :: "'j content_block list list \<Rightarrow> nat" where
  "image_bytes cs = sum_list (map image_len (concat cs))"

fun is_image :: "'j content_block \<Rightarrow> bool" where
  "is_image (Image mt d) = True"
| "is_image b = False"

definition image_count :: "'j content_block list list \<Rightarrow> nat" where
  "image_count cs = length (filter is_image (concat cs))"

text \<open>The fewest oldest images whose removal brings the rest within the target; all of them where
  no number does.\<close>

definition images_to_strip :: "nat \<Rightarrow> 'j content_block list list \<Rightarrow> nat" where
  "images_to_strip target cs =
     length (takeWhile (\<lambda>j. target < image_bytes (strip_first j cs)) [0..<image_count cs])"

text \<open>The index lists of the code, with arbitrary offsets for the inductions.\<close>

definition images_from :: "nat \<Rightarrow> nat \<Rightarrow> 'j content_block list \<Rightarrow> (nat \<times> nat \<times> nat) list" where
  "images_from ci n content =
     concat (map (\<lambda>(bi, b). case b of Image mt data \<Rightarrow> [(ci, bi, length data)] | _ \<Rightarrow> [])
       (enumerate n content))"

definition collect_from :: "nat \<Rightarrow> 'j content_block list list \<Rightarrow> (nat \<times> nat \<times> nat) list" where
  "collect_from m cs = concat (map (\<lambda>(ci, c). images_from ci 0 c) (enumerate m cs))"

lemma images_from_simps [simp]:
  "images_from ci n [] = []"
  "images_from ci n (b # bs) =
     (case b of Image mt data \<Rightarrow> [(ci, n, length data)] | _ \<Rightarrow> []) @ images_from ci (Suc n) bs"
  by (simp_all add: images_from_def)

lemma collect_from_simps [simp]:
  "collect_from m [] = []"
  "collect_from m (c # cs) = images_from m 0 c @ collect_from (Suc m) cs"
  by (simp_all add: collect_from_def)

lemma collect_images_from: "collect_images cs = collect_from 0 cs"
  by (simp add: collect_images_def collect_from_def images_of_def images_from_def)

definition first_image_at ::
    "nat \<Rightarrow> nat \<Rightarrow> 'j content_block list \<Rightarrow> 'j content_block list \<Rightarrow> nat \<Rightarrow> string \<Rightarrow> string \<Rightarrow> bool" where
  "first_image_at ci n c c' bi mt d \<longleftrightarrow>
     bi < length c \<and> c ! bi = Image mt d \<and>
     c' = c[bi := Text (image_omitted_for_size mt (length d)) None] \<and>
     images_from ci n c = (ci, n + bi, length d) # images_from ci n c' \<and>
     sum_list (map image_len c) = length d + sum_list (map image_len c') \<and>
     length (filter is_image c) = Suc (length (filter is_image c'))"

lemma strip_block_first_None:
  "strip_block_first c = None \<Longrightarrow>
   images_from ci n c = [] \<and> filter is_image c = [] \<and> sum_list (map image_len c) = 0"
  by (induction c arbitrary: n) (auto split: content_block.splits)

lemma strip_block_first_Some:
  "strip_block_first c = Some c' \<Longrightarrow> \<exists>bi mt d. first_image_at ci n c c' bi mt d"
proof (induction c arbitrary: c' n)
  case (Cons b bs)
  show ?case
  proof (cases "is_image b")
    case True
    then obtain mt d where b: "b = Image mt d" by (cases b) auto
    have "first_image_at ci n (b # bs) c' 0 mt d"
      using Cons.prems by (auto simp: b first_image_at_def)
    then show ?thesis by blast
  next
    case False
    then obtain bs' where bs': "strip_block_first bs = Some bs'" and c': "c' = b # bs'"
      using Cons.prems by (cases b) auto
    obtain bi mt d where "first_image_at ci (Suc n) bs bs' bi mt d"
      using Cons.IH [OF bs'] by blast
    then have "first_image_at ci n (b # bs) c' (Suc bi) mt d"
      using False c' by (cases b) (auto simp: first_image_at_def)
    then show ?thesis by blast
  qed
qed simp

definition oldest_image_at ::
    "nat \<Rightarrow> 'j content_block list list \<Rightarrow> 'j content_block list list \<Rightarrow> nat \<Rightarrow> nat \<Rightarrow> string \<Rightarrow> string \<Rightarrow>
     bool" where
  "oldest_image_at m cs cs' ci bi mt d \<longleftrightarrow>
     ci < length cs \<and> bi < length (cs ! ci) \<and> cs ! ci ! bi = Image mt d \<and>
     cs' = cs[ci := (cs ! ci)[bi := Text (image_omitted_for_size mt (length d)) None]] \<and>
     collect_from m cs = (m + ci, bi, length d) # collect_from m cs' \<and>
     image_bytes cs = length d + image_bytes cs' \<and>
     image_count cs = Suc (image_count cs')"

lemma strip_oldest_None:
  "strip_oldest cs = None \<Longrightarrow> collect_from m cs = [] \<and> image_count cs = 0 \<and> image_bytes cs = 0"
proof (induction cs arbitrary: m)
  case (Cons c cs)
  then show ?case
    using strip_block_first_None [of c m 0]
    by (auto simp: image_count_def image_bytes_def split: option.splits)
qed (simp add: image_count_def image_bytes_def)

lemma strip_oldest_Some:
  "strip_oldest cs = Some cs' \<Longrightarrow> \<exists>ci bi mt d. oldest_image_at m cs cs' ci bi mt d"
proof (induction cs arbitrary: cs' m)
  case (Cons c cs)
  show ?case
  proof (cases "strip_block_first c")
    case (Some c')
    then have cs': "cs' = c' # cs" using Cons.prems by simp
    obtain bi mt d where "first_image_at m 0 c c' bi mt d"
      using strip_block_first_Some [OF Some] by blast
    then have "oldest_image_at m (c # cs) cs' 0 bi mt d"
      by (simp add: cs' first_image_at_def oldest_image_at_def image_bytes_def image_count_def)
    then show ?thesis by blast
  next
    case None
    then obtain ds where ds: "strip_oldest cs = Some ds" and cs': "cs' = c # ds"
      using Cons.prems by auto
    obtain ci bi mt d where "oldest_image_at (Suc m) cs ds ci bi mt d"
      using Cons.IH [OF ds] by blast
    then have "oldest_image_at m (c # cs) cs' (Suc ci) bi mt d"
      using strip_block_first_None [OF None, of m 0]
      by (simp add: cs' oldest_image_at_def image_bytes_def image_count_def)
    then show ?thesis by blast
  qed
qed simp

lemma images_to_strip_step:
  assumes "strip_oldest cs = Some cs'" and "image_count cs = Suc (image_count cs')"
  shows "images_to_strip target cs =
    (if image_bytes cs \<le> target then 0 else Suc (images_to_strip target cs'))"
proof -
  have "[0..<image_count cs] = 0 # map Suc [0..<image_count cs']"
    using assms(2) by (simp add: map_Suc_upt upt_conv_Cons)
  then show ?thesis
    using assms(1) by (simp add: images_to_strip_def takeWhile_map o_def not_le)
qed

lemma strip_loop_reference:
  "strip_loop target (collect_from 0 cs) cs (image_bytes cs) s =
     (strip_first (images_to_strip target cs) cs, s + images_to_strip target cs)"
proof (induction "image_count cs" arbitrary: cs s)
  case 0
  then have "strip_oldest cs = None"
    using strip_oldest_Some [of cs _ 0] by (cases "strip_oldest cs") (auto simp: oldest_image_at_def)
  then show ?case using strip_oldest_None [of cs 0] by (simp add: images_to_strip_def)
next
  case (Suc n)
  then obtain cs' where cs': "strip_oldest cs = Some cs'"
    using strip_oldest_None [of cs 0] by (cases "strip_oldest cs") auto
  then obtain ci bi mt d where at: "oldest_image_at 0 cs cs' ci bi mt d"
    using strip_oldest_Some by blast
  then have n: "image_count cs = Suc (image_count cs')" and sz: "image_bytes cs = length d + image_bytes cs'"
    by (simp_all add: oldest_image_at_def)
  have "strip_loop target (collect_from 0 cs) cs (image_bytes cs) s =
      (if image_bytes cs \<le> target then (cs, s)
       else strip_loop target (collect_from 0 cs') cs' (image_bytes cs') (s + 1))"
    using at sz by (simp add: oldest_image_at_def)
  then show ?case
    using Suc.hyps(1) [of cs' "s + 1"] Suc.hyps(2) n images_to_strip_step [OF cs' n] cs' by simp
qed

lemma images_total_from:
  assumes "a + sum_list (map (snd \<circ> snd) images) \<le> usize_max"
  shows "fold (\<lambda>(ci, bi, len) t. sat_add t len) images a = a + sum_list (map (snd \<circ> snd) images)"
  using assms
proof (induction images arbitrary: a)
  case (Cons im ims)
  then show ?case by (cases im) (auto simp: sat_add_def min_def)
qed simp

lemma images_from_sum: "sum_list (map (snd \<circ> snd) (images_from ci n c)) = sum_list (map image_len c)"
  by (induction c arbitrary: n) (auto split: content_block.splits)

lemma collect_from_sum: "sum_list (map (snd \<circ> snd) (collect_from m cs)) = image_bytes cs"
  by (induction cs arbitrary: m) (simp_all add: images_from_sum image_bytes_def)

lemma images_total_bytes: "image_bytes cs \<le> usize_max \<Longrightarrow> images_total (collect_images cs) = image_bytes cs"
  using images_total_from [of 0 "collect_from 0 cs"]
  by (simp add: images_total_def collect_images_from collect_from_sum)

lemma images_to_strip_0: "image_bytes cs \<le> target \<Longrightarrow> images_to_strip target cs = 0"
  by (cases "image_count cs") (simp_all add: images_to_strip_def upt_conv_Cons del: upt_Suc)

lemma strip_large_images_reference:
  "image_bytes cs \<le> usize_max \<Longrightarrow>
   strip_large_images_in_contents cs target =
     (strip_first (images_to_strip target cs) cs, images_to_strip target cs)"
  unfolding strip_large_images_in_contents_def Let_def
  by (simp add: images_total_bytes images_to_strip_0 collect_images_from [symmetric]
      strip_loop_reference [of target cs 0, folded collect_images_from])

lemma strip_first_outcome:
  "image_bytes (strip_first (images_to_strip target cs) cs) \<le> target \<or>
   image_count (strip_first (images_to_strip target cs) cs) = 0"
proof (induction "image_count cs" arbitrary: cs)
  case 0
  then show ?case by (simp add: images_to_strip_def)
next
  case (Suc n)
  then obtain cs' where cs': "strip_oldest cs = Some cs'"
    using strip_oldest_None [of cs 0] by (cases "strip_oldest cs") auto
  then have c: "image_count cs = Suc (image_count cs')"
    using strip_oldest_Some [of cs cs' 0] by (auto simp: oldest_image_at_def)
  show ?case
    using Suc.hyps(1) [of cs'] Suc.hyps(2) c images_to_strip_step [OF cs' c] cs' by simp
qed

section \<open>Truncating large payloads\<close>

lemma show_nat_length: "n < 10 ^ Suc k \<Longrightarrow> length (show_nat n) \<le> Suc k"
proof (induction k arbitrary: n)
  case 0
  then show ?case by (subst show_nat.simps) simp
next
  case (Suc k)
  show ?case
  proof (cases "n < 10")
    case False
    have "n div 10 < 10 ^ Suc k" using Suc.prems by (simp add: less_mult_imp_div_less mult.commute)
    from Suc.IH [OF this] show ?thesis using False by (subst show_nat.simps) simp
  qed (subst show_nat.simps, simp)
qed

lemma show_usize_length: "n \<le> usize_max \<Longrightarrow> length (show_nat n) \<le> 20"
  using show_nat_length [of n 19] by (simp add: usize_max_def)

lemma truncated_tool_result_length:
  assumes "length content \<le> usize_max"
  shows "length (emergency_truncated_tool_result content n) \<le> n div 2 + n div 4 + 80"
proof -
  define k where "k = length (truncate_str_boundary content (n div 2)) +
    length (tail_str_boundary content (n div 4))"
  have "length (show_nat (length content - k)) \<le> 20"
    using assms by (intro show_usize_length) simp
  then show ?thesis
    using truncate_str_boundary_length [of content "n div 2"] tail_str_boundary_length [of content "n div 4"]
    by (simp add: emergency_truncated_tool_result_def Let_def k_def)
qed

lemma show_nat_utf8: "list_all (\<lambda>c. byte c < 128) (show_nat n)"
proof (induction n rule: show_nat.induct)
  case (1 n)
  have "byte (digit_char d) < 128" if "d < 10" for d
    using that by (simp add: byte_def digit_char_def)
  then show ?case using 1 by (subst show_nat.simps) simp
qed

lemma ascii_utf8: "list_all (\<lambda>c. byte c < 128) s \<Longrightarrow> is_utf8 s"
  by (induction s) (auto simp: len_utf8_def is_cont_def)

text \<open>The rewriting loops change texts only: roles, time stamps, the number of blocks and the tool
  ids stay.\<close>

definition same_ids :: "('j content_block \<Rightarrow> 'j content_block option) \<Rightarrow> bool" where
  "same_ids f \<longleftrightarrow> (\<forall>b b'. f b = Some b' \<longrightarrow> called b' = called b \<and> answered b' = answered b)"

lemma rewrite_blocks_ids:
  assumes "same_ids f"
  shows "calls (fst (rewrite_blocks f ms)) = calls ms \<and> tool_answers (fst (rewrite_blocks f ms)) = tool_answers ms"
proof -
  have "called (the_default b (f b)) = called b" "answered (the_default b (f b)) = answered b" for b
    using assms by (cases "f b"; simp add: same_ids_def)+
  then show ?thesis by (simp add: rewrite_blocks_def calls_def tool_answers_def)
qed

lemma truncate_payload_same_ids: "same_ids (truncate_payload_block a b)"
  unfolding same_ids_def
proof (intro allI impI)
  fix c c' assume "truncate_payload_block a b c = Some c'"
  then show "called c' = called c \<and> answered c' = answered c"
    by (cases c) (auto split: if_splits)
qed

lemma rewrite_blocks_length [simp]: "length (fst (rewrite_blocks f ms)) = length ms"
  by (simp add: rewrite_blocks_def)

lemma rewrite_blocks_0:
  "snd (rewrite_blocks f ms) = 0 \<longleftrightarrow> (\<forall>m \<in> set ms. \<forall>b \<in> set (msg_content m). f b = None)"
  by (auto simp: rewrite_blocks_def filter_empty_conv)

lemma rewrite_blocks_id: "snd (rewrite_blocks f ms) = 0 \<Longrightarrow> fst (rewrite_blocks f ms) = ms"
  unfolding rewrite_blocks_0 by (auto simp: rewrite_blocks_def map_idI intro!: map_idI)

text \<open>Every tool result is a string in memory.\<close>

definition results_in_memory :: "('j, 't) message list \<Rightarrow> bool" where
  "results_in_memory ms =
     list_all (\<lambda>m. list_all (\<lambda>b. case b of ToolResult i c e \<Rightarrow> length c \<le> usize_max | _ \<Rightarrow> True)
       (msg_content m)) ms"

lemma truncate_payload_stable:
  assumes "truncate_payload_block mr mi b = Some b'" and "320 \<le> mr"
    and "case b of ToolResult i c e \<Rightarrow> length c \<le> usize_max | _ \<Rightarrow> True"
  shows "truncate_payload_block mr mi b' = None"
proof (cases b)
  case (ToolResult i c e)
  then have "length (emergency_truncated_tool_result c mr) \<le> mr div 2 + mr div 4 + 80"
    using assms(3) by (intro truncated_tool_result_length) simp
  also have "\<dots> \<le> mr" using assms(2) by linarith
  finally show ?thesis using assms(1) ToolResult by (auto split: if_splits)
qed (use assms in \<open>auto split: if_splits\<close>)

lemma truncate_large_payloads_once:
  assumes "results_in_memory ms" and "320 \<le> mr"
  shows "snd (emergency_truncate_large_payloads (fst (emergency_truncate_large_payloads ms mr mi)) mr mi) = 0"
proof -
  have "truncate_payload_block mr mi (the_default b (truncate_payload_block mr mi b)) = None"
    if "m \<in> set ms" "b \<in> set (msg_content m)" for m b
    using that assms truncate_payload_stable [of mr mi b]
    by (cases "truncate_payload_block mr mi b") (auto simp: results_in_memory_def list_all_iff)
  then show ?thesis
    unfolding emergency_truncate_large_payloads_def rewrite_blocks_0
    by (auto simp: rewrite_blocks_def)
qed

section \<open>Status codes\<close>

lemma prefix_drop_split: "prefix p (drop k s) \<longleftrightarrow> (\<exists>v. s = take k s @ p @ v)"
  by (metis append_take_drop_id prefix_def same_append_eq)

lemma status_code_next:
  assumes "prefix ''413'' (drop k s)" and "prefix ''413'' (drop j s)" and "k < j"
  shows "k + 3 \<le> j"
proof (rule ccontr)
  assume "\<not> k + 3 \<le> j"
  then have "j = k + 1 \<or> j = k + 2" using assms(3) by auto
  moreover obtain v where v: "drop k s = ''413'' @ v" using assms(1) by (auto elim: prefixE)
  have at: "drop (i + k) s = drop i (''413'' @ v)" for i
    unfolding v [symmetric] by simp
  have "drop (k + 1) s = ''13'' @ v" "drop (k + 2) s = ''3'' @ v"
    using at [of 1] at [of 2] by (simp_all add: numeral_2_eq_2)
  ultimately show False using assms(2) by auto
qed

lemma match_indices_413:
  "set (match_indices s ''413'' start) = {k. start \<le> k \<and> prefix ''413'' (drop k s)}"
proof (induction s "''413''" start rule: match_indices.induct)
  case (1 s start)
  show ?case
  proof (cases "str_find (drop start s) ''413''")
    case None
    then have "\<not> prefix ''413'' (drop (start + j) s)" for j
      unfolding str_find_None by (cases "j \<le> length (drop start s)") (auto simp: add.commute)
    then have "{k. start \<le> k \<and> prefix ''413'' (drop k s)} = {}"
      by (auto simp: le_iff_add)
    then show ?thesis using None by (subst match_indices.simps) simp
  next
    case (Some j)
    have at: "prefix ''413'' (drop (start + j) s)"
      using str_find_Some_prefix [OF Some] by (simp add: add.commute)
    have least: "\<not> prefix ''413'' (drop (start + i) s)" if "i < j" for i
      using str_find_Some_least [OF Some that] by (simp add: add.commute)
    have "set (match_indices s ''413'' start) =
        insert (start + j) {k. start + j + 3 \<le> k \<and> prefix ''413'' (drop k s)}"
      using 1 [of j] Some by (subst match_indices.simps) (simp add: algebra_simps eval_nat_numeral)
    also have "\<dots> = {k. start \<le> k \<and> prefix ''413'' (drop k s)}"
    proof (intro equalityI subsetI)
      fix k assume k: "k \<in> {k. start \<le> k \<and> prefix ''413'' (drop k s)}"
      then obtain i where "k = start + i" by (auto simp: le_iff_add)
      then have "start + j \<le> k" using least [of i] k by (cases "i < j") auto
      then show "k \<in> insert (start + j) {k. start + j + 3 \<le> k \<and> prefix ''413'' (drop k s)}"
        using status_code_next [OF at, of k] k by (cases "k = start + j") auto
    qed (use at in auto)
    finally show ?thesis .
  qed
qed

lemma status_413:
  "contains_independent_status_code s ''413'' \<longleftrightarrow>
     (\<exists>u v. s = u @ ''413'' @ v \<and> (u = [] \<or> \<not> is_ascii_digit (last u)) \<and>
            (v = [] \<or> \<not> is_ascii_digit (hd v)))"
  (is "?code \<longleftrightarrow> ?split")
proof
  assume ?code
  then obtain k where k: "prefix ''413'' (drop k s)"
    and l: "k = 0 \<or> \<not> is_ascii_digit (s ! (k - 1))"
    and r: "k + 3 = length s \<or> \<not> is_ascii_digit (s ! (k + 3))"
    by (auto simp: contains_independent_status_code_def list_ex_iff match_indices_413
        add.commute eval_nat_numeral)
  from k obtain v where s: "s = take k s @ ''413'' @ v" unfolding prefix_drop_split by blast
  have "length (take k s) = k" using k by (metis add_diff_cancel_left' append.right_neutral
      drop_eq_Nil length_take list.distinct(1) min_def nle_le prefix_Nil)
  then obtain u where u: "s = u @ ''413'' @ v" "length u = k" using s by metis
  have "u = [] \<or> \<not> is_ascii_digit (last u)"
    using l u by (cases u rule: rev_cases) (auto simp: nth_append)
  moreover have "v = [] \<or> \<not> is_ascii_digit (hd v)"
    using r u by (cases v) (auto simp: nth_append)
  ultimately show ?split using u by blast
next
  assume ?split
  then obtain u v where s: "s = u @ ''413'' @ v" and u: "u = [] \<or> \<not> is_ascii_digit (last u)"
    and v: "v = [] \<or> \<not> is_ascii_digit (hd v)" by blast
  have "length u \<in> set (match_indices s ''413'' 0)" by (simp add: match_indices_413 s)
  moreover have "length u = 0 \<or> \<not> is_ascii_digit (s ! (length u - 1))"
    using u by (cases u rule: rev_cases) (auto simp: s nth_append)
  moreover have "length u + 3 = length s \<or> \<not> is_ascii_digit (s ! (length u + 3))"
    using v by (cases v) (auto simp: s nth_append)
  ultimately show ?code
    by (auto simp: contains_independent_status_code_def list_ex_iff eval_nat_numeral)
qed

end
