(* ===== verification/Usage_Facts.thy ===== *)
theory Usage_Facts
  imports Compaction_State
begin

text \<open>
  What the 32-bit comparisons of the compaction thresholds mean in tokens. Rounding is monotone, so a
  threshold of the usage fraction is a threshold of the token count.
\<close>

abbreviation r32 :: "rat \<Rightarrow> rat" where
  "r32 \<equiv> round_abs f32_format"

lemma r32_mono: "0 \<le> x \<Longrightarrow> x \<le> y \<Longrightarrow> r32 x \<le> r32 y"
  by (rule round_abs_mono) (simp_all add: f32_format_def)

lemma r32_nat: "n < 2 ^ 24 \<Longrightarrow> r32 (of_nat n) = of_nat n"
  by (rule round_abs_nat) (simp_all add: f32_format_def)

lemma fround32_nonneg:
  "0 \<le> q \<Longrightarrow> fround f32_format q = (if 2 ^ 128 \<le> r32 q then PosInf else Num (r32 q))"
  by (simp add: fround_def Let_def f32_format_def)

text \<open>A budget below \<open>2^24\<close> is exact in 32 bits.\<close>

lemma usage_of_eq:
  assumes "0 < budget" and "budget < 2 ^ 24"
  shows "usage_of t budget =
    (if 2 ^ 128 \<le> r32 (of_nat t) then PosInf
     else fround f32_format (r32 (of_nat t) / of_nat budget))"
proof -
  have "\<not> (2 ^ 128 :: rat) \<le> of_nat budget"
    using assms(2) by (simp add: not_le of_nat_less_numeral_iff)
  then have "as_f32 budget = Num (of_nat budget)"
    using assms by (simp add: fround32_nonneg r32_nat)
  then show ?thesis using assms(1) by (simp add: usage_of_def fround32_nonneg)
qed

lemma usage_threshold:
  assumes b: "0 < budget" "budget < 2 ^ 24" and n: "0 < n" "n < 2 ^ 24"
    and c: "c = of_nat n / of_nat budget" and small: "r32 c < 2 ^ 128"
    and below: "r32 ((of_nat n - 1) / of_nat budget) < r32 c"
  shows "fle (fround f32_format c) (usage_of t budget) \<longleftrightarrow> n \<le> t"
proof -
  define q where "q = r32 (of_nat t) / of_nat budget"
  have q: "0 \<le> q" by (simp add: q_def round_abs_nonneg)
  have c0: "0 \<le> c" by (simp add: c)
  have cmp: "fle (fround f32_format c) (usage_of t budget) \<longleftrightarrow>
      2 ^ 128 \<le> r32 (of_nat t) \<or> 2 ^ 128 \<le> r32 q \<or> r32 c \<le> r32 q"
    unfolding usage_of_eq [OF b] q_def [symmetric] using small
    by (auto simp: fround32_nonneg [OF q] fround32_nonneg [OF c0] fle_def)
  show ?thesis
  proof (cases "n \<le> t")
    case True
    then have "of_nat n \<le> r32 (of_nat t)"
      using r32_mono [of "of_nat n" "of_nat t"] r32_nat [OF n(2)] by simp
    then have "c \<le> q" by (simp add: c q_def divide_right_mono)
    then show ?thesis using cmp True r32_mono [OF c0] by blast
  next
    case False
    then have t: "t \<le> n - 1" "t < 2 ^ 24" using n by auto
    then have rt: "r32 (of_nat t) = of_nat t" by (intro r32_nat)
    have "(of_nat t :: rat) \<le> of_nat n - 1" using t n by (simp add: of_nat_diff [symmetric])
    then have "r32 q \<le> r32 ((of_nat n - 1) / of_nat budget)"
      using q by (intro r32_mono) (simp_all add: q_def rt divide_right_mono)
    then have "r32 q < r32 c" using below by simp
    moreover have "\<not> (2 ^ 128 :: rat) \<le> of_nat t"
      using t by (simp add: not_le of_nat_less_numeral_iff)
    ultimately show ?thesis using cmp False small rt by auto
  qed
qed

lemma r32_eqI:
  assumes "pow2 k \<le> q" and "q < pow2 (k + 1)" and "- 126 \<le> k"
    and "of_int r - 1 / 2 < q / pow2 (k - 23)" and "q / pow2 (k - 23) < of_int r + 1 / 2"
  shows "r32 q = of_int r * pow2 (k - 23)"
proof -
  have "0 < q" using assms(1) pow2_pos [of k] by linarith
  then show ?thesis
    using round_abs_at [of q k "k - 23" f32_format] assms round_half_even_eqI [OF assms(4,5)]
    by (simp add: f32_format_def)
qed

lemma default_budget_soft:
  "fle compaction_threshold (usage_of t 200000) \<longleftrightarrow> 160000 \<le> t"
proof -
  have "r32 (80 / 100) = of_int 13421773 * pow2 (- 1 - 23)" "r32 (159999 / 200000) = of_int 13421689 * pow2 (- 1 - 23)"
    by (rule r32_eqI; simp add: pow2_def)+
  then show ?thesis
    unfolding compaction_threshold_def by (intro usage_threshold) (simp_all add: pow2_def)
qed

lemma default_budget_critical:
  "fle critical_threshold (usage_of t 200000) \<longleftrightarrow> 190000 \<le> t"
proof -
  have "r32 (95 / 100) = of_int 15938355 * pow2 (- 1 - 23)" "r32 (189999 / 200000) = of_int 15938271 * pow2 (- 1 - 23)"
    by (rule r32_eqI; simp add: pow2_def)+
  then show ?thesis
    unfolding critical_threshold_def by (intro usage_threshold) (simp_all add: pow2_def)
qed

lemma default_budget_manual:
  "fle manual_compact_min_threshold (usage_of t 200000) \<longleftrightarrow> 20000 \<le> t"
proof -
  have "r32 (10 / 100) = of_int 13421773 * pow2 (- 4 - 23)" "r32 (19999 / 200000) = of_int 13421102 * pow2 (- 4 - 23)"
    by (rule r32_eqI; simp add: pow2_def)+
  then show ?thesis
    unfolding manual_compact_min_threshold_def by (intro usage_threshold) (simp_all add: pow2_def)
qed

end
