(* ===== verification/Manager_Facts.thy ===== *)
theory Manager_Facts
  imports Compaction_Manager Emergency_Facts Usage_Facts
begin

text \<open>
  The compaction manager as a state machine over a growing conversation. \<open>manager_ok\<close> is its
  structural invariant: what is sent to the provider is a proper suffix with its tool calls, earlier
  messages are behind a summary, and a pending compaction will leave a healthy tail. \<open>books_exact\<close>
  says that the cached character count is the count of the active messages, and that a running task
  summarizes exactly the messages its cut-off will remove.
\<close>

definition chars :: "('j \<Rightarrow> string) \<Rightarrow> ('j, 't) message list \<Rightarrow> nat" where
  "chars json ms = sum_list (map (message_char_count json) ms)"

lemma chars_simps [simp]:
  "chars json [] = 0" "chars json (m # ms) = message_char_count json m + chars json ms"
  "chars json (ms @ ns) = chars json ms + chars json ns"
  by (simp_all add: chars_def)

lemma chars_drop_take: "chars json (take n ms) + chars json (drop n ms) = chars json ms"
  by (metis append_take_drop_id chars_simps(3))

lemma chars_drop_le: "chars json (drop n ms) \<le> chars json ms"
  using chars_drop_take [of json n ms] by linarith

section \<open>Frames\<close>

text \<open>What the invariants read.\<close>

definition view ::
    "('j, 't, 'e) manager \<Rightarrow> nat \<times> nat \<times> char_estimate \<times> ('j, 't) task option \<times> nat \<times> bool" where
  "view m = (total_turns m, compacted_count m, active_chars m, pending_task m, pending_cutoff m,
             active_summary m = None)"

lemma view_updates [simp]:
  "view (m\<lparr>embed_cache := a\<rparr>) = view m" "view (m\<lparr>embed_cache_counter := b\<rparr>) = view m"
  "view (m\<lparr>embedding_history := c\<rparr>) = view m" "view (m\<lparr>token_history := d\<rparr>) = view m"
  "view (m\<lparr>turns_since_last_compact := n\<rparr>) = view m" "view (m\<lparr>last_compaction := l\<rparr>) = view m"
  "view (m\<lparr>observed_input_tokens := v\<rparr>) = view m" "view (m\<lparr>token_budget := n\<rparr>) = view m"
  "view (m\<lparr>mode := md\<rparr>) = view m" "view (m\<lparr>config := cf\<rparr>) = view m"
  "view (m\<lparr>pending_trigger := tr\<rparr>) = view m"
  by (simp_all add: view_def)

lemma view_cached [simp]: "view (fst (cached_semantic_embedding x t m)) = view m"
  by (simp add: cached_semantic_embedding_def insert_semantic_embedding_cache_def Let_def
      split: option.splits prod.splits)

lemma view_relevance_loop [simp]:
  "view (fst (relevance_loop x g th i msgs h e m)) = view m"
proof (induction msgs arbitrary: i h e m)
  case (Cons msg msgs)
  obtain m' r where c: "cached_semantic_embedding x (semantic_message_text msg) m = (m', r)"
    by fastforce
  then have "view m' = view m" using view_cached [of x "semantic_message_text msg" m] by simp
  then show ?case using Cons c by (cases r) (simp_all add: Let_def)
qed simp

lemma relevance_loop_earliest: "snd (snd (relevance_loop x g th i msgs h e m)) \<le> e"
proof (induction msgs arbitrary: i h e m)
  case (Cons msg msgs)
  obtain m' r where c: "cached_semantic_embedding x (semantic_message_text msg) m = (m', r)"
    by fastforce
  show ?case
    using Cons [of "i + 1" h e] Cons [of "i + 1" "h + 1" "min e i" m'] c
    by (cases r) (auto simp: Let_def)
qed simp

lemma semantic_cutoff_frame:
  assumes "semantic_cutoff x active m = (m', c)"
  shows "view m' = view m \<and> c \<le> length active - recent_turns_to_keep"
proof -
  define goal where "goal = semantic_goal_text
    (drop (length active - min (cfg_goal_window_turns (config m)) (length active)) active)"
  define std where "std = length active - recent_turns_to_keep"
  obtain m1 r where c: "cached_semantic_embedding x goal m = (m1, r)" by fastforce
  then have v1: "view m1 = view m" using view_cached [of x goal m] by simp
  show ?thesis
  proof (cases "std = 0 \<or> goal = [] \<or> r = None")
    case True
    then show ?thesis using assms c v1
      unfolding semantic_cutoff_def goal_def [symmetric] std_def [symmetric] Let_def
      by (auto split: if_splits)
  next
    case False
    then obtain g where r: "r = Some g" by blast
    obtain m2 h e where l: "relevance_loop x g (cfg_relevance_keep_threshold (config m)) 0
        (take std active) 0 std m1 = (m2, h, e)" by (metis prod_cases3)
    have "view m2 = view m"
      using view_relevance_loop [of x g "cfg_relevance_keep_threshold (config m)" 0
          "take std active" 0 std m1] v1 by (simp add: l)
    moreover have "e \<le> std"
      using relevance_loop_earliest [of x g "cfg_relevance_keep_threshold (config m)" 0
          "take std active" 0 std m1] by (simp add: l)
    ultimately show ?thesis using assms False c r l
      unfolding semantic_cutoff_def goal_def [symmetric] std_def [symmetric] Let_def
      by (auto split: if_splits)
  qed
qed

lemma view_discard [simp]: "view (fst (discard_oversized_openai_native_compaction m)) = view m"
  by (simp add: discard_oversized_openai_native_compaction_def view_def split: option.splits)

lemma active_messages_view: "view m = view m' \<Longrightarrow> active_messages m all = active_messages m' all"
  by (simp add: view_def active_messages_def)

section \<open>The structural invariant\<close>

definition manager_ok :: "('j, 't) message list \<Rightarrow> ('j, 't, 'e) manager \<Rightarrow> bool" where
  "manager_ok all m \<longleftrightarrow>
     total_turns m = length all \<and> compacted_count m \<le> length all \<and>
     paired (drop (compacted_count m) all) \<and>
     (0 < compacted_count m \<longrightarrow>
        active_summary m \<noteq> None \<and> min_turns_to_keep \<le> length (drop (compacted_count m) all)) \<and>
     (pending_task m \<noteq> None \<longrightarrow>
        0 < pending_cutoff m \<and>
        compacted_count m + pending_cutoff m + recent_turns_to_keep \<le> length all \<and>
        paired (drop (compacted_count m + pending_cutoff m) all))"

definition books_exact :: "('j \<Rightarrow> string) \<Rightarrow> ('j, 't) message list \<Rightarrow> ('j, 't, 'e) manager \<Rightarrow> bool" where
  "books_exact json all m \<longleftrightarrow>
     \<not> ce_dirty (active_chars m) \<and>
     ce_chars (active_chars m) = chars json (drop (compacted_count m) all) \<and>
     (\<forall>ms s. pending_task m = Some (Running ms s) \<longrightarrow>
        ms = take (pending_cutoff m) (drop (compacted_count m) all))"

lemma manager_ok_view: "view m = view m' \<Longrightarrow> manager_ok all m = manager_ok all m'"
  by (simp add: view_def manager_ok_def)

lemma books_exact_view: "view m = view m' \<Longrightarrow> books_exact json all m = books_exact json all m'"
  by (simp add: view_def books_exact_def)

lemma active_ok: "manager_ok all m \<Longrightarrow> active_messages m all = drop (compacted_count m) all"
  by (simp add: manager_ok_def active_messages_def min_absorb1)

lemma clamp_ok [simp]:
  "compacted_count m \<le> length all \<Longrightarrow> clamp_compacted_count_to_messages all m = (m, False)"
  by (simp add: clamp_compacted_count_to_messages_def)

lemma count_ok: "manager_ok all m \<Longrightarrow> compacted_count m \<le> length all"
  by (simp add: manager_ok_def)

text \<open>The estimate the code computes is the real count.\<close>

lemma active_chars_true:
  assumes "manager_ok all m" and "ce_dirty (active_chars m) \<or> books_exact json all m"
  shows "active_message_chars_with json all m = chars json (drop (compacted_count m) all)"
  using assms active_ok [OF assms(1)]
  by (auto simp: active_message_chars_with_def books_exact_def chars_def)

section \<open>Hard compaction\<close>

lemma suffix_chars_length [simp]: "length (suffix_chars cs) = Suc (length cs)"
  by (induction cs) (simp_all add: Let_def)

lemma suffix_chars_nth:
  "i \<le> length cs \<Longrightarrow> suffix_chars cs ! i = min (sum_list (drop i cs)) usize_max"
proof (induction cs arbitrary: i)
  case (Cons c cs)
  have "hd (suffix_chars cs) = min (sum_list cs) usize_max"
    using Cons.IH [of 0] suffix_chars_length [of cs] by (cases "suffix_chars cs") auto
  then show ?case using Cons.IH [of "i - 1"] Cons.prems
    by (cases i) (auto simp: Let_def sat_add_def min_def)
qed simp

lemma hard_cutoff_spec:
  "min_turns_to_keep \<le> t \<Longrightarrow>
   (\<exists>k \<le> length active - min_turns_to_keep.
      hard_cutoff budget active remaining t = safe_compaction_cutoff active k) \<and>
   ((0 < hard_cutoff budget active remaining t \<and>
     remaining ! hard_cutoff budget active remaining t div chars_per_token \<le> budget) \<or>
    hard_cutoff budget active remaining t =
      safe_compaction_cutoff active (length active - min_turns_to_keep))"
proof (induction budget active remaining t rule: hard_cutoff.induct)
  case (1 budget active remaining t)
  define k where "k = safe_compaction_cutoff active (length active - t)"
  consider (fits) "0 < k \<and> remaining ! k div chars_per_token \<le> budget" |
    (last) "\<not> (0 < k \<and> remaining ! k div chars_per_token \<le> budget)" "t \<le> min_turns_to_keep" |
    (fewer) "\<not> (0 < k \<and> remaining ! k div chars_per_token \<le> budget)" "\<not> t \<le> min_turns_to_keep"
    by blast
  then show ?case
  proof cases
    case fits
    then have "hard_cutoff budget active remaining t = k"
      by (subst hard_cutoff.simps) (simp add: Let_def k_def [symmetric])
    then show ?thesis using fits "1.prems" by (auto simp: k_def intro!: exI [of _ "length active - t"])
  next
    case last
    then have "hard_cutoff budget active remaining t =
        safe_compaction_cutoff active (length active - min_turns_to_keep)"
      by (subst hard_cutoff.simps) (auto simp: Let_def k_def [symmetric])
    then show ?thesis by auto
  next
    case fewer
    then have "hard_cutoff budget active remaining t =
        hard_cutoff budget active remaining (max (t div 2) min_turns_to_keep)"
      by (subst hard_cutoff.simps) (auto simp: Let_def k_def [symmetric])
    then show ?thesis using "1.IH" [OF k_def] fewer by simp
  qed
qed

text \<open>A successful hard compaction drops \<open>d\<close> messages; the rest is paired, counted exactly, and at
  least two messages long.\<close>

definition hard_outcome ::
    "('j \<Rightarrow> string) \<Rightarrow> ('j, 't) message list \<Rightarrow> ('j, 't, 'e) manager \<Rightarrow> ('j, 't, 'e) manager \<Rightarrow> nat \<Rightarrow> bool" where
  "hard_outcome json all m m' d \<longleftrightarrow>
     0 < d \<and> compacted_count m' = compacted_count m + d \<and>
     compacted_count m + d + min_turns_to_keep \<le> length all \<and>
     paired (drop (compacted_count m + d) all) \<and>
     total_turns m' = total_turns m \<and> pending_task m' = None \<and> active_summary m' \<noteq> None \<and>
     token_budget m' = token_budget m \<and> observed_input_tokens m' = None \<and>
     \<not> ce_dirty (active_chars m') \<and>
     ce_chars (active_chars m') = min (chars json (drop (compacted_count m + d) all)) usize_max \<and>
     (chars json (drop (compacted_count m + d) all) div chars_per_token \<le> token_budget m \<or>
      usize_max < chars json (drop (compacted_count m + d) all) \<or>
      d = safe_compaction_cutoff (drop (compacted_count m) all)
            (length (drop (compacted_count m) all) - min_turns_to_keep))"

lemma hard_compact_Inl:
  "manager_ok all m \<Longrightarrow> hard_compact_with x all m = (m', Inl e) \<Longrightarrow> m' = m"
  by (auto simp: hard_compact_with_def Let_def count_ok split: if_splits)

lemma hard_compact_Inr:
  assumes ok: "manager_ok all m" and h: "hard_compact_with x all m = (m', Inr d)"
    and len: "length all \<le> usize_max"
  shows "hard_outcome (x_json x) all m m' d"
proof -
  define active where "active = drop (compacted_count m) all"
  define cs where "cs = map (message_char_count (x_json x)) active"
  define t where "t = min recent_turns_to_keep (length active - 1)"
  define c where "c = hard_cutoff (token_budget m) active (suffix_chars cs) t"
  have am: "active_messages m all = active" using active_ok [OF ok] by (simp add: active_def)
  note h' = h [unfolded hard_compact_with_def Let_def clamp_ok [OF count_ok [OF ok]] fst_conv am,
      folded cs_def, folded t_def, folded c_def]
  have big: "min_turns_to_keep < length active" and c0: "0 < c" and d: "d = c"
    using h' by (simp_all split: if_splits)
  have t: "min_turns_to_keep \<le> t"
    using big by (simp add: t_def min_turns_to_keep_def recent_turns_to_keep_def)
  obtain k where k: "k \<le> length active - min_turns_to_keep" "c = safe_compaction_cutoff active k"
    using hard_cutoff_spec [OF t, of active "token_budget m" "suffix_chars cs"] by (auto simp: c_def)
  have cle: "c \<le> length active - min_turns_to_keep"
    using k safe_cutoff_le [of active k] by simp
  have cp: "paired (drop c active)" using k c0 safe_cutoff_paired [of active k] by simp
  have cc: "compacted_count m + c + min_turns_to_keep \<le> length all"
    using cle big count_ok [OF ok] by (simp add: active_def)
  have rem: "suffix_chars cs ! c = min (chars (x_json x) (drop c active)) usize_max"
    using cle big by (simp add: suffix_chars_nth cs_def chars_def drop_map)
  have fits: "suffix_chars cs ! c div chars_per_token \<le> token_budget m \<or>
      c = safe_compaction_cutoff active (length active - min_turns_to_keep)"
    using hard_cutoff_spec [OF t, of active "token_budget m" "suffix_chars cs"] by (auto simp: c_def)
  have sat: "min (sat_add (compacted_count m) c) (length all) = compacted_count m + c"
    using cc len by (simp add: sat_add_def)
  have m': "compacted_count m' = compacted_count m + c \<and> total_turns m' = total_turns m \<and>
      pending_task m' = None \<and> active_summary m' \<noteq> None \<and> token_budget m' = token_budget m \<and>
      observed_input_tokens m' = None \<and>
      active_chars m' = ce_set_exact (suffix_chars cs ! c) (active_chars m)"
    using h' big c0 sat by (auto simp: clear_pending_def split: if_splits)
  show ?thesis
    using m' d c0 cc cp rem fits
    by (auto simp: hard_outcome_def ce_set_exact_def active_def min_def add.commute split: if_splits)
qed

lemma hard_outcome_ok:
  assumes "manager_ok all m" and "hard_outcome json all m m' d"
  shows "manager_ok all m'"
  using assms by (auto simp: manager_ok_def hard_outcome_def)

lemma hard_outcome_exact:
  assumes "hard_outcome json all m m' d" and "chars json all \<le> usize_max"
  shows "books_exact json all m'"
  using assms chars_drop_le [of json "compacted_count m + d" all]
  by (auto simp: books_exact_def hard_outcome_def)

section \<open>Background compaction\<close>

lemma deliver_ok: "manager_ok all m \<Longrightarrow> manager_ok all (deliver outcome m)"
  by (auto simp: deliver_def manager_ok_def split: option.splits task.splits)

lemma deliver_exact: "books_exact json all m \<Longrightarrow> books_exact json all (deliver outcome m)"
  by (auto simp: deliver_def books_exact_def split: option.splits task.splits)

lemma spawn_ok:
  assumes "manager_ok all m" and "0 < c" and "c = safe_compaction_cutoff (active_messages m all) k"
    and "k \<le> length (active_messages m all) - recent_turns_to_keep"
  shows "manager_ok all (spawn_compaction tr c (active_messages m all) m)"
proof -
  have le: "c \<le> length (drop (compacted_count m) all) - recent_turns_to_keep"
    and p: "paired (drop c (drop (compacted_count m) all))"
    using assms safe_cutoff_le [of "active_messages m all" k]
      safe_cutoff_paired [of "active_messages m all" k] by (simp_all add: active_ok)
  then show ?thesis
    using assms(1,2) active_ok [OF assms(1)] by (auto simp: manager_ok_def spawn_compaction_def add.commute)
qed

lemma spawn_exact:
  "manager_ok all m \<Longrightarrow> books_exact json all m \<Longrightarrow>
   books_exact json all (spawn_compaction tr c (active_messages m all) m)"
  by (simp add: books_exact_def spawn_compaction_def active_ok)

lemma maybe_start_cases:
  assumes "maybe_start_compaction_with x all m = Some m'"
  obtains (same) "view m' = view m"
  | (spawned) m1 k tr where "view m1 = view m" "k \<le> length (active_messages m all) - recent_turns_to_keep"
      "0 < safe_compaction_cutoff (active_messages m all) k"
      "m' = spawn_compaction tr (safe_compaction_cutoff (active_messages m all) k) (active_messages m all) m1"
proof -
  obtain m1 k where mk: "(case mode m of Semantic \<Rightarrow> semantic_cutoff x (active_messages m all) m
      | _ \<Rightarrow> (m, length (active_messages m all) - recent_turns_to_keep)) = (m1, k)" by fastforce
  have v: "view m1 = view m \<and> k \<le> length (active_messages m all) - recent_turns_to_keep"
    using mk semantic_cutoff_frame [of x "active_messages m all" m m1 k] by (cases "mode m") auto
  show thesis
  proof (cases "should_compact_with x all m = Some True")
    case False
    then have "m' = m" using assms
      by (auto simp: maybe_start_compaction_with_def split: option.splits bool.splits)
    then show thesis using same by simp
  next
    case True
    define c where "c = safe_compaction_cutoff (active_messages m all) k"
    have "maybe_start_compaction_with x all m =
        (if k = 0 then Some m1 else if c = 0 then Some m1
         else Some (spawn_compaction (mode_as_str (mode m1)) c (active_messages m all) m1))"
      using True mk by (simp add: maybe_start_compaction_with_def Let_def c_def)
    then have "m' = m1 \<or>
        0 < c \<and> m' = spawn_compaction (mode_as_str (mode m1)) c (active_messages m all) m1"
      using assms by (auto split: if_splits)
    then show thesis using same spawned [of m1 k] v by (auto simp: c_def)
  qed
qed

lemma maybe_start_ok:
  assumes "manager_ok all m" and "maybe_start_compaction_with x all m = Some m'"
  shows "manager_ok all m'"
  using assms(2)
proof (cases rule: maybe_start_cases)
  case same
  then show ?thesis using assms(1) manager_ok_view by blast
next
  case (spawned m1 k tr)
  then have "active_messages m1 all = active_messages m all" by (intro active_messages_view)
  then show ?thesis
    using spawned assms(1) manager_ok_view [OF spawned(1)] spawn_ok [of all m1 _ k tr] by metis
qed

lemma maybe_start_exact:
  assumes ok: "manager_ok all m" and "books_exact json all m" and "maybe_start_compaction_with x all m = Some m'"
  shows "books_exact json all m'"
  using assms(3)
proof (cases rule: maybe_start_cases)
  case same
  then show ?thesis using assms(2) books_exact_view by blast
next
  case (spawned m1 k tr)
  then have "active_messages m1 all = active_messages m all" by (intro active_messages_view)
  then show ?thesis
    using assms(1,2) spawned spawn_exact [of all m1] books_exact_view [OF spawned(1)]
      manager_ok_view [OF spawned(1)] by metis
qed

lemma force_compact_cases:
  assumes "force_compact_with x all m = (m', r)"
  obtains (same) "m' = m"
  | (spawned) k where "k \<le> length (active_messages m all) - recent_turns_to_keep"
      "0 < safe_compaction_cutoff (active_messages m all) k"
      "m' = spawn_compaction ''manual'' (safe_compaction_cutoff (active_messages m all) k)
              (active_messages m all) m"
proof -
  define act c where "act = active_messages m all"
    and "c = safe_compaction_cutoff act (length act - recent_turns_to_keep)"
  have "m' = m \<or> 0 < c \<and> m' = spawn_compaction ''manual'' c act m"
    using assms unfolding force_compact_with_def Let_def act_def [symmetric] c_def [symmetric]
    by (simp split: if_split_asm)
  then show thesis using same spawned by (auto simp: c_def act_def)
qed

lemma clear_pending_ok: "manager_ok all m \<Longrightarrow> manager_ok all (clear_pending m)"
  by (auto simp: manager_ok_def clear_pending_def)

lemma clear_pending_exact: "books_exact json all m \<Longrightarrow> books_exact json all (clear_pending m)"
  by (auto simp: books_exact_def clear_pending_def)

text \<open>Applying a result in a well-formed state: the messages before the pending cut-off go behind the
  summary, the rest stays. The new estimate subtracts the compacted part from what the estimate
  function answers for the state after the count has moved.\<close>

lemma apply_result_fields:
  assumes cc: "compacted_count m + pending_cutoff m + min_turns_to_keep \<le> length all"
    and len: "length all \<le> usize_max"
    and m'_def: "m' = apply_result x r all m"
  defines "m1 \<equiv> m\<lparr>compacted_count := compacted_count m + pending_cutoff m\<rparr>"
  shows "compacted_count m' = compacted_count m + pending_cutoff m \<and> total_turns m' = total_turns m \<and>
    pending_task m' = None \<and> pending_cutoff m' = 0 \<and> active_summary m' \<noteq> None \<and>
    observed_input_tokens m' = None \<and> last_compaction m' \<noteq> None \<and>
    active_chars m' = ce_set_exact
      (active_message_chars_with (x_json x) all m1 -
       chars (x_json x) (take (pending_cutoff m) (drop (compacted_count m) all))) (active_chars m)"
proof -
  have am: "active_messages m all = drop (compacted_count m) all"
    using cc by (simp add: active_messages_def min_absorb1)
  have tail: "\<not> length (drop (compacted_count m) all) - min_turns_to_keep < pending_cutoff m"
    using cc by simp
  have sat: "(if all \<noteq> [] then min (sat_add (compacted_count m) (pending_cutoff m)) (length all)
      else sat_add (compacted_count m) (pending_cutoff m)) = compacted_count m + pending_cutoff m"
    using cc len by (auto simp: sat_add_def)
  note d = discard_oversized_openai_native_compaction_def discarded_summary_def
  show ?thesis
    unfolding m'_def apply_result_def Let_def am sat m1_def [symmetric]
    using tail by (simp add: clear_pending_def d chars_def m1_def Let_def split: option.splits)
qed

lemma pending_tail:
  assumes "manager_ok all m" and "pending_task m = Some t"
  shows "0 < pending_cutoff m \<and>
    compacted_count m + pending_cutoff m + recent_turns_to_keep \<le> length all \<and>
    paired (drop (compacted_count m + pending_cutoff m) all)"
  using assms by (auto simp: manager_ok_def)

lemma apply_result_ok:
  assumes "manager_ok all m" and p: "pending_task m = Some t" and len: "length all \<le> usize_max"
    and m': "m' = apply_result x r all (m\<lparr>pending_task := None\<rparr>)"
  shows "manager_ok all m'"
proof -
  let ?m = "m\<lparr>pending_task := None\<rparr>"
  have tail: "compacted_count m + pending_cutoff m + recent_turns_to_keep \<le> length all"
    and pr: "paired (drop (compacted_count m + pending_cutoff m) all)"
    using pending_tail [OF assms(1) p] by auto
  then have "compacted_count ?m + pending_cutoff ?m + min_turns_to_keep \<le> length all"
    by (simp add: recent_turns_to_keep_def min_turns_to_keep_def)
  moreover have "2 \<le> length all - (compacted_count m + pending_cutoff m)"
    using tail by (simp add: recent_turns_to_keep_def)
  ultimately show ?thesis
    using apply_result_fields [OF _ len m'] assms(1) tail pr
    by (simp add: manager_ok_def recent_turns_to_keep_def min_turns_to_keep_def)
qed

lemma apply_result_exact:
  assumes "manager_ok all m" and p: "pending_task m = Some t" and len: "length all \<le> usize_max"
    and m': "m' = apply_result x r all (m\<lparr>pending_task := None\<rparr>)"
    and ex: "books_exact (x_json x) all m"
  shows "books_exact (x_json x) all m'"
proof -
  let ?m = "m\<lparr>pending_task := None\<rparr>" and ?json = "x_json x"
  define c where "c = compacted_count m + pending_cutoff m"
  have tail: "c + recent_turns_to_keep \<le> length all"
    using pending_tail [OF assms(1) p] by (simp add: c_def)
  then have "compacted_count ?m + pending_cutoff ?m + min_turns_to_keep \<le> length all"
    by (simp add: recent_turns_to_keep_def min_turns_to_keep_def c_def)
  note f = apply_result_fields [OF this len m']
  have "active_message_chars_with ?json all (?m\<lparr>compacted_count := c\<rparr>) =
      chars ?json (drop (compacted_count m) all)"
    using ex assms(1) tail by (simp add: active_message_chars_with_def books_exact_def
        active_messages_count_def active_messages_def manager_ok_def)
  then have "ce_chars (active_chars m') = chars ?json (drop (compacted_count m) all) -
      chars ?json (take (pending_cutoff m) (drop (compacted_count m) all))"
    using f by (simp add: ce_set_exact_def c_def)
  also have "\<dots> = chars ?json (drop c all)"
    using chars_drop_take [of ?json "pending_cutoff m" "drop (compacted_count m) all"]
    by (simp add: c_def add.commute)
  finally show ?thesis using f by (simp add: books_exact_def ce_set_exact_def c_def)
qed

lemma check_and_apply_cases:
  assumes "manager_ok all m"
  obtains (same) "check_and_apply_compaction_with x all m = m"
  | (cleared) t where "pending_task m = Some t" "check_and_apply_compaction_with x all m = clear_pending m"
  | (applied) r where "pending_task m = Some (Finished (TaskOk r))"
      "check_and_apply_compaction_with x all m = apply_result x r all (m\<lparr>pending_task := None\<rparr>)"
proof (cases "pending_task m")
  case None
  then show thesis using same count_ok [OF assms] by (simp add: check_and_apply_compaction_with_def)
next
  case (Some t)
  note * = Some count_ok [OF assms] check_and_apply_compaction_with_def
  show thesis
  proof (cases t)
    case (Running ms s)
    then show thesis using same by (simp add: *)
  next
    case (Finished outcome)
    then show thesis using cleared applied by (cases outcome) (simp_all add: *)
  qed
qed

lemma check_and_apply_ok:
  assumes "manager_ok all m" and len: "length all \<le> usize_max"
  shows "manager_ok all (check_and_apply_compaction_with x all m)"
  using assms(1)
proof (cases rule: check_and_apply_cases [of all m x])
  case (applied r)
  then show ?thesis using apply_result_ok [OF assms(1) applied(1) len] by simp
qed (use assms clear_pending_ok in auto)

lemma check_and_apply_exact:
  assumes "manager_ok all m" and len: "length all \<le> usize_max" and "books_exact (x_json x) all m"
  shows "books_exact (x_json x) all (check_and_apply_compaction_with x all m)"
  using assms(1)
proof (cases rule: check_and_apply_cases [of all m x])
  case (applied r)
  then show ?thesis using apply_result_exact [OF assms(1) applied(1) len _ assms(3)] by simp
qed (use assms clear_pending_exact in auto)

lemma wait_for_pending_ok:
  assumes "manager_ok all m" and "length all \<le> usize_max"
  shows "manager_ok all (fst (wait_for_pending x all polls m))"
  using assms
proof (induction polls arbitrary: m)
  case (Cons p ps)
  then show ?case by (auto simp: check_and_apply_ok deliver_ok split: option.split)
qed (simp add: check_and_apply_ok)

lemma wait_for_pending_exact:
  assumes "manager_ok all m" and "length all \<le> usize_max" and "books_exact (x_json x) all m"
  shows "books_exact (x_json x) all (fst (wait_for_pending x all polls m))"
  using assms
proof (induction polls arbitrary: m)
  case (Cons p ps)
  then show ?case by (auto simp: check_and_apply_exact deliver_ok deliver_exact split: option.split)
qed (simp add: check_and_apply_exact)

lemma start_in_background_Some:
  "start_in_background x all m = Some (m', act) \<Longrightarrow> maybe_start_compaction_with x all m = Some m'"
  by (auto simp: start_in_background_def split: option.splits)

text \<open>Every call of \<open>ensure_context_fits\<close> is a wait, a hard compaction or a start, in this order.\<close>

lemma ensure_cases:
  assumes "ensure_context_fits x polls all m = Some (m', act)"
  obtains (soft) m1 where "m1 = m \<or> m1 = fst (wait_for_pending x all polls m)"
      "maybe_start_compaction_with x all m1 = Some m'"
  | (hard) m1 d where "m1 = m \<or> m1 = fst (wait_for_pending x all polls m)"
      "hard_compact_with x all m1 = (m', Inr d)" "act = HardCompacted d"
  | (refused) m1 m2 e where "m1 = m \<or> m1 = fst (wait_for_pending x all polls m)"
      "hard_compact_with x all m1 = (m2, Inl e)" "maybe_start_compaction_with x all m2 = Some m'"
proof -
  define m1 where "m1 = (if pending_task m \<noteq> None then fst (wait_for_pending x all polls m) else m)"
  have m1: "m1 = m \<or> m1 = fst (wait_for_pending x all polls m)" by (simp add: m1_def)
  obtain m2 r where h: "hard_compact_with x all m1 = (m2, r)" by fastforce
  have "start_in_background x all m = Some (m', act) \<or> start_in_background x all m1 = Some (m', act) \<or>
      (case r of Inr d \<Rightarrow> Some (m2, HardCompacted d) | Inl e \<Rightarrow> start_in_background x all m2) = Some (m', act)"
    using assms unfolding ensure_context_fits_def Let_def m1_def [symmetric] h prod.case
    by (simp split: if_split_asm)
  then consider "start_in_background x all m = Some (m', act)" | "start_in_background x all m1 = Some (m', act)"
    | d where "r = Inr d" "m2 = m'" "act = HardCompacted d"
    | e where "r = Inl e" "start_in_background x all m2 = Some (m', act)"
    by (cases r) auto
  then show thesis
  proof cases
    case 1
    then show thesis using soft [OF disjI1] start_in_background_Some by blast
  next
    case 2
    then show thesis using soft [OF m1] start_in_background_Some by blast
  next
    case (3 d)
    then show thesis using hard [OF m1] h by simp
  next
    case (4 e)
    then show thesis using refused [OF m1] h start_in_background_Some by blast
  qed
qed

lemma ensure_ok:
  assumes ok: "manager_ok all m" and len: "length all \<le> usize_max"
    and e: "ensure_context_fits x polls all m = Some (m', act)"
  shows "manager_ok all m'"
proof -
  have w: "m1 = m \<or> m1 = fst (wait_for_pending x all polls m) \<Longrightarrow> manager_ok all m1" for m1
    using ok wait_for_pending_ok [OF ok len] by auto
  from e show ?thesis
  proof (cases rule: ensure_cases)
    case (soft m1)
    then show ?thesis using w maybe_start_ok by blast
  next
    case (hard m1 d)
    then show ?thesis using w hard_compact_Inr [OF _ hard(2) len] hard_outcome_ok by blast
  next
    case (refused m1 m2 e)
    then show ?thesis using w hard_compact_Inl maybe_start_ok by metis
  qed
qed

lemma ensure_exact:
  assumes ok: "manager_ok all m" and len: "length all \<le> usize_max"
    and ex: "books_exact (x_json x) all m" and mem: "chars (x_json x) all \<le> usize_max"
    and e: "ensure_context_fits x polls all m = Some (m', act)"
  shows "books_exact (x_json x) all m'"
proof -
  have w: "m1 = m \<or> m1 = fst (wait_for_pending x all polls m) \<Longrightarrow>
      manager_ok all m1 \<and> books_exact (x_json x) all m1" for m1
    using ok ex wait_for_pending_ok [OF ok len] wait_for_pending_exact [OF ok len ex] by auto
  from e show ?thesis
  proof (cases rule: ensure_cases)
    case (soft m1)
    then show ?thesis using w maybe_start_exact by blast
  next
    case (hard m1 d)
    then show ?thesis using w hard_compact_Inr [OF _ hard(2) len] hard_outcome_exact mem by blast
  next
    case (refused m1 m2 e)
    then show ?thesis using w hard_compact_Inl maybe_start_exact by metis
  qed
qed

section \<open>Adding, restoring, truncating\<close>

lemma notify_ok:
  assumes "manager_ok all m"
    and new: "tool_answers [msg] \<subseteq> calls (drop (compacted_count m + pending_cutoff m) (all @ [msg]))"
    and m': "view m' = (Suc (total_turns m), compacted_count m, ce, pending_task m, pending_cutoff m,
               active_summary m = None)"
  shows "manager_ok (all @ [msg]) m'"
proof -
  have le: "compacted_count m \<le> length all" using count_ok [OF assms(1)] .
  have grow: "paired (drop k all) \<Longrightarrow> k \<le> compacted_count m + pending_cutoff m \<Longrightarrow>
      k \<le> length all \<Longrightarrow> paired (drop k (all @ [msg]))" for k
  proof -
    assume p: "paired (drop k all)" and k: "k \<le> compacted_count m + pending_cutoff m" "k \<le> length all"
    have "calls (drop (compacted_count m + pending_cutoff m) (all @ [msg])) \<subseteq> calls (drop k (all @ [msg]))"
      using k set_drop_subset_set_drop [of k "compacted_count m + pending_cutoff m" "all @ [msg]"]
      by (auto simp: calls_def)
    then show ?thesis using p new k by (auto simp: paired_def)
  qed
  show ?thesis
    using assms(1) m' grow [of "compacted_count m"] grow [of "compacted_count m + pending_cutoff m"] le
    by (auto simp: manager_ok_def view_def Suc_diff_le)
qed

lemma notify_view:
  "view (notify_message_added_with json msg m) = (Suc (total_turns m), compacted_count m,
     ce_append_exact (message_char_count json msg) (active_chars m), pending_task m, pending_cutoff m,
     active_summary m = None)"
  "view (notify_message_added m) = (Suc (total_turns m), compacted_count m,
     ce_invalidate (active_chars m), pending_task m, pending_cutoff m, active_summary m = None)"
  by (simp_all add: view_def notify_message_added_with_def notify_message_added_blocks_def
      notify_message_added_def message_char_count_def)

lemma notify_exact:
  assumes "manager_ok all m" and "books_exact json all m" and "chars json (all @ [msg]) \<le> usize_max"
  shows "books_exact json (all @ [msg]) (notify_message_added_with json msg m)"
proof -
  have le: "compacted_count m \<le> length all" using count_ok [OF assms(1)] .
  have "chars json (drop (compacted_count m) all) + message_char_count json msg \<le> usize_max"
    using assms(3) chars_drop_le [of json "compacted_count m" all] by simp
  moreover have "take (pending_cutoff m) (drop (compacted_count m) all) =
      take (pending_cutoff m) (drop (compacted_count m) (all @ [msg]))" if "pending_task m = Some t" for t
    using pending_tail [OF assms(1) that] le by simp
  ultimately show ?thesis
    using assms(2) le by (auto simp: books_exact_def notify_message_added_with_def
        notify_message_added_blocks_def ce_append_exact_def sat_add_def message_char_count_def)
qed

lemma restore_ok:
  assumes "manager_ok all m" and "persisted_state m = Some st"
  shows "manager_ok all (restore_persisted_state_with json st all m0) \<and>
    books_exact json all (restore_persisted_state_with json st all m0)"
proof -
  have "scs_compacted_count st = compacted_count m" and "active_summary m \<noteq> None"
    using assms(2) by (auto simp: persisted_state_def)
  then show ?thesis
    using assms(1) count_ok [OF assms(1)]
    by (auto simp: restore_persisted_state_with_def restore_persisted_state_def Let_def manager_ok_def
        books_exact_def ce_set_exact_def active_messages_def min_absorb1 chars_def)
qed

lemma rewrite_blocks_drop: "drop j (fst (rewrite_blocks f ms)) = fst (rewrite_blocks f (drop j ms))"
  by (simp add: rewrite_blocks_def drop_map)

lemma paired_rewrite: "same_ids f \<Longrightarrow> paired (fst (rewrite_blocks f ms)) = paired ms"
  by (simp add: paired_def rewrite_blocks_ids)

lemma truncate_ok:
  assumes "manager_ok all m" and "emergency_truncate_with all m = (m', all', n)"
  shows "manager_ok all' m' \<and> length all' = length all \<and> (n = 0 \<longrightarrow> m' = m \<and> all' = all)"
proof -
  define c where "c = compacted_count m"
  define f :: "'a content_block \<Rightarrow> 'a content_block option"
    where "f = truncate_payload_block emergency_tool_result_max_chars emergency_image_max_chars"
  have c: "c \<le> length all" using count_ok [OF assms(1)] by (simp add: c_def)
  have all': "all' = take c all @ fst (rewrite_blocks f (drop c all))"
    and n: "n = snd (rewrite_blocks f (drop c all))"
    and m': "m' = (if 0 < n then m\<lparr>observed_input_tokens := None,
          active_chars := ce_invalidate (active_chars m)\<rparr> else m)"
    using assms(2) c by (auto simp: emergency_truncate_with_def emergency_truncate_large_payloads_def
        f_def c_def min_absorb1 Let_def split: prod.splits)
  have len: "length all' = length all" using c by (simp add: all')
  have "paired (drop k all') = paired (drop k all)" if "c \<le> k" for k
  proof -
    have "drop k all' = fst (rewrite_blocks f (drop k all))"
      using that c by (simp add: all' rewrite_blocks_drop)
    then show ?thesis using truncate_payload_same_ids paired_rewrite by (metis f_def)
  qed
  then have "manager_ok all' m'"
    using assms(1) len by (auto simp: manager_ok_def m' c_def)
  moreover have "n = 0 \<Longrightarrow> all' = all"
    using rewrite_blocks_id [of f "drop c all"] by (simp add: all' n)
  ultimately show ?thesis using len m' by simp
qed

text \<open>A poll without history: it moves the count past the summarized part and leaves the estimate
  stale.\<close>

lemma blind_apply_ok:
  assumes ok: "manager_ok all m" and len: "length all \<le> usize_max"
  shows "manager_ok all (check_and_apply_compaction x m)"
proof -
  have c0: "clamp_compacted_count_to_messages [] m = (m, False)"
    by (simp add: clamp_compacted_count_to_messages_def)
  note def = check_and_apply_compaction_def check_and_apply_compaction_with_def Let_def c0
  have clear: "manager_ok all ((clear_pending m)\<lparr>active_chars := ce\<rparr>)" for ce
    using clear_pending_ok [OF ok] by (simp add: manager_ok_def)
  have same: "manager_ok all (m\<lparr>active_chars := ce\<rparr>)" for ce
    using ok by (simp add: manager_ok_def)
  show ?thesis
  proof (cases "pending_task m")
    case None
    then show ?thesis using same by (simp add: def)
  next
    case (Some t)
    show ?thesis
    proof (cases t)
      case (Finished outcome)
      show ?thesis
      proof (cases outcome)
        case (TaskOk r)
        define m1 where "m1 = apply_result x r [] (m\<lparr>pending_task := None\<rparr>)"
        have tail: "compacted_count m + pending_cutoff m + recent_turns_to_keep \<le> length all"
          and p: "paired (drop (compacted_count m + pending_cutoff m) all)"
          using pending_tail [OF ok Some] by auto
        then have "sat_add (compacted_count m) (pending_cutoff m) = compacted_count m + pending_cutoff m"
          using len by (simp add: sat_add_def)
        then have "compacted_count m1 = compacted_count m + pending_cutoff m \<and>
            total_turns m1 = total_turns m \<and> pending_task m1 = None \<and> active_summary m1 \<noteq> None"
          by (auto simp: m1_def apply_result_def Let_def clear_pending_def
              discard_oversized_openai_native_compaction_def discarded_summary_def split: option.splits)
        moreover have "2 \<le> length all - (compacted_count m + pending_cutoff m)"
          using tail by (simp add: recent_turns_to_keep_def)
        ultimately have "manager_ok all (m1\<lparr>active_chars := ce\<rparr>)" for ce
          using ok tail p by (simp add: manager_ok_def min_turns_to_keep_def)
        then show ?thesis using Some Finished TaskOk by (simp add: def m1_def)
      qed (use Some Finished clear in \<open>simp_all add: def\<close>)
    qed (use Some same in \<open>simp add: def\<close>)
  qed
qed

end
