(* ===== verification/Manager_Runs.thy ===== *)
theory Manager_Runs
  imports Manager_Facts
begin

text \<open>
  Histories of a compaction manager and its conversation. A history is careful where every message is
  announced with its content, every poll sees the messages and no emergency truncation rewrites them.
  Every history keeps the structural invariant; a careful one also keeps exact books.
\<close>

definition in_memory :: "('j, 'e) externals \<Rightarrow> ('j, 't) message list \<Rightarrow> bool" where
  "in_memory x all \<longleftrightarrow> length all \<le> usize_max \<and> chars (x_json x) all \<le> usize_max"

text \<open>A new message answers calls that a pending compaction keeps.\<close>

definition answers_kept :: "('j, 't, 'e) manager \<Rightarrow> ('j, 't) message list \<Rightarrow> ('j, 't) message \<Rightarrow> bool" where
  "answers_kept m all msg \<longleftrightarrow>
     tool_answers [msg] \<subseteq> calls (drop (compacted_count m + pending_cutoff m) (all @ [msg]))"

inductive history ::
    "('j, 'e) externals \<Rightarrow> bool \<Rightarrow> ('j, 't, 'e) manager \<Rightarrow> ('j, 't) message list \<Rightarrow> bool"
  for x :: "('j, 'e) externals" and careful :: bool where
  fresh: "history x careful (new_manager cfg) []"
| seeded: "paired all \<Longrightarrow> in_memory x all \<Longrightarrow>
     history x careful (seed_restored_messages_with (x_json x) all (new_manager cfg)) all"
| add: "history x careful m all \<Longrightarrow> in_memory x (all @ [msg]) \<Longrightarrow> answers_kept m all msg \<Longrightarrow>
     history x careful (notify_message_added_with (x_json x) msg m) (all @ [msg])"
| add_blind: "history x careful m all \<Longrightarrow> \<not> careful \<Longrightarrow> in_memory x (all @ [msg]) \<Longrightarrow>
     answers_kept m all msg \<Longrightarrow> history x careful (notify_message_added m) (all @ [msg])"
| observe: "history x careful m all \<Longrightarrow> history x careful (update_observed_input_tokens tokens m) all"
| snapshot: "history x careful m all \<Longrightarrow> history x careful (push_token_snapshot tokens m) all"
| embed: "history x careful m all \<Longrightarrow> history x careful (push_embedding_snapshot x text m) all"
| switch: "history x careful m all \<Longrightarrow> history x careful (set_mode md m) all"
| budget: "history x careful m all \<Longrightarrow> history x careful (with_budget b m) all"
| finish: "history x careful m all \<Longrightarrow> history x careful (deliver outcome m) all"
| poll: "history x careful m all \<Longrightarrow> history x careful (fst (poll_compaction_event_with x all m)) all"
| poll_blind: "history x careful m all \<Longrightarrow> \<not> careful \<Longrightarrow>
     history x careful (check_and_apply_compaction x m) all"
| fit: "history x careful m all \<Longrightarrow> ensure_context_fits x polls all m = Some (m', act) \<Longrightarrow>
     history x careful m' all"
| force: "history x careful m all \<Longrightarrow> history x careful (fst (force_compact_with x all m)) all"
| hard: "history x careful m all \<Longrightarrow> history x careful (fst (hard_compact_with x all m)) all"
| send: "history x careful m all \<Longrightarrow> history x careful (fst (messages_for_api_with x all m)) all"
| resume: "history x careful m all \<Longrightarrow> persisted_state m = Some st \<Longrightarrow>
     history x careful (restore_persisted_state_with (x_json x) st all (new_manager cfg)) all"
| recover: "history x careful m all \<Longrightarrow> recover_within_budget x all m = (m', all', r) \<Longrightarrow>
     careful \<longrightarrow> er_truncated r = 0 \<Longrightarrow> in_memory x all' \<Longrightarrow> history x careful m' all'"

lemma view_steps [simp]:
  "view (update_observed_input_tokens tokens m) = view m"
  "view (push_token_snapshot tokens m) = view m"
  "view (push_embedding_snapshot x text m) = view m"
  "view (set_mode md m) = view m" "view (with_budget b m) = view m"
  "view (fst (take_compaction_event m)) = view m"
proof -
  obtain m1 r where c: "cached_semantic_embedding x (take_chars embed_max_chars_per_msg text) m = (m1, r)"
    by fastforce
  then have "view m1 = view m"
    using view_cached [of x "take_chars embed_max_chars_per_msg text" m] by simp
  then show "view (push_embedding_snapshot x text m) = view m"
    using c by (cases r) (simp_all add: push_embedding_snapshot_def)
qed (simp_all add: update_observed_input_tokens_def push_token_snapshot_def set_mode_def
    with_budget_def take_compaction_event_def)

definition state_ok :: "('j, 'e) externals \<Rightarrow> bool \<Rightarrow> ('j, 't, 'e) manager \<Rightarrow> ('j, 't) message list \<Rightarrow> bool" where
  "state_ok x careful m all \<longleftrightarrow>
     manager_ok all m \<and> in_memory x all \<and> (careful \<longrightarrow> books_exact (x_json x) all m)"

lemma state_ok_view: "view m' = view m \<Longrightarrow> state_ok x careful m all \<Longrightarrow> state_ok x careful m' all"
  using manager_ok_view [of m' m all] books_exact_view [of m' m "x_json x" all]
  by (simp add: state_ok_def)

lemma check_and_apply_state:
  "state_ok x careful m all \<Longrightarrow> state_ok x careful (check_and_apply_compaction_with x all m) all"
  by (simp add: state_ok_def in_memory_def check_and_apply_ok check_and_apply_exact)

lemma messages_for_api_eq:
  assumes "manager_ok all m" and "length all \<le> usize_max"
    and m1_def: "m1 = fst (discard_oversized_openai_native_compaction
                             (check_and_apply_compaction_with x all m))"
  shows "messages_for_api_with x all m =
    (m1, (case active_summary m1 of None \<Rightarrow> [] | Some s \<Rightarrow> [summary_message s]) @
         drop (compacted_count m1) all)"
proof -
  have "manager_ok all m1"
    unfolding m1_def using check_and_apply_ok [OF assms(1,2), of x]
      manager_ok_view [OF view_discard] by blast
  then show ?thesis
    by (simp add: messages_for_api_with_def Let_def m1_def [symmetric] active_ok split: option.split)
qed

lemma send_state:
  assumes "state_ok x careful m all"
  shows "state_ok x careful (fst (messages_for_api_with x all m)) all"
proof -
  have "view (fst (messages_for_api_with x all m)) = view (check_and_apply_compaction_with x all m)"
    by (simp add: messages_for_api_with_def Let_def)
  then show ?thesis using check_and_apply_state [OF assms] state_ok_view by blast
qed

lemma hard_state:
  assumes "state_ok x careful m all"
  shows "state_ok x careful (fst (hard_compact_with x all m)) all"
proof -
  obtain m' r where h: "hard_compact_with x all m = (m', r)" by fastforce
  show ?thesis
  proof (cases r)
    case (Inl e)
    then show ?thesis using assms h hard_compact_Inl [of all m x m' e] by (simp add: state_ok_def)
  next
    case (Inr d)
    then show ?thesis
      using assms h hard_compact_Inr [of all m x m' d] hard_outcome_ok hard_outcome_exact
      by (fastforce simp: state_ok_def in_memory_def)
  qed
qed

lemma force_state:
  assumes "state_ok x careful m all"
  shows "state_ok x careful (fst (force_compact_with x all m)) all"
proof -
  obtain m' r where f: "force_compact_with x all m = (m', r)" by fastforce
  then show ?thesis
  proof (cases rule: force_compact_cases)
    case same
    then show ?thesis using assms f by simp
  next
    case (spawned k)
    then show ?thesis
      using assms f by (auto simp: state_ok_def intro: spawn_ok spawn_exact)
  qed
qed

lemma recover_state:
  assumes "state_ok x careful m all" and r: "recover_within_budget x all m = (m', all', r)"
    and c: "careful \<longrightarrow> er_truncated r = 0" and "in_memory x all'"
  shows "state_ok x careful m' all'"
proof -
  define m1 where "m1 = fst (hard_compact_with x all m)"
  have m1: "state_ok x careful m1 all" using hard_state [OF assms(1)] by (simp add: m1_def)
  have "(m', all', er_truncated r) = (m1, all, 0) \<or>
      emergency_truncate_with all m1 = (m', all', er_truncated r)"
    using r by (auto simp: recover_within_budget_def Let_def m1_def split: prod.splits if_splits)
  then show ?thesis
  proof
    assume "emergency_truncate_with all m1 = (m', all', er_truncated r)"
    then show ?thesis
      using truncate_ok [of all m1 m' all' "er_truncated r"] m1 c assms(4) by (auto simp: state_ok_def)
  qed (use m1 in simp)
qed

lemma history_ok: "history x careful m all \<Longrightarrow> state_ok x careful m all"
proof (induction rule: history.induct)
  case (fresh cfg)
  show ?case by (simp add: state_ok_def manager_ok_def books_exact_def new_manager_def ce_default_def
        in_memory_def usize_max_def)
next
  case (seeded all cfg)
  then show ?case by (simp add: state_ok_def manager_ok_def books_exact_def new_manager_def
        seed_restored_messages_with_def ce_set_exact_def chars_def)
next
  case (add m all msg)
  then show ?case
    using notify_ok [OF _ _ notify_view(1)] notify_exact
    by (auto simp: state_ok_def answers_kept_def in_memory_def)
next
  case (add_blind m all msg)
  then show ?case
    using notify_ok [OF _ _ notify_view(2)] by (auto simp: state_ok_def answers_kept_def)
next
  case (finish m all outcome)
  then show ?case by (simp add: state_ok_def deliver_ok deliver_exact)
next
  case (poll m all)
  then show ?case
    unfolding poll_compaction_event_with_def
    by (intro state_ok_view [OF view_steps(6)] check_and_apply_state)
next
  case (poll_blind m all)
  then show ?case by (simp add: state_ok_def in_memory_def blind_apply_ok)
next
  case (fit m all polls m' act)
  then show ?case
    using ensure_ok [OF _ _ fit.hyps(2)] ensure_exact [OF _ _ _ _ fit.hyps(2)]
    by (simp add: state_ok_def in_memory_def)
next
  case (resume m all st cfg)
  then show ?case by (simp add: state_ok_def restore_ok [OF _ resume.hyps(2)])
next
  case (recover m all m' all' r)
  then show ?case using recover_state by blast
qed (auto intro: state_ok_view [OF view_steps(1)] state_ok_view [OF view_steps(2)]
    state_ok_view [OF view_steps(3)] state_ok_view [OF view_steps(4)] state_ok_view [OF view_steps(5)]
    hard_state force_state send_state simp del: view_steps)

end
