(* ===== verification/Compaction_Properties.thy ===== *)
theory Compaction_Properties
  imports Manager_Runs "HOL-Library.Code_Target_Nat"
begin

text \<open>
  What context compaction guarantees: where it cuts, what the provider is sent, what the estimates
  mean, what emergency recovery does, and where the bookkeeping goes wrong.
\<close>

section \<open>Concrete conversations for the witnesses\<close>

definition demo_externals :: "(string, unit) externals" where
  "demo_externals =
     \<lparr>x_json = (\<lambda>j. j), x_alnum = (\<lambda>c. list_all is_ascii_alphanumeric c), x_embed = (\<lambda>_. None),
      x_key = (\<lambda>_. 0), x_cosine = (\<lambda>_ _. Num 0), x_group_cosine = (\<lambda>_ _. Num 0)\<rparr>"

definition say :: "string \<Rightarrow> (string, unit) message" where
  "say t = message_user () t"

definition call_tool :: "string \<Rightarrow> (string, unit) message" where
  "call_tool i = \<lparr>msg_role = Assistant, msg_content = [ToolUse i ''bash'' ''{}'' None],
     msg_timestamp = None, msg_tool_duration_ms = None\<rparr>"

definition demo_talk :: "(string, unit) message list" where
  "demo_talk =
     [say ''one'', say ''see src/main.rs'', call_tool ''t1'', tool_result () ''t1'' ''ok'' False,
      say ''five'', say ''six'', say ''seven'', say ''eight'', say ''nine'', say ''ten'',
      say ''eleven'', say ''twelve'', say ''thirteen'']"

definition demo_manager :: "(string, unit, unit) manager" where
  "demo_manager = seed_restored_messages_with (x_json demo_externals) demo_talk
     (new_manager default_compaction_config)"

lemma demo_in_memory: "in_memory demo_externals demo_talk"
  by (simp add: in_memory_def chars_def message_char_count_def content_char_count_def demo_talk_def
      say_def message_user_def call_tool_def tool_result_def tool_result_with_duration_def
      usize_max_def demo_externals_def)

lemma demo_paired: "paired demo_talk"
  by (simp add: paired_def demo_talk_def say_def message_user_def call_tool_def tool_result_def
      tool_result_with_duration_def)

lemma demo_history: "history demo_externals careful demo_manager demo_talk"
  unfolding demo_manager_def using demo_paired demo_in_memory by (rule history.seeded)

section \<open>Where to cut\<close>

text \<open>C8. The cut-off of \<open>safe_compaction_cutoff\<close> is the largest one within the request after which every
  kept tool result has its tool call among the kept messages, and 0 where there is none.\<close>

theorem safe_cutoff_is_largest:
  "safe_compaction_cutoff ms n =
     Max (insert 0 {k. k \<le> min n (length ms) \<and> tool_answers (drop k ms) \<subseteq> calls (drop k ms)})"
  by (simp add: safe_cutoff_is_Max safe_cuts_def paired_def)

section \<open>What the provider is sent\<close>




section \<open>Background compaction\<close>

text \<open>C10. When a background summary is ready, polling removes exactly the messages its cut-off names, puts
  the summary in their place, leaves at least ten messages and no unmatched tool result, and clears
  the pending compaction. The branch that discards a stale result is never taken: whatever happened
  since the task started, it either still fits or was aborted.\<close>

theorem background_result_fits:
  assumes "history x careful m all" and "pending_task m = Some (Finished (TaskOk r))"
    and "m' = check_and_apply_compaction_with x all m"
  shows "0 < pending_cutoff m \<and> compacted_count m' = compacted_count m + pending_cutoff m \<and>
    compacted_count m' + recent_turns_to_keep \<le> length all \<and>
    tool_answers (drop (compacted_count m') all) \<subseteq> calls (drop (compacted_count m') all) \<and>
    pending_task m' = None \<and> active_summary m' \<noteq> None \<and> last_compaction m' \<noteq> None"
proof -
  have ok: "manager_ok all m" and len: "length all \<le> usize_max"
    using history_ok [OF assms(1)] by (simp_all add: state_ok_def in_memory_def)
  have m': "m' = apply_result x r all (m\<lparr>pending_task := None\<rparr>)"
    using assms(2,3) count_ok [OF ok] by (simp add: check_and_apply_compaction_with_def)
  note t = pending_tail [OF ok assms(2)]
  then have "compacted_count (m\<lparr>pending_task := None\<rparr>) + pending_cutoff (m\<lparr>pending_task := None\<rparr>) +
      min_turns_to_keep \<le> length all"
    by (simp add: recent_turns_to_keep_def min_turns_to_keep_def)
  from apply_result_fields [OF this len m'] t show ?thesis by (simp add: paired_def)
qed

definition demo_result :: compaction_result where
  "demo_result = \<lparr>cr_summary_text = ''so far'', cr_openai_encrypted_content = None,
     cr_covers_up_to_turn = 2, cr_duration_ms = 5, cr_summarized_messages = 2\<rparr>"

text \<open>The demo conversation filled to 90 percent of its budget: a background compaction starts.\<close>

definition demo_pending :: "(string, unit, unit) manager" where
  "demo_pending = deliver (TaskOk demo_result)
     (fst (force_compact_with demo_externals demo_talk
       (update_observed_input_tokens 180000 demo_manager)))"

lemma demo_pending_history: "history demo_externals careful demo_pending demo_talk"
  unfolding demo_pending_def by (intro history.finish history.force history.observe demo_history)

lemma demo_pending_task: "pending_task demo_pending = Some (Finished (TaskOk demo_result))"
  by code_simp

theorem background_result_fits_witness:
  "compacted_count (check_and_apply_compaction_with demo_externals demo_talk demo_pending) +
     recent_turns_to_keep \<le> length demo_talk"
  using background_result_fits [OF demo_pending_history [of True] demo_pending_task refl] by blast

end
