(* ===== verification/Recovery_Properties.thy ===== *)
theory Recovery_Properties
  imports Compaction_Properties
begin

text \<open>
  Emergency recovery, estimates and persistence of the compaction manager: exact books in careful
  histories, the contract of hard compaction, images stripped oldest first, one pass of truncation,
  the meaning of the thresholds, size errors, prompts, and three ways the code loses track.
\<close>

section \<open>Estimates\<close>

text \<open>C11. In a careful history the estimate is that of the messages really kept, although it is
  computed from a running count, and a running background task summarizes exactly the messages that
  its cut-off will remove.\<close>

theorem careful_estimate_is_exact:
  assumes "history x True m all"
  shows "token_estimate_with (x_json x) all m =
      estimate_compaction_tokens (active_summary m)
        (sum_list (map (message_char_count (x_json x)) (drop (compacted_count m) all))) (token_budget m)
    \<and> (\<forall>ms s. pending_task m = Some (Running ms s) \<longrightarrow>
         ms = take (pending_cutoff m) (drop (compacted_count m) all))"
proof -
  have "manager_ok all m" and ex: "books_exact (x_json x) all m"
    using history_ok [OF assms] by (simp_all add: state_ok_def)
  then show ?thesis
    using active_chars_true [of all m "x_json x"]
    by (simp add: token_estimate_with_def chars_def books_exact_def)
qed

theorem careful_estimate_is_exact_witness:
  "token_estimate_with (x_json demo_externals) demo_talk demo_pending =
     estimate_compaction_tokens (active_summary demo_pending)
       (sum_list (map (message_char_count (x_json demo_externals))
         (drop (compacted_count demo_pending) demo_talk))) (token_budget demo_pending)"
  using careful_estimate_is_exact [OF demo_pending_history] by blast

text \<open>With the default budget of 200000 tokens the three 32-bit comparisons of the usage fraction
  are exact: background compaction from 160000 tokens, hard compaction from 190000, manual compaction
  from 20000.\<close>

theorem default_budget_thresholds:
  "(fle compaction_threshold (usage_of t default_token_budget) \<longleftrightarrow> 160000 \<le> t) \<and>
   (fle critical_threshold (usage_of t default_token_budget) \<longleftrightarrow> 190000 \<le> t) \<and>
   (fle manual_compact_min_threshold (usage_of t default_token_budget) \<longleftrightarrow> 20000 \<le> t)"
  unfolding default_token_budget_def
  using default_budget_soft default_budget_critical default_budget_manual by blast

section \<open>Hard compaction\<close>

lemma hard_compact_Inl_reason:
  assumes ok: "manager_ok all m" and h: "hard_compact_with x all m = (m', Inl e)"
  shows "length all - compacted_count m \<le> min_turns_to_keep \<or>
    safe_compaction_cutoff (drop (compacted_count m) all)
      (length all - compacted_count m - min_turns_to_keep) = 0"
proof (cases "length all - compacted_count m \<le> min_turns_to_keep")
  case False
  define active where "active = drop (compacted_count m) all"
  define cs where "cs = map (message_char_count (x_json x)) active"
  define t where "t = min recent_turns_to_keep (length active - 1)"
  define c where "c = hard_cutoff (token_budget m) active (suffix_chars cs) t"
  have am: "active_messages m all = active" using active_ok [OF ok] by (simp add: active_def)
  note h' = h [unfolded hard_compact_with_def Let_def clamp_ok [OF count_ok [OF ok]] fst_conv am,
      folded cs_def, folded t_def, folded c_def]
  have big: "min_turns_to_keep < length active" using False by (simp add: active_def)
  then have c0: "c = 0" using h' by (simp split: if_splits)
  have t: "min_turns_to_keep \<le> t"
    using big by (simp add: t_def min_turns_to_keep_def recent_turns_to_keep_def)
  have "c = safe_compaction_cutoff active (length active - min_turns_to_keep)"
    using hard_cutoff_spec [OF t, of active "token_budget m" "suffix_chars cs"] c0
    unfolding c_def by auto
  then show ?thesis using c0 by (simp add: active_def)
qed simp

text \<open>C12. A hard compaction either changes nothing, and then at most two messages are active or no cut
  that keeps two of them is safe; or it drops some messages, keeps at least two and all their tool
  calls, aborts a pending compaction, and what it keeps fits the budget unless it kept as little as
  allowed.\<close>

theorem hard_compact_contract:
  assumes "history x careful m all" and "hard_compact_with x all m = (m', result)"
  shows "case result of
      Inl e \<Rightarrow> m' = m \<and>
        (length all - compacted_count m \<le> min_turns_to_keep \<or>
         safe_compaction_cutoff (drop (compacted_count m) all)
           (length all - compacted_count m - min_turns_to_keep) = 0)
    | Inr d \<Rightarrow> 0 < d \<and> compacted_count m' = compacted_count m + d \<and>
        compacted_count m' + min_turns_to_keep \<le> length all \<and>
        tool_answers (drop (compacted_count m') all) \<subseteq> calls (drop (compacted_count m') all) \<and>
        pending_task m' = None \<and> active_summary m' \<noteq> None \<and>
        (chars (x_json x) (drop (compacted_count m') all) div chars_per_token \<le> token_budget m \<or>
         d = safe_compaction_cutoff (drop (compacted_count m) all)
               (length all - compacted_count m - min_turns_to_keep))"
proof -
  have ok: "manager_ok all m" and len: "length all \<le> usize_max" and mem: "chars (x_json x) all \<le> usize_max"
    using history_ok [OF assms(1)] by (simp_all add: state_ok_def in_memory_def)
  show ?thesis
  proof (cases result)
    case (Inl e)
    then show ?thesis
      using hard_compact_Inl [OF ok] hard_compact_Inl_reason [OF ok] assms(2) by auto
  next
    case (Inr d)
    have "hard_outcome (x_json x) all m m' d"
      using hard_compact_Inr [OF ok _ len] assms(2) Inr by simp
    then show ?thesis
      using Inr mem chars_drop_le [of "x_json x" "compacted_count m + d" all]
      by (auto simp: hard_outcome_def paired_def)
  qed
qed

theorem hard_compact_contract_witness:
  "\<exists>m' d. hard_compact_with demo_externals demo_talk demo_manager = (m', Inr d) \<and> 0 < d \<and>
     compacted_count m' + min_turns_to_keep \<le> length demo_talk"
proof -
  have two: "snd (hard_compact_with demo_externals demo_talk demo_manager) = Inr 2" by code_simp
  obtain m' where "hard_compact_with demo_externals demo_talk demo_manager = (m', Inr 2)"
    using two by (cases "hard_compact_with demo_externals demo_talk demo_manager") auto
  with hard_compact_contract [OF demo_history [of True] this] show ?thesis by auto
qed

section \<open>Persistence\<close>




section \<open>Emergency recovery\<close>

text \<open>Image stripping replaces the oldest images first, as few as are needed to bring the payload
  within the target, or all of them; nothing else is touched.\<close>

theorem images_stripped_minimally:
  assumes "image_bytes contents \<le> usize_max"
  shows "strip_large_images_in_contents contents target =
      (strip_first (images_to_strip target contents) contents, images_to_strip target contents) \<and>
    (image_bytes (fst (strip_large_images_in_contents contents target)) \<le> target \<or>
     image_count (fst (strip_large_images_in_contents contents target)) = 0)"
  using strip_large_images_reference [OF assms] strip_first_outcome by simp

definition demo_images :: "string content_block list list" where
  "demo_images = [[Image ''png'' (replicate 30 CHR ''a''), Text ''x'' None],
     [Image ''png'' (replicate 20 CHR ''b'')], [Image ''png'' (replicate 10 CHR ''c'')]]"

theorem images_stripped_minimally_witness:
  "image_bytes demo_images = 60 \<and> snd (strip_large_images_in_contents demo_images 35) = 1 \<and>
   strip_large_images_in_contents demo_images 35 = (strip_first 1 demo_images, 1)"
proof -
  have b: "image_bytes demo_images = 60" and n: "images_to_strip 35 demo_images = 1" by code_simp+
  then have "image_bytes demo_images \<le> usize_max" by (simp add: usize_max_def)
  from images_stripped_minimally [OF this, of 35] show ?thesis by (simp add: b n)
qed

text \<open>One pass of emergency truncation is enough: a second pass finds nothing. It keeps the number
  of messages and every tool id, and what it writes in place of a tool result is valid UTF-8 where the
  result was, and at most three quarters of the limit and 80 bytes long.\<close>

theorem emergency_truncation_settles:
  assumes "results_in_memory ms" and "320 \<le> max_result"
    and "(ms', n) = emergency_truncate_large_payloads ms max_result max_image"
    and "length content \<le> usize_max" and "is_utf8 content"
  shows "snd (emergency_truncate_large_payloads ms' max_result max_image) = 0 \<and>
    length ms' = length ms \<and> calls ms' = calls ms \<and> tool_answers ms' = tool_answers ms \<and>
    is_utf8 (emergency_truncated_tool_result content max_result) \<and>
    length (emergency_truncated_tool_result content max_result) \<le> max_result div 2 + max_result div 4 + 80"
proof -
  have ms': "ms' = fst (emergency_truncate_large_payloads ms max_result max_image)"
    using assms(3) by (metis fst_conv)
  have "is_utf8 (show_nat k)" for k by (rule ascii_utf8) (rule show_nat_utf8)
  moreover have "is_utf8 ([nl, nl] @ ''... ['')" "is_utf8 (''] ...'' @ [nl, nl])"
    "is_utf8 ('' chars truncated for context recovery] ...'' @ [nl, nl])"
    by (rule ascii_utf8, simp add: byte_def nl_def)+
  ultimately have "is_utf8 (emergency_truncated_tool_result content max_result)"
    using truncate_str_boundary_utf8 [OF assms(5)] tail_str_boundary_utf8 [OF assms(5)]
    unfolding emergency_truncated_tool_result_def Let_def
    by (metis append_assoc is_utf8_append)
  then show ?thesis
    using truncate_large_payloads_once [OF assms(1,2)] rewrite_blocks_ids [OF truncate_payload_same_ids]
      truncated_tool_result_length [OF assms(4)]
    by (simp add: ms' emergency_truncate_large_payloads_def)
qed

theorem emergency_truncation_settles_witness:
  "snd (emergency_truncate_large_payloads
     (fst (emergency_truncate_large_payloads demo_talk emergency_tool_result_max_chars
       emergency_image_max_chars)) emergency_tool_result_max_chars emergency_image_max_chars) = 0"
proof -
  have r: "results_in_memory demo_talk" by code_simp
  have m: "320 \<le> emergency_tool_result_max_chars" by (simp add: emergency_tool_result_max_chars_def)
  have c: "length ''ok'' \<le> usize_max" "is_utf8 ''ok''"
    by (simp add: usize_max_def) (rule ascii_utf8, simp add: byte_def)
  show ?thesis
    using emergency_truncation_settles [OF r m prod.collapse c] by blast
qed

text \<open>A status code is recognized exactly where the three digits stand free of other digits.\<close>

theorem status_413_stands_alone:
  "contains_independent_status_code s ''413'' \<longleftrightarrow>
     (\<exists>u v. s = u @ ''413'' @ v \<and> (u = [] \<or> \<not> is_ascii_digit (last u)) \<and>
            (v = [] \<or> \<not> is_ascii_digit (hd v)))"
  by (rule status_413)

section \<open>Where the books go wrong\<close>

lemma applied_count:
  assumes ok: "manager_ok all m" and p: "pending_task m = Some (Finished (TaskOk r))"
    and len: "length all \<le> usize_max"
  shows "compacted_count (check_and_apply_compaction_with x all m) = compacted_count m + pending_cutoff m"
proof -
  define m' where "m' = check_and_apply_compaction_with x all m"
  have m': "m' = apply_result x r all (m\<lparr>pending_task := None\<rparr>)"
    using p count_ok [OF ok] by (simp add: m'_def check_and_apply_compaction_with_def)
  have "compacted_count (m\<lparr>pending_task := None\<rparr>) + pending_cutoff (m\<lparr>pending_task := None\<rparr>) +
      min_turns_to_keep \<le> length all"
    using pending_tail [OF ok p] by (simp add: recent_turns_to_keep_def min_turns_to_keep_def)
  from apply_result_fields [OF this len m'] show ?thesis by (simp add: m'_def)
qed

text \<open>The cached count can be wrong while it is trusted. A manager told the number of restored
  messages without their content counts only the message added next; and a summary applied while the
  count is stale subtracts the summarized messages from a sum that no longer holds them.\<close>

theorem trusted_count_can_be_wrong:
  "active_message_chars_with json (all @ [msg])
     (notify_message_added_with json msg (seed_restored_messages (length all) (new_manager cfg))) =
     min (message_char_count json msg) usize_max \<and>
   (manager_ok all m \<and> pending_task m = Some (Finished (TaskOk r)) \<and> ce_dirty (active_chars m) \<and>
    length all \<le> usize_max \<longrightarrow>
    active_message_chars_with (x_json x) all (check_and_apply_compaction_with x all m) =
      chars (x_json x) (drop (compacted_count m + pending_cutoff m) all) -
      chars (x_json x) (take (pending_cutoff m) (drop (compacted_count m) all)))"
proof (intro conjI impI)
  show "active_message_chars_with json (all @ [msg])
     (notify_message_added_with json msg (seed_restored_messages (length all) (new_manager cfg))) =
     min (message_char_count json msg) usize_max"
    by (simp add: active_message_chars_with_def notify_message_added_with_def
        notify_message_added_blocks_def seed_restored_messages_def new_manager_def ce_append_exact_def
        ce_reset_pending_def active_messages_count_def active_messages_def sat_add_def message_char_count_def)
next
  assume a: "manager_ok all m \<and> pending_task m = Some (Finished (TaskOk r)) \<and> ce_dirty (active_chars m) \<and>
    length all \<le> usize_max"
  then have ok: "manager_ok all m" and p: "pending_task m = Some (Finished (TaskOk r))" by simp_all
  define m' where "m' = check_and_apply_compaction_with x all m"
  define c where "c = compacted_count m + pending_cutoff m"
  have m': "m' = apply_result x r all (m\<lparr>pending_task := None\<rparr>)"
    using p count_ok [OF ok] by (simp add: m'_def check_and_apply_compaction_with_def)
  have tail: "c + recent_turns_to_keep \<le> length all" using pending_tail [OF ok p] by (simp add: c_def)
  then have "compacted_count (m\<lparr>pending_task := None\<rparr>) + pending_cutoff (m\<lparr>pending_task := None\<rparr>) +
      min_turns_to_keep \<le> length all"
    by (simp add: recent_turns_to_keep_def min_turns_to_keep_def c_def)
  note f = apply_result_fields [OF this _ m']
  have "active_message_chars_with (x_json x) all (m\<lparr>pending_task := None, compacted_count := c\<rparr>) =
      chars (x_json x) (drop c all)"
    using a tail by (simp add: active_message_chars_with_def active_messages_def chars_def)
  then have "ce_chars (active_chars m') = chars (x_json x) (drop c all) -
      chars (x_json x) (take (pending_cutoff m) (drop (compacted_count m) all))"
    and "\<not> ce_dirty (active_chars m')" and "compacted_count m' = c" and "total_turns m' = length all"
    using f a ok by (simp_all add: ce_set_exact_def c_def manager_ok_def)
  then show "active_message_chars_with (x_json x) all (check_and_apply_compaction_with x all m) =
      chars (x_json x) (drop (compacted_count m + pending_cutoff m) all) -
      chars (x_json x) (take (pending_cutoff m) (drop (compacted_count m) all))"
    using tail by (simp add: active_message_chars_with_def active_messages_count_def active_messages_def
        m'_def [symmetric] c_def [symmetric])
qed

text \<open>The pending demo compaction after a legacy notification that made the count stale.\<close>

theorem trusted_count_can_be_wrong_witness:
  "let stale = demo_pending\<lparr>active_chars := ce_invalidate (active_chars demo_pending)\<rparr>;
       applied = check_and_apply_compaction_with demo_externals demo_talk stale
   in active_message_chars_with (x_json demo_externals) demo_talk applied \<noteq>
      chars (x_json demo_externals) (drop (compacted_count applied) demo_talk)"
proof -
  define stale where "stale = demo_pending\<lparr>active_chars := ce_invalidate (active_chars demo_pending)\<rparr>"
  have ok: "manager_ok demo_talk demo_pending"
    using history_ok [OF demo_pending_history [of True]] by (simp add: state_ok_def)
  have pre: "manager_ok demo_talk stale \<and> pending_task stale = Some (Finished (TaskOk demo_result)) \<and>
      ce_dirty (active_chars stale) \<and> length demo_talk \<le> usize_max"
    using ok demo_pending_task demo_in_memory
    by (simp add: stale_def manager_ok_def ce_invalidate_def in_memory_def)
  note t = trusted_count_can_be_wrong [THEN conjunct2, THEN mp, OF pre, of demo_externals]
  have "compacted_count (check_and_apply_compaction_with demo_externals demo_talk stale) =
      compacted_count stale + pending_cutoff stale"
    using pre by (intro applied_count) simp_all
  moreover have "chars (x_json demo_externals) (drop (compacted_count stale + pending_cutoff stale) demo_talk) -
      chars (x_json demo_externals) (take (pending_cutoff stale) (drop (compacted_count stale) demo_talk)) \<noteq>
      chars (x_json demo_externals) (drop (compacted_count stale + pending_cutoff stale) demo_talk)"
  proof -
    have "compacted_count stale = 0 \<and> pending_cutoff stale = 2" unfolding stale_def by code_simp
    then show ?thesis
      by (simp add: message_char_count_def content_char_count_def demo_talk_def say_def
          message_user_def call_tool_def tool_result_def tool_result_with_duration_def demo_externals_def)
  qed
  ultimately show ?thesis unfolding Let_def stale_def [symmetric] t by simp
qed

end
