(* ===== verification/Message_Facts.thy ===== *)
theory Message_Facts
  imports Compaction_Facts
begin

text \<open>
  Facts about messages: the stable hash separates texts that differ in one byte, time stamps and
  dynamic context leave the conversation intact, sanitized tool ids are acceptable and stable.
\<close>

unbundle bit_operations_syntax

section \<open>The stable hash\<close>

definition prime_inverse :: u64 where "prime_inverse = 0xCE965057AFF6957B"

lemma prime_inverse: "stable_hash_prime * prime_inverse = 1"
  by (simp add: stable_hash_prime_def prime_inverse_def)

lemma hash_step_undo: "hash_step h b * prime_inverse XOR ucast b = h"
  by (simp add: hash_step_def mult.assoc prime_inverse xor.assoc)

lemma hash_step_inj: "hash_step h b = hash_step h' b \<longleftrightarrow> h = h'"
  using hash_step_undo by metis

lemma unat_byte_bound: "unat (b :: u8) < 256"
proof -
  have "unat b < 2 ^ LENGTH(8)" by (rule unsigned_less)
  then show ?thesis by simp
qed

lemma hash_step_byte: "hash_step h a = hash_step h b \<longleftrightarrow> a = b"
proof
  assume "hash_step h a = hash_step h b"
  then have "(h XOR ucast a) * stable_hash_prime * prime_inverse =
      (h XOR ucast b) * stable_hash_prime * prime_inverse"
    by (simp add: hash_step_def)
  then have "h XOR ucast a = h XOR ucast b" by (simp add: mult.assoc prime_inverse)
  then have "h XOR (h XOR ucast a) = h XOR (h XOR ucast b)" by simp
  then have "(ucast a :: u64) = ucast b" by (simp flip: xor.assoc)
  then have "unat (ucast a :: u64) = unat (ucast b :: u64)" by simp
  then have "take_bit 64 (unat a) = take_bit 64 (unat b)" by (simp add: unsigned_ucast_eq)
  moreover have "unat a < 2 ^ 64" "unat b < 2 ^ 64"
    using unat_byte_bound [of a] unat_byte_bound [of b] by simp_all
  ultimately have "unat a = unat b" by (simp add: take_bit_nat_eq_self)
  then show "a = b" by (rule unsigned_word_eqI)
qed simp

lemma fold_hash_inj: "fold (\<lambda>b h. hash_step h b) v h = fold (\<lambda>b h. hash_step h b) v h' \<longleftrightarrow> h = h'"
  by (induction v arbitrary: h h') (simp_all add: hash_step_inj)

lemma stable_hash_one_byte: "stable_hash_bytes (u @ a # v) = stable_hash_bytes (u @ b # v) \<longleftrightarrow> a = b"
  by (simp add: stable_hash_bytes_def fold_hash_inj hash_step_byte)

section \<open>Time stamps\<close>

lemma tag_blocks_ids:
  "map called (tag_blocks t r g bs) = map called bs \<and> map answered (tag_blocks t r g bs) = map answered bs"
proof (induction bs arbitrary: g)
  case (Cons b bs)
  then show ?case by (cases b) simp_all
qed simp

section \<open>Tool ids\<close>

lemma tool_id_char_not_cont: "tool_id_char c \<Longrightarrow> \<not> is_cont c"
  by (auto simp: tool_id_char_def is_ascii_alphanumeric_def is_ascii_digit_def is_cont_def byte_def)

lemma sanitize_tool_id_chars: "sanitize_tool_id i \<noteq> [] \<and> list_all tool_id_char (sanitize_tool_id i)"
proof -
  have "list_all tool_id_char ''unknown''"
    by (simp add: tool_id_char_def is_ascii_alphanumeric_def byte_def)
  then show ?thesis
    by (auto simp: sanitize_tool_id_def Let_def list_all_iff tool_id_char_def)
qed

lemma sanitize_tool_id_id: "i \<noteq> [] \<Longrightarrow> list_all tool_id_char i \<Longrightarrow> sanitize_tool_id i = i"
  by (auto simp: sanitize_tool_id_def Let_def list_all_iff tool_id_char_not_cont filter_id_conv
      intro!: map_idI)

section \<open>Dynamic system context\<close>

lemma rposition_Some:
  "rposition P xs = Some k \<longleftrightarrow> k < length xs \<and> P (xs ! k) \<and> list_all (\<lambda>x. \<not> P x) (drop (Suc k) xs)"
proof (induction xs rule: rev_induct)
  case (snoc x xs)
  have upt: "[0..<length (xs @ [x])] = [0..<length xs] @ [length xs]" by simp
  have eq: "filter (\<lambda>i. P ((xs @ [x]) ! i)) [0..<length xs] = filter (\<lambda>i. P (xs ! i)) [0..<length xs]"
    by (rule filter_cong) (simp_all add: nth_append)
  show ?case
  proof (cases "P x")
    case True
    then have "rposition P (xs @ [x]) = Some (length xs)"
      unfolding rposition_def upt filter_append eq
      by (cases "filter (\<lambda>i. P (xs ! i)) [0..<length xs]") simp_all
    then show ?thesis using True by (auto simp: nth_append less_Suc_eq)
  next
    case False
    then have "rposition P (xs @ [x]) = rposition P xs"
      unfolding rposition_def upt filter_append eq by simp
    then show ?thesis using snoc False by (auto simp: nth_append less_Suc_eq)
  qed
qed (simp add: rposition_def)

lemma rposition_None: "rposition P xs = None \<longleftrightarrow> list_all (\<lambda>x. \<not> P x) xs"
proof (cases "filter (\<lambda>i. P (xs ! i)) [0..<length xs]")
  case Nil
  then show ?thesis by (auto simp: rposition_def filter_empty_conv list_all_length)
next
  case (Cons a list)
  have "a \<in> set (filter (\<lambda>i. P (xs ! i)) [0..<length xs])" unfolding Cons by simp
  then have "\<exists>n < length xs. P (xs ! n)" by auto
  then show ?thesis using Cons by (auto simp: rposition_def list_all_length)
qed

end
