(* ===== verification/Provider_Routes.thy ===== *)
theory Provider_Routes
  imports Rust_Prelude
begin

text \<open>
  Providers and model routes (\<open>crates/jcode-provider-core/src\<close>): the vocabularies of credentials
  (\<open>auth_mode.rs\<close>), provider labels, route methods and runtime keys (\<open>lib.rs\<close>), the built-in models
  (\<open>models.rs\<close>, \<open>model_id.rs\<close>) and the provider selection helpers (\<open>selection.rs\<close>). A \<open>match\<close> on string
  literals is a membership test per arm.
\<close>

section \<open>Providers (\<open>selection.rs\<close>)\<close>

datatype active_provider =
  Claude | OpenAI | Copilot | Antigravity | Gemini | Cursor | Bedrock | OpenRouter

record availability =
  av_openai :: bool
  av_claude :: bool
  av_copilot :: bool
  av_antigravity :: bool
  av_gemini :: bool
  av_cursor :: bool
  av_bedrock :: bool
  av_openrouter :: bool
  av_copilot_premium_zero :: bool

fun is_configured :: "availability \<Rightarrow> active_provider \<Rightarrow> bool" where
  "is_configured av Claude = av_claude av"
| "is_configured av OpenAI = av_openai av"
| "is_configured av Copilot = av_copilot av"
| "is_configured av Antigravity = av_antigravity av"
| "is_configured av Gemini = av_gemini av"
| "is_configured av Cursor = av_cursor av"
| "is_configured av Bedrock = av_bedrock av"
| "is_configured av OpenRouter = av_openrouter av"

definition auto_default_provider :: "availability \<Rightarrow> active_provider" where
  "auto_default_provider av =
     (if av_copilot_premium_zero av \<and> av_copilot av then Copilot
      else if av_claude av then Claude
      else if av_openai av then OpenAI
      else if av_copilot av then Copilot
      else if av_antigravity av then Antigravity
      else if av_gemini av then Gemini
      else if av_cursor av then Cursor
      else if av_bedrock av then Bedrock
      else if av_openrouter av then OpenRouter
      else Claude)"

definition parse_provider_hint :: "string \<Rightarrow> active_provider option" where
  "parse_provider_hint v =
     (let s = to_ascii_lowercase (trim v)
      in if s \<in> {''claude'', ''anthropic''} then Some Claude
         else if s = ''openai'' then Some OpenAI
         else if s = ''copilot'' then Some Copilot
         else if s = ''antigravity'' then Some Antigravity
         else if s = ''gemini'' then Some Gemini
         else if s = ''cursor'' then Some Cursor
         else if s \<in> {''bedrock'', ''aws-bedrock'', ''aws_bedrock''} then Some Bedrock
         else if s = ''openrouter'' then Some OpenRouter
         else None)"

fun provider_label :: "active_provider \<Rightarrow> string" where
  "provider_label Claude = ''Anthropic''"
| "provider_label OpenAI = ''OpenAI''"
| "provider_label Copilot = ''GitHub Copilot''"
| "provider_label Antigravity = ''Antigravity''"
| "provider_label Gemini = ''Gemini''"
| "provider_label Cursor = ''Cursor''"
| "provider_label Bedrock = ''AWS Bedrock''"
| "provider_label OpenRouter = ''OpenRouter''"

fun provider_key :: "active_provider \<Rightarrow> string" where
  "provider_key Claude = ''claude''"
| "provider_key OpenAI = ''openai''"
| "provider_key Copilot = ''copilot''"
| "provider_key Antigravity = ''antigravity''"
| "provider_key Gemini = ''gemini''"
| "provider_key Cursor = ''cursor''"
| "provider_key Bedrock = ''bedrock''"
| "provider_key OpenRouter = ''openrouter''"

definition provider_from_model_key :: "string \<Rightarrow> active_provider option" where
  "provider_from_model_key key =
     (if key = ''claude'' then Some Claude
      else if key = ''openai'' then Some OpenAI
      else if key = ''copilot'' then Some Copilot
      else if key = ''antigravity'' then Some Antigravity
      else if key = ''gemini'' then Some Gemini
      else if key = ''cursor'' then Some Cursor
      else if key = ''bedrock'' then Some Bedrock
      else if key = ''openrouter'' then Some OpenRouter
      else None)"

fun fallback_sequence :: "active_provider \<Rightarrow> active_provider list" where
  "fallback_sequence Claude = [Claude, OpenAI, Copilot, Gemini, Cursor, Bedrock, OpenRouter]"
| "fallback_sequence OpenAI = [OpenAI, Claude, Copilot, Gemini, Cursor, Bedrock, OpenRouter]"
| "fallback_sequence Copilot =
     [Copilot, Claude, OpenAI, Antigravity, Gemini, Cursor, Bedrock, OpenRouter]"
| "fallback_sequence Antigravity =
     [Antigravity, Claude, OpenAI, Copilot, Gemini, Cursor, Bedrock, OpenRouter]"
| "fallback_sequence Gemini =
     [Gemini, Claude, OpenAI, Antigravity, Copilot, Cursor, Bedrock, OpenRouter]"
| "fallback_sequence Cursor =
     [Cursor, Claude, OpenAI, Copilot, Antigravity, Gemini, OpenRouter]"
| "fallback_sequence Bedrock =
     [Bedrock, Claude, OpenAI, Copilot, Antigravity, Gemini, Cursor, OpenRouter]"
| "fallback_sequence OpenRouter =
     [OpenRouter, Claude, OpenAI, Copilot, Antigravity, Gemini, Cursor]"

text \<open>\<open>explicit_model_provider_prefix\<close>: the prefixes in the order they are tried.\<close>

definition model_prefixes :: "(string \<times> active_provider) list" where
  "model_prefixes =
     [(''claude-api:'', Claude), (''claude-oauth:'', Claude), (''claude:'', Claude),
      (''anthropic:'', Claude), (''openai-api:'', OpenAI), (''openai-oauth:'', OpenAI),
      (''openai:'', OpenAI), (''copilot:'', Copilot), (''antigravity:'', Antigravity),
      (''gemini:'', Gemini), (''cursor:'', Cursor), (''bedrock:'', Bedrock),
      (''openrouter:'', OpenRouter)]"

definition explicit_model_provider_prefix ::
    "string \<Rightarrow> (active_provider \<times> string \<times> string) option" where
  "explicit_model_provider_prefix model =
     map_option (\<lambda>(p, pr). (pr, p, drop (length p) model))
       (find (\<lambda>(p, pr). prefix p model) model_prefixes)"

section \<open>Credentials (\<open>auth_mode.rs\<close>)\<close>

datatype dual_auth = AnthropicAuth | OpenAIAuth

datatype auth_mode = Oauth | ApiKey

record auth_route =
  ar_provider :: dual_auth
  ar_mode :: auth_mode

fun from_active_provider :: "active_provider \<Rightarrow> dual_auth option" where
  "from_active_provider Claude = Some AnthropicAuth"
| "from_active_provider OpenAI = Some OpenAIAuth"
| "from_active_provider _ = None"

fun dual_active_provider :: "dual_auth \<Rightarrow> active_provider" where
  "dual_active_provider AnthropicAuth = Claude"
| "dual_active_provider OpenAIAuth = OpenAI"

definition is_subscription :: "auth_mode \<Rightarrow> bool" where
  "is_subscription m \<longleftrightarrow> m = Oauth"

definition anthropic_route :: "auth_mode \<Rightarrow> auth_route" where
  "anthropic_route m = \<lparr>ar_provider = AnthropicAuth, ar_mode = m\<rparr>"

definition openai_route :: "auth_mode \<Rightarrow> auth_route" where
  "openai_route m = \<lparr>ar_provider = OpenAIAuth, ar_mode = m\<rparr>"

text \<open>One trailing colon is dropped after trimming, and the rest is trimmed again.\<close>

definition auth_token :: "string \<Rightarrow> string" where
  "auth_token token = (let t = trim token in to_ascii_lowercase (trim (the_default t (strip_suffix '':'' t))))"

definition auth_parse :: "string \<Rightarrow> auth_route option" where
  "auth_parse token =
     (let s = auth_token token
      in if s \<in> {''claude'', ''anthropic'', ''claude-oauth'', ''anthropic-oauth''}
         then Some (anthropic_route Oauth)
         else if s \<in> {''claude-api'', ''anthropic-api'', ''anthropic-api-key'', ''claude-api-key'',
                     ''anthropic-key'', ''claude-key'', ''api-key''}
         then Some (anthropic_route ApiKey)
         else if s \<in> {''openai'', ''openai-oauth''} then Some (openai_route Oauth)
         else if s \<in> {''openai-api'', ''openai-api-key'', ''openai-key'', ''openai-apikey'',
                     ''openai-platform'', ''platform-openai''}
         then Some (openai_route ApiKey)
         else None)"

definition parse_explicit_credential_prefix :: "string \<Rightarrow> auth_route option" where
  "parse_explicit_credential_prefix p =
     (let s = auth_token p
      in if s \<in> {''claude'', ''anthropic'', ''openai''} then None else auth_parse s)"

fun runtime_provider_key_of :: "dual_auth \<Rightarrow> auth_mode \<Rightarrow> string" where
  "runtime_provider_key_of AnthropicAuth Oauth = ''claude''"
| "runtime_provider_key_of AnthropicAuth ApiKey = ''claude-api''"
| "runtime_provider_key_of OpenAIAuth Oauth = ''openai''"
| "runtime_provider_key_of OpenAIAuth ApiKey = ''openai-api''"

fun route_api_method_of :: "dual_auth \<Rightarrow> auth_mode \<Rightarrow> string" where
  "route_api_method_of AnthropicAuth Oauth = ''claude-oauth''"
| "route_api_method_of AnthropicAuth ApiKey = ''anthropic-api-key''"
| "route_api_method_of OpenAIAuth Oauth = ''openai-oauth''"
| "route_api_method_of OpenAIAuth ApiKey = ''openai-api-key''"

fun model_prefix_of :: "dual_auth \<Rightarrow> auth_mode \<Rightarrow> string" where
  "model_prefix_of AnthropicAuth Oauth = ''claude-oauth''"
| "model_prefix_of AnthropicAuth ApiKey = ''claude-api''"
| "model_prefix_of OpenAIAuth Oauth = ''openai-oauth''"
| "model_prefix_of OpenAIAuth ApiKey = ''openai-api''"

fun cli_provider_arg_of :: "dual_auth \<Rightarrow> auth_mode \<Rightarrow> string" where
  "cli_provider_arg_of AnthropicAuth Oauth = ''claude''"
| "cli_provider_arg_of AnthropicAuth ApiKey = ''anthropic-api''"
| "cli_provider_arg_of OpenAIAuth Oauth = ''openai''"
| "cli_provider_arg_of OpenAIAuth ApiKey = ''openai-api''"

definition runtime_provider_key :: "auth_route \<Rightarrow> string" where
  "runtime_provider_key r = runtime_provider_key_of (ar_provider r) (ar_mode r)"

definition route_api_method :: "auth_route \<Rightarrow> string" where
  "route_api_method r = route_api_method_of (ar_provider r) (ar_mode r)"

definition auth_model_prefix :: "auth_route \<Rightarrow> string" where
  "auth_model_prefix r = model_prefix_of (ar_provider r) (ar_mode r)"

definition session_provider_key :: "auth_route \<Rightarrow> string" where
  "session_provider_key r = runtime_provider_key r"

definition cli_provider_arg :: "auth_route \<Rightarrow> string" where
  "cli_provider_arg r = cli_provider_arg_of (ar_provider r) (ar_mode r)"

definition pinned_mode_for :: "dual_auth \<Rightarrow> string option \<Rightarrow> auth_mode option" where
  "pinned_mode_for p runtime_provider =
     Option.bind runtime_provider (\<lambda>t. Option.bind (auth_parse t) (\<lambda>r.
       if ar_provider r = p then Some (ar_mode r) else None))"

definition cli_provider_arg_for_session_key :: "string \<Rightarrow> string option" where
  "cli_provider_arg_for_session_key key =
     (let normalized = to_ascii_lowercase (trim key);
          base = (case split_once CHR '':'' normalized of Some (p, _) \<Rightarrow> p | None \<Rightarrow> normalized)
      in case auth_parse base of
           Some r \<Rightarrow> Some (cli_provider_arg r)
         | None \<Rightarrow>
             if base \<in> {''openrouter'', ''copilot'', ''gemini'', ''cursor'', ''bedrock'', ''antigravity''}
             then Some base
             else if base \<in> {''code-assist-oauth'', ''google''} then Some ''google''
             else None)"

end
