(* ===== verification/Route_Methods.thy ===== *)
theory Route_Methods
  imports Provider_Routes
begin

text \<open>
  Model routes (\<open>crates/jcode-provider-core/src/lib.rs\<close>): the method of a route, the runtime it
  selects, the model string that applies a selection, the comparison of provider labels, and the
  static classification of models (\<open>models.rs\<close>, \<open>model_id.rs\<close>). The catalog that OpenRouter ids are
  looked up in is the built-in one.
\<close>

section \<open>Model ids (\<open>model_id.rs\<close>)\<close>

definition long_context_suffix :: string where "long_context_suffix = ''[1m]''"

definition strip_long_context_suffix :: "string \<Rightarrow> string" where
  "strip_long_context_suffix m = the_default m (strip_suffix long_context_suffix m)"

definition split_long_context :: "string \<Rightarrow> string \<times> bool" where
  "split_long_context m =
     (case strip_suffix long_context_suffix m of Some base \<Rightarrow> (base, True) | None \<Rightarrow> (m, False))"

definition canonical_model :: "string \<Rightarrow> string" where
  "canonical_model m = strip_long_context_suffix (to_ascii_lowercase (trim m))"

text \<open>\<open>s.rsplit_once(c)\<close>.\<close>

definition rsplit_once :: "char \<Rightarrow> string \<Rightarrow> (string \<times> string) option" where
  "rsplit_once d s = map_option (\<lambda>(a, b). (rev b, rev a)) (split_once d (rev s))"

definition strip_date_suffix :: "string \<Rightarrow> string" where
  "strip_date_suffix m =
     (case rsplit_once CHR ''-'' m of
        Some (h, t) \<Rightarrow> if length t = 8 \<and> list_all is_ascii_digit t then h else m
      | None \<Rightarrow> m)"

definition slash_base :: "string \<Rightarrow> string" where
  "slash_base m = (case rsplit_once CHR ''/'' m of Some (_, t) \<Rightarrow> t | None \<Rightarrow> m)"

definition matches_known_model :: "string \<Rightarrow> string list \<Rightarrow> bool" where
  "matches_known_model m known =
     (let t = trim m
      in list_ex (\<lambda>c. eq_ignore_ascii_case c t) known \<or>
         list_ex (\<lambda>c. eq_ignore_ascii_case c (strip_long_context_suffix t)) known)"

section \<open>Built-in models (\<open>models.rs\<close>)\<close>

definition all_claude_models :: "string list" where
  "all_claude_models =
     [''claude-fable-5'', ''claude-opus-4-8'', ''claude-opus-4-6'', ''claude-opus-4-6[1m]'',
      ''claude-sonnet-5'', ''claude-sonnet-4-6'', ''claude-sonnet-4-6[1m]'', ''claude-haiku-4-5'',
      ''claude-opus-4-5'', ''claude-sonnet-4-5'', ''claude-sonnet-4-20250514'']"

definition all_openai_models :: "string list" where
  "all_openai_models =
     [''gpt-5.6-sol'', ''gpt-5.5'', ''gpt-5.4'', ''gpt-5.4-pro'', ''gpt-5.3-codex'',
      ''gpt-5.3-codex-spark'', ''gpt-5.2-chat-latest'', ''gpt-5.2-codex'', ''gpt-5.2-pro'',
      ''gpt-5.1-codex-mini'', ''gpt-5.1-codex-max'', ''gpt-5.2'', ''gpt-5.1-chat-latest'',
      ''gpt-5.1'', ''gpt-5.1-codex'', ''gpt-5-chat-latest'', ''gpt-5-codex'', ''gpt-5-codex-mini'',
      ''gpt-5-pro'', ''gpt-5-mini'', ''gpt-5-nano'', ''gpt-5'']"

definition provider_key_from_hint :: "string option \<Rightarrow> string option" where
  "provider_key_from_hint hint =
     Option.bind hint (\<lambda>h.
       let s = to_ascii_lowercase (trim h)
       in if s \<in> {''anthropic'', ''claude''} then Some ''claude''
          else if s = ''openai'' then Some ''openai''
          else if s = ''openrouter'' then Some ''openrouter''
          else if s \<in> {''copilot'', ''github copilot''} then Some ''copilot''
          else if s = ''antigravity'' then Some ''antigravity''
          else if s \<in> {''gemini'', ''google gemini''} then Some ''gemini''
          else if s = ''cursor'' then Some ''cursor''
          else None)"

definition is_listable_model_name :: "string \<Rightarrow> bool" where
  "is_listable_model_name m \<longleftrightarrow>
     trim m \<noteq> [] \<and> trim m \<notin> {''copilot models'', ''openrouter models''}"

definition provider_for_model_with_hint :: "string \<Rightarrow> string option \<Rightarrow> string option" where
  "provider_for_model_with_hint model hint =
     (case provider_key_from_hint hint of
        Some p \<Rightarrow> Some p
      | None \<Rightarrow>
          let m = trim model
          in if CHR ''@'' \<in> set m then Some ''openrouter''
             else if m \<in> set all_claude_models then Some ''claude''
             else if m \<in> set all_openai_models then Some ''openai''
             else if CHR ''/'' \<in> set m then Some ''openrouter''
             else if prefix ''claude-'' m then Some ''claude''
             else if prefix ''gpt-'' m then Some ''openai''
             else if prefix ''gemini-'' m then Some ''gemini''
             else None)"

definition provider_for_model :: "string \<Rightarrow> string option" where
  "provider_for_model model = provider_for_model_with_hint model None"

definition normalize_copilot_model_name :: "string \<Rightarrow> string option" where
  "normalize_copilot_model_name model =
     (let known = all_claude_models @ all_openai_models
      in if model \<in> set known then None
         else find (\<lambda>c. c = replace_char CHR ''.'' ''-'' model) known)"

definition model_name_for_provider :: "active_provider \<Rightarrow> string \<Rightarrow> string" where
  "model_name_for_provider p model =
     (if p = Claude then the_default model (normalize_copilot_model_name model) else model)"

section \<open>Provider labels\<close>

definition normalize_provider_label :: "string \<Rightarrow> string" where
  "normalize_provider_label v =
     filter (\<lambda>c. c \<notin> {CHR '' '', CHR ''_'', CHR ''-''}) (to_ascii_lowercase (trim v))"

definition provider_labels_match :: "string \<Rightarrow> string \<Rightarrow> bool" where
  "provider_labels_match route_provider current_provider =
     (let r = normalize_provider_label route_provider; c = normalize_provider_label current_provider
      in r \<noteq> [] \<and> c \<noteq> [] \<and>
         (r = c \<or>
          c \<in> {''claude'', ''anthropic''} \<and> r \<in> {''anthropic'', ''claude''} \<or>
          c = ''openai'' \<and> r = ''openai'' \<or>
          c \<in> {''gemini'', ''google''} \<and> r \<in> {''gemini'', ''google''} \<or>
          c = ''antigravity'' \<and> r = ''antigravity'' \<or>
          c \<in> {''copilot'', ''copilotcode'', ''githubcopilot''} \<and> r \<in> {''copilot'', ''githubcopilot''} \<or>
          c = ''cursor'' \<and> r = ''cursor'' \<or>
          c \<in> {''bedrock'', ''awsbedrock''} \<and> r \<in> {''bedrock'', ''awsbedrock''} \<or>
          c = ''openrouter'' \<and> r \<in> {''openrouter'', ''auto''}))"

definition provider_labels_related :: "string \<Rightarrow> string \<Rightarrow> bool" where
  "provider_labels_related route_provider login_provider =
     (let r = normalize_provider_label route_provider; l = normalize_provider_label login_provider
      in r \<noteq> [] \<and> l \<noteq> [] \<and>
         (r = l \<or> str_contains r l \<or> str_contains l r \<or> provider_labels_match r l))"

definition provider_matches_key :: "string option \<Rightarrow> string \<Rightarrow> string \<Rightarrow> bool" where
  "provider_matches_key route_key label desired =
     (let d = trim desired
      in if d = [] then False
         else case parse_explicit_credential_prefix d of
           Some r \<Rightarrow>
             (case route_key of
                Some k \<Rightarrow>
                  normalize_provider_label
                    (case auth_parse k of Some r' \<Rightarrow> session_provider_key r' | None \<Rightarrow> k) =
                  normalize_provider_label (session_provider_key r)
              | None \<Rightarrow> False)
         | None \<Rightarrow>
             (case route_key of
                Some k \<Rightarrow> normalize_provider_label k = normalize_provider_label d
              | None \<Rightarrow> False) \<or> provider_labels_match label d)"

section \<open>Route methods and runtime keys\<close>

datatype api_method =
    MClaudeOAuth | MAnthropicApiKey | MOpenAIOAuth | MOpenAIApiKey | MOpenRouter
  | MOpenAiCompatible "string option" | MCopilot | MCursor | MBedrock | MCodeAssistOAuth
  | MAntigravityHttps | MRemoteCatalog | MCurrent | MOther string

fun method_from_auth :: "dual_auth \<Rightarrow> auth_mode \<Rightarrow> api_method" where
  "method_from_auth AnthropicAuth Oauth = MClaudeOAuth"
| "method_from_auth AnthropicAuth ApiKey = MAnthropicApiKey"
| "method_from_auth OpenAIAuth Oauth = MOpenAIOAuth"
| "method_from_auth OpenAIAuth ApiKey = MOpenAIApiKey"

definition from_auth_route :: "auth_route \<Rightarrow> api_method" where
  "from_auth_route r = method_from_auth (ar_provider r) (ar_mode r)"

definition parse_other_method :: "string \<Rightarrow> string \<Rightarrow> api_method" where
  "parse_other_method trimmed lower =
     (case split_once CHR '':'' lower of
        Some (p, rest) \<Rightarrow>
          if p = ''openai-compatible''
          then MOpenAiCompatible (if trim rest = [] then None else Some (trim rest))
          else MOther trimmed
      | None \<Rightarrow> MOther trimmed)"

definition method_parse :: "string \<Rightarrow> api_method" where
  "method_parse v =
     (let trimmed = trim v; lower = to_ascii_lowercase trimmed
      in case auth_parse lower of
           Some r \<Rightarrow> from_auth_route r
         | None \<Rightarrow>
             if lower = ''openrouter'' then MOpenRouter
             else if lower = ''openai-compatible'' then MOpenAiCompatible None
             else if lower = ''copilot'' then MCopilot
             else if lower = ''cursor'' then MCursor
             else if lower = ''bedrock'' then MBedrock
             else if lower = ''code-assist-oauth'' then MCodeAssistOAuth
             else if lower = ''https'' then MAntigravityHttps
             else if lower = ''remote-catalog'' then MRemoteCatalog
             else if lower = ''current'' then MCurrent
             else parse_other_method trimmed lower)"

fun profile_id :: "api_method \<Rightarrow> string option" where
  "profile_id (MOpenAiCompatible p) = p"
| "profile_id _ = None"

definition matches_openai_compatible_profile :: "api_method \<Rightarrow> string \<Rightarrow> bool" where
  "matches_openai_compatible_profile m p \<longleftrightarrow>
     (case profile_id m of Some q \<Rightarrow> eq_ignore_ascii_case q p | None \<Rightarrow> False)"

fun method_display_label :: "api_method \<Rightarrow> string" where
  "method_display_label MClaudeOAuth = ''oauth''"
| "method_display_label MOpenAIOAuth = ''oauth''"
| "method_display_label MCodeAssistOAuth = ''oauth''"
| "method_display_label MAnthropicApiKey = ''api key''"
| "method_display_label MOpenAIApiKey = ''api key''"
| "method_display_label (MOpenAiCompatible _) = ''api key''"
| "method_display_label MOpenRouter = ''openrouter''"
| "method_display_label MCopilot = ''copilot''"
| "method_display_label MCursor = ''cursor''"
| "method_display_label MBedrock = ''bedrock''"
| "method_display_label MAntigravityHttps = ''https''"
| "method_display_label MRemoteCatalog = ''remote-catalog''"
| "method_display_label MCurrent = ''current''"
| "method_display_label (MOther m) = (case split_once CHR '':'' m of Some (a, _) \<Rightarrow> a | None \<Rightarrow> m)"

datatype runtime_key =
    KClaudeOAuth | KAnthropicApiKey | KOpenAIOAuth | KOpenAIApiKey | KOpenRouter
  | KOpenAiCompatible "string option" | KCopilot | KGemini | KCursor | KBedrock | KAntigravity
  | KCodeAssistOAuth | KRemoteCatalog | KCurrent | KOther string

fun from_api_method :: "api_method \<Rightarrow> runtime_key" where
  "from_api_method MClaudeOAuth = KClaudeOAuth"
| "from_api_method MAnthropicApiKey = KAnthropicApiKey"
| "from_api_method MOpenAIOAuth = KOpenAIOAuth"
| "from_api_method MOpenAIApiKey = KOpenAIApiKey"
| "from_api_method MOpenRouter = KOpenRouter"
| "from_api_method (MOpenAiCompatible p) = KOpenAiCompatible p"
| "from_api_method MCopilot = KCopilot"
| "from_api_method MCursor = KCursor"
| "from_api_method MBedrock = KBedrock"
| "from_api_method MCodeAssistOAuth = KCodeAssistOAuth"
| "from_api_method MAntigravityHttps = KAntigravity"
| "from_api_method MRemoteCatalog = KRemoteCatalog"
| "from_api_method MCurrent = KCurrent"
| "from_api_method (MOther m) = KOther m"

fun stable_id :: "runtime_key \<Rightarrow> string" where
  "stable_id KClaudeOAuth = ''claude-oauth''"
| "stable_id KAnthropicApiKey = ''anthropic-api-key''"
| "stable_id KOpenAIOAuth = ''openai-oauth''"
| "stable_id KOpenAIApiKey = ''openai-api-key''"
| "stable_id KOpenRouter = ''openrouter''"
| "stable_id (KOpenAiCompatible (Some p)) = ''openai-compatible:'' @ p"
| "stable_id (KOpenAiCompatible None) = ''openai-compatible''"
| "stable_id KCopilot = ''copilot''"
| "stable_id KGemini = ''gemini''"
| "stable_id KCursor = ''cursor''"
| "stable_id KBedrock = ''bedrock''"
| "stable_id KAntigravity = ''antigravity''"
| "stable_id KCodeAssistOAuth = ''code-assist-oauth''"
| "stable_id KRemoteCatalog = ''remote-catalog''"
| "stable_id KCurrent = ''current''"
| "stable_id (KOther v) = v"

section \<open>Routes and selections\<close>

text \<open>The cheapness estimate is carried along unread: \<open>'c\<close>.\<close>

record 'c model_route =
  mr_model :: string
  mr_provider :: string
  mr_api_method :: string
  mr_available :: bool
  mr_detail :: string
  mr_cheapness :: "'c option"

record route_selection =
  rs_model :: string
  rs_runtime_key :: runtime_key
  rs_api_method :: string
  rs_provider_label :: string
  rs_detail :: string

definition api_method_kind :: "'c model_route \<Rightarrow> api_method" where
  "api_method_kind r = method_parse (mr_api_method r)"

definition from_model_route :: "'c model_route \<Rightarrow> route_selection" where
  "from_model_route r =
     \<lparr>rs_model = mr_model r, rs_runtime_key = from_api_method (api_method_kind r),
      rs_api_method = mr_api_method r, rs_provider_label = mr_provider r, rs_detail = mr_detail r\<rparr>"

definition openrouter_catalog_model_id :: "string \<Rightarrow> string" where
  "openrouter_catalog_model_id model =
     (let t = trim model
      in if provider_for_model t = Some ''claude'' then ''anthropic/'' @ t
         else if provider_for_model t = Some ''openai'' then ''openai/'' @ t
         else t)"

definition routed_model_spec :: "route_selection \<Rightarrow> string" where
  "routed_model_spec s =
     (let model = trim (rs_model s)
      in case rs_runtime_key s of
           KClaudeOAuth \<Rightarrow> ''claude-oauth:'' @ model
         | KAnthropicApiKey \<Rightarrow> ''claude-api:'' @ model
         | KOpenAIOAuth \<Rightarrow> ''openai-oauth:'' @ model
         | KOpenAIApiKey \<Rightarrow> ''openai-api:'' @ model
         | KOpenAiCompatible (Some p) \<Rightarrow> trim p @ '':'' @ model
         | KOpenAiCompatible None \<Rightarrow> model
         | KOpenRouter \<Rightarrow>
             let provider = trim (rs_provider_label s); catalog_id = openrouter_catalog_model_id model
             in if provider = [] \<or> eq_ignore_ascii_case provider ''auto'' \<or> CHR ''@'' \<in> set model
                then catalog_id else catalog_id @ ''@'' @ provider
         | KCopilot \<Rightarrow> ''copilot:'' @ model
         | KCursor \<Rightarrow> ''cursor:'' @ model
         | KBedrock \<Rightarrow> ''bedrock:'' @ model
         | KAntigravity \<Rightarrow> ''antigravity:'' @ model
         | _ \<Rightarrow> model)"

definition route_is_recommended :: "string \<Rightarrow> string \<Rightarrow> string \<Rightarrow> bool \<Rightarrow> bool" where
  "route_is_recommended model provider method available =
     (available \<and>
      (model = ''gpt-5.5'' \<and> method_parse method = MOpenAIOAuth \<and> provider_labels_match provider ''openai'' \<or>
       model = ''claude-opus-4-8'' \<and> method_parse method \<in> {MClaudeOAuth, MAnthropicApiKey} \<and>
         provider_labels_match provider ''anthropic''))"

end
