(* ===== verification/Provider_Failover.thy ===== *)
theory Provider_Failover
  imports Route_Methods Compaction_Emergency
begin

text \<open>
  What happens when a provider fails (\<open>crates/jcode-provider-core/src\<close>): the classification of errors
  and the switch prompt (\<open>failover.rs\<close>), the route offered next (\<open>fallback_pick.rs\<close>), the merged route
  catalog (\<open>selection.rs\<close>), the events of a retried attempt (\<open>attempt_tracker.rs\<close>) and server
  delays (\<open>retry_after.rs\<close>). The status-code test is the function of the same name and body that
  \<open>Compaction_Emergency\<close> holds.
\<close>

section \<open>Errors (\<open>failover.rs\<close>)\<close>

datatype failover_decision = NoFailover | RetryNextProvider | RetryAndMarkUnavailable

definition should_failover :: "failover_decision \<Rightarrow> bool" where
  "should_failover d \<longleftrightarrow> d \<noteq> NoFailover"

definition should_mark_unavailable :: "failover_decision \<Rightarrow> bool" where
  "should_mark_unavailable d \<longleftrightarrow> d = RetryAndMarkUnavailable"

definition size_needles :: "string list" where
  "size_needles =
     [''context length'', ''context_length'', ''context window'', ''maximum context'',
      ''prompt is too long'', ''input is too long'', ''too many tokens'', ''max tokens'',
      ''token limit'', ''token_limit'', ''413 payload too large'', ''413 request entity too large'']"

definition quota_needles :: "string list" where
  "quota_needles =
     [''rate limit'', ''rate-limited'', ''too many requests'', ''quota'', ''credit balance'',
      ''credits have run out'', ''insufficient credit'', ''billing'', ''payment required'', ''usage tier'']"

definition access_needles :: "string list" where
  "access_needles =
     [''access denied'', ''not accessible by integration'', ''provider unavailable'',
      ''provider not available'', ''provider is unavailable'', ''provider currently unavailable'',
      ''provider not configured'', ''credentials are not configured'', ''no credentials'',
      ''token exchange failed'', ''authentication failed'', ''unauthorized'', ''forbidden'']"

definition mentions_any :: "string \<Rightarrow> string list \<Rightarrow> string list \<Rightarrow> bool" where
  "mentions_any lower needles codes \<longleftrightarrow>
     list_ex (str_contains lower) needles \<or> list_ex (contains_independent_status_code lower) codes"

definition classify_failover_error_message :: "string \<Rightarrow> failover_decision" where
  "classify_failover_error_message message =
     (let lower = to_ascii_lowercase message
      in if mentions_any lower size_needles [''413''] then RetryNextProvider
         else if mentions_any lower quota_needles [''429'', ''402''] then RetryAndMarkUnavailable
         else if mentions_any lower access_needles [''401'', ''403''] then RetryAndMarkUnavailable
         else NoFailover)"

record failover_prompt =
  fp_from_provider :: string
  fp_from_label :: string
  fp_to_provider :: string
  fp_to_label :: string
  fp_reason :: string
  fp_estimated_input_chars :: nat
  fp_estimated_input_tokens :: nat

definition failover_prompt_prefix :: string where
  "failover_prompt_prefix = ''[jcode-provider-failover]''"

text \<open>\<open>to_json\<close> is \<open>serde_json::to_string\<close>; \<open>None\<close> is its error.\<close>

definition to_error_message :: "(failover_prompt \<Rightarrow> string option) \<Rightarrow> failover_prompt \<Rightarrow> string" where
  "to_error_message to_json p =
     failover_prompt_prefix @ the_default ''{}'' (to_json p) @ [nl] @ fp_from_label p @
     '' is unavailable; switching to '' @ fp_to_label p @ '' would resend about '' @
     show_nat (fp_estimated_input_tokens p) @ '' input tokens (~'' @
     show_nat (fp_estimated_input_chars p) @ '' chars).''"

definition parse_failover_prompt_message ::
    "(string \<Rightarrow> failover_prompt option) \<Rightarrow> string \<Rightarrow> failover_prompt option" where
  "parse_failover_prompt_message from_json message =
     (case lines message of
        [] \<Rightarrow> None
      | l # _ \<Rightarrow> Option.bind (strip_prefix failover_prompt_prefix (trim l)) from_json)"

section \<open>The route offered next (\<open>fallback_pick.rs\<close>)\<close>

fun method_is_oauth :: "api_method \<Rightarrow> bool" where
  "method_is_oauth MClaudeOAuth = True"
| "method_is_oauth MOpenAIOAuth = True"
| "method_is_oauth MCodeAssistOAuth = True"
| "method_is_oauth _ = False"

definition models_match :: "string \<Rightarrow> string \<Rightarrow> bool" where
  "models_match a b \<longleftrightarrow> eq_ignore_ascii_case (trim a) (trim b)"

definition api_methods_match :: "string \<Rightarrow> string \<Rightarrow> bool" where
  "api_methods_match a b \<longleftrightarrow> method_parse a = method_parse b"

definition credential_markers :: "string list" where
  "credential_markers =
     [''token refresh failed'', ''refresh_token_invalidated'', ''re-authenticate'',
      ''session has ended'', ''authentication_error'', ''invalid_grant'', ''invalid x-api-key'',
      ''invalid api key'', ''incorrect api key'', ''api key not valid'', ''token expired'',
      ''unauthorized'', ''oauth token expired'', ''no refresh token'', ''credentials have been revoked'',
      ''please log in again'', ''run /login'']"

definition error_looks_like_credential_failure :: "string \<Rightarrow> bool" where
  "error_looks_like_credential_failure e =
     list_ex (str_contains (to_ascii_lowercase e)) credential_markers"

text \<open>The route in use: model, provider label, method.\<close>

record current_route =
  cu_model :: string
  cu_provider :: string
  cu_method :: string

definition same_model :: "current_route \<Rightarrow> 'c model_route \<Rightarrow> bool" where
  "same_model cu r \<longleftrightarrow> models_match (mr_model r) (cu_model cu)"

definition same_method :: "current_route \<Rightarrow> 'c model_route \<Rightarrow> bool" where
  "same_method cu r \<longleftrightarrow> api_methods_match (mr_api_method r) (cu_method cu)"

definition same_provider :: "current_route \<Rightarrow> 'c model_route \<Rightarrow> bool" where
  "same_provider cu r \<longleftrightarrow>
     provider_labels_match (mr_provider r) (cu_provider cu) \<or> models_match (mr_provider r) (cu_provider cu)"

definition unknown_method :: "current_route \<Rightarrow> bool" where
  "unknown_method cu \<longleftrightarrow> trim (cu_method cu) = []"

text \<open>The closure of \<open>filter_map\<close>: \<open>None\<close> for a route that is not offered, else its rank.\<close>

definition fallback_rank ::
    "current_route \<Rightarrow> bool \<Rightarrow> nat \<Rightarrow> 'c model_route \<Rightarrow> (nat \<times> nat \<times> nat) option" where
  "fallback_rank cu credential_failure i r =
     (if same_model cu r \<and> same_provider cu r \<and> (same_method cu r \<or> unknown_method cu) then None
      else if credential_failure \<and> same_provider cu r \<and> (same_method cu r \<or> unknown_method cu) then None
      else let tier = (if same_model cu r \<and> \<not> same_method cu r then 0
                       else if same_provider cu r then 1 else 2);
               no_oauth = (if method_is_oauth (method_parse (mr_api_method r)) then 0 else 1)
           in Some (tier, no_oauth, i))"

text \<open>\<open>Iterator::min\<close>.\<close>

definition list_min :: "'a::linorder list \<Rightarrow> 'a option" where
  "list_min xs = (case xs of [] \<Rightarrow> None | x # rest \<Rightarrow> Some (fold min rest x))"

definition fallback_ranks ::
    "'c model_route list \<Rightarrow> current_route \<Rightarrow> bool \<Rightarrow> (nat \<times> nat \<times> nat) list" where
  "fallback_ranks routes cu credential_failure =
     List.map_filter (\<lambda>(i, r). fallback_rank cu credential_failure i r)
       (filter (\<lambda>(i, r). mr_available r) (zip [0..<length routes] routes))"

definition pick_next_fallback_route_with_options ::
    "'c model_route list \<Rightarrow> current_route \<Rightarrow> bool \<Rightarrow> nat option" where
  "pick_next_fallback_route_with_options routes cu credential_failure =
     map_option (\<lambda>(_, _, i). i) (list_min (fallback_ranks routes cu credential_failure))"

definition pick_next_fallback_route :: "'c model_route list \<Rightarrow> current_route \<Rightarrow> nat option" where
  "pick_next_fallback_route routes cu = pick_next_fallback_route_with_options routes cu False"

section \<open>Merging route catalogs (\<open>selection.rs\<close>)\<close>

definition is_generic_route :: "string \<Rightarrow> bool" where
  "is_generic_route m \<longleftrightarrow> m = ''openai-compatible''"

definition is_profile_route :: "string \<Rightarrow> bool" where
  "is_profile_route m \<longleftrightarrow> prefix ''openai-compatible:'' m"

definition duplicate_route_api_method :: "string \<Rightarrow> string \<Rightarrow> bool" where
  "duplicate_route_api_method existing candidate \<longleftrightarrow>
     existing = candidate \<or> is_generic_route existing \<and> is_profile_route candidate \<or>
     is_profile_route existing \<and> is_generic_route candidate"

definition should_replace_duplicate_route :: "'c model_route \<Rightarrow> 'c model_route \<Rightarrow> bool" where
  "should_replace_duplicate_route existing candidate \<longleftrightarrow>
     \<not> is_profile_route (mr_api_method existing) \<and> is_profile_route (mr_api_method candidate)"

text \<open>The list so far with the buckets of indices by provider and model.\<close>

definition dedupe_step ::
    "'c model_route \<Rightarrow> 'c model_route list \<times> (string \<times> string \<Rightarrow> nat list) \<Rightarrow>
     'c model_route list \<times> (string \<times> string \<Rightarrow> nat list)" where
  "dedupe_step r s =
     (case s of (deduped, buckets) \<Rightarrow>
        let key = (mr_provider r, mr_model r)
        in case find (\<lambda>i. duplicate_route_api_method (mr_api_method (deduped ! i)) (mr_api_method r))
                  (buckets key) of
             Some i \<Rightarrow>
               (if should_replace_duplicate_route (deduped ! i) r then deduped[i := r] else deduped, buckets)
           | None \<Rightarrow> (deduped @ [r], buckets(key := buckets key @ [length deduped])))"

definition dedupe_model_routes :: "'c model_route list \<Rightarrow> 'c model_route list" where
  "dedupe_model_routes routes = fst (fold dedupe_step routes ([], \<lambda>_. []))"

text \<open>The quadratic reference of the unit tests.\<close>

definition duplicate_model_route :: "'c model_route \<Rightarrow> 'c model_route \<Rightarrow> bool" where
  "duplicate_model_route existing candidate \<longleftrightarrow>
     mr_provider existing = mr_provider candidate \<and> mr_model existing = mr_model candidate \<and>
     duplicate_route_api_method (mr_api_method existing) (mr_api_method candidate)"

definition reference_step :: "'c model_route \<Rightarrow> 'c model_route list \<Rightarrow> 'c model_route list" where
  "reference_step r deduped =
     (case find_index (\<lambda>e. duplicate_model_route e r) deduped of
        Some i \<Rightarrow> if should_replace_duplicate_route (deduped ! i) r then deduped[i := r] else deduped
      | None \<Rightarrow> deduped @ [r])"

definition dedupe_model_routes_reference :: "'c model_route list \<Rightarrow> 'c model_route list" where
  "dedupe_model_routes_reference routes = fold reference_step routes []"

section \<open>Server delays (\<open>retry_after.rs\<close>), in nanoseconds of a clock\<close>

definition max_retry_after :: u64 where "max_retry_after = 60"

definition sat_mul_u64 :: "u64 \<Rightarrow> u64 \<Rightarrow> u64" where
  "sat_mul_u64 a b = (if unat a * unat b < 2 ^ 64 then a * b else - 1)"

definition sat_add_u64 :: "u64 \<Rightarrow> u64 \<Rightarrow> u64" where
  "sat_add_u64 a b = (if unat a + unat b < 2 ^ 64 then a + b else - 1)"

definition delta_seconds :: "string \<Rightarrow> u64" where
  "delta_seconds v =
     fold (\<lambda>c s. min (sat_add_u64 (sat_mul_u64 s 10) (of_nat (byte c - 48))) max_retry_after) v 0"

text \<open>A date is parsed by \<open>httpdate\<close>, an argument; times are seconds.\<close>

definition retry_after_delay_at :: "(string \<Rightarrow> nat option) \<Rightarrow> string option \<Rightarrow> nat \<Rightarrow> nat option" where
  "retry_after_delay_at parse_http_date header now =
     Option.bind header (\<lambda>h.
       let v = trim h
       in if v = [] then None
          else if list_all is_ascii_digit v then Some (unat (delta_seconds v))
          else map_option (\<lambda>t. min (t - now) (unat max_retry_after)) (parse_http_date v))"

end
