(* ===== verification/Failover_Loop.thy ===== *)
theory Failover_Loop
  imports Provider_Failover
begin

text \<open>
  The request loop of the multi-provider (\<open>crates/jcode-base/src/provider\<close>: \<open>mod.rs\<close>, \<open>failover.rs\<close>,
  \<open>multi_provider.rs\<close>, \<open>dispatch.rs\<close>, the provider marks of \<open>models.rs\<close>, \<open>account_failover.rs\<close>): which
  provider a request goes to, what a failure leaves behind, when another account is tried and when
  the user is asked to switch. Credential files, usage probes, the clocks and the provider runtimes
  are the host \<open>'w\<close>, reached through a record of functions; an error is its text. Logging, the
  activity ledger and the catalog refreshes that a request spawns are left out, and the request is the
  one left after images were downscaled.
\<close>

section \<open>Requests and state\<close>

datatype completion_mode = Unified string | Split string string

text \<open>The messages and tools as their JSON texts; \<open>None\<close> where serialization fails.\<close>

record request =
  rq_messages_json :: "string option"
  rq_tools_json :: "string option"
  rq_mode :: completion_mode

fun system_len :: "completion_mode \<Rightarrow> nat" where
  "system_len (Unified s) = length s"
| "system_len (Split s d) = length s + length d"

definition json_len :: "string option \<Rightarrow> nat" where
  "json_len j = (case j of None \<Rightarrow> 0 | Some s \<Rightarrow> length s)"

definition estimate_request_input :: "request \<Rightarrow> nat \<times> nat" where
  "estimate_request_input q =
     (let chars = json_len (rq_messages_json q) + json_len (rq_tools_json q) + system_len (rq_mode q)
      in (chars, chars div 4))"

record mark =
  mk_reason :: string
  mk_recorded_at :: nat
  mk_observed_at :: nat

record 'w world =
  w_active :: active_provider
  w_forced :: "active_provider option"
  w_marks :: "string \<Rightarrow> mark option"
  w_notices :: "string list"
  w_host :: 'w

text \<open>Times are nanoseconds of the monotonic and of the system clock.\<close>

record ('w, 's) host =
  h_slot :: "'w \<Rightarrow> active_provider \<Rightarrow> bool"
  h_on_auth_changed :: "'w \<Rightarrow> 'w"
  h_send :: "'w \<Rightarrow> active_provider \<Rightarrow> request \<Rightarrow> string option \<Rightarrow> (string + 's) \<times> 'w"
  h_instant :: "'w \<Rightarrow> nat"
  h_system :: "'w \<Rightarrow> nat"
  h_claude_label :: "'w \<Rightarrow> string option"
  h_openai_label :: "'w \<Rightarrow> string option"
  h_set_claude_override :: "'w \<Rightarrow> string option \<Rightarrow> 'w"
  h_set_openai_override :: "'w \<Rightarrow> string option \<Rightarrow> 'w"
  h_invalidate :: "'w \<Rightarrow> active_provider \<Rightarrow> 'w"
  h_clear_models :: "'w \<Rightarrow> 'w"
  h_account_failover :: "'w \<Rightarrow> bool"
  h_candidates :: "'w \<Rightarrow> active_provider \<Rightarrow> string list"
  h_guidance :: "'w \<Rightarrow> active_provider \<Rightarrow> string option"
  h_claude_exhausted :: "'w \<Rightarrow> bool"
  h_prompt_json :: "failover_prompt \<Rightarrow> string option"

section \<open>Marks of unavailable providers (\<open>models.rs\<close>)\<close>

definition ns_per_sec :: nat where "ns_per_sec = 1000000000"

definition provider_runtime_unavailable_ttl :: nat where
  "provider_runtime_unavailable_ttl = 5 * 60 * ns_per_sec"

definition account_scope :: "string option \<Rightarrow> string" where
  "account_scope label =
     (case label of None \<Rightarrow> ''default'' | Some l \<Rightarrow> if trim l = [] then ''default'' else trim l)"

text \<open>\<open>current_provider_runtime_scope_key\<close> with \<open>provider_runtime_scope_key\<close>: the label passed on is a
  non-empty scope, so its own default is not reached.\<close>

definition scope_key :: "('w, 's) host \<Rightarrow> 'w \<Rightarrow> string \<Rightarrow> string" where
  "scope_key h e provider =
     (let n = to_ascii_lowercase (trim provider)
      in if n = ''openai'' then ''openai::'' @ account_scope (Some (account_scope (h_openai_label h e)))
         else if n \<in> {''claude'', ''anthropic''}
         then ''claude::'' @ account_scope (Some (account_scope (h_claude_label h e)))
         else n @ ''::global'')"

definition mark_unavailable :: "('w, 's) host \<Rightarrow> string \<Rightarrow> string \<Rightarrow> 'w world \<Rightarrow> 'w world" where
  "mark_unavailable h provider reason w =
     (let key = scope_key h (w_host w) provider
      in if trim key = [] then w
         else w\<lparr>w_marks := (w_marks w)(key \<mapsto>
                \<lparr>mk_reason = trim reason, mk_recorded_at = h_instant h (w_host w),
                 mk_observed_at = h_system h (w_host w)\<rparr>)\<rparr>)"

definition clear_unavailable :: "('w, 's) host \<Rightarrow> string \<Rightarrow> 'w world \<Rightarrow> 'w world" where
  "clear_unavailable h provider w =
     (let key = scope_key h (w_host w) provider
      in if trim key = [] then w else w\<lparr>w_marks := (w_marks w)(key := None)\<rparr>)"

definition format_elapsed_duration_short :: "nat \<Rightarrow> string" where
  "format_elapsed_duration_short ns =
     (let s = ns div ns_per_sec
      in if s < 60 then show_nat s @ ''s''
         else if s < 3600 then show_nat (s div 60) @ ''m''
         else if s < 86400 then show_nat (s div 3600) @ ''h''
         else show_nat (s div 86400) @ ''d'')"

text \<open>Reading a mark drops it when it is older than five minutes. \<open>Instant::elapsed\<close> saturates.\<close>

definition runtime_provider_unavailability ::
    "('w, 's) host \<Rightarrow> string \<Rightarrow> 'w world \<Rightarrow> mark option \<times> 'w world" where
  "runtime_provider_unavailability h provider w =
     (let key = scope_key h (w_host w) provider
      in case w_marks w key of
           None \<Rightarrow> (None, w)
         | Some m \<Rightarrow>
             if h_instant h (w_host w) - mk_recorded_at m \<le> provider_runtime_unavailable_ttl
             then (Some m, w) else (None, w\<lparr>w_marks := (w_marks w)(key := None)\<rparr>))"

definition unavailability_detail ::
    "('w, 's) host \<Rightarrow> string \<Rightarrow> 'w world \<Rightarrow> string option \<times> 'w world" where
  "unavailability_detail h provider w =
     (case runtime_provider_unavailability h provider w of
        (None, w1) \<Rightarrow> (None, w1)
      | (Some m, w1) \<Rightarrow>
          (Some (mk_reason m @
             (if mk_observed_at m \<le> h_system h (w_host w1)
              then '' (runtime-error, '' @
                format_elapsed_duration_short (h_system h (w_host w1) - mk_observed_at m) @ '' ago)''
              else [])), w1))"

section \<open>Accounts (\<open>account_failover.rs\<close>)\<close>

fun active_account_label :: "('w, 's) host \<Rightarrow> 'w \<Rightarrow> active_provider \<Rightarrow> string option" where
  "active_account_label h e Claude = h_claude_label h e"
| "active_account_label h e OpenAI = h_openai_label h e"
| "active_account_label h e _ = None"

fun set_account_override :: "('w, 's) host \<Rightarrow> active_provider \<Rightarrow> string option \<Rightarrow> 'w \<Rightarrow> 'w" where
  "set_account_override h Claude label e = h_set_claude_override h e label"
| "set_account_override h OpenAI label e = h_set_openai_override h e label"
| "set_account_override h _ label e = e"

definition usage_exhausted_reason :: "('w, 's) host \<Rightarrow> 'w \<Rightarrow> active_provider \<Rightarrow> string" where
  "usage_exhausted_reason h e p =
     ''OAuth usage exhausted'' @ (case h_guidance h e p of None \<Rightarrow> [] | Some g \<Rightarrow> ''. '' @ g)"

definition limit_needles :: "string list" where
  "limit_needles =
     [''quota'', ''insufficient_quota'', ''rate limit'', ''rate_limit'', ''rate_limit_exceeded'',
      ''too many requests'', ''billing'', ''credit'', ''payment required'', ''usage exhausted'',
      ''limit reached'', ''429'', ''402'']"

definition maybe_annotate_limit_summary ::
    "('w, 's) host \<Rightarrow> 'w \<Rightarrow> active_provider \<Rightarrow> string \<Rightarrow> string" where
  "maybe_annotate_limit_summary h e p summary =
     (if \<not> list_ex (str_contains (to_ascii_lowercase summary)) limit_needles then summary
      else case h_guidance h e p of
             None \<Rightarrow> summary
           | Some g \<Rightarrow> if str_contains summary g then summary else summary @ ''. '' @ g)"

section \<open>Errors and notices (\<open>failover.rs\<close>)\<close>

definition summarize_error :: "string \<Rightarrow> string" where
  "summarize_error err = trim (case lines err of [] \<Rightarrow> ''unknown error'' | l # _ \<Rightarrow> l)"

definition precheck_unavailable_reason :: "('w, 's) host \<Rightarrow> 'w \<Rightarrow> active_provider \<Rightarrow> string option" where
  "precheck_unavailable_reason h e p =
     (if p = Claude \<and> h_claude_exhausted h e then Some (usage_exhausted_reason h e p) else None)"

definition fallback_sequence_for :: "active_provider \<Rightarrow> active_provider option \<Rightarrow> active_provider list" where
  "fallback_sequence_for active forced =
     (case forced of Some f \<Rightarrow> [f] | None \<Rightarrow> fallback_sequence active)"

definition build_failover_prompt ::
    "active_provider \<Rightarrow> active_provider \<Rightarrow> string \<Rightarrow> nat \<Rightarrow> nat \<Rightarrow> failover_prompt" where
  "build_failover_prompt from_p to_p reason chars tokens =
     \<lparr>fp_from_provider = provider_key from_p, fp_from_label = provider_label from_p,
      fp_to_provider = provider_key to_p, fp_to_label = provider_label to_p, fp_reason = reason,
      fp_estimated_input_chars = chars, fp_estimated_input_tokens = tokens\<rparr>"

definition no_provider_available_error :: "('w, 's) host \<Rightarrow> 'w \<Rightarrow> string list \<Rightarrow> string" where
  "no_provider_available_error h e notes =
     ''No tokens/providers left: no usable provider right now. Anthropic/OpenAI usage may be exhausted and GitHub Copilot is not authenticated or currently unavailable.'' @
     (if notes = [] then [] else '' Details: '' @ join '' | '' notes) @
     (let extra = List.map_filter (h_guidance h e) [Claude, OpenAI]
      in if extra = [] then [] else '' '' @ join '' '' extra) @
     '' Use `/usage` to check limits and `/login <provider>` to re-authenticate.''"

definition lightning :: string where
  "lightning = map char_of [0xE2::nat, 0x9A, 0xA1]"

definition arrow :: string where
  "arrow = map char_of [0xE2::nat, 0x86, 0x92]"

section \<open>One provider (\<open>dispatch.rs\<close>)\<close>

definition reconcile_if_missing ::
    "('w, 's) host \<Rightarrow> active_provider \<Rightarrow> 'w world \<Rightarrow> bool \<times> 'w world" where
  "reconcile_if_missing h p w =
     (if h_slot h (w_host w) p then (True, w)
      else let e = h_on_auth_changed h (w_host w) in (h_slot h e p, w\<lparr>w_host := e\<rparr>))"

fun missing_provider_error :: "active_provider \<Rightarrow> string" where
  "missing_provider_error Claude = ''Claude credentials not available. Run `claude` to log in.''"
| "missing_provider_error OpenAI =
     ''OpenAI credentials not available. Run `jcode login --provider openai` to log in.''"
| "missing_provider_error Copilot =
     ''GitHub Copilot is not available. Run `jcode login --provider copilot`.''"
| "missing_provider_error Antigravity =
     ''Antigravity is not available. Run `jcode login --provider antigravity`.''"
| "missing_provider_error Gemini = ''Gemini is not available. Run `jcode login --provider gemini`.''"
| "missing_provider_error Cursor = ''Cursor is not available. Run `jcode login --provider cursor`.''"
| "missing_provider_error Bedrock =
     ''AWS Bedrock is not available. Configure AWS credentials and region, or set AWS_PROFILE/AWS_REGION.''"
| "missing_provider_error OpenRouter =
     ''OpenRouter credentials not available. Set OPENROUTER_API_KEY environment variable.''"

definition complete_on_provider ::
    "('w, 's) host \<Rightarrow> active_provider \<Rightarrow> request \<Rightarrow> string option \<Rightarrow> 'w world \<Rightarrow>
     (string + 's) \<times> 'w world" where
  "complete_on_provider h p q resume w =
     (case reconcile_if_missing h p w of
        (False, w1) \<Rightarrow> (Inl (missing_provider_error p), w1)
      | (True, w1) \<Rightarrow>
          (case h_send h (w_host w1) p q resume of (r, e) \<Rightarrow> (r, w1\<lparr>w_host := e\<rparr>)))"

section \<open>Another account of the same provider (\<open>multi_provider.rs\<close>)\<close>

definition host_step :: "('w \<Rightarrow> 'w) \<Rightarrow> 'w world \<Rightarrow> 'w world" where
  "host_step f w = w\<lparr>w_host := f (w_host w)\<rparr>"

definition push_notice :: "string \<Rightarrow> 'w world \<Rightarrow> 'w world" where
  "push_notice n w = w\<lparr>w_notices := w_notices w @ [n]\<rparr>"

definition account_switch_notice :: "active_provider \<Rightarrow> string \<Rightarrow> string \<Rightarrow> string" where
  "account_switch_notice p from_label to_label =
     lightning @ '' Auto-switched '' @ provider_label p @ '' account: '' @ from_label @ '' '' @ arrow @ '' '' @
     to_label @ ''. To turn this off, set `[provider].same_provider_account_failover = false` in `~/.jcode/config.toml` or export `JCODE_SAME_PROVIDER_ACCOUNT_FAILOVER=false`.''"

text \<open>Selecting an account before an attempt.\<close>

definition switch_account :: "('w, 's) host \<Rightarrow> active_provider \<Rightarrow> string \<Rightarrow> 'w world \<Rightarrow> 'w world" where
  "switch_account h p label w =
     (let w1 = clear_unavailable h (provider_key p) (host_step (set_account_override h p (Some label)) w);
          w2 = (if p = OpenAI then host_step (h_clear_models h) w1 else w1)
      in host_step (\<lambda>e. h_invalidate h e p) w2)"

fun try_accounts ::
    "('w, 's) host \<Rightarrow> active_provider \<Rightarrow> request \<Rightarrow> string \<Rightarrow> string list \<Rightarrow> string list \<Rightarrow> 'w world \<Rightarrow>
     's option \<times> string list \<times> 'w world" where
  "try_accounts h p q original [] notes w = (None, notes, w)"
| "try_accounts h p q original (label # rest) notes w =
     (case complete_on_provider h p q None (switch_account h p label w) of
        (Inr stream, w1) \<Rightarrow>
          (Some stream, notes, push_notice (account_switch_notice p original label) w1)
      | (Inl err, w1) \<Rightarrow>
          let summary = maybe_annotate_limit_summary h (w_host w1) p (summarize_error err);
              note = provider_label p @ '' account '' @ label @ '': '' @ summary;
              w2 = (if should_mark_unavailable (classify_failover_error_message err)
                    then mark_unavailable h (provider_key p) summary w1 else w1)
          in try_accounts h p q original rest (notes @ [note]) w2)"

definition restore_account :: "('w, 's) host \<Rightarrow> active_provider \<Rightarrow> string \<Rightarrow> 'w world \<Rightarrow> 'w world" where
  "restore_account h p original w =
     (let w1 = host_step (\<lambda>e. h_invalidate h e p) (host_step (set_account_override h p (Some original)) w)
      in if p = OpenAI then host_step (h_clear_models h) w1 else w1)"

definition try_same_provider_account_failover ::
    "('w, 's) host \<Rightarrow> active_provider \<Rightarrow> request \<Rightarrow> string list \<Rightarrow> 'w world \<Rightarrow>
     's option \<times> string list \<times> 'w world" where
  "try_same_provider_account_failover h p q notes w =
     (if \<not> h_account_failover h (w_host w) then (None, notes, w)
      else case active_account_label h (w_host w) p of
             None \<Rightarrow> (None, notes, w)
           | Some original \<Rightarrow>
               let alternatives = h_candidates h (w_host w) p
               in if alternatives = [] then (None, notes, w)
                  else case try_accounts h p q original alternatives notes w of
                         (Some stream, notes', w') \<Rightarrow> (Some stream, notes', w')
                       | (None, notes', w') \<Rightarrow> (None, notes', restore_account h p original w'))"

section \<open>The request loop (\<open>mod.rs\<close>)\<close>

text \<open>What stands against sending to a provider, in the order of the tests: \<open>Inl\<close> carries the note and,
  for a provider that is configured, the reason a switch would be offered for.\<close>

definition blocked ::
    "('w, 's) host \<Rightarrow> active_provider \<Rightarrow> 'w world \<Rightarrow> (string \<times> string option) option \<times> 'w world" where
  "blocked h c w =
     (case reconcile_if_missing h c w of
        (False, w1) \<Rightarrow> (Some (''not configured'', None), w1)
      | (True, w1) \<Rightarrow>
          (case unavailability_detail h (provider_key c) w1 of
             (Some detail, w2) \<Rightarrow> (Some (detail, Some detail), w2)
           | (None, w2) \<Rightarrow>
               (case precheck_unavailable_reason h (w_host w2) c of
                  Some reason \<Rightarrow>
                    (Some (reason, Some reason), mark_unavailable h (provider_key c) reason w2)
                | None \<Rightarrow> (None, w2))))"

definition fallback_notice :: "active_provider \<Rightarrow> active_provider \<Rightarrow> string" where
  "fallback_notice from_p to_p =
     lightning @ '' Auto-fallback: '' @ provider_label from_p @ '' unavailable, switched to '' @ provider_label to_p"

definition after_success :: "('w, 's) host \<Rightarrow> active_provider \<Rightarrow> active_provider \<Rightarrow> 'w world \<Rightarrow> 'w world" where
  "after_success h active c w =
     (let w1 = clear_unavailable h (provider_key c) w
      in if c \<noteq> active then push_notice (fallback_notice active c) (w1\<lparr>w_active := c\<rparr>) else w1)"

fun failover_loop ::
    "('w, 's) host \<Rightarrow> request \<Rightarrow> string option \<Rightarrow> active_provider \<Rightarrow> active_provider list \<Rightarrow>
     string list \<Rightarrow> string option \<Rightarrow> 'w world \<Rightarrow> (string + 's) \<times> 'w world" where
  "failover_loop h q resume active [] notes reason w =
     (Inl (no_provider_available_error h (w_host w) notes), w)"
| "failover_loop h q resume active (c # rest) notes reason w =
     (if c \<noteq> active \<and> reason \<noteq> None
      then case estimate_request_input q of (chars, tokens) \<Rightarrow>
        (Inl (to_error_message (h_prompt_json h)
           (build_failover_prompt active c (the_default ''provider unavailable'' reason) chars tokens)), w)
      else case blocked h c w of
        (Some (detail, why), w1) \<Rightarrow>
          failover_loop h q resume active rest (notes @ [provider_label c @ '': '' @ detail])
            (if c = active \<and> why \<noteq> None then why else reason) w1
      | (None, w1) \<Rightarrow>
          (case complete_on_provider h c q resume w1 of
             (Inr stream, w2) \<Rightarrow> (Inr stream, after_success h active c w2)
           | (Inl err, w2) \<Rightarrow>
               let summary = maybe_annotate_limit_summary h (w_host w2) c (summarize_error err);
                   decision = classify_failover_error_message err;
                   notes1 = notes @ [provider_label c @ '': '' @ summary];
                   w3 = (if should_mark_unavailable decision
                         then mark_unavailable h (provider_key c) summary w2 else w2)
               in if \<not> should_failover decision then (Inl err, w2)
                  else if c = active
                  then case try_same_provider_account_failover h c q notes1 w3 of
                         (Some stream, notes2, w4) \<Rightarrow> (Inr stream, w4)
                       | (None, notes2, w4) \<Rightarrow> failover_loop h q resume active rest notes2 (Some summary) w4
                  else failover_loop h q resume active rest notes1 reason w3))"

definition complete_with_failover ::
    "('w, 's) host \<Rightarrow> request \<Rightarrow> string option \<Rightarrow> 'w world \<Rightarrow> (string + 's) \<times> 'w world" where
  "complete_with_failover h q resume w =
     (case w_forced w of
        Some f \<Rightarrow>
          failover_loop h q resume f (fallback_sequence_for f (Some f)) [] None
            (if w_active w \<noteq> f then w\<lparr>w_active := f\<rparr> else w)
      | None \<Rightarrow>
          failover_loop h q resume (w_active w) (fallback_sequence_for (w_active w) None) [] None w)"

end
