(* ===== verification/Provider_Facts.thy ===== *)
theory Provider_Facts
  imports Failover_Loop
begin

text \<open>
  Facts about providers: the bucketed merge of catalogs is the quadratic one, the route offered next
  is the least of the eligible ones, and the request loop seen through the provider it starts with.
\<close>

section \<open>Searching by index\<close>

lemma find_index_Some:
  "find_index P xs = Some i \<longleftrightarrow> i < length xs \<and> P (xs ! i) \<and> (\<forall>j < i. \<not> P (xs ! j))"
proof (induction xs arbitrary: i)
  case (Cons x xs)
  show ?case
  proof (cases i)
    case 0
    then show ?thesis by auto
  next
    case (Suc k)
    then show ?thesis using Cons by (auto simp: All_less_Suc2)
  qed
qed simp

lemma find_index_None: "find_index P xs = None \<longleftrightarrow> (\<forall>x \<in> set xs. \<not> P x)"
  by (induction xs) auto

lemma find_index_upt: "find_index P xs = find (\<lambda>i. P (xs ! i)) [0..<length xs]"
proof (induction xs)
  case (Cons x xs)
  have "[0..<length (x # xs)] = 0 # map Suc [0..<length xs]"
    by (simp add: map_Suc_upt upt_conv_Cons del: upt_Suc)
  moreover have "find (\<lambda>i. P ((x # xs) ! i)) (map Suc ks) = map_option Suc (find (\<lambda>i. P (xs ! i)) ks)" for ks
    by (induction ks) auto
  ultimately show ?case using Cons by simp
qed simp

lemma find_filter: "find P (filter Q xs) = find (\<lambda>x. Q x \<and> P x) xs"
  by (induction xs) auto

section \<open>Merging catalogs\<close>

definition buckets_of :: "'c model_route list \<Rightarrow> string \<times> string \<Rightarrow> nat list" where
  "buckets_of rs key = filter (\<lambda>i. (mr_provider (rs ! i), mr_model (rs ! i)) = key) [0..<length rs]"

lemma bucket_search:
  "find (\<lambda>i. duplicate_route_api_method (mr_api_method (rs ! i)) (mr_api_method r))
     (buckets_of rs (mr_provider r, mr_model r)) = find_index (\<lambda>e. duplicate_model_route e r) rs"
  by (simp add: find_index_upt buckets_of_def find_filter duplicate_model_route_def conj_assoc)

lemma buckets_of_append:
  "buckets_of (rs @ [r]) =
     (buckets_of rs) ((mr_provider r, mr_model r) := buckets_of rs (mr_provider r, mr_model r) @ [length rs])"
proof
  fix key
  have "filter (\<lambda>i. (mr_provider ((rs @ [r]) ! i), mr_model ((rs @ [r]) ! i)) = key) [0..<length rs] =
      buckets_of rs key"
    unfolding buckets_of_def by (rule filter_cong) (simp_all add: nth_append)
  then show "buckets_of (rs @ [r]) key =
      ((buckets_of rs) ((mr_provider r, mr_model r) :=
         buckets_of rs (mr_provider r, mr_model r) @ [length rs])) key"
    by (auto simp: buckets_of_def)
qed

lemma buckets_of_update:
  assumes "i < length rs" and "mr_provider r = mr_provider (rs ! i)" and "mr_model r = mr_model (rs ! i)"
  shows "buckets_of (rs[i := r]) = buckets_of rs"
proof
  fix key
  show "buckets_of (rs[i := r]) key = buckets_of rs key"
    unfolding buckets_of_def length_list_update
    by (rule filter_cong) (use assms in \<open>auto simp: nth_list_update\<close>)
qed

lemma dedupe_step_reference:
  "dedupe_step r (rs, buckets_of rs) = (reference_step r rs, buckets_of (reference_step r rs))"
proof (cases "find_index (\<lambda>e. duplicate_model_route e r) rs")
  case None
  then show ?thesis by (simp add: dedupe_step_def reference_step_def bucket_search buckets_of_append Let_def)
next
  case (Some i)
  then have "i < length rs" "duplicate_model_route (rs ! i) r" by (simp_all add: find_index_Some)
  then have "buckets_of (rs[i := r]) = buckets_of rs"
    by (intro buckets_of_update) (simp_all add: duplicate_model_route_def)
  then show ?thesis using Some by (simp add: dedupe_step_def reference_step_def bucket_search Let_def)
qed

lemma dedupe_fold:
  "fold dedupe_step routes (rs, buckets_of rs) =
     (fold reference_step routes rs, buckets_of (fold reference_step routes rs))"
  by (induction routes arbitrary: rs) (simp_all add: dedupe_step_reference)

lemma buckets_of_Nil: "buckets_of [] = (\<lambda>_. [])"
  by (simp add: buckets_of_def fun_eq_iff)

lemma dedupe_is_reference: "dedupe_model_routes routes = dedupe_model_routes_reference routes"
  using dedupe_fold [of routes "[]"]
  by (simp add: buckets_of_Nil dedupe_model_routes_def dedupe_model_routes_reference_def)

section \<open>The merged catalog\<close>

definition no_duplicates :: "'c model_route list \<Rightarrow> bool" where
  "no_duplicates rs \<longleftrightarrow> (\<forall>i < length rs. \<forall>j < length rs. i \<noteq> j \<longrightarrow> \<not> duplicate_model_route (rs ! i) (rs ! j))"

text \<open>A route stands for another: same provider and model, and the same method, or a named profile
  where the other has the generic method.\<close>

definition stands_for :: "'c model_route \<Rightarrow> 'c model_route \<Rightarrow> bool" where
  "stands_for r' r \<longleftrightarrow>
     mr_provider r' = mr_provider r \<and> mr_model r' = mr_model r \<and>
     (mr_api_method r' = mr_api_method r \<or>
      is_generic_route (mr_api_method r) \<and> is_profile_route (mr_api_method r'))"

lemma duplicate_sym: "duplicate_model_route r r' \<longleftrightarrow> duplicate_model_route r' r"
  by (auto simp: duplicate_model_route_def duplicate_route_api_method_def)

lemma generic_not_profile: "is_generic_route m \<Longrightarrow> \<not> is_profile_route m"
  by (auto simp: is_generic_route_def is_profile_route_def)

lemma reference_step_cases:
  obtains (fresh) "\<forall>e \<in> set rs. \<not> duplicate_model_route e r" "reference_step r rs = rs @ [r]"
  | (kept) i where "i < length rs" "stands_for (rs ! i) r" "reference_step r rs = rs"
  | (replaced) i where "i < length rs" "duplicate_model_route (rs ! i) r"
      "is_generic_route (mr_api_method (rs ! i))" "is_profile_route (mr_api_method r)"
      "reference_step r rs = rs[i := r]"
proof (cases "find_index (\<lambda>e. duplicate_model_route e r) rs")
  case None
  then have "reference_step r rs = rs @ [r]" by (simp add: reference_step_def)
  with None fresh show thesis by (simp add: find_index_None)
next
  case (Some i)
  then have i: "i < length rs" "duplicate_model_route (rs ! i) r" by (simp_all add: find_index_Some)
  show thesis
  proof (cases "should_replace_duplicate_route (rs ! i) r")
    case True
    then show thesis using replaced [of i] i Some generic_not_profile
      by (auto simp: reference_step_def should_replace_duplicate_route_def duplicate_model_route_def
          duplicate_route_api_method_def)
  next
    case False
    then have "stands_for (rs ! i) r" using i generic_not_profile
      by (auto simp: should_replace_duplicate_route_def duplicate_model_route_def
          duplicate_route_api_method_def stands_for_def)
    then show thesis using kept [of i] i False Some by (simp add: reference_step_def)
  qed
qed

lemma no_duplicates_append:
  "no_duplicates (rs @ [r]) \<longleftrightarrow> no_duplicates rs \<and> (\<forall>e \<in> set rs. \<not> duplicate_model_route e r)"
  unfolding no_duplicates_def
  by (auto simp: nth_append less_Suc_eq all_set_conv_all_nth duplicate_sym)

lemma no_duplicates_step:
  assumes nd: "no_duplicates rs"
  shows "no_duplicates (reference_step r rs)"
proof (rule reference_step_cases [of rs r])
  fix i
  assume i: "i < length rs" and d: "duplicate_model_route (rs ! i) r"
    and m: "is_generic_route (mr_api_method (rs ! i))" "is_profile_route (mr_api_method r)"
    and eq: "reference_step r rs = rs[i := r]"
  have "\<not> duplicate_model_route (rs ! j) r" if j: "j < length rs" "j \<noteq> i" for j
  proof
    assume "duplicate_model_route (rs ! j) r"
    then have "duplicate_model_route (rs ! j) (rs ! i)"
      using d m generic_not_profile
      by (auto simp: duplicate_model_route_def duplicate_route_api_method_def is_generic_route_def)
    with nd i j show False by (auto simp: no_duplicates_def)
  qed
  then show ?thesis using nd i
    by (auto simp: eq no_duplicates_def nth_list_update duplicate_sym [of r])
qed (use nd in \<open>simp_all add: no_duplicates_append\<close>)

lemma stands_for_trans_step:
  assumes "r' \<in> set rs" and s: "stands_for r' r0"
  shows "\<exists>r'' \<in> set (reference_step r rs). stands_for r'' r0"
proof (rule reference_step_cases [of rs r])
  fix i
  assume i: "i < length rs" and d: "duplicate_model_route (rs ! i) r"
    and m: "is_generic_route (mr_api_method (rs ! i))" "is_profile_route (mr_api_method r)"
    and eq: "reference_step r rs = rs[i := r]"
  from assms obtain j where j: "j < length rs" "rs ! j = r'" by (auto simp: in_set_conv_nth)
  show ?thesis
  proof (cases "j = i")
    case True
    then have "stands_for r r0" using s d m j generic_not_profile
      by (auto simp: stands_for_def duplicate_model_route_def)
    then show ?thesis using i by (auto simp: eq intro: set_update_memI)
  next
    case False
    then have "rs[i := r] ! j = r'" using j by simp
    then have "r' \<in> set (reference_step r rs)" using j eq by (metis length_list_update nth_mem)
    then show ?thesis using s by blast
  qed
qed (use assms in auto)

lemma stands_for_self_step: "\<exists>r' \<in> set (reference_step r rs). stands_for r' r"
proof (rule reference_step_cases [of rs r])
  fix i assume "i < length rs" "reference_step r rs = rs[i := r]"
  then show ?thesis by (auto simp: stands_for_def intro!: bexI [of _ r] set_update_memI)
qed (auto simp: stands_for_def)

lemma no_duplicates_fold: "no_duplicates rs \<Longrightarrow> no_duplicates (fold reference_step routes rs)"
  by (induction routes arbitrary: rs) (simp_all add: no_duplicates_step)

lemma stands_for_fold:
  "r' \<in> set rs \<Longrightarrow> stands_for r' r0 \<Longrightarrow> \<exists>r'' \<in> set (fold reference_step routes rs). stands_for r'' r0"
proof (induction routes arbitrary: rs r')
  case (Cons a routes)
  then obtain r1 where "r1 \<in> set (reference_step a rs)" "stands_for r1 r0"
    using stands_for_trans_step by blast
  then show ?case using Cons.IH by simp
qed auto

lemma reference_covers: "r \<in> set routes \<Longrightarrow> \<exists>r' \<in> set (fold reference_step routes rs). stands_for r' r"
proof (induction routes arbitrary: rs)
  case (Cons a routes)
  then show ?case
    using stands_for_self_step [of r rs] stands_for_fold [of _ "reference_step r rs" r routes] by auto
qed simp

lemma reference_subset: "set (fold reference_step routes rs) \<subseteq> set rs \<union> set routes"
proof (induction routes arbitrary: rs)
  case (Cons a routes)
  have "set (reference_step a rs) \<subseteq> insert a (set rs)"
    by (rule reference_step_cases [of rs a]) (auto dest: set_update_subset_insert [THEN subsetD])
  then show ?case using Cons [of "reference_step a rs"] by auto
qed simp

section \<open>The route offered next\<close>

lemma fold_min_le: "fold min xs (a :: 'a :: linorder) \<le> a \<and> (\<forall>x \<in> set xs. fold min xs a \<le> x) \<and>
    fold min xs a \<in> insert a (set xs)"
proof (induction xs arbitrary: a)
  case (Cons x xs)
  from Cons [of "min x a"] show ?case by (auto simp: min_def split: if_splits)
qed simp

lemma list_min_Some: "list_min xs = Some m \<longleftrightarrow> m \<in> set xs \<and> (\<forall>x \<in> set xs. m \<le> x)"
proof (cases xs)
  case (Cons a ys)
  then show ?thesis using fold_min_le [of ys a] by (auto simp: list_min_def intro: antisym)
qed (simp add: list_min_def)

lemma list_min_None: "list_min xs = None \<longleftrightarrow> xs = []"
  by (cases xs) (simp_all add: list_min_def)

text \<open>A route that the failure does not rule out.\<close>

definition eligible :: "current_route \<Rightarrow> bool \<Rightarrow> 'c model_route \<Rightarrow> bool" where
  "eligible cu credential_failure r \<longleftrightarrow>
     mr_available r \<and>
     \<not> (same_provider cu r \<and> (same_method cu r \<or> unknown_method cu) \<and>
        (same_model cu r \<or> credential_failure))"

definition tier :: "current_route \<Rightarrow> 'c model_route \<Rightarrow> nat" where
  "tier cu r = (if same_model cu r \<and> \<not> same_method cu r then 0 else if same_provider cu r then 1 else 2)"

definition metered :: "'c model_route \<Rightarrow> nat" where
  "metered r = (if method_is_oauth (method_parse (mr_api_method r)) then 0 else 1)"

lemma fallback_rank_eq:
  "mr_available r \<Longrightarrow> fallback_rank cu cf i r =
     (if eligible cu cf r then Some (tier cu r, metered r, i) else None)"
  by (auto simp: fallback_rank_def eligible_def tier_def metered_def Let_def)

lemma fallback_rank_Some:
  "mr_available r \<and> fallback_rank cu cf i r = Some x \<longleftrightarrow>
     eligible cu cf r \<and> x = (tier cu r, metered r, i)"
proof (cases "mr_available r")
  case True
  then show ?thesis by (auto simp: fallback_rank_eq)
qed (simp add: eligible_def)

lemma in_map_filter: "x \<in> set (List.map_filter f xs) \<longleftrightarrow> (\<exists>y \<in> set xs. f y = Some x)"
  by (induction xs) (auto simp: List.map_filter_simps split: option.splits)

lemma fallback_ranks_set:
  "set (fallback_ranks routes cu cf) =
     {(tier cu (routes ! i), metered (routes ! i), i) | i. i < length routes \<and> eligible cu cf (routes ! i)}"
proof -
  have "x \<in> set (fallback_ranks routes cu cf) \<longleftrightarrow>
      (\<exists>i. i < length routes \<and> mr_available (routes ! i) \<and> fallback_rank cu cf i (routes ! i) = Some x)" for x
  proof -
    have "x \<in> set (fallback_ranks routes cu cf) \<longleftrightarrow>
        (\<exists>i r. (i, r) \<in> set (zip [0..<length routes] routes) \<and> mr_available r \<and>
           fallback_rank cu cf i r = Some x)"
      by (auto simp: fallback_ranks_def in_map_filter)
    moreover have "(i, r) \<in> set (zip [0..<length routes] routes) \<longleftrightarrow> i < length routes \<and> r = routes ! i" for i r
      by (auto simp: set_zip intro!: exI [of _ i])
    ultimately show ?thesis by auto
  qed
  also have "\<dots> x \<longleftrightarrow> (\<exists>i. i < length routes \<and> eligible cu cf (routes ! i) \<and>
      x = (tier cu (routes ! i), metered (routes ! i), i))" for x
    by (simp only: fallback_rank_Some)
  finally show ?thesis by auto
qed

lemma pick_Some:
  "pick_next_fallback_route_with_options routes cu cf = Some i \<longleftrightarrow>
     i < length routes \<and> eligible cu cf (routes ! i) \<and>
     (\<forall>j < length routes. eligible cu cf (routes ! j) \<longrightarrow>
        (tier cu (routes ! i), metered (routes ! i), i) \<le> (tier cu (routes ! j), metered (routes ! j), j))"
proof -
  have "pick_next_fallback_route_with_options routes cu cf = Some i \<longleftrightarrow>
      (\<exists>t m. list_min (fallback_ranks routes cu cf) = Some (t, m, i))"
    by (auto simp: pick_next_fallback_route_with_options_def)
  also have "\<dots> \<longleftrightarrow> (\<exists>t m. (t, m, i) \<in> set (fallback_ranks routes cu cf) \<and>
      (\<forall>x \<in> set (fallback_ranks routes cu cf). (t, m, i) \<le> x))"
    by (simp only: list_min_Some)
  also have "\<dots> \<longleftrightarrow> i < length routes \<and> eligible cu cf (routes ! i) \<and>
     (\<forall>j < length routes. eligible cu cf (routes ! j) \<longrightarrow>
        (tier cu (routes ! i), metered (routes ! i), i) \<le> (tier cu (routes ! j), metered (routes ! j), j))"
    unfolding fallback_ranks_set by blast
  finally show ?thesis .
qed

lemma pick_None:
  "pick_next_fallback_route_with_options routes cu cf = None \<longleftrightarrow> (\<forall>r \<in> set routes. \<not> eligible cu cf r)"
proof -
  have "pick_next_fallback_route_with_options routes cu cf = None \<longleftrightarrow> set (fallback_ranks routes cu cf) = {}"
    by (simp add: pick_next_fallback_route_with_options_def list_min_None)
  also have "\<dots> \<longleftrightarrow> (\<forall>i < length routes. \<not> eligible cu cf (routes ! i))"
    unfolding fallback_ranks_set by blast
  finally show ?thesis by (simp add: all_set_conv_all_nth)
qed

section \<open>The request loop\<close>

text \<open>Everything but sending is independent of how requests are sent.\<close>

lemma send_irrelevant [simp]:
  "scope_key (h\<lparr>h_send := g\<rparr>) e p = scope_key h e p"
  "mark_unavailable (h\<lparr>h_send := g\<rparr>) p reason w = mark_unavailable h p reason w"
  "clear_unavailable (h\<lparr>h_send := g\<rparr>) p w = clear_unavailable h p w"
  "unavailability_detail (h\<lparr>h_send := g\<rparr>) p w = unavailability_detail h p w"
  "usage_exhausted_reason (h\<lparr>h_send := g\<rparr>) e c = usage_exhausted_reason h e c"
  "maybe_annotate_limit_summary (h\<lparr>h_send := g\<rparr>) e c s = maybe_annotate_limit_summary h e c s"
  "precheck_unavailable_reason (h\<lparr>h_send := g\<rparr>) e c = precheck_unavailable_reason h e c"
  "no_provider_available_error (h\<lparr>h_send := g\<rparr>) e notes = no_provider_available_error h e notes"
  "reconcile_if_missing (h\<lparr>h_send := g\<rparr>) c w = reconcile_if_missing h c w"
  "active_account_label (h\<lparr>h_send := g\<rparr>) e c = active_account_label h e c"
  "set_account_override (h\<lparr>h_send := g\<rparr>) c label e = set_account_override h c label e"
proof -
  show [simp]: "scope_key (h\<lparr>h_send := g\<rparr>) e p = scope_key h e p" for e p
    by (simp add: scope_key_def Let_def)
  show "mark_unavailable (h\<lparr>h_send := g\<rparr>) p reason w = mark_unavailable h p reason w"
    by (simp add: mark_unavailable_def Let_def)
  show "clear_unavailable (h\<lparr>h_send := g\<rparr>) p w = clear_unavailable h p w"
    by (simp add: clear_unavailable_def Let_def)
  show "unavailability_detail (h\<lparr>h_send := g\<rparr>) p w = unavailability_detail h p w"
    by (simp add: unavailability_detail_def runtime_provider_unavailability_def Let_def
        cong: if_cong option.case_cong prod.case_cong)
  show [simp]: "usage_exhausted_reason (h\<lparr>h_send := g\<rparr>) e c = usage_exhausted_reason h e c" for e c
    by (simp add: usage_exhausted_reason_def Let_def)
  show "maybe_annotate_limit_summary (h\<lparr>h_send := g\<rparr>) e c s = maybe_annotate_limit_summary h e c s"
    by (simp add: maybe_annotate_limit_summary_def Let_def)
  show "precheck_unavailable_reason (h\<lparr>h_send := g\<rparr>) e c = precheck_unavailable_reason h e c"
    by (simp add: precheck_unavailable_reason_def Let_def)
  show "no_provider_available_error (h\<lparr>h_send := g\<rparr>) e notes = no_provider_available_error h e notes"
    by (simp add: no_provider_available_error_def Let_def)
  show "reconcile_if_missing (h\<lparr>h_send := g\<rparr>) c w = reconcile_if_missing h c w"
    by (simp add: reconcile_if_missing_def Let_def)
  show "active_account_label (h\<lparr>h_send := g\<rparr>) e c = active_account_label h e c" by (cases c) simp_all
  show "set_account_override (h\<lparr>h_send := g\<rparr>) c label e = set_account_override h c label e"
    by (cases c) simp_all
qed

end
