(* ===== verification/Provider_Properties.thy ===== *)
theory Provider_Properties
  imports Provider_Facts "HOL-Library.Code_Target_Nat"
begin

text \<open>
  What the provider layer guarantees: where a request may go, what the user is asked, which route is
  offered, what a merged catalog holds, and that the strings by which routes and prompts travel lead
  back to what they were made from.
\<close>

section \<open>Where a request goes\<close>

definition second_choice :: "active_provider \<Rightarrow> active_provider" where
  "second_choice a = fallback_sequence a ! 1"

lemma fallback_sequence_split:
  "fallback_sequence a = a # second_choice a # drop 2 (fallback_sequence a)" "second_choice a \<noteq> a"
  by (cases a; simp add: second_choice_def)+

definition ask_to_switch ::
    "('w, 's) host \<Rightarrow> request \<Rightarrow> active_provider \<Rightarrow> string \<Rightarrow> string + 's" where
  "ask_to_switch h q a reason =
     (case estimate_request_input q of (chars, tokens) \<Rightarrow>
        Inl (to_error_message (h_prompt_json h)
          (build_failover_prompt a (second_choice a) reason chars tokens)))"

lemma loop_asks:
  "failover_loop h q resume a (second_choice a # rest) notes (Some reason) w = (ask_to_switch h q a reason, w)"
  using fallback_sequence_split(2) [of a]
  by (simp add: ask_to_switch_def the_default_def estimate_request_input_def Let_def)

lemma blocked_reason:
  assumes "h_slot h (w_host w) c" and "blocked h c w = (Some (d, why), w1)"
  shows "why = Some d"
  using assms
  by (auto simp: blocked_def reconcile_if_missing_def split: prod.splits option.splits)

lemma complete_on_provider_send:
  assumes "\<forall>e r. g e c q r = h_send h e c q r"
  shows "complete_on_provider (h\<lparr>h_send := g\<rparr>) c q resume w = complete_on_provider h c q resume w"
  using assms by (simp add: complete_on_provider_def split: prod.split bool.split)

lemma switch_account_send: "switch_account (h\<lparr>h_send := g\<rparr>) c label w = switch_account h c label w"
proof -
  have "host_step (set_account_override (h\<lparr>h_send := g\<rparr>) c (Some label)) w =
      host_step (set_account_override h c (Some label)) w"
    by (simp add: host_step_def)
  then show ?thesis by (simp add: switch_account_def Let_def)
qed

lemma try_accounts_send:
  assumes "\<forall>e r. g e c q r = h_send h e c q r"
  shows "try_accounts (h\<lparr>h_send := g\<rparr>) c q original labels ns w = try_accounts h c q original labels ns w"
  by (induction labels arbitrary: ns w)
    (simp_all add: complete_on_provider_send [where g = g and c = c and q = q and h = h, OF assms] switch_account_send Let_def
      cong: prod.case_cong sum.case_cong if_cong)

lemma restore_account_send: "restore_account (h\<lparr>h_send := g\<rparr>) c original w = restore_account h c original w"
  by (simp add: restore_account_def host_step_def Let_def)

lemma account_failover_send:
  assumes "\<forall>e r. g e c q r = h_send h e c q r"
  shows "try_same_provider_account_failover (h\<lparr>h_send := g\<rparr>) c q notes w =
    try_same_provider_account_failover h c q notes w"
  by (simp add: try_same_provider_account_failover_def try_accounts_send [where g = g and c = c and q = q and h = h, OF assms] restore_account_send Let_def
      cong: option.case_cong prod.case_cong if_cong)

lemma blocked_send: "blocked (h\<lparr>h_send := g\<rparr>) c w = blocked h c w"
  by (simp add: blocked_def cong: option.case_cong prod.case_cong bool.case_cong)

text \<open>The failing call of the provider in use, once it was allowed: its error is returned as it is, another
  account of the provider answers, or (with what to do then) the reason to go on.\<close>

definition after_failure ::
    "('w, 's) host \<Rightarrow> request \<Rightarrow> active_provider \<Rightarrow> string \<Rightarrow>
     (string \<Rightarrow> string list \<Rightarrow> 'w world \<Rightarrow> (string + 's) \<times> 'w world) \<Rightarrow> 'w world \<Rightarrow> (string + 's) \<times> 'w world" where
  "after_failure h q a err go_on w =
     (if classify_failover_error_message err = NoFailover then (Inl err, w)
      else let summary = maybe_annotate_limit_summary h (w_host w) a (summarize_error err);
               w1 = (if classify_failover_error_message err = RetryAndMarkUnavailable
                     then mark_unavailable h (provider_key a) summary w else w)
           in case try_same_provider_account_failover h a q [provider_label a @ '': '' @ summary] w1 of
                (Some stream, _, w2) \<Rightarrow> (Inr stream, w2)
              | (None, ns, w2) \<Rightarrow> go_on summary ns w2)"

definition first_attempt ::
    "('w, 's) host \<Rightarrow> request \<Rightarrow> string option \<Rightarrow> active_provider \<Rightarrow>
     (string \<Rightarrow> string list \<Rightarrow> 'w world \<Rightarrow> (string + 's) \<times> 'w world) \<Rightarrow> 'w world \<Rightarrow> (string + 's) \<times> 'w world" where
  "first_attempt h q resume a go_on w =
     (case blocked h a w of
        (Some (reason, _), w1) \<Rightarrow> go_on reason [provider_label a @ '': '' @ reason] w1
      | (None, w1) \<Rightarrow>
          (case complete_on_provider h a q resume w1 of
             (Inr stream, w2) \<Rightarrow> (Inr stream, clear_unavailable h (provider_key a) w2)
           | (Inl err, w2) \<Rightarrow> after_failure h q a err go_on w2))"

lemma loop_first:
  assumes slot: "h_slot h (w_host w) a"
  shows "failover_loop h q resume a (a # rest) [] None w =
    first_attempt h q resume a (\<lambda>reason ns w'. failover_loop h q resume a rest ns (Some reason) w') w"
proof (cases "blocked h a w")
  case (Pair b w1)
  show ?thesis
  proof (cases b)
    case None
    then show ?thesis using Pair
      by (simp add: first_attempt_def after_success_def after_failure_def Let_def should_failover_def
          should_mark_unavailable_def split: prod.split sum.split option.split)
  next
    case (Some dw)
    then obtain d where "b = Some (d, Some d)"
      using blocked_reason [OF slot, of _ _ w1] Pair by (cases dw) auto
    then show ?thesis using Pair by (simp add: first_attempt_def)
  qed
qed

lemma first_attempt_send:
  assumes "\<forall>e r. g e c q r = h_send h e c q r"
  shows "first_attempt (h\<lparr>h_send := g\<rparr>) q resume c go_on w = first_attempt h q resume c go_on w"
  by (simp add: first_attempt_def after_failure_def blocked_send
      complete_on_provider_send [where g = g and c = c and q = q and h = h, OF assms]
      account_failover_send [where g = g and c = c and q = q and h = h, OF assms] Let_def
      cong: prod.case_cong option.case_cong sum.case_cong if_cong)

lemma unforced_outcome:
  assumes "w_forced w = None" and "h_slot h (w_host w) (w_active w)"
  shows "complete_with_failover h q resume w =
    first_attempt h q resume (w_active w) (\<lambda>reason _ w'. (ask_to_switch h q (w_active w) reason, w')) w"
proof -
  let ?a = "w_active w"
  have "complete_with_failover h q resume w =
      failover_loop h q resume ?a (?a # second_choice ?a # drop 2 (fallback_sequence ?a)) [] None w"
    using assms(1) fallback_sequence_split(1) [of ?a]
    by (simp add: complete_with_failover_def fallback_sequence_for_def)
  also have "\<dots> = first_attempt h q resume ?a (\<lambda>reason ns w'.
      failover_loop h q resume ?a (second_choice ?a # drop 2 (fallback_sequence ?a)) ns (Some reason) w') w"
    by (rule loop_first [OF assms(2)])
  finally show ?thesis by (simp only: loop_asks)
qed

lemma ask_to_switch_send: "ask_to_switch (h\<lparr>h_send := g\<rparr>) q a reason = ask_to_switch h q a reason"
  by (simp add: ask_to_switch_def)

lemma forced_loop_send:
  assumes "\<forall>e r. g e f q r = h_send h e f q r"
  shows "failover_loop (h\<lparr>h_send := g\<rparr>) q resume f [f] ns reason w = failover_loop h q resume f [f] ns reason w"
  by (simp add: blocked_send after_success_def
      complete_on_provider_send [where g = g and c = f and q = q and h = h, OF assms]
      account_failover_send [where g = g and c = f and q = q and h = h, OF assms] Let_def
      cong: prod.case_cong option.case_cong sum.case_cong if_cong)

section \<open>The stream that answers\<close>

lemma active_kept [simp]:
  "w_active (mark_unavailable h p reason w) = w_active w"
  "w_active (clear_unavailable h p w) = w_active w"
  "w_active (host_step f w) = w_active w"
  "w_active (push_notice n w) = w_active w"
  "w_active (switch_account h c label w) = w_active w"
  "w_active (restore_account h c label w) = w_active w"
  by (simp_all add: mark_unavailable_def clear_unavailable_def host_step_def push_notice_def Let_def
      switch_account_def restore_account_def)

definition served :: "('w, 's) host \<Rightarrow> request \<Rightarrow> active_provider \<Rightarrow> 's \<Rightarrow> bool" where
  "served h q c s \<longleftrightarrow> (\<exists>e r e'. h_slot h e c \<and> h_send h e c q r = (Inr s, e'))"

lemma complete_on_provider_active: "w_active (snd (complete_on_provider h c q r w)) = w_active w"
  by (auto simp: complete_on_provider_def reconcile_if_missing_def Let_def split: prod.split bool.split)

lemma complete_on_provider_served:
  "complete_on_provider h c q r w = (Inr s, w') \<Longrightarrow> served h q c s"
  by (auto simp: complete_on_provider_def served_def reconcile_if_missing_def Let_def
      split: prod.splits bool.splits if_splits)

lemma blocked_active: "blocked h c w = (b, w') \<Longrightarrow> w_active w' = w_active w"
  by (auto simp: blocked_def reconcile_if_missing_def unavailability_detail_def
      runtime_provider_unavailability_def Let_def split: prod.splits option.splits bool.splits if_splits)

lemma try_accounts_served:
  "try_accounts h c q original labels ns w = (r, ns', w') \<Longrightarrow>
   w_active w' = w_active w \<and> (\<forall>s. r = Some s \<longrightarrow> served h q c s)"
proof (induction labels arbitrary: ns w)
  case (Cons a labels)
  obtain r1 w1 where c: "complete_on_provider h c q None (switch_account h c a w) = (r1, w1)" by fastforce
  then have "w_active w1 = w_active w"
    using complete_on_provider_active [of h c q None "switch_account h c a w"] by simp
  then show ?case
    using Cons.prems c
    by (cases r1) (auto simp: Let_def complete_on_provider_served dest!: Cons.IH)
qed auto

lemma account_failover_served:
  "try_same_provider_account_failover h c q ns w = (r, ns', w') \<Longrightarrow>
   w_active w' = w_active w \<and> (\<forall>s. r = Some s \<longrightarrow> served h q c s)"
  by (auto simp: try_same_provider_account_failover_def Let_def dest: try_accounts_served
      split: if_splits option.splits prod.splits)

lemma loop_served:
  "failover_loop h q resume active cs ns reason w = (Inr s, w') \<Longrightarrow> w_active w = active \<Longrightarrow>
   served h q (w_active w') s"
proof (induction cs arbitrary: ns reason w)
  case (Cons c rest)
  note IH = Cons.IH and run = Cons.prems(1)
  have go: "\<not> (c \<noteq> active \<and> reason \<noteq> None)"
  proof
    assume "c \<noteq> active \<and> reason \<noteq> None"
    then show False using run by (cases "estimate_request_input q") simp
  qed
  obtain b w1 where b: "blocked h c w = (b, w1)" by fastforce
  then have a1: "w_active w1 = active" using blocked_active Cons.prems(2) by metis
  show ?case
  proof (cases b)
    case (Some dw)
    then show ?thesis using run go b IH [OF _ a1] by (cases dw) auto
  next
    case None
    obtain r w2 where r: "complete_on_provider h c q resume w1 = (r, w2)" by fastforce
    then have a2: "w_active w2 = active" using complete_on_provider_active [of h c q resume w1] a1 by simp
    show ?thesis
    proof (cases r)
      case (Inr t)
      then have "w_active w' = c \<and> t = s"
        using run go b None r a2 by (auto simp: after_success_def Let_def push_notice_def split: if_splits)
      then show ?thesis using complete_on_provider_served r Inr by metis
    next
      case (Inl err)
      define summary where "summary = maybe_annotate_limit_summary h (w_host w2) c (summarize_error err)"
      define ns1 where "ns1 = ns @ [provider_label c @ '': '' @ summary]"
      define w3 where "w3 = (if should_mark_unavailable (classify_failover_error_message err)
        then mark_unavailable h (provider_key c) summary w2 else w2)"
      have a3: "w_active w3 = active" using a2 by (simp add: w3_def)
      obtain x ns2 w4 where acc: "try_same_provider_account_failover h c q ns1 w3 = (x, ns2, w4)"
        by (metis prod.exhaust)
      then have a4: "w_active w4 = active" and sv: "\<And>t. x = Some t \<Longrightarrow> served h q c t"
        using account_failover_served a3 by metis+
      have "(if \<not> should_failover (classify_failover_error_message err) then (Inl err, w2)
           else if c = active
           then case x of Some stream \<Rightarrow> (Inr stream, w4)
                | None \<Rightarrow> failover_loop h q resume active rest ns2 (Some summary) w4
           else failover_loop h q resume active rest ns1 reason w3) = (Inr s, w')"
        using run
        by (simp only: failover_loop.simps(2) if_not_P [OF go] b None r Inl prod.case option.case sum.case
            Let_def summary_def [symmetric] ns1_def [symmetric] w3_def [symmetric] acc)
      then show ?thesis using sv a4 IH [OF _ a4] IH [OF _ a3] by (auto split: if_splits option.splits)
    qed
  qed
qed simp

section \<open>A host to try things on\<close>

text \<open>Its state is the list of providers that were sent to; \<open>up\<close> are the configured providers, \<open>answer\<close>
  what each one answers.\<close>

definition demo_host ::
    "active_provider list \<Rightarrow> (active_provider \<Rightarrow> string + nat) \<Rightarrow> (active_provider list, nat) host" where
  "demo_host up answer =
     \<lparr>h_slot = (\<lambda>_ p. p \<in> set up), h_on_auth_changed = (\<lambda>e. e),
      h_send = (\<lambda>e p _ _. (answer p, e @ [p])), h_instant = (\<lambda>_. 0), h_system = (\<lambda>_. 0),
      h_claude_label = (\<lambda>_. None), h_openai_label = (\<lambda>_. None), h_set_claude_override = (\<lambda>e _. e),
      h_set_openai_override = (\<lambda>e _. e), h_invalidate = (\<lambda>e _. e), h_clear_models = (\<lambda>e. e),
      h_account_failover = (\<lambda>_. False), h_candidates = (\<lambda>_ _. []), h_guidance = (\<lambda>_ _. None),
      h_claude_exhausted = (\<lambda>_. False), h_prompt_json = (\<lambda>_. None)\<rparr>"

definition demo_request :: request where
  "demo_request = \<lparr>rq_messages_json = Some ''[]'', rq_tools_json = Some ''[]'', rq_mode = Unified ''be brief''\<rparr>"

definition demo_world :: "active_provider list world" where
  "demo_world = \<lparr>w_active = Claude, w_forced = None, w_marks = (\<lambda>_. None), w_notices = [], w_host = []\<rparr>"

definition demo_answer :: "active_provider \<Rightarrow> string + nat" where
  "demo_answer p = (if p = Claude then Inl ''429 rate limit'' else Inr 7)"

section \<open>The properties\<close>

text \<open>C14. A request is never sent behind the user's back: while the provider in use is configured (or
  one is forced), the outcome of a request, and everything it leaves behind, does not depend on how any
  other provider would answer it. No other provider is asked, whatever fails.\<close>

theorem request_stays_with_active:
  assumes "w_forced w = Some a \<or> w_forced w = None \<and> w_active w = a \<and> h_slot h (w_host w) a"
    and same: "\<forall>e r. g e a q r = h_send h e a q r"
  shows "complete_with_failover (h\<lparr>h_send := g\<rparr>) q resume w = complete_with_failover h q resume w"
proof (cases "w_forced w")
  case None
  then have a: "w_active w = a" and slot: "h_slot h (w_host w) (w_active w)" using assms(1) by auto
  have slot': "h_slot (h\<lparr>h_send := g\<rparr>) (w_host w) (w_active w)" using slot by simp
  show ?thesis
    unfolding unforced_outcome [OF None slot] unforced_outcome [OF None slot'] a ask_to_switch_send
    by (rule first_attempt_send [where g = g and c = a and q = q and h = h, OF same])
next
  case (Some f)
  then have "f = a" using assms(1) by simp
  then show ?thesis using Some forced_loop_send [where g = g and f = a and q = q and h = h, OF same]
    by (simp add: complete_with_failover_def fallback_sequence_for_def del: failover_loop.simps)
qed

theorem request_stays_with_active_witness:
  "complete_with_failover
     ((demo_host [Claude, OpenAI] demo_answer)\<lparr>h_send := (\<lambda>e p _ _. (demo_answer Claude, e @ [p]))\<rparr>)
     demo_request None demo_world =
   complete_with_failover (demo_host [Claude, OpenAI] demo_answer) demo_request None demo_world"
  by (rule request_stays_with_active [where a = Claude]) (simp_all add: demo_host_def demo_world_def)



text \<open>C16. A stream that is returned comes from the provider that is then the active one, and that
  provider was configured when it was asked.\<close>

theorem answer_is_from_active:
  assumes "complete_with_failover h q resume w = (Inr s, w')"
  shows "served h q (w_active w') s"
  using assms
  by (auto simp: complete_with_failover_def simp del: failover_loop.simps split: option.splits if_splits
      dest: loop_served)

theorem answer_is_from_active_witness:
  "case complete_with_failover (demo_host [Copilot] demo_answer) demo_request None demo_world of
     (r, w') \<Rightarrow> r = Inr 7 \<and> w_active w' = Copilot \<and>
       served (demo_host [Copilot] demo_answer) demo_request (w_active w') 7"
proof -
  let ?run = "complete_with_failover (demo_host [Copilot] demo_answer) demo_request None demo_world"
  have "fst ?run = Inr 7 \<and> w_active (snd ?run) = Copilot"
    by (simp add: complete_with_failover_def fallback_sequence_for_def blocked_def reconcile_if_missing_def
        unavailability_detail_def runtime_provider_unavailability_def precheck_unavailable_reason_def
        complete_on_provider_def after_success_def clear_unavailable_def push_notice_def
        demo_answer_def demo_world_def demo_host_def Let_def)
  moreover from this have "?run = (Inr 7, snd ?run)" by (simp add: prod_eq_iff)
  then have "served (demo_host [Copilot] demo_answer) demo_request (w_active (snd ?run)) 7"
    by (rule answer_is_from_active)
  ultimately show ?thesis by (simp add: split_beta)
qed

text \<open>C17. The route offered after a failure is the least eligible one, by tier, then subscription
  logins first, then catalog order; no route is offered exactly if none is eligible. Eligible is an
  available route other than the failed one, and after a credential failure none that shares the
  provider and the credential.\<close>

theorem fallback_is_best:
  "(pick_next_fallback_route_with_options routes cu cf = Some i \<longleftrightarrow>
     i < length routes \<and> eligible cu cf (routes ! i) \<and>
     (\<forall>j < length routes. eligible cu cf (routes ! j) \<longrightarrow>
        (tier cu (routes ! i), metered (routes ! i), i) \<le> (tier cu (routes ! j), metered (routes ! j), j))) \<and>
   (pick_next_fallback_route_with_options routes cu cf = None \<longleftrightarrow> (\<forall>r \<in> set routes. \<not> eligible cu cf r))"
  using pick_Some pick_None by blast

definition demo_route :: "string \<Rightarrow> string \<Rightarrow> string \<Rightarrow> unit model_route" where
  "demo_route m p a =
     \<lparr>mr_model = m, mr_provider = p, mr_api_method = a, mr_available = True, mr_detail = [],
      mr_cheapness = None\<rparr>"

definition demo_routes :: "unit model_route list" where
  "demo_routes =
     [demo_route ''claude-sonnet-4'' ''Anthropic'' ''claude-api'',
      demo_route ''gpt-5'' ''OpenAI'' ''openai-oauth'',
      demo_route ''claude-sonnet-4'' ''Anthropic'' ''claude-oauth'']"

definition demo_current :: current_route where
  "demo_current = \<lparr>cu_model = ''claude-sonnet-4'', cu_provider = ''Anthropic'', cu_method = ''claude-api''\<rparr>"

theorem fallback_is_best_witness:
  "eligible demo_current False (demo_routes ! 2) \<and> \<not> eligible demo_current False (demo_routes ! 0)"
proof -
  have "pick_next_fallback_route_with_options demo_routes demo_current False = Some 2" by code_simp
  moreover have "\<not> eligible demo_current False (demo_routes ! 0)" by code_simp
  ultimately show ?thesis
    using fallback_is_best [of demo_routes demo_current False 2] by blast
qed

text \<open>C18. Merging catalogs through buckets gives what the quadratic reference gives; no two routes of the
  result are duplicates; every route that went in keeps its method, or is the generic one of a named
  profile that is there; and nothing else is in the result.\<close>

theorem merged_catalog:
  "dedupe_model_routes routes = dedupe_model_routes_reference routes \<and>
   no_duplicates (dedupe_model_routes routes) \<and>
   (\<forall>r \<in> set routes. \<exists>r' \<in> set (dedupe_model_routes routes). stands_for r' r) \<and>
   set (dedupe_model_routes routes) \<subseteq> set routes"
proof -
  have "no_duplicates ([] :: 'a model_route list)" by (simp add: no_duplicates_def)
  then show ?thesis
    using no_duplicates_fold [of "[]" routes] reference_covers [of _ routes "[]"]
      reference_subset [of routes "[]"]
    by (simp add: dedupe_is_reference) (simp add: dedupe_model_routes_reference_def)
qed

theorem merged_catalog_witness:
  "let routes = [demo_route ''m'' ''p'' ''openai-compatible'', demo_route ''m'' ''p'' ''openai-compatible:x'']
   in no_duplicates (dedupe_model_routes routes) \<and> length (dedupe_model_routes routes) = 1 \<and>
      (\<exists>r' \<in> set (dedupe_model_routes routes). stands_for r' (routes ! 0))"
proof -
  let ?routes = "[demo_route ''m'' ''p'' ''openai-compatible'', demo_route ''m'' ''p'' ''openai-compatible:x'']"
  have "length (dedupe_model_routes_reference ?routes) = 1" by code_simp
  then show ?thesis using merged_catalog [of ?routes] by (auto simp: Let_def)
qed

section \<open>Strings that lead back\<close>








lemma split_on_first: "d \<notin> set xs \<Longrightarrow> split_on d (xs @ d # ys) = xs # split_on d ys"
  by (induction xs) auto

lemma split_on_not_Nil: "split_on d s \<noteq> []"
  by (cases s) (simp_all split: list.split)

lemma first_line:
  assumes "nl \<notin> set l" and "l \<noteq> []" and "last l \<noteq> CHR 0x0D"
  shows "\<exists>ls. lines (l @ nl # s) = l # ls"
  using assms split_on_not_Nil [of nl s] by (simp add: lines_def Let_def split_on_first strip_cr_def)

lemma brackets_not_space:
  "strip_one ws_chars (CHR ''['' # s) = None"
  "strip_one (map rev ws_chars) (CHR ''}'' # s) = None"
  by (simp_all add: strip_one_def ws_chars_def)

lemma trim_bracketed: "trim (CHR ''['' # s @ ''}'') = CHR ''['' # s @ ''}''"
proof -
  have "trim_start (CHR ''['' # s @ ''}'') = CHR ''['' # s @ ''}''"
    unfolding trim_start_def by (rule strip_start_fix) (rule brackets_not_space)
  moreover have "strip_start (map rev ws_chars) (CHR ''}'' # rev (CHR ''['' # s)) = CHR ''}'' # rev (CHR ''['' # s)"
    by (rule strip_start_fix) (rule brackets_not_space)
  ultimately show ?thesis by (simp add: trim_def trim_end_def)
qed

text \<open>The prompt to switch providers travels as the text of an error and is recovered from it: for an
  encoding that is read back and is one line that closes with a brace, as that of a JSON object is.\<close>

theorem switch_prompt_survives:
  assumes "to_json p = Some j" and "from_json j = Some p" and "nl \<notin> set j" and "suffix ''}'' j"
  shows "parse_failover_prompt_message from_json (to_error_message to_json p) = Some p"
proof -
  obtain i where i: "j = i @ ''}''" using assms(4) by (auto simp: suffix_def)
  let ?l = "failover_prompt_prefix @ j"
  have "nl \<notin> set ?l" using assms(3) by (simp add: failover_prompt_prefix_def nl_def)
  then obtain ls where ls: "lines (to_error_message to_json p) = ?l # ls"
    using first_line [of ?l] assms(1) by (simp add: to_error_message_def the_default_def i) blast
  have "trim ?l = ?l"
    using trim_bracketed [of "tl failover_prompt_prefix @ i"] by (simp add: failover_prompt_prefix_def i)
  then show ?thesis
    using assms(2) by (simp add: parse_failover_prompt_message_def ls strip_prefix_def)
qed

definition demo_prompt :: failover_prompt where
  "demo_prompt = build_failover_prompt Claude OpenAI ''rate limit'' 1200 300"

theorem switch_prompt_survives_witness:
  "parse_failover_prompt_message (\<lambda>j. if j = ''{}'' then Some demo_prompt else None)
     (to_error_message (\<lambda>_. Some ''{}'') demo_prompt) = Some demo_prompt"
  by (rule switch_prompt_survives [where j = "''{}''"]) (simp_all add: nl_def suffix_def)

section \<open>Server delays\<close>

fun digits_value :: "nat \<Rightarrow> string \<Rightarrow> nat" where
  "digits_value acc [] = acc"
| "digits_value acc (c # cs) = digits_value (acc * 10 + (byte c - 48)) cs"

lemma digits_value_mono: "acc \<le> digits_value acc v"
proof (induction acc v rule: digits_value.induct)
  case (2 acc c cs)
  then show ?case by simp
qed simp

lemma delta_step:
  assumes "unat s = min acc 60" and "is_ascii_digit c"
  shows "unat (min (sat_add_u64 (sat_mul_u64 s 10) (of_nat (byte c - 48))) max_retry_after) =
    min (acc * 10 + (byte c - 48)) 60"
proof -
  have d: "byte c - 48 \<le> 9" using assms(2) by (auto simp: is_ascii_digit_def)
  then have u: "unat (of_nat (byte c - 48) :: u64) = byte c - 48"
    by (simp add: unsigned_of_nat take_bit_nat_eq_self)
  have s60: "unat s \<le> 60" using assms(1) by simp
  have m: "sat_mul_u64 s 10 = s * 10" using s60 by (simp add: sat_mul_u64_def)
  have um: "unat (s * 10) = unat s * 10"
    using s60 by (simp add: unat_word_ariths)
  have a: "sat_add_u64 (s * 10) (of_nat (byte c - 48)) = s * 10 + of_nat (byte c - 48)"
    using d s60 by (simp add: sat_add_u64_def um u)
  have ua: "unat (s * 10 + of_nat (byte c - 48) :: u64) = unat s * 10 + (byte c - 48)"
    using d s60 by (simp add: unat_word_ariths um u)
  have "unat (min x y) = min (unat x) (unat y)" for x y :: u64
    by (simp add: min_def word_le_nat_alt)
  then show ?thesis using assms(1) by (simp add: m a ua max_retry_after_def min_def)
qed

lemma delta_fold:
  "list_all is_ascii_digit v \<Longrightarrow> unat s = min acc 60 \<Longrightarrow>
   unat (fold (\<lambda>c s. min (sat_add_u64 (sat_mul_u64 s 10) (of_nat (byte c - 48))) max_retry_after) v s) =
     min (digits_value acc v) 60"
proof (induction v arbitrary: acc s)
  case (Cons c v)
  then show ?case using delta_step [of s acc c] by simp
qed simp

text \<open>A server delay in seconds is the number written, of any length, cut at a minute: the 64-bit
  saturation and the cut after every digit do not change it. A date gives the time until then, at
  least nothing and at most a minute; an empty or unreadable header gives no delay.\<close>

theorem server_delay_is_capped:
  "retry_after_delay_at parse_http_date header now =
     (case map_option trim header of
        None \<Rightarrow> None
      | Some v \<Rightarrow>
          if v = [] then None
          else if list_all is_ascii_digit v then Some (min (digits_value 0 v) 60)
          else map_option (\<lambda>t. min (t - now) 60) (parse_http_date v))"
  using delta_fold [of _ 0 0]
  by (simp add: retry_after_delay_at_def delta_seconds_def max_retry_after_def Let_def split: option.split)

end
