(* ===== verification/Interrupt_Signal.thy ===== *)
theory Interrupt_Signal
  imports Rust_Prelude
begin

text \<open>
  The interrupt signal of the agent runtime (\<open>crates/jcode-agent-runtime/src/lib.rs\<close>): a flag, an
  epoch and a list of waiters, shared by threads that fire, reset and wait. Every atomic access is a
  step of its own, and any thread may take the next one. The accesses are sequentially consistent in
  the code, so a run is a sequence of steps. \<open>Notify\<close> wakes the waiters that are registered when
  \<open>notify_waiters\<close> is called and stores nothing for later ones.
\<close>

section \<open>State\<close>

text \<open>Where a thread is inside the operation it runs: the access that comes next.\<close>

datatype pc =
    Idle
  | Fire_Store | Fire_Notify
  | Reset_Check u64 | Reset_Clear u64 | Reset_Recheck u64 | Restore_Store | Restore_Notify
  | Wait_Check bool | Wait_Parked

text \<open>Beside the shared variables, what the proofs speak of: the number of fires, and the fire that the
  last applied reset was for.\<close>

record signal =
  sg_flag :: bool
  sg_epoch :: u64
  sg_pc :: "nat \<Rightarrow> pc"
  sg_fires :: nat
  sg_applied :: nat

definition signal_new :: signal where
  "signal_new = \<lparr>sg_flag = False, sg_epoch = 0, sg_pc = (\<lambda>_. Idle), sg_fires = 0, sg_applied = 0\<rparr>"

definition goto :: "nat \<Rightarrow> pc \<Rightarrow> signal \<Rightarrow> signal" where
  "goto t p s = s\<lparr>sg_pc := (sg_pc s)(t := p)\<rparr>"

text \<open>\<open>notify_waiters\<close>: a waiter that is parked returns, one that is registered and has not looked at
  the flag yet will not park.\<close>

fun wake :: "pc \<Rightarrow> pc" where
  "wake (Wait_Check _) = Wait_Check True"
| "wake Wait_Parked = Idle"
| "wake p = p"

definition notify_waiters :: "signal \<Rightarrow> signal" where
  "notify_waiters s = s\<lparr>sg_pc := (\<lambda>t. wake (sg_pc s t))\<rparr>"

section \<open>Steps\<close>

text \<open>\<open>fire\<close>: \<open>epoch.fetch_add\<close>, \<open>flag.store(true)\<close>, \<open>notify_waiters\<close>.\<close>

definition fire_begin :: "nat \<Rightarrow> signal \<Rightarrow> signal" where
  "fire_begin t s = goto t Fire_Store (s\<lparr>sg_epoch := sg_epoch s + 1, sg_fires := sg_fires s + 1\<rparr>)"

definition fire_store :: "nat \<Rightarrow> signal \<Rightarrow> signal" where
  "fire_store t s = goto t Fire_Notify (s\<lparr>sg_flag := True\<rparr>)"

definition fire_notify :: "nat \<Rightarrow> signal \<Rightarrow> signal" where
  "fire_notify t s = goto t Idle (notify_waiters s)"

text \<open>\<open>reset_if_epoch e\<close>: two loads of the epoch around the store; it returns \<open>true\<close> in \<open>reset_recheck\<close>
  when the epoch is still \<open>e\<close>.\<close>

definition reset_begin :: "nat \<Rightarrow> u64 \<Rightarrow> signal \<Rightarrow> signal" where
  "reset_begin t e s = goto t (Reset_Check e) s"

definition reset_check :: "nat \<Rightarrow> u64 \<Rightarrow> signal \<Rightarrow> signal" where
  "reset_check t e s = goto t (if sg_epoch s \<noteq> e then Idle else Reset_Clear e) s"

definition reset_clear :: "nat \<Rightarrow> u64 \<Rightarrow> signal \<Rightarrow> signal" where
  "reset_clear t e s = goto t (Reset_Recheck e) (s\<lparr>sg_flag := False\<rparr>)"

definition reset_recheck :: "nat \<Rightarrow> u64 \<Rightarrow> signal \<Rightarrow> signal" where
  "reset_recheck t e s =
     (if sg_epoch s \<noteq> e then goto t Restore_Store s
      else goto t Idle (s\<lparr>sg_applied := sg_fires s\<rparr>))"

definition restore_store :: "nat \<Rightarrow> signal \<Rightarrow> signal" where
  "restore_store t s = goto t Restore_Notify (s\<lparr>sg_flag := True\<rparr>)"

definition restore_notify :: "nat \<Rightarrow> signal \<Rightarrow> signal" where
  "restore_notify t s = goto t Idle (notify_waiters s)"

text \<open>\<open>reset\<close>: the unconditional store; it is for every fire so far.\<close>

definition reset :: "signal \<Rightarrow> signal" where
  "reset s = s\<lparr>sg_flag := False, sg_applied := sg_fires s\<rparr>"

text \<open>\<open>notified\<close>: register, look at the flag, park unless it is set or a notification came in between.\<close>

definition wait_begin :: "nat \<Rightarrow> signal \<Rightarrow> signal" where
  "wait_begin t s = goto t (Wait_Check False) s"

definition wait_check :: "nat \<Rightarrow> bool \<Rightarrow> signal \<Rightarrow> signal" where
  "wait_check t woken s = goto t (if sg_flag s \<or> woken then Idle else Wait_Parked) s"

inductive signal_step :: "signal \<Rightarrow> signal \<Rightarrow> bool" where
  fire: "sg_pc s t = Idle \<Longrightarrow> signal_step s (fire_begin t s)"
| store: "sg_pc s t = Fire_Store \<Longrightarrow> signal_step s (fire_store t s)"
| notify: "sg_pc s t = Fire_Notify \<Longrightarrow> signal_step s (fire_notify t s)"
| reset_if: "sg_pc s t = Idle \<Longrightarrow> signal_step s (reset_begin t e s)"
| check: "sg_pc s t = Reset_Check e \<Longrightarrow> signal_step s (reset_check t e s)"
| clear: "sg_pc s t = Reset_Clear e \<Longrightarrow> signal_step s (reset_clear t e s)"
| recheck: "sg_pc s t = Reset_Recheck e \<Longrightarrow> signal_step s (reset_recheck t e s)"
| restore: "sg_pc s t = Restore_Store \<Longrightarrow> signal_step s (restore_store t s)"
| renotify: "sg_pc s t = Restore_Notify \<Longrightarrow> signal_step s (restore_notify t s)"
| reset: "signal_step s (reset s)"
| await: "sg_pc s t = Idle \<Longrightarrow> signal_step s (wait_begin t s)"
| look: "sg_pc s t = Wait_Check b \<Longrightarrow> signal_step s (wait_check t b s)"

definition signal_run :: "signal \<Rightarrow> bool" where
  "signal_run s \<longleftrightarrow> signal_step\<^sup>*\<^sup>* signal_new s"

section \<open>Invariants\<close>

text \<open>Some thread is at \<open>p\<close>.\<close>

definition some_at :: "(pc \<Rightarrow> bool) \<Rightarrow> signal \<Rightarrow> bool" where
  "some_at P s \<longleftrightarrow> (\<exists>t. P (sg_pc s t))"

fun setting :: "pc \<Rightarrow> bool" where
  "setting Fire_Store = True"
| "setting (Reset_Recheck _) = True"
| "setting Restore_Store = True"
| "setting _ = False"

fun notifying :: "pc \<Rightarrow> bool" where
  "notifying Fire_Notify = True"
| "notifying Restore_Notify = True"
| "notifying _ = False"


definition parked_noticed :: "signal \<Rightarrow> bool" where
  "parked_noticed s \<longleftrightarrow> (\<forall>t. sg_pc s t = Wait_Parked \<longrightarrow> sg_flag s \<longrightarrow> some_at notifying s)"

lemma setting_wake [simp]: "setting (wake p) = setting p"
  by (cases p) simp_all

lemma notifying_wake [simp]: "notifying (wake p) = notifying p"
  by (cases p) simp_all

lemma wake_not_parked [simp]: "wake p \<noteq> Wait_Parked"
  by (cases p) simp_all

text \<open>A thread that moves to a place where \<open>P\<close> holds, or from one where it does not.\<close>

lemma some_at_arrive: "P p \<Longrightarrow> some_at P (goto t p s)"
  by (auto simp: some_at_def goto_def)

lemma some_at_stay: "some_at P s \<Longrightarrow> \<not> P (sg_pc s t) \<Longrightarrow> some_at P (goto t p s)"
  unfolding some_at_def goto_def by (metis fun_upd_other select_convs(3) surjective update_convs(3))

lemma some_at_data [simp]:
  "some_at P (s\<lparr>sg_flag := b\<rparr>) = some_at P s" "some_at P (s\<lparr>sg_applied := n\<rparr>) = some_at P s"
  "some_at P (s\<lparr>sg_epoch := e, sg_fires := n\<rparr>) = some_at P s"
  "some_at P (s\<lparr>sg_flag := b, sg_applied := n\<rparr>) = some_at P s"
  by (simp_all add: some_at_def)

lemma some_at_notify [simp]:
  "some_at setting (notify_waiters s) = some_at setting s"
  "some_at notifying (notify_waiters s) = some_at notifying s"
  by (simp_all add: some_at_def notify_waiters_def)

lemma goto_data [simp]:
  "sg_flag (goto t p s) = sg_flag s" "sg_applied (goto t p s) = sg_applied s"
  "sg_fires (goto t p s) = sg_fires s" "sg_epoch (goto t p s) = sg_epoch s"
  "sg_pc (goto t p s) = (sg_pc s)(t := p)"
  by (simp_all add: goto_def)

lemma notify_data [simp]:
  "sg_flag (notify_waiters s) = sg_flag s" "sg_applied (notify_waiters s) = sg_applied s"
  "sg_fires (notify_waiters s) = sg_fires s" "sg_epoch (notify_waiters s) = sg_epoch s"
  "sg_pc (notify_waiters s) = (\<lambda>t. wake (sg_pc s t))"
  by (simp_all add: notify_waiters_def)

lemmas signal_op_defs = fire_begin_def fire_store_def fire_notify_def reset_begin_def reset_check_def
  reset_clear_def reset_recheck_def restore_store_def restore_notify_def reset_def wait_begin_def
  wait_check_def


lemma parked_noticed_step: "signal_step s s' \<Longrightarrow> parked_noticed s \<Longrightarrow> parked_noticed s'"
  by (induction rule: signal_step.induct)
    (auto simp: parked_noticed_def signal_op_defs intro: some_at_arrive some_at_stay split: if_splits)

lemma run_induct [consumes 1, case_names new step]:
  assumes "signal_run s" and "P signal_new" and "\<And>s s'. P s \<Longrightarrow> signal_step s s' \<Longrightarrow> P s'"
  shows "P s"
  using assms(1) unfolding signal_run_def by (induction rule: rtranclp_induct) (use assms in auto)


lemma parked_noticed_run: "signal_run s \<Longrightarrow> parked_noticed s"
  by (induction rule: run_induct) (simp_all add: parked_noticed_step, simp add: parked_noticed_def signal_new_def)

lemma epoch_counts: "signal_run s \<Longrightarrow> sg_epoch s = of_nat (sg_fires s) \<and> sg_applied s \<le> sg_fires s"
proof (induction rule: run_induct)
  case (step s s')
  from step(2,1) show ?case by (induction rule: signal_step.induct) (auto simp: signal_op_defs)
qed (simp add: signal_new_def)

lemma run_new: "signal_run signal_new"
  by (simp add: signal_run_def)

lemma run_step: "signal_run s \<Longrightarrow> signal_step s s' \<Longrightarrow> signal_run s'"
  unfolding signal_run_def by (rule rtranclp.rtrancl_into_rtrancl)

lemma signal_new_data [simp]:
  "sg_pc signal_new = (\<lambda>_. Idle)" "\<not> sg_flag signal_new" "sg_epoch signal_new = 0"
  "sg_fires signal_new = 0" "sg_applied signal_new = 0"
  by (simp_all add: signal_new_def)

text \<open>Operations run without interruption.\<close>

lemma whole_fire:
  assumes "signal_run s" and "sg_pc s t = Idle"
  shows "signal_run (fire_notify t (fire_store t (fire_begin t s)))"
proof -
  have "signal_run (fire_begin t s)" using assms by (blast intro: run_step fire)
  then have "signal_run (fire_store t (fire_begin t s))"
    by (rule run_step) (rule store, simp add: fire_begin_def)
  then show ?thesis by (rule run_step) (rule notify, simp add: fire_store_def)
qed

lemma checked_reset:
  assumes "signal_run s" and "sg_pc s t = Idle"
  shows "signal_run (reset_check t e (reset_begin t e s))"
proof -
  have "signal_run (reset_begin t e s)" using assms by (blast intro: run_step reset_if)
  then show ?thesis by (rule run_step) (rule check, simp add: reset_begin_def)
qed

section \<open>The properties\<close>





text \<open>C21. No wakeup is lost: in every run, when a waiter is parked although the flag is set, some thread is
  about to notify, and its next step makes the waiter return.\<close>

theorem no_lost_wakeup:
  assumes "signal_run s" and "sg_pc s t = Wait_Parked" and "sg_flag s"
  shows "\<exists>u s'. notifying (sg_pc s u) \<and> signal_step s s' \<and> sg_pc s' u = Idle \<and> sg_pc s' t = Idle"
proof -
  obtain u where u: "notifying (sg_pc s u)"
    using parked_noticed_run [OF assms(1)] assms by (auto simp: parked_noticed_def some_at_def)
  then consider "sg_pc s u = Fire_Notify" | "sg_pc s u = Restore_Notify" by (cases "sg_pc s u") auto
  then have "\<exists>s'. signal_step s s' \<and> sg_pc s' = (\<lambda>t. wake (sg_pc s t))(u := Idle)"
  proof cases
    case 1
    then show ?thesis using notify [of s u] by (auto simp: fire_notify_def)
  next
    case 2
    then show ?thesis using renotify [of s u] by (auto simp: restore_notify_def)
  qed
  then show ?thesis using u assms(2) by (metis fun_upd_apply wake.simps(2))
qed

definition about_to_notify :: signal where
  "about_to_notify = fire_store 0 (fire_begin 0 (wait_check 1 False (wait_begin 1 signal_new)))"

lemma about_to_notify_run: "signal_run about_to_notify"
proof -
  have "signal_run (wait_begin 1 signal_new)" using run_new by (rule run_step) (rule await, simp)
  then have "signal_run (wait_check 1 False (wait_begin 1 signal_new))"
    by (rule run_step) (rule look, simp add: wait_begin_def)
  then have "signal_run (fire_begin 0 (wait_check 1 False (wait_begin 1 signal_new)))"
    by (rule run_step) (rule fire, simp add: signal_op_defs)
  then show ?thesis unfolding about_to_notify_def
    by (rule run_step) (rule store, simp add: fire_begin_def)
qed

theorem no_lost_wakeup_witness:
  "\<exists>u s'. notifying (sg_pc about_to_notify u) \<and> signal_step about_to_notify s' \<and> sg_pc s' u = Idle \<and>
     sg_pc s' 1 = Idle"
  by (rule no_lost_wakeup [OF about_to_notify_run]) (simp_all add: about_to_notify_def signal_op_defs)

text \<open>But a cancel can come back: in some run a reset for the latest fire was applied and reported so,
  and without any further fire all threads come to rest with the flag set. A stale reset that was
  overtaken restores the flag after the newer cancel was consumed.\<close>

theorem consumed_cancel_can_return:
  "\<exists>s s'. signal_run s \<and> sg_applied s = sg_fires s \<and> \<not> sg_flag s \<and> signal_step\<^sup>*\<^sup>* s s' \<and>
     sg_fires s' = sg_fires s \<and> sg_flag s' \<and> (\<forall>t. sg_pc s' t = Idle)"
proof -
  let ?o = "reset_check 1 1 (reset_begin 1 1 (fire_notify 0 (fire_store 0 (fire_begin 0 signal_new))))"
  define s1 where "s1 = fire_notify 0 (fire_store 0 (fire_begin 0 ?o))"
  have r1: "signal_run s1" unfolding s1_def
    by (intro checked_reset whole_fire run_new) (auto simp: signal_op_defs)
  have p1: "sg_pc s1 = (\<lambda>_. Idle)(1 := Reset_Clear 1)" "sg_epoch s1 = 2" "sg_fires s1 = 2"
    by (auto simp: s1_def signal_op_defs fun_eq_iff)
  define s2 where "s2 = reset_clear 1 1 s1"
  have r2: "signal_run s2" unfolding s2_def using r1 by (rule run_step) (rule clear, simp add: p1)
  have p2: "sg_pc s2 = (\<lambda>_. Idle)(1 := Reset_Recheck 1)" "sg_epoch s2 = 2" "sg_fires s2 = 2"
    by (auto simp: s2_def signal_op_defs p1 fun_eq_iff)
  define s3 where "s3 = reset_recheck 2 2 (reset_clear 2 2 (reset_check 2 2 (reset_begin 2 2 s2)))"
  have "signal_run (reset_check 2 2 (reset_begin 2 2 s2))" using r2 by (rule checked_reset) (simp add: p2)
  then have "signal_run (reset_clear 2 2 (reset_check 2 2 (reset_begin 2 2 s2)))"
    by (rule run_step) (rule clear, simp add: signal_op_defs p2)
  then have r3: "signal_run s3" unfolding s3_def
    by (rule run_step) (rule recheck, simp add: reset_clear_def)
  have p3: "sg_pc s3 = (\<lambda>_. Idle)(1 := Reset_Recheck 1)" "sg_epoch s3 = 2" "sg_fires s3 = 2"
    "sg_applied s3 = 2" "\<not> sg_flag s3"
    by (auto simp: s3_def signal_op_defs p2 fun_eq_iff)
  define s4 where "s4 = restore_notify 1 (restore_store 1 (reset_recheck 1 1 s3))"
  have "signal_step s3 (reset_recheck 1 1 s3)" by (rule recheck) (simp add: p3)
  moreover have "signal_step (reset_recheck 1 1 s3) (restore_store 1 (reset_recheck 1 1 s3))"
    by (rule restore) (simp add: reset_recheck_def p3)
  moreover have "signal_step (restore_store 1 (reset_recheck 1 1 s3)) s4"
    unfolding s4_def by (rule renotify) (simp add: restore_store_def)
  ultimately have "signal_step\<^sup>*\<^sup>* s3 s4" by (meson converse_rtranclp_into_rtranclp rtranclp.rtrancl_refl)
  moreover have "sg_fires s4 = 2" "sg_flag s4" "\<forall>t. sg_pc s4 t = Idle"
    by (auto simp: s4_def signal_op_defs p3)
  ultimately show ?thesis using r3 p3 by (intro exI [of _ s3] exI [of _ s4]) simp
qed

end
