(* ===== verification/Fuzzy_Match.thy ===== *)
theory Fuzzy_Match
  imports Rust_Prelude
begin

text \<open>
  The typo-resistant matcher of the pickers and of the slash commands
  (\<open>crates/jcode-fuzzy/src/lib.rs\<close>): a table of cells, one for each prefix of the needle and each
  prefix of the haystack. A string is the list of its characters here, a character its scalar value;
  \<open>char::to_lowercase\<close>, which may give several characters, is the parameter \<open>lower\<close>. Scores are
  integers; that they fit \<open>i32\<close> is proved with the properties.
\<close>

type_synonym scalar = nat

section \<open>Characters and scores\<close>

definition slash :: scalar where "slash = 47"

definition is_boundary :: "scalar \<Rightarrow> bool" where
  "is_boundary c \<longleftrightarrow> c \<in> {47, 45, 95, 32, 46, 58}"

text \<open>\<open>char::is_whitespace\<close>: the characters of the Unicode property White\_Space.\<close>

definition is_whitespace :: "scalar \<Rightarrow> bool" where
  "is_whitespace c \<longleftrightarrow> 9 \<le> c \<and> c \<le> 13 \<or> c \<in> {32, 0x85, 0xA0, 0x1680, 0x2028, 0x2029, 0x202F, 0x205F, 0x3000} \<or>
     0x2000 \<le> c \<and> c \<le> 0x200A"

definition match_points :: int where "match_points = 16"

definition consecutive_points :: int where "consecutive_points = 8"

definition boundary_points :: int where "boundary_points = 9"

definition first_points :: int where "first_points = 12"

definition gap_points :: int where "gap_points = - 1"

definition leading_gap_points :: int where "leading_gap_points = - 3"

definition substitution_points :: int where "substitution_points = - 10"

definition deletion_points :: int where "deletion_points = - 12"

definition transposition_points :: int where "transposition_points = 2 * match_points - 22"

definition exact_points :: int where "exact_points = 32"

lemmas points_defs = match_points_def consecutive_points_def boundary_points_def first_points_def
  gap_points_def leading_gap_points_def substitution_points_def deletion_points_def
  transposition_points_def exact_points_def

record match_result =
  fm_score :: int
  fm_positions :: "nat list"

record dp_cell =
  ce_score :: int
  ce_errors :: nat
  ce_last :: int
  ce_tail :: bool
  ce_positions :: "nat list"

text \<open>A candidate replaces a cell with a higher score, then with fewer errors, then with more
  positions.\<close>

definition better :: "dp_cell \<Rightarrow> dp_cell \<Rightarrow> bool" where
  "better c e \<longleftrightarrow>
     ce_score c > ce_score e \<or>
     (ce_score c = ce_score e \<and> ce_errors c < ce_errors e) \<or>
     (ce_score c = ce_score e \<and> ce_errors c = ce_errors e \<and> length (ce_positions c) > length (ce_positions e))"

fun keep_best :: "dp_cell option \<Rightarrow> dp_cell \<Rightarrow> dp_cell option" where
  "keep_best None c = Some c"
| "keep_best (Some e) c = (if better c e then Some c else Some e)"

definition error_budget :: "nat \<Rightarrow> nat" where
  "error_budget meaningful = (if meaningful \<le> 2 then 0 else if meaningful \<le> 8 then 1 else 2)"

section \<open>The cells\<close>

text \<open>The five ways to extend a cell.\<close>

definition skip_cell :: "int \<Rightarrow> dp_cell \<Rightarrow> dp_cell" where
  "skip_cell penalty prev = prev\<lparr>ce_score := ce_score prev + penalty\<rparr>"

definition boundary_bonus :: "scalar list \<Rightarrow> nat \<Rightarrow> int" where
  "boundary_bonus hay pos = (if pos = 0 \<or> is_boundary (hay ! (pos - 1)) then boundary_points else 0)"

definition hit_cell :: "scalar list \<Rightarrow> nat \<Rightarrow> nat \<Rightarrow> dp_cell \<Rightarrow> dp_cell" where
  "hit_cell hay i pos prev = prev\<lparr>
     ce_score := ce_score prev + match_points +
       (if ce_last prev = int pos - 1 then consecutive_points else 0) + boundary_bonus hay pos +
       (if i = 1 \<and> pos = 0 then first_points else 0),
     ce_last := int pos, ce_tail := True, ce_positions := ce_positions prev @ [pos]\<rparr>"

definition subst_cell :: "nat \<Rightarrow> dp_cell \<Rightarrow> dp_cell" where
  "subst_cell pos prev = prev\<lparr>ce_score := ce_score prev + substitution_points,
     ce_errors := ce_errors prev + 1, ce_last := int pos, ce_tail := False\<rparr>"

definition drop_cell :: "dp_cell \<Rightarrow> dp_cell" where
  "drop_cell prev = prev\<lparr>ce_score := ce_score prev + deletion_points,
     ce_errors := ce_errors prev + 1, ce_tail := False\<rparr>"

definition swap_cell :: "scalar list \<Rightarrow> nat \<Rightarrow> dp_cell \<Rightarrow> dp_cell" where
  "swap_cell hay first prev = prev\<lparr>
     ce_score := ce_score prev + transposition_points + boundary_bonus hay first,
     ce_errors := ce_errors prev + 1, ce_last := int (first + 1), ce_tail := True,
     ce_positions := ce_positions prev @ [first, first + 1]\<rparr>"

section \<open>The table\<close>

definition start_cell :: dp_cell where
  "start_cell = \<lparr>ce_score = 0, ce_errors = 0, ce_last = - 1, ce_tail = True, ce_positions = []\<rparr>"

text \<open>Row 0 skips characters of the haystack before the first one that matches.\<close>

definition push_leading :: "dp_cell option list \<Rightarrow> nat \<Rightarrow> dp_cell option list" where
  "push_leading row j = row @ [map_option (skip_cell leading_gap_points) (row ! (j - 1))]"

definition first_row :: "scalar list \<Rightarrow> dp_cell option list" where
  "first_row hay = foldl push_leading [Some start_cell] [1..<Suc (length hay)]"

text \<open>The four blocks of the inner loop. \<open>cur\<close> is the part of row \<open>i\<close> that is filled already, \<open>up\<close> and
  \<open>up2\<close> are the two rows above.\<close>

definition try_gap :: "nat \<Rightarrow> dp_cell option list \<Rightarrow> dp_cell option \<Rightarrow> dp_cell option" where
  "try_gap j cur best =
     (if 1 \<le> j then case cur ! (j - 1) of None \<Rightarrow> best | Some prev \<Rightarrow> keep_best best (skip_cell gap_points prev)
      else best)"

definition try_diagonal ::
  "scalar list \<Rightarrow> scalar list \<Rightarrow> nat \<Rightarrow> nat \<Rightarrow> nat \<Rightarrow> dp_cell option list \<Rightarrow> dp_cell option \<Rightarrow> dp_cell option" where
  "try_diagonal pat hay max_err i j up best =
     (if 1 \<le> j then
        case up ! (j - 1) of None \<Rightarrow> best
        | Some prev \<Rightarrow>
            if pat ! (i - 1) = hay ! (j - 1) then keep_best best (hit_cell hay i (j - 1) prev)
            else if ce_errors prev < max_err \<and> \<not> is_whitespace (pat ! (i - 1)) \<and> \<not> is_whitespace (hay ! (j - 1))
            then keep_best best (subst_cell (j - 1) prev)
            else best
      else best)"

definition try_drop ::
  "scalar list \<Rightarrow> nat \<Rightarrow> nat \<Rightarrow> nat \<Rightarrow> dp_cell option list \<Rightarrow> dp_cell option \<Rightarrow> dp_cell option" where
  "try_drop pat max_err i j up best =
     (if \<not> is_whitespace (pat ! (i - 1)) then
        case up ! j of None \<Rightarrow> best
        | Some prev \<Rightarrow> if ce_errors prev < max_err then keep_best best (drop_cell prev) else best
      else best)"

definition try_swap ::
  "scalar list \<Rightarrow> scalar list \<Rightarrow> nat \<Rightarrow> nat \<Rightarrow> nat \<Rightarrow> dp_cell option list \<Rightarrow> dp_cell option \<Rightarrow> dp_cell option" where
  "try_swap pat hay max_err i j up2 best =
     (if 2 \<le> i \<and> 2 \<le> j \<and> pat ! (i - 1) = hay ! (j - 2) \<and> pat ! (i - 2) = hay ! (j - 1) \<and>
         pat ! (i - 1) \<noteq> pat ! (i - 2) \<and> \<not> is_whitespace (pat ! (i - 1)) \<and> \<not> is_whitespace (pat ! (i - 2))
      then
        case up2 ! (j - 2) of None \<Rightarrow> best
        | Some prev \<Rightarrow> if ce_errors prev < max_err then keep_best best (swap_cell hay (j - 2) prev) else best
      else best)"

definition dp_entry ::
  "scalar list \<Rightarrow> scalar list \<Rightarrow> nat \<Rightarrow> dp_cell option list list \<Rightarrow> nat \<Rightarrow> dp_cell option list \<Rightarrow> nat \<Rightarrow> dp_cell option" where
  "dp_entry pat hay max_err dp i cur j =
     try_swap pat hay max_err i j (dp ! (i - 2))
       (try_drop pat max_err i j (dp ! (i - 1))
         (try_diagonal pat hay max_err i j (dp ! (i - 1)) (try_gap j cur None)))"

definition push_entry ::
  "scalar list \<Rightarrow> scalar list \<Rightarrow> nat \<Rightarrow> dp_cell option list list \<Rightarrow> nat \<Rightarrow> dp_cell option list \<Rightarrow> nat \<Rightarrow> dp_cell option list" where
  "push_entry pat hay max_err dp i cur j = cur @ [dp_entry pat hay max_err dp i cur j]"

definition push_row ::
  "scalar list \<Rightarrow> scalar list \<Rightarrow> nat \<Rightarrow> dp_cell option list list \<Rightarrow> nat \<Rightarrow> dp_cell option list list" where
  "push_row pat hay max_err dp i = dp @ [foldl (push_entry pat hay max_err dp i) [] [0..<Suc (length hay)]]"

definition dp_table :: "scalar list \<Rightarrow> scalar list \<Rightarrow> nat \<Rightarrow> dp_cell option list list" where
  "dp_table pat hay max_err = foldl (push_row pat hay max_err) [first_row hay] [1..<Suc (length pat)]"

section \<open>Matching\<close>

fun pick_answer :: "bool \<Rightarrow> dp_cell option list \<Rightarrow> dp_cell option \<Rightarrow> dp_cell option" where
  "pick_answer tail [] answer = answer"
| "pick_answer tail (None # row) answer = pick_answer tail row answer"
| "pick_answer tail (Some c # row) answer =
     pick_answer tail row (if \<not> tail \<or> ce_tail c then keep_best answer c else answer)"

fun strip_slash :: "scalar list \<Rightarrow> scalar list option" where
  "strip_slash [] = None"
| "strip_slash (c # cs) = (if c = slash then Some cs else None)"

definition hay_source :: "bool \<Rightarrow> scalar list \<Rightarrow> nat \<times> scalar list" where
  "hay_source strip haystack =
     (if strip then case strip_slash haystack of Some rest \<Rightarrow> (1, rest) | None \<Rightarrow> (0, haystack)
      else (0, haystack))"

definition needle_source :: "bool \<Rightarrow> scalar list \<Rightarrow> scalar list" where
  "needle_source strip needle = (if strip then the_default needle (strip_slash needle) else needle)"

definition lowered :: "(scalar \<Rightarrow> scalar list) \<Rightarrow> scalar list \<Rightarrow> scalar list" where
  "lowered lower s = concat (map lower s)"

definition meaningful :: "scalar list \<Rightarrow> nat" where
  "meaningful pat = length (filter (\<lambda>c. \<not> is_whitespace c) pat)"

definition best_cell :: "scalar list \<Rightarrow> scalar list \<Rightarrow> bool \<Rightarrow> dp_cell option" where
  "best_cell pat hay tail =
     pick_answer tail (dp_table pat hay (error_budget (meaningful pat)) ! length pat) None"

definition fuzzy_match_impl ::
  "(scalar \<Rightarrow> scalar list) \<Rightarrow> scalar list \<Rightarrow> scalar list \<Rightarrow> bool \<Rightarrow> bool \<Rightarrow> bool \<Rightarrow> match_result option" where
  "fuzzy_match_impl lower needle haystack anchor strip tail =
     (let (offset, hay_src) = hay_source strip haystack;
          pat = lowered lower (needle_source strip needle);
          hay = lowered lower hay_src
      in if \<forall>c \<in> set pat. is_whitespace c then Some \<lparr>fm_score = 0, fm_positions = []\<rparr>
         else if hay = [] then None
         else case best_cell pat hay tail of None \<Rightarrow> None
           | Some c \<Rightarrow>
               if anchor \<and> (ce_positions c = [] \<or> hd (ce_positions c) \<noteq> 0) then None
               else Some \<lparr>fm_score = ce_score c + (if pat = hay then exact_points else 0),
                          fm_positions = map (\<lambda>p. p + offset) (ce_positions c)\<rparr>)"

definition fuzzy_match :: "(scalar \<Rightarrow> scalar list) \<Rightarrow> scalar list \<Rightarrow> scalar list \<Rightarrow> match_result option" where
  "fuzzy_match lower needle haystack = fuzzy_match_impl lower needle haystack False False False"

definition fuzzy_score :: "(scalar \<Rightarrow> scalar list) \<Rightarrow> scalar list \<Rightarrow> scalar list \<Rightarrow> int option" where
  "fuzzy_score lower needle haystack = map_option fm_score (fuzzy_match lower needle haystack)"

fun words :: "scalar list \<Rightarrow> scalar list \<Rightarrow> scalar list list" where
  "words acc [] = (if acc = [] then [] else [acc])"
| "words acc (c # cs) =
     (if is_whitespace c then (if acc = [] then [] else [acc]) @ words [] cs else words (acc @ [c]) cs)"

definition trim_ws :: "scalar list \<Rightarrow> scalar list" where
  "trim_ws s = rev (dropWhile is_whitespace (rev (dropWhile is_whitespace s)))"

definition max_score :: "int list \<Rightarrow> int option" where
  "max_score xs = (if xs = [] then None else Some (Max (set xs)))"

definition fuzzy_score_tokens :: "(scalar \<Rightarrow> scalar list) \<Rightarrow> scalar list \<Rightarrow> scalar list \<Rightarrow> int option" where
  "fuzzy_score_tokens lower needle haystack =
     (let needle = trim_ws needle
      in if needle = [] then Some 0
         else if \<exists>c \<in> set needle. is_whitespace c then fuzzy_score lower needle haystack
         else max_score (List.map_filter (fuzzy_score lower needle) (words [] haystack)))"

definition fuzzy_match_positions :: "(scalar \<Rightarrow> scalar list) \<Rightarrow> scalar list \<Rightarrow> scalar list \<Rightarrow> nat list" where
  "fuzzy_match_positions lower needle haystack =
     (case fuzzy_match lower needle haystack of Some r \<Rightarrow> fm_positions r | None \<Rightarrow> [])"

definition command_fuzzy_match ::
  "(scalar \<Rightarrow> scalar list) \<Rightarrow> scalar list \<Rightarrow> scalar list \<Rightarrow> match_result option" where
  "command_fuzzy_match lower needle haystack = fuzzy_match_impl lower needle haystack True True True"

definition command_fuzzy_score :: "(scalar \<Rightarrow> scalar list) \<Rightarrow> scalar list \<Rightarrow> scalar list \<Rightarrow> int option" where
  "command_fuzzy_score lower needle haystack = map_option fm_score (command_fuzzy_match lower needle haystack)"

definition command_fuzzy_match_positions ::
  "(scalar \<Rightarrow> scalar list) \<Rightarrow> scalar list \<Rightarrow> scalar list \<Rightarrow> nat list" where
  "command_fuzzy_match_positions lower needle haystack =
     (case command_fuzzy_match lower needle haystack of Some r \<Rightarrow> fm_positions r | None \<Rightarrow> [])"

end
