(* ===== verification/Fuzzy_Properties.thy ===== *)
theory Fuzzy_Properties
  imports Fuzzy_Match "HOL-Library.Code_Target_Nat"
begin

text \<open>
  What the matcher promises. The reference is independent of the table: an alignment is a list of
  edits that consumes the needle and a prefix of the haystack, with its cost, its hits and its points
  read from left to right. Each cell of the table is the outcome of an alignment, and a needle that
  stands in the haystack as a subsequence is found whatever the cells prefer.
\<close>

section \<open>Alignments\<close>

datatype edit = Skip | Hit | Subst | Drop | Swap

fun aligns :: "edit list \<Rightarrow> scalar list \<Rightarrow> scalar list \<Rightarrow> bool" where
  "aligns [] [] [] \<longleftrightarrow> True"
| "aligns (Skip # es) p (h # hs) \<longleftrightarrow> aligns es p hs"
| "aligns (Hit # es) (c # p) (h # hs) \<longleftrightarrow> c = h \<and> aligns es p hs"
| "aligns (Subst # es) (c # p) (h # hs) \<longleftrightarrow>
     c \<noteq> h \<and> \<not> is_whitespace c \<and> \<not> is_whitespace h \<and> aligns es p hs"
| "aligns (Drop # es) (c # p) hs \<longleftrightarrow> \<not> is_whitespace c \<and> aligns es p hs"
| "aligns (Swap # es) (c # d # p) (h # k # hs) \<longleftrightarrow>
     c = k \<and> d = h \<and> c \<noteq> d \<and> \<not> is_whitespace c \<and> \<not> is_whitespace d \<and> aligns es p hs"
| "aligns _ _ _ \<longleftrightarrow> False"

fun cost :: "edit \<Rightarrow> nat" where
  "cost Skip = 0" | "cost Hit = 0" | "cost Subst = 1" | "cost Drop = 1" | "cost Swap = 1"

definition costs :: "edit list \<Rightarrow> nat" where
  "costs es = sum_list (map cost es)"

text \<open>The haystack positions that are hit, from position \<open>j\<close> on.\<close>

fun hits :: "nat \<Rightarrow> edit list \<Rightarrow> nat list" where
  "hits j [] = []"
| "hits j (Skip # es) = hits (j + 1) es"
| "hits j (Hit # es) = j # hits (j + 1) es"
| "hits j (Subst # es) = hits (j + 1) es"
| "hits j (Drop # es) = hits j es"
| "hits j (Swap # es) = j # (j + 1) # hits (j + 2) es"

text \<open>Points from the state after \<open>i\<close> characters of the needle and \<open>j\<close> of the haystack, \<open>l\<close> the
  haystack position that was consumed last by the needle.\<close>

fun points :: "scalar list \<Rightarrow> nat \<Rightarrow> nat \<Rightarrow> int \<Rightarrow> edit list \<Rightarrow> int" where
  "points hay i j l [] = 0"
| "points hay i j l (Skip # es) = (if i = 0 then - 3 else - 1) + points hay i (j + 1) l es"
| "points hay i j l (Hit # es) =
     16 + (if l = int j - 1 then 8 else 0) + (if j = 0 \<or> is_boundary (hay ! (j - 1)) then 9 else 0) +
     (if i = 0 \<and> j = 0 then 12 else 0) + points hay (i + 1) (j + 1) (int j) es"
| "points hay i j l (Subst # es) = - 10 + points hay (i + 1) (j + 1) (int j) es"
| "points hay i j l (Drop # es) = - 12 + points hay (i + 1) j l es"
| "points hay i j l (Swap # es) =
     10 + (if j = 0 \<or> is_boundary (hay ! (j - 1)) then 9 else 0) + points hay (i + 2) (j + 2) (int j + 1) es"

fun place :: "nat \<Rightarrow> nat \<Rightarrow> int \<Rightarrow> edit list \<Rightarrow> nat \<times> nat \<times> int" where
  "place i j l [] = (i, j, l)"
| "place i j l (Skip # es) = place i (j + 1) l es"
| "place i j l (Hit # es) = place (i + 1) (j + 1) (int j) es"
| "place i j l (Subst # es) = place (i + 1) (j + 1) (int j) es"
| "place i j l (Drop # es) = place (i + 1) j l es"
| "place i j l (Swap # es) = place (i + 2) (j + 2) (int j + 1) es"

text \<open>The last character of the needle was matched truly.\<close>

fun true_tail :: "edit list \<Rightarrow> bool" where
  "true_tail [] = True"
| "true_tail (e # es) = (if \<forall>x \<in> set es. x = Skip then e \<in> {Skip, Hit, Swap} else true_tail es)"

lemma costs_simps [simp]: "costs [] = 0" "costs (e # es) = cost e + costs es" "costs (es @ fs) = costs es + costs fs"
  by (simp_all add: costs_def)

lemma aligns_append: "aligns es p h \<Longrightarrow> aligns fs q k \<Longrightarrow> aligns (es @ fs) (p @ q) (h @ k)"
  by (induction es p h rule: aligns.induct) auto

lemma points_append:
  "points hay i j l (es @ fs) =
     points hay i j l es + (case place i j l es of (i, j, l) \<Rightarrow> points hay i j l fs)"
  by (induction hay i j l es rule: points.induct) auto

lemma place_append: "place i j l (es @ fs) = (case place i j l es of (i, j, l) \<Rightarrow> place i j l fs)"
  by (induction i j l es rule: place.induct) auto

lemma hits_append: "hits j (es @ fs) = hits j es @ hits (fst (snd (place i j l es))) fs"
  by (induction i j l es rule: place.induct) auto

lemma true_tail_snoc: "true_tail (es @ [e]) = (if e = Skip then true_tail es else e \<in> {Hit, Swap})"
  by (induction es) (auto split: if_splits)

lemma hits_lower: "p \<in> set (hits j es) \<Longrightarrow> j \<le> p"
  by (induction j es rule: hits.induct) fastforce+

lemma hits_sorted: "sorted_wrt (<) (hits j es)"
  by (induction j es rule: hits.induct) (auto dest: hits_lower)

lemma hits_upper: "aligns es p h \<Longrightarrow> q \<in> set (hits j es) \<Longrightarrow> q < j + length h"
  by (induction es p h arbitrary: j rule: aligns.induct) fastforce+

text \<open>An alignment without errors spells the needle.\<close>

lemma hits_spell: "aligns es p h \<Longrightarrow> costs es = 0 \<Longrightarrow> map (\<lambda>q. (g @ h) ! q) (hits (length g) es) = p"
proof (induction es p h arbitrary: g rule: aligns.induct)
  case (2 es p h hs)
  show ?case using 2(1) [of "g @ [h]"] 2(2,3) by simp
next
  case (3 es c p h hs)
  show ?case using 3(1) [of "g @ [h]"] 3(2,3) by simp
qed auto

section \<open>Induction over the table\<close>

lemma snoc_fold:
  assumes "\<And>cur j. length cur = j \<Longrightarrow> j < n \<Longrightarrow> (\<forall>k < j. Q k (cur ! k)) \<Longrightarrow> Q j (f cur j)"
  shows "length (foldl (\<lambda>cur j. cur @ [f cur j]) [] [0..<n]) = n \<and>
    (\<forall>k < n. Q k (foldl (\<lambda>cur j. cur @ [f cur j]) [] [0..<n] ! k))"
  using assms
proof (induction n)
  case (Suc n)
  let ?cur = "foldl (\<lambda>cur j. cur @ [f cur j]) [] [0..<n]"
  have IH: "length ?cur = n" "\<forall>k < n. Q k (?cur ! k)" using Suc.IH Suc.prems less_SucI by blast+
  moreover have "Q n (f ?cur n)" using IH Suc.prems by blast
  ultimately show ?case by (auto simp: nth_append less_Suc_eq)
qed simp

text \<open>The rows that start with a given entry, as \<open>first_row\<close> and \<open>dp_table\<close>.\<close>

lemma seeded_fold:
  assumes "\<And>cur j. push cur j = cur @ [f cur j]"
  shows "foldl push [x] [1..<Suc n] =
   foldl (\<lambda>cur j. cur @ [if j = 0 then x else f cur j]) [] [0..<Suc n]"
proof (induction n)
  case (Suc n)
  have "[1..<Suc (Suc n)] = [1..<Suc n] @ [Suc n]" "[0..<Suc (Suc n)] = [0..<Suc n] @ [Suc n]"
    by (simp_all add: upt_Suc_append)
  then show ?case using Suc by (simp add: assms del: upt_Suc)
qed simp

lemma table_induct:
  assumes start: "Q 0 0 (Some start_cell)"
    and skip: "\<And>j c. j < length hay \<Longrightarrow> Q 0 j c \<Longrightarrow> Q 0 (Suc j) (map_option (skip_cell leading_gap_points) c)"
    and entry: "\<And>dp i cur j. 1 \<le> i \<Longrightarrow> i \<le> length pat \<Longrightarrow> j \<le> length hay \<Longrightarrow>
      (\<forall>i' < i. \<forall>j \<le> length hay. Q i' j (dp ! i' ! j)) \<Longrightarrow> (\<forall>k < j. Q i k (cur ! k)) \<Longrightarrow>
      Q i j (dp_entry pat hay e dp i cur j)"
    and "i \<le> length pat"
  shows "length (dp_table pat hay e) = Suc (length pat) \<and> length (dp_table pat hay e ! i) = Suc (length hay) \<and>
    (\<forall>j \<le> length hay. Q i j (dp_table pat hay e ! i ! j))"
proof -
  let ?good = "\<lambda>i row. length row = Suc (length hay) \<and> (\<forall>j < Suc (length hay). Q i j (row ! j))"
  have first: "?good 0 (first_row hay)"
    unfolding first_row_def seeded_fold [OF push_leading_def]
  proof (rule snoc_fold)
    fix cur j
    assume j: "length cur = j" "j < Suc (length hay)" "\<forall>k < j. Q 0 k (cur ! k)"
    show "Q 0 j (if j = 0 then Some start_cell else map_option (skip_cell leading_gap_points) (cur ! (j - 1)))"
      using j start skip [of "j - 1" "cur ! (j - 1)"] by (cases j) auto
  qed
  let ?row = "\<lambda>dp i. foldl (push_entry pat hay e dp i) [] [0..<Suc (length hay)]"
  have row: "?good i (?row dp i)"
    if "1 \<le> i" "i \<le> length pat" "\<forall>k < i. ?good k (dp ! k)" for i dp
    unfolding push_entry_def by (rule snoc_fold) (use that in \<open>auto intro!: entry simp: less_Suc_eq_le\<close>)
  have "length (dp_table pat hay e) = Suc (length pat) \<and> (\<forall>i < Suc (length pat). ?good i (dp_table pat hay e ! i))"
    unfolding dp_table_def seeded_fold [OF push_row_def]
  proof (rule snoc_fold)
    fix dp i
    assume i: "length dp = i" "i < Suc (length pat)" "\<forall>k < i. ?good k (dp ! k)"
    show "?good i (if i = 0 then first_row hay else ?row dp i)"
      using i first row [of i dp] by (cases i) auto
  qed
  then show ?thesis using assms(4) by (auto simp: less_Suc_eq_le)
qed

lemma pick_answer_is_cell:
  "pick_answer tail row answer = Some c \<Longrightarrow>
     answer = Some c \<or> (Some c \<in> set row \<and> (tail \<longrightarrow> ce_tail c))"
proof (induction tail row answer rule: pick_answer.induct)
  case (3 tail d row answer)
  then show ?case by (cases answer) (auto split: if_splits)
qed auto

lemma pick_answer_None: "pick_answer False row answer = None \<longleftrightarrow> answer = None \<and> set row \<subseteq> {None}"
proof (induction False row answer rule: pick_answer.induct)
  case (3 c row answer)
  then show ?case by (cases answer) auto
qed auto

section \<open>Every cell is an alignment\<close>

definition derives :: "scalar list \<Rightarrow> scalar list \<Rightarrow> nat \<Rightarrow> nat \<Rightarrow> nat \<Rightarrow> dp_cell \<Rightarrow> edit list \<Rightarrow> bool" where
  "derives pat hay e i j c es \<longleftrightarrow>
     aligns es (take i pat) (take j hay) \<and> costs es \<le> e \<and> place 0 0 (- 1) es = (i, j, ce_last c) \<and>
     c = \<lparr>ce_score = points hay 0 0 (- 1) es, ce_errors = costs es, ce_last = ce_last c, ce_tail = true_tail es,
          ce_positions = hits 0 es\<rparr>"

definition derived :: "scalar list \<Rightarrow> scalar list \<Rightarrow> nat \<Rightarrow> nat \<Rightarrow> nat \<Rightarrow> dp_cell option \<Rightarrow> bool" where
  "derived pat hay e i j oc \<longleftrightarrow> (\<forall>c. oc = Some c \<longrightarrow> (\<exists>es. derives pat hay e i j c es))"

lemma derived_simps [simp]:
  "derived pat hay e i j None" "derived pat hay e i j (Some c) \<longleftrightarrow> (\<exists>es. derives pat hay e i j c es)"
  by (simp_all add: derived_def)

lemma derived_keep_best: "derived pat hay e i j b \<Longrightarrow> derived pat hay e i j (Some c) \<Longrightarrow> derived pat hay e i j (keep_best b c)"
  by (cases b) auto

lemma derives_extend:
  assumes "derives pat hay e i j c es"
    and "aligns [x] (take di (drop i pat)) (take dj (drop j hay))" and "costs es + cost x \<le> e"
    and "place i j (ce_last c) [x] = (i + di, j + dj, ce_last d)"
    and "d = \<lparr>ce_score = ce_score c + points hay i j (ce_last c) [x], ce_errors = ce_errors c + cost x,
      ce_last = ce_last d, ce_tail = (if x = Skip then ce_tail c else x \<in> {Hit, Swap}),
      ce_positions = ce_positions c @ hits j [x]\<rparr>"
  shows "derives pat hay e (i + di) (j + dj) d (es @ [x])"
proof -
  have es: "aligns es (take i pat) (take j hay)" "place 0 0 (- 1) es = (i, j, ce_last c)"
    "ce_score c = points hay 0 0 (- 1) es" "ce_errors c = costs es" "ce_tail c = true_tail es"
    "ce_positions c = hits 0 es"
    using assms(1) by (cases c, simp add: derives_def)+
  have "aligns (es @ [x]) (take (i + di) pat) (take (j + dj) hay)"
    using aligns_append [OF es(1) assms(2)] by (simp add: take_add)
  moreover have "hits 0 (es @ [x]) = hits 0 es @ hits j [x]"
    using es(2) by (simp add: hits_append [where i = 0 and l = "- 1"])
  ultimately show ?thesis
    using assms(3,4) es
    by (subst assms(5)) (simp add: derives_def place_append points_append true_tail_snoc del: hits.simps place.simps)
qed

lemma take_one: "i < length xs \<Longrightarrow> take (Suc 0) (drop i xs) = [xs ! i]"
  by (simp add: take_Suc_conv_app_nth)

lemma take_two: "Suc i < length xs \<Longrightarrow> take 2 (drop i xs) = [xs ! i, xs ! Suc i]"
  by (simp add: take_Suc_conv_app_nth numeral_2_eq_2)

lemma derived_gap:
  assumes "derived pat hay e i j c" and "j < length hay" and "p = (if i = 0 then leading_gap_points else gap_points)"
  shows "derived pat hay e i (Suc j) (map_option (skip_cell p) c)"
proof (cases c)
  case (Some d)
  then obtain es where es: "derives pat hay e i j d es" using assms(1) by auto
  have "derives pat hay e (i + 0) (j + 1) (skip_cell p d) (es @ [Skip])"
    using es assms(2,3) by (intro derives_extend [OF es])
      (simp_all add: take_one skip_cell_def points_defs derives_def)
  then show ?thesis using Some by auto
qed simp

lemma derives_hit:
  assumes "derives pat hay e i j c es" and "i < length pat" and "j < length hay" and "pat ! i = hay ! j"
  shows "derives pat hay e (Suc i) (Suc j) (hit_cell hay (Suc i) j c) (es @ [Hit])"
proof -
  have "derives pat hay e (i + 1) (j + 1) (hit_cell hay (Suc i) j c) (es @ [Hit])"
    using assms by (intro derives_extend [OF assms(1)])
      (simp_all add: take_one hit_cell_def points_defs boundary_bonus_def derives_def)
  then show ?thesis by simp
qed

lemma derives_subst:
  assumes "derives pat hay e i j c es" and "i < length pat" and "j < length hay" and "pat ! i \<noteq> hay ! j"
    and "ce_errors c < e" and "\<not> is_whitespace (pat ! i)" and "\<not> is_whitespace (hay ! j)"
  shows "derives pat hay e (Suc i) (Suc j) (subst_cell j c) (es @ [Subst])"
proof -
  have "costs es = ce_errors c" using assms(1) by (cases c) (simp add: derives_def)
  then have "derives pat hay e (i + 1) (j + 1) (subst_cell j c) (es @ [Subst])"
    using assms by (intro derives_extend [OF assms(1)]) (simp_all add: take_one subst_cell_def points_defs)
  then show ?thesis by simp
qed

lemma derives_drop:
  assumes "derives pat hay e i j c es" and "i < length pat" and "ce_errors c < e" and "\<not> is_whitespace (pat ! i)"
  shows "derives pat hay e (Suc i) j (drop_cell c) (es @ [Drop])"
proof -
  have "costs es = ce_errors c" using assms(1) by (cases c) (simp add: derives_def)
  then have "derives pat hay e (i + 1) (j + 0) (drop_cell c) (es @ [Drop])"
    using assms by (intro derives_extend [OF assms(1)]) (simp_all add: take_one drop_cell_def points_defs)
  then show ?thesis by simp
qed

lemma derives_swap:
  assumes "derives pat hay e i j c es" and "Suc i < length pat" and "Suc j < length hay"
    and "pat ! Suc i = hay ! j" and "pat ! i = hay ! Suc j" and "pat ! Suc i \<noteq> pat ! i"
    and "ce_errors c < e" and "\<not> is_whitespace (pat ! i)" and "\<not> is_whitespace (pat ! Suc i)"
  shows "derives pat hay e (i + 2) (j + 2) (swap_cell hay j c) (es @ [Swap])"
proof -
  have "costs es = ce_errors c" using assms(1) by (cases c) (simp add: derives_def)
  then show ?thesis
    using assms by (intro derives_extend [OF assms(1)])
      (auto simp: take_two swap_cell_def points_defs boundary_bonus_def)
qed

lemma derived_entry:
  assumes "1 \<le> i" and "i \<le> length pat" and "j \<le> length hay"
    and above: "\<forall>i' < i. \<forall>j \<le> length hay. derived pat hay e i' j (dp ! i' ! j)"
    and left: "\<forall>k < j. derived pat hay e i k (cur ! k)"
  shows "derived pat hay e i j (dp_entry pat hay e dp i cur j)"
proof -
  obtain i0 where i: "i = Suc i0" using assms(1) by (cases i) auto
  let ?g = "try_gap j cur None"
  have g: "derived pat hay e i j ?g"
  proof (cases j)
    case (Suc j0)
    then have "derived pat hay e i j (map_option (skip_cell gap_points) (cur ! j0))"
      using derived_gap [of pat hay e i j0] left assms(3) i by auto
    with Suc show ?thesis by (auto simp: try_gap_def split: option.split)
  qed (simp add: try_gap_def)
  let ?d = "try_diagonal pat hay e i j (dp ! (i - 1)) ?g"
  have d: "derived pat hay e i j ?d"
  proof (cases j)
    case (Suc j0)
    show ?thesis
    proof (cases "dp ! i0 ! j0")
      case (Some c)
      then have "derived pat hay e i0 j0 (Some c)" using above i Suc assms(3) by (metis Suc_leD lessI)
      then obtain es where es: "derives pat hay e i0 j0 c es" by auto
      show ?thesis
        using g Some Suc i assms(2,3) derives_hit [OF es] derives_subst [OF es]
        by (simp add: try_diagonal_def) (meson Suc_le_lessD derived_keep_best derived_simps(2))
    qed (use g i Suc in \<open>simp add: try_diagonal_def\<close>)
  qed (use g in \<open>simp add: try_diagonal_def\<close>)
  let ?r = "try_drop pat e i j (dp ! (i - 1)) ?d"
  have r: "derived pat hay e i j ?r"
  proof (cases "dp ! i0 ! j")
    case (Some c)
    then have "derived pat hay e i0 j (Some c)" using above i assms(3) by (metis lessI)
    then obtain es where es: "derives pat hay e i0 j c es" by auto
    show ?thesis
      using d Some i assms(2) derives_drop [OF es]
      by (simp add: try_drop_def) (meson Suc_le_lessD derived_keep_best derived_simps(2))
  qed (use d i in \<open>simp add: try_drop_def\<close>)
  show ?thesis
  proof (cases "2 \<le> i \<and> 2 \<le> j")
    case True
    define i1 j1 where "i1 = i - 2" and "j1 = j - 2"
    have ij: "i = i1 + 2" "j = j1 + 2" using True by (auto simp: i1_def j1_def)
    show ?thesis
    proof (cases "dp ! i1 ! j1")
      case (Some c)
      then have "derived pat hay e i1 j1 (Some c)" using above ij assms(3) by (metis add_leD1 less_add_same_cancel1 zero_less_numeral)
      then obtain es where "derives pat hay e i1 j1 c es" by auto
      then have "derives pat hay e (i1 + 2) (j1 + 2) (swap_cell hay j1 c) (es @ [Swap])"
        if "pat ! Suc i1 = hay ! j1" "pat ! i1 = hay ! Suc j1" "pat ! Suc i1 \<noteq> pat ! i1"
          "ce_errors c < e" "\<not> is_whitespace (pat ! i1)" "\<not> is_whitespace (pat ! Suc i1)"
        using that ij assms(2,3) by (intro derives_swap) auto
      with r Some ij show ?thesis
        by (auto simp: dp_entry_def try_swap_def intro!: derived_keep_best)
    qed (use r ij in \<open>simp add: dp_entry_def try_swap_def\<close>)
  qed (use r in \<open>auto simp: dp_entry_def try_swap_def\<close>)
qed

lemma derived_table:
  assumes "i \<le> length pat"
  shows "length (dp_table pat hay e ! i) = Suc (length hay) \<and>
    (\<forall>j \<le> length hay. derived pat hay e i j (dp_table pat hay e ! i ! j))"
proof -
  have "derives pat hay e 0 0 start_cell []" by (simp add: derives_def start_cell_def)
  then have "derived pat hay e 0 0 (Some start_cell)" by auto
  then show ?thesis
    using table_induct [of "derived pat hay e" hay pat e i] derived_gap [of pat hay e 0] derived_entry assms by simp
qed

section \<open>What a match is\<close>

lemma best_cell_derived:
  assumes "best_cell pat hay tail = Some c"
  shows "\<exists>j es. j \<le> length hay \<and> derives pat hay (error_budget (meaningful pat)) (length pat) j c es \<and> (tail \<longrightarrow> ce_tail c)"
proof -
  let ?row = "dp_table pat hay (error_budget (meaningful pat)) ! length pat"
  have c: "Some c \<in> set ?row" "tail \<longrightarrow> ce_tail c"
    using pick_answer_is_cell [OF assms [unfolded best_cell_def]] by auto
  then obtain j where "j < length ?row" "?row ! j = Some c" by (auto simp: in_set_conv_nth)
  then show ?thesis
    using derived_table [of "length pat" pat hay "error_budget (meaningful pat)"] c(2)
    by (metis derived_simps(2) less_Suc_eq_le order_refl)
qed

text \<open>C22. A match of the fuzzy matcher is a genuine alignment: whatever is not blank and matches does so by an
  edit script that turns the whole needle into a prefix of the haystack within the error budget, whose
  hits are the reported positions and whose points are the reported score, with the bonus of an exact
  match. For commands the script hits the first letter and ends in a true match. The positions ascend,
  lie in the text, and spell the needle when no error was needed.\<close>

theorem fuzzy_match_is_alignment:
  fixes lower needle haystack strip
  defines "pat \<equiv> lowered lower (needle_source strip needle)" and "hay \<equiv> lowered lower (snd (hay_source strip haystack))"
    and "off \<equiv> fst (hay_source strip haystack)"
  assumes "fuzzy_match_impl lower needle haystack anchor strip tail = Some r" and "meaningful pat > 0"
  shows "\<exists>j es. j \<le> length hay \<and> aligns es pat (take j hay) \<and> costs es \<le> error_budget (meaningful pat) \<and>
    fm_positions r = map (\<lambda>p. p + off) (hits 0 es) \<and>
    fm_score r = points hay 0 0 (- 1) es + (if pat = hay then 32 else 0) \<and>
    (anchor \<longrightarrow> hits 0 es \<noteq> [] \<and> hd (hits 0 es) = 0) \<and> (tail \<longrightarrow> true_tail es) \<and>
    sorted_wrt (<) (hits 0 es) \<and> (\<forall>p \<in> set (hits 0 es). p < j) \<and>
    (costs es = 0 \<longrightarrow> map (\<lambda>p. hay ! p) (hits 0 es) = pat)"
proof -
  have "\<exists>c \<in> set pat. \<not> is_whitespace c"
    using assms(5) by (auto simp: meaningful_def filter_empty_conv)
  then obtain c where c: "best_cell pat hay tail = Some c"
    "\<not> (anchor \<and> (ce_positions c = [] \<or> hd (ce_positions c) \<noteq> 0))"
    "r = \<lparr>fm_score = ce_score c + (if pat = hay then exact_points else 0), fm_positions = map (\<lambda>p. p + off) (ce_positions c)\<rparr>"
    using assms(4)
    by (auto simp: fuzzy_match_impl_def Let_def case_prod_beta pat_def hay_def off_def split: if_splits option.splits)
  obtain j es where es: "j \<le> length hay" "derives pat hay (error_budget (meaningful pat)) (length pat) j c es" "tail \<longrightarrow> ce_tail c"
    using best_cell_derived [OF c(1)] by blast
  have cell: "ce_positions c = hits 0 es" "ce_score c = points hay 0 0 (- 1) es" "ce_tail c = true_tail es"
    "aligns es pat (take j hay)" "costs es \<le> error_budget (meaningful pat)"
    using es(2) by (cases c, simp add: derives_def)+
  have "map (\<lambda>p. hay ! p) (hits 0 es) = pat" if "costs es = 0"
  proof -
    have "map (\<lambda>p. take j hay ! p) (hits 0 es) = pat"
      using hits_spell [OF cell(4) that, of "[]"] by simp
    moreover have "map (\<lambda>p. take j hay ! p) (hits 0 es) = map (\<lambda>p. hay ! p) (hits 0 es)"
      using hits_upper [OF cell(4), of _ 0] by auto
    ultimately show ?thesis by simp
  qed
  moreover have "\<forall>p \<in> set (hits 0 es). p < j"
    using hits_upper [OF cell(4), of _ 0] es(1) by auto
  ultimately show ?thesis
    using c(2,3) es(1,3) cell hits_sorted [of 0 es] by (intro exI [of _ j] exI [of _ es]) (simp add: exact_points_def)
qed

definition plain :: "scalar \<Rightarrow> scalar list" where
  "plain c = [c]"

lemma lowered_plain [simp]: "lowered plain s = s"
  by (induction s) (simp_all add: lowered_def plain_def)

text \<open>The needle \<open>codxe\<close> in the haystack \<open>codex\<close>.\<close>

lemma codxe_match:
  "fuzzy_match_impl plain [99, 111, 100, 120, 101] [99, 111, 100, 101, 120] False False False =
   Some \<lparr>fm_score = 105, fm_positions = [0, 1, 2, 3]\<rparr>"
  by code_simp

section \<open>Literal needles\<close>

lemma subseq_snoc: "subseq (xs @ [x]) (ys @ [y]) \<longleftrightarrow> (x = y \<and> subseq xs ys) \<or> subseq (xs @ [x]) ys"
proof (induction ys arbitrary: xs)
  case Nil
  then show ?case by (cases xs) (auto simp: subseq_Cons2_iff)
next
  case (Cons z ys)
  show ?case using Cons [of xs] Cons [of "tl xs"] by (cases xs) (auto simp: subseq_Cons2_iff)
qed

lemma keep_best_Some [simp]: "\<exists>d. keep_best b c = Some d"
  by (cases b) auto

lemma try_keeps:
  "best \<noteq> None \<Longrightarrow> try_swap pat hay e i j up2 best \<noteq> None"
  "best \<noteq> None \<Longrightarrow> try_drop pat e i j up best \<noteq> None"
  "best \<noteq> None \<Longrightarrow> try_diagonal pat hay e i j up best \<noteq> None"
  by (auto simp: try_swap_def try_drop_def try_diagonal_def split: option.splits)

definition present :: "scalar list \<Rightarrow> scalar list \<Rightarrow> nat \<Rightarrow> nat \<Rightarrow> dp_cell option \<Rightarrow> bool" where
  "present pat hay i j oc \<longleftrightarrow> (subseq (take i pat) (take j hay) \<longrightarrow> oc \<noteq> None)"

lemma present_entry:
  assumes "1 \<le> i" and "i \<le> length pat" and "j \<le> length hay"
    and above: "\<forall>i' < i. \<forall>j \<le> length hay. present pat hay i' j (dp ! i' ! j)"
    and left: "\<forall>k < j. present pat hay i k (cur ! k)"
  shows "present pat hay i j (dp_entry pat hay e dp i cur j)"
  unfolding present_def
proof
  assume sub: "subseq (take i pat) (take j hay)"
  obtain i0 where i: "i = Suc i0" using assms(1) by (cases i) auto
  have pat: "take i pat = take i0 pat @ [pat ! i0]" using i assms(2) by (simp add: take_Suc_conv_app_nth)
  then obtain j0 where j: "j = Suc j0" using sub by (cases j) auto
  have hay: "take j hay = take j0 hay @ [hay ! j0]" using j assms(3) by (simp add: take_Suc_conv_app_nth)
  consider "pat ! i0 = hay ! j0" "dp ! i0 ! j0 \<noteq> None" | "cur ! j0 \<noteq> None"
    using sub above left i j assms(3) unfolding pat hay subseq_snoc present_def by (auto simp: pat [symmetric])
  then have "try_diagonal pat hay e i j (dp ! (i - 1)) (try_gap j cur None) \<noteq> None"
  proof cases
    case 1
    then show ?thesis using i j by (auto simp: try_diagonal_def)
  next
    case 2
    then have "try_gap j cur None \<noteq> None" using j by (auto simp: try_gap_def)
    then show ?thesis by (rule try_keeps(3))
  qed
  then show "dp_entry pat hay e dp i cur j \<noteq> None"
    unfolding dp_entry_def by (intro try_keeps(1,2))
qed

lemma best_cell_literal: "subseq pat hay \<Longrightarrow> best_cell pat hay False \<noteq> None"
proof -
  assume sub: "subseq pat hay"
  let ?row = "dp_table pat hay (error_budget (meaningful pat)) ! length pat"
  have "length ?row = Suc (length hay) \<and> (\<forall>j \<le> length hay. present pat hay (length pat) j (?row ! j))"
    using table_induct [of "present pat hay" hay pat "error_budget (meaningful pat)" "length pat"] present_entry
    by (simp add: present_def)
  then have "?row ! length hay \<in> set ?row" "?row ! length hay \<noteq> None"
    using sub by (auto simp: present_def)
  then show ?thesis by (auto simp: best_cell_def pick_answer_None)
qed

lemma aligns_literal: "aligns es p h \<Longrightarrow> costs es = 0 \<Longrightarrow> subseq p h"
  by (induction es p h rule: aligns.induct) auto

text \<open>C23. A needle that stands in the haystack as a subsequence is found, whatever the costs of the cells, and
  a needle of at most two characters besides blanks matches nothing else.\<close>

theorem literal_needles_match:
  fixes lower needle haystack
  defines "pat \<equiv> lowered lower needle" and "hay \<equiv> lowered lower haystack"
  shows "(subseq pat hay \<longrightarrow> fuzzy_match lower needle haystack \<noteq> None) \<and>
    (meaningful pat \<le> 2 \<longrightarrow> fuzzy_match lower needle haystack \<noteq> None \<longrightarrow> meaningful pat = 0 \<or> subseq pat hay)"
proof -
  have eq: "fuzzy_match lower needle haystack \<noteq> None \<longleftrightarrow>
    meaningful pat = 0 \<or> (hay \<noteq> [] \<and> best_cell pat hay False \<noteq> None)"
    by (auto simp: fuzzy_match_def fuzzy_match_impl_def hay_source_def needle_source_def meaningful_def
        filter_empty_conv pat_def hay_def Let_def split: option.splits if_splits)
  have "subseq pat hay" if "best_cell pat hay False = Some c" "meaningful pat \<le> 2" for c
  proof -
    have "error_budget (meaningful pat) = 0" using that(2) by (simp add: error_budget_def)
    with best_cell_derived [OF that(1)] obtain j es where "derives pat hay 0 (length pat) j c es"
      by auto
    then have "subseq pat (take j hay)" by (auto simp: derives_def intro: aligns_literal)
    then show ?thesis using list_emb_prefix [of "(=)" pat "take j hay" "drop j hay"] by simp
  qed
  moreover have "meaningful pat = 0 \<or> hay \<noteq> []" if "subseq pat hay"
    using that by (cases hay) (auto simp: meaningful_def dest: list_emb_length)
  ultimately show ?thesis using eq best_cell_literal by blast
qed

text \<open>But a typo within the budget can be missed, since a cell keeps one alignment only: the needle
  \<open>ab-\<close> has an alignment with \<open>-bbbbaab\<close> of one error (its last character is left out), the budget of
  three characters is one, and the matcher finds nothing.\<close>

theorem typo_within_budget_missed:
  "\<exists>es. aligns es [97, 98, 45] [45, 98, 98, 98, 98, 97, 97, 98] \<and>
     costs es \<le> error_budget (meaningful [97, 98, 45]) \<and>
     fuzzy_match plain [97, 98, 45] [45, 98, 98, 98, 98, 97, 97, 98] = None"
proof (intro exI conjI)
  let ?es = "[Skip, Skip, Skip, Skip, Skip, Skip, Hit, Hit, Drop]"
  show "aligns ?es [97, 98, 45] [45, 98, 98, 98, 98, 97, 97, 98]" by code_simp
  show "costs ?es \<le> error_budget (meaningful [97, 98, 45])" by code_simp
  show "fuzzy_match plain [97, 98, 45] [45, 98, 98, 98, 98, 97, 97, 98] = None" by code_simp
qed

text \<open>The positions are those of the lowered text, which can be longer than the text: with the dotted
  capital I of Unicode (304) before an \<open>x\<close>, the highlighted position of \<open>x\<close> is 2 in a text of length 2.\<close>

definition dotted :: "scalar \<Rightarrow> scalar list" where
  "dotted c = (if c = 304 then [105, 775] else [c])"

lemma position_beyond_text: "fuzzy_match_positions dotted [120] [304, 120] = [2]"
  by code_simp

section \<open>Scores fit their type\<close>

lemma points_bounds:
  "aligns es p h \<Longrightarrow> - (12 * int (length p) + 3 * int (length h)) \<le> points hay i j l es \<and>
     points hay i j l es \<le> 45 * int (length p)"
proof (induction es p h arbitrary: i j l rule: aligns.induct)
  case (2 es p h hs)
  from 2(1) [of i "j + 1" l] 2(2) show ?case by auto
next
  case (3 es c p h hs)
  from 3(1) [of "i + 1" "j + 1" "int j"] 3(2) show ?case by auto
next
  case (4 es c p h hs)
  from 4(1) [of "i + 1" "j + 1" "int j"] 4(2) show ?case by auto
next
  case (5 es c p hs)
  from 5(1) [of "i + 1" j l] 5(2) show ?case by auto
next
  case (6 es c d p h k hs)
  from 6(1) [of "i + 2" "j + 2" "int j + 1"] 6(2) show ?case by auto
qed auto

text \<open>No score overflows: in every cell of the table the score, and the sums on the way to it, are within
  \<open>i32\<close> as long as needle and haystack together have fewer than 47 million characters; the error count
  is at most two.\<close>

theorem fuzzy_scores_fit:
  assumes "length pat + length hay < 47000000" and "i \<le> length pat" and "j \<le> length hay"
    and "dp_table pat hay (error_budget (meaningful pat)) ! i ! j = Some c"
  shows "- (2 ^ 31) \<le> ce_score c + substitution_points + deletion_points \<and> ce_score c + exact_points + 45 < 2 ^ 31 \<and>
    ce_errors c \<le> 2"
proof -
  obtain es where "derives pat hay (error_budget (meaningful pat)) i j c es"
    using derived_table [of i pat hay "error_budget (meaningful pat)"] assms(2,3,4) by (metis derived_simps(2))
  then have es: "aligns es (take i pat) (take j hay)" "ce_score c = points hay 0 0 (- 1) es" "ce_errors c = costs es"
    "costs es \<le> error_budget (meaningful pat)"
    by (cases c, simp add: derives_def)+
  have "error_budget (meaningful pat) \<le> 2" by (simp add: error_budget_def)
  moreover have "- (12 * int i + 3 * int j) \<le> ce_score c" "ce_score c \<le> 45 * int i"
    using points_bounds [OF es(1), of hay 0 0 "- 1"] es(2) assms(2,3) by simp_all
  moreover have "int i + int j < 47000000" using assms(1,2,3) by linarith
  ultimately show ?thesis using es(3,4) unfolding points_defs by auto
qed

text \<open>The witnesses.\<close>

theorem fuzzy_match_is_alignment_witness:
  "\<exists>j es. j \<le> 5 \<and>
    aligns es [99, 111, 100, 120, 101] (take j [99, 111, 100, 101, 120]) \<and> costs es \<le> 1 \<and> hits 0 es = [0, 1, 2, 3]"
proof -
  have m: "meaningful [99, 111, 100, 120, 101] = 5" by code_simp
  have src: "needle_source False n = n" "hay_source False n = (0, n)" for n
    by (simp_all add: needle_source_def hay_source_def)
  have b: "error_budget 5 = 1" by (simp add: error_budget_def)
  note ali = fuzzy_match_is_alignment [OF codxe_match, unfolded src lowered_plain fst_conv snd_conv m b
      match_result.select_convs add_0_right list.map_ident]
  obtain j es where "j \<le> length [99 :: nat, 111, 100, 101, 120]"
    "aligns es [99, 111, 100, 120, 101] (take j [99, 111, 100, 101, 120])" "costs es \<le> 1" "[0, 1, 2, 3] = hits 0 es"
    using ali zero_less_numeral by (elim meta_impE exE conjE) blast
  then show ?thesis by (intro exI [of _ j] exI [of _ es]) simp
qed

theorem literal_needles_match_witness:
  "fuzzy_match plain [97, 98] [97, 45, 98] \<noteq> None \<and> fuzzy_match plain [98, 97] [97, 45, 98] = None"
proof
  show "fuzzy_match plain [97, 98] [97, 45, 98] \<noteq> None"
    using literal_needles_match [of plain "[97, 98]" "[97, 45, 98]"] by simp
  have "meaningful [98, 97] = 2" by code_simp
  then show "fuzzy_match plain [98, 97] [97, 45, 98] = None"
    using literal_needles_match [of plain "[98, 97]" "[97, 45, 98]"] by simp
qed

theorem fuzzy_scores_fit_witness:
  "\<exists>c. dp_table [97, 98] [97, 98] 0 ! 2 ! 2 = Some c \<and> ce_score c + exact_points + 45 < 2 ^ 31"
proof -
  have "error_budget (meaningful [97, 98]) = 0" by code_simp
  moreover obtain c where "dp_table [97, 98] [97, 98] 0 ! 2 ! 2 = Some c"
  proof
    show "dp_table [97, 98] [97, 98] 0 ! 2 ! 2 = Some
      \<lparr>ce_score = 69, ce_errors = 0, ce_last = 1, ce_tail = True, ce_positions = [0, 1]\<rparr>"
      by code_simp
  qed
  ultimately show ?thesis using fuzzy_scores_fit [of "[97, 98]" "[97, 98]" 2 2 c] by simp
qed

end
