(* ===== verification/Swarm_Mutation.thy ===== *)
theory Swarm_Mutation
  imports Rust_Prelude
begin

text \<open>
  How the server runs a swarm mutation once although clients repeat their requests
  (\<open>crates/jcode-app-core/src/server/swarm_mutation_state.rs\<close>, with the file helpers of
  \<open>durable_state.rs\<close>): a request either replays a persisted answer, joins the execution in flight as a
  waiter, or claims the key and executes. The lock is held for the whole of \<open>begin_locked\<close> and of
  \<open>finish_release\<close>; between them any request may take the next step, and a load or a save of a state
  file is one step. A save may fail (it is only logged); \<open>reliable\<close> says that none does. The clock, in
  milliseconds, does not run backwards.
\<close>

section \<open>State\<close>

datatype response =
    Done
  | Assign_Task string string
  | Error_Response string "u64 option"
  | Spawn string

datatype server_event =
    Event_Done u64
  | Event_Assign_Task u64 string string
  | Event_Error u64 string "u64 option"
  | Event_Spawn u64 string string

fun into_server_event :: "response \<Rightarrow> u64 \<Rightarrow> string \<Rightarrow> server_event" where
  "into_server_event Done i session = Event_Done i"
| "into_server_event (Assign_Task task target) i session = Event_Assign_Task i task target"
| "into_server_event (Error_Response message retry) i session = Event_Error i message retry"
| "into_server_event (Spawn new) i session = Event_Spawn i session new"

record mutation_state =
  ms_key :: string
  ms_action :: string
  ms_session :: string
  ms_created :: nat
  ms_final :: "response option"

text \<open>The arguments of one call: \<open>rq_replay\<close> is \<open>begin_or_replay\<close>, otherwise it is
  \<open>begin_or_join_in_flight\<close>. A call answers on a channel of its own, named by the call.\<close>

record mutation_request =
  rq_key :: string
  rq_action :: string
  rq_session :: string
  rq_id :: u64
  rq_replay :: bool

record waiter =
  wt_request :: u64
  wt_tx :: nat

text \<open>Where a call is: a call that claimed holds the state it executes with, then the response that was
  persisted, then the waiters it has drained and still has to answer.\<close>

datatype call_pc =
    Before
  | Claimed
  | Executing mutation_state
  | Persisted mutation_state response
  | Sending response string "waiter list"
  | Finished

text \<open>The clock, the state files, the two maps behind the lock, the calls, the events that were sent, and,
  for the proofs, the states of the finished executions, newest first.\<close>

record server =
  sv_now :: nat
  sv_store :: "string \<Rightarrow> mutation_state option"
  sv_active :: "string set"
  sv_waiters :: "string \<Rightarrow> waiter list option"
  sv_pc :: "nat \<Rightarrow> call_pc"
  sv_sent :: "(nat \<times> server_event) list"
  sv_runs :: "(string \<times> mutation_state) list"

definition server_new :: server where
  "server_new = \<lparr>sv_now = 0, sv_store = (\<lambda>_. None), sv_active = {}, sv_waiters = (\<lambda>_. None), sv_pc = (\<lambda>_. Before),
     sv_sent = [], sv_runs = []\<rparr>"

definition at_pc :: "nat \<Rightarrow> call_pc \<Rightarrow> server \<Rightarrow> server" where
  "at_pc t p s = s\<lparr>sv_pc := (sv_pc s)(t := p)\<rparr>"

section \<open>State files\<close>

definition final_state_ttl :: nat where "final_state_ttl = 30 * 1000"

definition pending_state_ttl :: nat where "pending_state_ttl = 30 * 60 * 1000"

definition elapsed_exceeds :: "nat \<Rightarrow> nat \<Rightarrow> nat \<Rightarrow> bool" where
  "elapsed_exceeds now created ttl \<longleftrightarrow> now - created > ttl"

definition is_stale :: "nat \<Rightarrow> mutation_state \<Rightarrow> bool" where
  "is_stale now st =
     (if ms_final st \<noteq> None then elapsed_exceeds now (ms_created st) final_state_ttl
      else elapsed_exceeds now (ms_created st) pending_state_ttl)"

text \<open>Loading removes the file of a stale state.\<close>

definition load_state :: "string \<Rightarrow> server \<Rightarrow> mutation_state option \<times> server" where
  "load_state k s =
     (case sv_store s k of
        None \<Rightarrow> (None, s)
      | Some st \<Rightarrow> if is_stale (sv_now s) st then (None, s\<lparr>sv_store := (sv_store s)(k := None)\<rparr>) else (Some st, s))"

definition save_state :: "bool \<Rightarrow> mutation_state \<Rightarrow> server \<Rightarrow> server" where
  "save_state ok st s = (if ok then s\<lparr>sv_store := (sv_store s)(ms_key st \<mapsto> st)\<rparr> else s)"

definition pending_state :: "mutation_request \<Rightarrow> server \<Rightarrow> mutation_state" where
  "pending_state q s = \<lparr>ms_key = rq_key q, ms_action = rq_action q, ms_session = rq_session q,
     ms_created = sv_now s, ms_final = None\<rparr>"

definition ensure_pending_state :: "bool \<Rightarrow> mutation_request \<Rightarrow> server \<Rightarrow> mutation_state \<times> server" where
  "ensure_pending_state ok q s =
     (case load_state (rq_key q) s of
        (Some existing, s') \<Rightarrow> (existing, s')
      | (None, s') \<Rightarrow> (pending_state q s', save_state ok (pending_state q s') s'))"

definition persist_final_response :: "bool \<Rightarrow> mutation_state \<Rightarrow> response \<Rightarrow> server \<Rightarrow> mutation_state \<times> server" where
  "persist_final_response ok st r s =
     (let next = st\<lparr>ms_final := Some r\<rparr> in (next, save_state ok next s))"

section \<open>Beginning a request\<close>

definition send :: "nat \<Rightarrow> server_event \<Rightarrow> server \<Rightarrow> server" where
  "send t ev s = s\<lparr>sv_sent := sv_sent s @ [(t, ev)]\<rparr>"

definition waiting :: "string \<Rightarrow> server \<Rightarrow> waiter list" where
  "waiting k s = the_default [] (sv_waiters s k)"

definition push_waiter :: "string \<Rightarrow> waiter \<Rightarrow> server \<Rightarrow> server" where
  "push_waiter k w s = s\<lparr>sv_waiters := (sv_waiters s)(k \<mapsto> waiting k s @ [w])\<rparr>"

definition persisted_final :: "mutation_request \<Rightarrow> server \<Rightarrow> response option \<times> server" where
  "persisted_final q s =
     (if rq_replay q
      then case load_state (rq_key q) s of (found, s') \<Rightarrow> (Option.bind found ms_final, s')
      else (None, s))"

text \<open>The block of \<open>begin_with_mode\<close> under the lock.\<close>

definition begin_locked :: "nat \<Rightarrow> mutation_request \<Rightarrow> server \<Rightarrow> server" where
  "begin_locked t q s =
     (case persisted_final q s of
        (Some r, s') \<Rightarrow> at_pc t Finished (send t (into_server_event r (rq_id q) (rq_session q)) s')
      | (None, s') \<Rightarrow>
          (let s'' = push_waiter (rq_key q) \<lparr>wt_request = rq_id q, wt_tx = t\<rparr> s'
           in if rq_key q \<in> sv_active s'' then at_pc t Finished s''
              else at_pc t Claimed (s''\<lparr>sv_active := insert (rq_key q) (sv_active s'')\<rparr>)))"

text \<open>What follows it: the state the claimant executes with.\<close>

definition begin_prepare :: "bool \<Rightarrow> nat \<Rightarrow> mutation_request \<Rightarrow> server \<Rightarrow> server" where
  "begin_prepare ok t q s =
     (if rq_replay q
      then case ensure_pending_state ok q s of (st, s') \<Rightarrow> at_pc t (Executing st) s'
      else at_pc t (Executing (pending_state q s)) (save_state ok (pending_state q s) s))"

section \<open>Finishing a request\<close>

text \<open>\<open>finish_request\<close> in its three parts; the mutation may come to any response.\<close>

definition finish_persist :: "bool \<Rightarrow> nat \<Rightarrow> mutation_state \<Rightarrow> response \<Rightarrow> server \<Rightarrow> server" where
  "finish_persist ok t st r s =
     (case persist_final_response ok st r s of (persisted, s') \<Rightarrow>
        at_pc t (Persisted persisted r) (s'\<lparr>sv_runs := (ms_key persisted, persisted) # sv_runs s'\<rparr>))"

definition finish_release :: "nat \<Rightarrow> mutation_state \<Rightarrow> response \<Rightarrow> server \<Rightarrow> server" where
  "finish_release t persisted r s =
     (let k = ms_key persisted; ws = waiting k s
      in at_pc t (Sending r (ms_session persisted) ws)
           (s\<lparr>sv_waiters := (sv_waiters s)(k := None), sv_active := sv_active s - {k}\<rparr>))"

fun finish_send :: "nat \<Rightarrow> response \<Rightarrow> string \<Rightarrow> waiter list \<Rightarrow> server \<Rightarrow> server" where
  "finish_send t r session [] s = at_pc t Finished s"
| "finish_send t r session (w # ws) s =
     at_pc t (Sending r session ws) (send (wt_tx w) (into_server_event r (wt_request w) session) s)"

section \<open>Steps\<close>

text \<open>\<open>req t\<close> are the arguments of call \<open>t\<close>.\<close>

inductive mutation_step :: "bool \<Rightarrow> (nat \<Rightarrow> mutation_request) \<Rightarrow> server \<Rightarrow> server \<Rightarrow> bool"
  for reliable :: bool and req :: "nat \<Rightarrow> mutation_request" where
  begins: "sv_pc s t = Before \<Longrightarrow> mutation_step reliable req s (begin_locked t (req t) s)"
| prepares: "sv_pc s t = Claimed \<Longrightarrow> (reliable \<Longrightarrow> ok) \<Longrightarrow>
    mutation_step reliable req s (begin_prepare ok t (req t) s)"
| persists: "sv_pc s t = Executing st \<Longrightarrow> (reliable \<Longrightarrow> ok) \<Longrightarrow>
    mutation_step reliable req s (finish_persist ok t st r s)"
| releases: "sv_pc s t = Persisted st r \<Longrightarrow> mutation_step reliable req s (finish_release t st r s)"
| sends: "sv_pc s t = Sending r session ws \<Longrightarrow> mutation_step reliable req s (finish_send t r session ws s)"
| ticks: "mutation_step reliable req s (s\<lparr>sv_now := sv_now s + d\<rparr>)"

definition mutation_run :: "bool \<Rightarrow> (nat \<Rightarrow> mutation_request) \<Rightarrow> server \<Rightarrow> bool" where
  "mutation_run reliable req s \<longleftrightarrow> (mutation_step reliable req)\<^sup>*\<^sup>* server_new s"

end
