(* ===== verification/Mutation_Properties.thy ===== *)
theory Mutation_Properties
  imports Swarm_Mutation
begin

text \<open>
  What the mutation protocol promises in every interleaving: one executor for each key, exactly one
  answer for each call, an answer that some execution of the key came to, and no second execution while
  the last one can be replayed.
\<close>

section \<open>The operations by their effect\<close>

lemma at_pc_data [simp]:
  "sv_now (at_pc t p s) = sv_now s" "sv_store (at_pc t p s) = sv_store s" "sv_active (at_pc t p s) = sv_active s"
  "sv_waiters (at_pc t p s) = sv_waiters s" "sv_pc (at_pc t p s) = (sv_pc s)(t := p)"
  "sv_sent (at_pc t p s) = sv_sent s" "sv_runs (at_pc t p s) = sv_runs s"
  by (simp_all add: at_pc_def)

lemma send_data [simp]:
  "sv_now (send t ev s) = sv_now s" "sv_store (send t ev s) = sv_store s" "sv_active (send t ev s) = sv_active s"
  "sv_waiters (send t ev s) = sv_waiters s" "sv_pc (send t ev s) = sv_pc s"
  "sv_sent (send t ev s) = sv_sent s @ [(t, ev)]" "sv_runs (send t ev s) = sv_runs s"
  by (simp_all add: send_def)

lemma push_data [simp]:
  "sv_now (push_waiter k w s) = sv_now s" "sv_store (push_waiter k w s) = sv_store s"
  "sv_active (push_waiter k w s) = sv_active s" "sv_pc (push_waiter k w s) = sv_pc s"
  "sv_sent (push_waiter k w s) = sv_sent s" "sv_runs (push_waiter k w s) = sv_runs s"
  by (simp_all add: push_waiter_def)

lemma save_data [simp]:
  "sv_now (save_state ok st s) = sv_now s" "sv_active (save_state ok st s) = sv_active s"
  "sv_waiters (save_state ok st s) = sv_waiters s" "sv_pc (save_state ok st s) = sv_pc s"
  "sv_sent (save_state ok st s) = sv_sent s" "sv_runs (save_state ok st s) = sv_runs s"
  "sv_store (save_state ok st s) = (if ok then (sv_store s)(ms_key st \<mapsto> st) else sv_store s)"
  by (simp_all add: save_state_def)

lemma waiting_cong: "sv_waiters s' = sv_waiters s \<Longrightarrow> waiting k s' = waiting k s"
  by (simp add: waiting_def)

lemma waiting_data [simp]:
  "waiting k (at_pc t p s) = waiting k s" "waiting k (send t ev s) = waiting k s"
  "waiting k (save_state ok st s) = waiting k s"
  "waiting k (s\<lparr>sv_store := m\<rparr>) = waiting k s" "waiting k (s\<lparr>sv_now := n\<rparr>) = waiting k s"
  "waiting k (s\<lparr>sv_active := a\<rparr>) = waiting k s" "waiting k (s\<lparr>sv_runs := rs\<rparr>) = waiting k s"
  by (rule waiting_cong; simp)+

lemma waiting_push [simp]: "waiting k (push_waiter k' w s) = (if k = k' then waiting k s @ [w] else waiting k s)"
  by (simp add: waiting_def push_waiter_def)

text \<open>The files after the stale state of the key has been swept.\<close>

definition swept :: "mutation_request \<Rightarrow> server \<Rightarrow> string \<Rightarrow> mutation_state option" where
  "swept q s = sv_store (snd (persisted_final q s))"

lemma swept_keeps: "swept q s k = Some st \<Longrightarrow> sv_store s k = Some st"
  by (auto simp: swept_def persisted_final_def load_state_def split: option.splits if_splits)


lemma persisted_final_swept: "persisted_final q s = (f, s') \<Longrightarrow> s' = s\<lparr>sv_store := swept q s\<rparr>"
  by (auto simp: swept_def persisted_final_def load_state_def split: option.splits if_splits)

lemma begin_locked_cases [case_names replay join claim]:
  assumes "\<And>r st. rq_replay q \<Longrightarrow> sv_store s (rq_key q) = Some st \<Longrightarrow> ms_final st = Some r \<Longrightarrow>
      begin_locked t q s = at_pc t Finished (send t (into_server_event r (rq_id q) (rq_session q)) (s\<lparr>sv_store := swept q s\<rparr>)) \<Longrightarrow>
      thesis"
    and "rq_key q \<in> sv_active s \<Longrightarrow> begin_locked t q s =
      at_pc t Finished (push_waiter (rq_key q) \<lparr>wt_request = rq_id q, wt_tx = t\<rparr> (s\<lparr>sv_store := swept q s\<rparr>)) \<Longrightarrow> thesis"
    and "rq_key q \<notin> sv_active s \<Longrightarrow>
      (\<And>st. rq_replay q \<Longrightarrow> sv_store s (rq_key q) = Some st \<Longrightarrow> ms_final st \<noteq> None \<Longrightarrow> is_stale (sv_now s) st) \<Longrightarrow>
      begin_locked t q s = at_pc t Claimed
        ((push_waiter (rq_key q) \<lparr>wt_request = rq_id q, wt_tx = t\<rparr> (s\<lparr>sv_store := swept q s\<rparr>))
          \<lparr>sv_active := insert (rq_key q) (sv_active s)\<rparr>) \<Longrightarrow> thesis"
  shows thesis
proof (cases "persisted_final q s")
  case (Pair f s')
  note s' = persisted_final_swept [OF Pair]
  show ?thesis
  proof (cases f)
    case (Some r)
    then obtain st where "rq_replay q" "sv_store s (rq_key q) = Some st" "ms_final st = Some r"
      using Pair by (auto simp: persisted_final_def load_state_def split: if_splits option.splits)
    then show ?thesis by (rule assms(1)) (simp add: begin_locked_def Pair Some s')
  next
    case None
    have stale: "is_stale (sv_now s) st" if "rq_replay q" "sv_store s (rq_key q) = Some st" "ms_final st \<noteq> None" for st
      using that Pair None by (auto simp: persisted_final_def load_state_def split: if_splits)
    show ?thesis
    proof (cases "rq_key q \<in> sv_active s")
      case True
      then show ?thesis by (rule assms(2)) (use True in \<open>simp add: begin_locked_def Pair None s'\<close>)
    next
      case False
      then show ?thesis by (rule assms(3)) (use False stale in \<open>simp_all add: begin_locked_def Pair None s'\<close>)
    qed
  qed
qed

definition keys_ok :: "(string \<Rightarrow> mutation_state option) \<Rightarrow> bool" where
  "keys_ok m \<longleftrightarrow> (\<forall>k st. m k = Some st \<longrightarrow> ms_key st = k)"

text \<open>Files that changed at most at \<open>k\<close>, and there at most to a pending state.\<close>

definition refreshed :: "string \<Rightarrow> (string \<Rightarrow> mutation_state option) \<Rightarrow> (string \<Rightarrow> mutation_state option) \<Rightarrow> bool" where
  "refreshed k m m' \<longleftrightarrow> (\<forall>j. j \<noteq> k \<longrightarrow> m' j = m j) \<and>
     (\<forall>j st. m' j = Some st \<longrightarrow> m j = Some st \<or> (ms_final st = None \<and> ms_key st = j))"

lemma refreshed_keys_ok: "refreshed k m m' \<Longrightarrow> keys_ok m \<Longrightarrow> keys_ok m'"
  by (simp add: refreshed_def keys_ok_def) metis

lemma begin_prepare_effect:
  assumes "keys_ok (sv_store s)"
  shows "\<exists>st m. begin_prepare ok t q s = at_pc t (Executing st) (s\<lparr>sv_store := m\<rparr>) \<and> ms_key st = rq_key q \<and>
    refreshed (rq_key q) (sv_store s) m"
proof -
  let ?s' = "begin_prepare ok t q s"
  obtain st where "?s' = at_pc t (Executing st) (s\<lparr>sv_store := sv_store ?s'\<rparr>)" "ms_key st = rq_key q"
  proof
    show "?s' = at_pc t (Executing (case sv_pc ?s' t of Executing st \<Rightarrow> st)) (s\<lparr>sv_store := sv_store ?s'\<rparr>)"
      by (auto simp: begin_prepare_def ensure_pending_state_def load_state_def save_state_def at_pc_def split: option.splits)
    show "ms_key (case sv_pc ?s' t of Executing st \<Rightarrow> st) = rq_key q"
      using assms by (auto simp: begin_prepare_def ensure_pending_state_def load_state_def pending_state_def keys_ok_def
          split: option.splits)
  qed
  moreover have "refreshed (rq_key q) (sv_store s) (sv_store ?s')"
    by (auto simp: refreshed_def begin_prepare_def ensure_pending_state_def load_state_def pending_state_def
        split: option.splits if_splits)
  ultimately show ?thesis by blast
qed

lemma finish_persist_effect:
  "finish_persist ok t st r s = at_pc t (Persisted (st\<lparr>ms_final := Some r\<rparr>) r)
     ((save_state ok (st\<lparr>ms_final := Some r\<rparr>) s)\<lparr>sv_runs := (ms_key st, st\<lparr>ms_final := Some r\<rparr>) # sv_runs s\<rparr>)"
  by (simp add: finish_persist_def persist_final_response_def Let_def)

lemma mutation_run_start: "mutation_run reliable req server_new"
  by (simp add: mutation_run_def)

lemma mutation_run_step: "mutation_run reliable req s \<Longrightarrow> mutation_step reliable req s s' \<Longrightarrow> mutation_run reliable req s'"
  unfolding mutation_run_def by (rule rtranclp.rtrancl_into_rtrancl)

lemma mutation_run_induct [consumes 1, case_names new step]:
  assumes "mutation_run reliable req s" and "P server_new"
    and "\<And>s s'. mutation_run reliable req s \<Longrightarrow> P s \<Longrightarrow> mutation_step reliable req s s' \<Longrightarrow> P s'"
  shows "P s"
  using assms(1) unfolding mutation_run_def
proof (induction rule: rtranclp_induct)
  case (step y z)
  show ?case by (rule assms(3) [OF _ step(3) step(2)]) (simp add: mutation_run_def step(1))
qed (rule assms(2))

lemma server_new_data [simp]:
  "sv_now server_new = 0" "sv_store server_new = (\<lambda>_. None)" "sv_active server_new = {}"
  "sv_waiters server_new = (\<lambda>_. None)" "sv_pc server_new = (\<lambda>_. Before)" "sv_sent server_new = []"
  "sv_runs server_new = []" "waiting k server_new = []"
  by (simp_all add: server_new_def waiting_def)

section \<open>One executor for each key\<close>

fun claiming :: "call_pc \<Rightarrow> bool" where
  "claiming Claimed = True"
| "claiming (Executing _) = True"
| "claiming (Persisted _ _) = True"
| "claiming _ = False"

fun held :: "call_pc \<Rightarrow> mutation_state option" where
  "held (Executing st) = Some st"
| "held (Persisted st _) = Some st"
| "held _ = None"

definition keyed :: "(nat \<Rightarrow> mutation_request) \<Rightarrow> server \<Rightarrow> bool" where
  "keyed req s \<longleftrightarrow> keys_ok (sv_store s) \<and>
     (\<forall>t st. held (sv_pc s t) = Some st \<longrightarrow> ms_key st = rq_key (req t))"

lemma keyed_prepares:
  assumes "keyed req s"
  obtains st m where "begin_prepare ok t (req t) s = at_pc t (Executing st) (s\<lparr>sv_store := m\<rparr>)"
    and "ms_key st = rq_key (req t)" and "refreshed (rq_key (req t)) (sv_store s) m"
  using begin_prepare_effect [of s ok t "req t"] assms by (auto simp: keyed_def)

lemma keyed_held: "keyed req s \<Longrightarrow> held (sv_pc s t) = Some st \<Longrightarrow> ms_key st = rq_key (req t)"
  by (auto simp: keyed_def)

lemma keyed_step: "mutation_step reliable req s s' \<Longrightarrow> keyed req s \<Longrightarrow> keyed req s'"
proof (induction rule: mutation_step.induct)
  case (begins s t)
  then show ?case
    by (cases t "req t" s rule: begin_locked_cases) (auto simp: keyed_def keys_ok_def dest: swept_keeps)
next
  case (prepares s t ok)
  from prepares(3) show ?case
    by (rule keyed_prepares [of req s ok t]) (use prepares(3) in \<open>auto simp: keyed_def intro: refreshed_keys_ok\<close>)
next
  case (persists s t st ok r)
  then have "ms_key st = rq_key (req t)" using keyed_held [of req s t st] by simp
  then show ?case using persists(3) by (auto simp: keyed_def keys_ok_def finish_persist_effect)
next
  case (releases s t st r)
  then show ?case by (auto simp: keyed_def finish_release_def Let_def)
next
  case (sends s t r session ws)
  then show ?case by (cases ws) (auto simp: keyed_def)
qed (auto simp: keyed_def)

lemma keyed_run: "mutation_run reliable req s \<Longrightarrow> keyed req s"
  by (induction rule: mutation_run_induct) (simp add: keyed_def keys_ok_def, rule keyed_step)

definition holders :: "(nat \<Rightarrow> call_pc) \<Rightarrow> nat set" where
  "holders pcs = {t. claiming (pcs t)}"

lemma holders_upd [simp]:
  "holders (pcs(t := p)) = (if claiming p then insert t (holders pcs) else holders pcs - {t})"
  by (auto simp: holders_def)

lemma holders_iff: "t \<in> holders pcs \<longleftrightarrow> claiming (pcs t)"
  by (simp add: holders_def)

definition locked :: "(nat \<Rightarrow> mutation_request) \<Rightarrow> server \<Rightarrow> bool" where
  "locked req s \<longleftrightarrow> sv_active s = (\<lambda>t. rq_key (req t)) ` holders (sv_pc s) \<and>
     inj_on (\<lambda>t. rq_key (req t)) (holders (sv_pc s)) \<and> (\<forall>k. waiting k s \<noteq> [] \<longrightarrow> k \<in> sv_active s)"

lemma locked_move:
  assumes "locked req s" and "sv_active s' = sv_active s" and "holders (sv_pc s') = holders (sv_pc s)"
    and "\<And>k. waiting k s' \<noteq> [] \<Longrightarrow> waiting k s \<noteq> [] \<or> k \<in> sv_active s"
  shows "locked req s'"
  using assms(1) unfolding locked_def assms(2,3) using assms(4) by blast

lemma locked_step:
  assumes "mutation_step reliable req s s'" and "keyed req s" and "locked req s"
  shows "locked req s'"
  using assms
proof (induction rule: mutation_step.induct)
  case (begins s t)
  then have t: "t \<notin> holders (sv_pc s)" by (simp add: holders_iff)
  show ?case
  proof (cases t "req t" s rule: begin_locked_cases)
    case (replay r st)
    show ?thesis unfolding replay(4) by (rule locked_move [OF begins(3)]) (use t in auto)
  next
    case join
    show ?thesis unfolding join(2) by (rule locked_move [OF begins(3)]) (use t join(1) in \<open>auto split: if_splits\<close>)
  next
    case claim
    show ?thesis unfolding claim(3) using begins(3) claim(1) t
      by (auto simp: locked_def inj_on_insert split: if_splits)
  qed
next
  case (prepares s t ok)
  then have "t \<in> holders (sv_pc s)" by (simp add: holders_iff)
  then have t: "insert t (holders (sv_pc s)) = holders (sv_pc s)" by auto
  from prepares(3) show ?case
  proof (rule keyed_prepares [of req s ok t])
    fix st m
    assume e: "begin_prepare ok t (req t) s = at_pc t (Executing st) (s\<lparr>sv_store := m\<rparr>)"
    show ?thesis unfolding e by (rule locked_move [OF prepares(4)]) (simp_all add: t)
  qed
next
  case (persists s t st ok r)
  then have "t \<in> holders (sv_pc s)" by (simp add: holders_iff)
  then have t: "insert t (holders (sv_pc s)) = holders (sv_pc s)" by auto
  show ?case unfolding finish_persist_effect by (rule locked_move [OF persists(4)]) (simp_all add: t)
next
  case (releases s t st r)
  then have "ms_key st = rq_key (req t)" "t \<in> holders (sv_pc s)"
    using keyed_held [of req s t st] by (simp_all add: holders_iff)
  moreover from this have "(\<lambda>t. rq_key (req t)) ` (holders (sv_pc s) - {t}) = sv_active s - {ms_key st}"
    using releases(3) inj_on_image_set_diff [of "\<lambda>t. rq_key (req t)" "holders (sv_pc s)" "holders (sv_pc s)" "{t}"]
    by (simp add: locked_def)
  ultimately show ?case using releases(3)
    by (auto simp: locked_def finish_release_def Let_def waiting_def inj_on_diff)
next
  case (sends s t r session ws)
  then have t: "holders (sv_pc s) - {t} = holders (sv_pc s)" by (auto simp: holders_iff)
  show ?case by (cases ws; rule locked_move [OF sends(3)]) (simp_all add: t)
qed (auto simp: locked_def)

lemma locked_run: "mutation_run reliable req s \<Longrightarrow> locked req s"
  by (induction rule: mutation_run_induct) (simp add: locked_def holders_def, blast intro: locked_step keyed_run)

section \<open>One answer for each call\<close>

fun drained :: "call_pc \<Rightarrow> waiter list" where
  "drained (Sending _ _ ws) = ws"
| "drained _ = []"

abbreviation tickets :: "waiter list \<Rightarrow> nat \<Rightarrow> nat" where
  "tickets ws t \<equiv> count_list (map wt_tx ws) t"

definition begun :: "(nat \<Rightarrow> call_pc) \<Rightarrow> nat set" where
  "begun pcs = {u. pcs u \<noteq> Before}"

text \<open>How often call \<open>t\<close> is in the lists that are being answered.\<close>

definition in_flight :: "(nat \<Rightarrow> call_pc) \<Rightarrow> nat \<Rightarrow> nat" where
  "in_flight pcs t = (\<Sum>u \<in> begun pcs. tickets (drained (pcs u)) t)"

lemma begun_upd: "p \<noteq> Before \<Longrightarrow> begun (pcs(u := p)) = insert u (begun pcs)"
  by (auto simp: begun_def)

lemma in_flight_upd:
  assumes "finite (begun pcs)" and "p \<noteq> Before"
  shows "in_flight (pcs(u := p)) t + tickets (drained (pcs u)) t = in_flight pcs t + tickets (drained p) t"
proof -
  let ?F = "begun pcs - {u}"
  have split: "(\<Sum>v \<in> insert u (begun pcs). f v) = f u + (\<Sum>v \<in> ?F. f v)" for f :: "nat \<Rightarrow> nat"
    using assms(1) by (simp add: sum.insert_remove)
  have "in_flight pcs t = (\<Sum>v \<in> insert u (begun pcs). tickets (drained (pcs v)) t)"
    unfolding in_flight_def by (rule sum.mono_neutral_left) (use assms(1) in \<open>auto simp: begun_def\<close>)
  moreover have "in_flight (pcs(u := p)) t = (\<Sum>v \<in> insert u (begun pcs). tickets (drained ((pcs(u := p)) v)) t)"
    unfolding in_flight_def begun_upd [OF assms(2)] ..
  moreover have "(\<Sum>v \<in> ?F. tickets (drained ((pcs(u := p)) v)) t) = (\<Sum>v \<in> ?F. tickets (drained (pcs v)) t)"
    by (rule sum.cong) auto
  ultimately show ?thesis by (simp add: split)
qed

lemma in_flight_same:
  assumes "finite (begun pcs)" and "p \<noteq> Before" and "drained p = drained (pcs u)"
  shows "in_flight (pcs(u := p)) t = in_flight pcs t"
  using in_flight_upd [OF assms(1,2), of u t] assms(3) by simp

text \<open>A waiter is a call on the key it waits at, with the id it answers to.\<close>

definition own_waiters :: "(nat \<Rightarrow> mutation_request) \<Rightarrow> server \<Rightarrow> bool" where
  "own_waiters req s \<longleftrightarrow> (\<forall>k. \<forall>w \<in> set (waiting k s). rq_key (req (wt_tx w)) = k \<and> wt_request w = rq_id (req (wt_tx w)))"

definition answers :: "server \<Rightarrow> nat \<Rightarrow> nat" where
  "answers s t = count_list (map fst (sv_sent s)) t"

definition due :: "(nat \<Rightarrow> mutation_request) \<Rightarrow> server \<Rightarrow> nat \<Rightarrow> nat" where
  "due req s t = tickets (waiting (rq_key (req t)) s) t + in_flight (sv_pc s) t + answers s t"

definition accounted :: "(nat \<Rightarrow> mutation_request) \<Rightarrow> server \<Rightarrow> bool" where
  "accounted req s \<longleftrightarrow> finite (begun (sv_pc s)) \<and> (\<forall>t. due req s t = (if sv_pc s t = Before then 0 else 1))"

lemma accounted_begin:
  assumes "accounted req s" and "sv_pc s t = Before" and "sv_pc s' = (sv_pc s)(t := p)" and "p \<noteq> Before"
    and "\<And>u. due req s' u = due req s u + (if u = t then 1 else 0)"
  shows "accounted req s'"
  using assms by (auto simp: accounted_def begun_upd)

lemma accounted_move:
  assumes "accounted req s" and "sv_pc s t \<noteq> Before" and "sv_pc s' = (sv_pc s)(t := p)" and "p \<noteq> Before"
    and "\<And>u. due req s' u = due req s u"
  shows "accounted req s'"
  using assms by (auto simp: accounted_def begun_upd)

lemma accounted_finite: "accounted req s \<Longrightarrow> finite (begun (sv_pc s))"
  by (simp add: accounted_def)

lemma own_waiters_step:
  assumes "mutation_step reliable req s s'" and "keyed req s" and "own_waiters req s"
  shows "own_waiters req s'"
  using assms
proof (induction rule: mutation_step.induct)
  case (begins s t)
  then show ?case
    by (cases t "req t" s rule: begin_locked_cases) (auto simp: own_waiters_def split: if_splits)
next
  case (prepares s t ok)
  from prepares(3) show ?case
    by (rule keyed_prepares [of req s ok t]) (use prepares(4) in \<open>auto simp: own_waiters_def\<close>)
next
  case (persists s t st ok r)
  then show ?case by (auto simp: own_waiters_def finish_persist_effect)
next
  case (releases s t st r)
  then show ?case by (auto simp: own_waiters_def finish_release_def Let_def waiting_def)
next
  case (sends s t r session ws)
  then show ?case by (cases ws) (auto simp: own_waiters_def)
qed (auto simp: own_waiters_def)

lemma own_waiters_run: "mutation_run reliable req s \<Longrightarrow> own_waiters req s"
  by (induction rule: mutation_run_induct) (simp add: own_waiters_def, blast intro: own_waiters_step keyed_run)

lemma other_key_tickets: "own_waiters req s \<Longrightarrow> rq_key (req t) \<noteq> k \<Longrightarrow> tickets (waiting k s) t = 0"
  by (auto simp: own_waiters_def count_list_0_iff)

lemma accounted_step:
  assumes "mutation_step reliable req s s'" and "keyed req s" and "own_waiters req s" and "accounted req s"
  shows "accounted req s'"
  using assms
proof (induction rule: mutation_step.induct)
  case (begins s t)
  note fin = accounted_finite [OF begins(4)]
  have due: "due req (begin_locked t (req t) s) u = due req s u + (if u = t then 1 else 0)" for u
    by (cases t "req t" s rule: begin_locked_cases) (simp_all add: due_def answers_def in_flight_same fin begins(1))
  have "\<exists>p. sv_pc (begin_locked t (req t) s) = (sv_pc s)(t := p) \<and> p \<noteq> Before"
    by (cases t "req t" s rule: begin_locked_cases) auto
  then show ?case using accounted_begin [OF begins(4,1) _ _ due] by blast
next
  case (prepares s t ok)
  note fin = accounted_finite [OF prepares(5)]
  from prepares(3) show ?case
  proof (rule keyed_prepares [of req s ok t])
    fix st m
    assume e: "begin_prepare ok t (req t) s = at_pc t (Executing st) (s\<lparr>sv_store := m\<rparr>)"
    show ?thesis unfolding e
      by (rule accounted_move [OF prepares(5), of t _ "Executing st"])
        (simp_all add: prepares(1) due_def answers_def in_flight_same fin)
  qed
next
  case (persists s t st ok r)
  note fin = accounted_finite [OF persists(5)]
  show ?case unfolding finish_persist_effect
    by (rule accounted_move [OF persists(5), of t _ "Persisted (st\<lparr>ms_final := Some r\<rparr>) r"])
      (simp_all add: persists(1) due_def answers_def in_flight_same fin)
next
  case (releases s t st r)
  note fin = accounted_finite [OF releases(4)]
  have key: "ms_key st = rq_key (req t)" using keyed_held [of req s t st] releases by simp
  have "due req (finish_release t st r s) u = due req s u" for u
    using in_flight_upd [OF fin, of "Sending r (ms_session st) (waiting (ms_key st) s)" t u] releases(1)
      other_key_tickets [OF releases(3), of u "ms_key st"]
    by (cases "rq_key (req u) = ms_key st") (simp_all add: due_def answers_def finish_release_def Let_def waiting_def)
  then show ?case
    by (intro accounted_move [OF releases(4), of t _ "Sending r (ms_session st) (waiting (ms_key st) s)"])
      (simp_all add: releases(1) finish_release_def Let_def)
next
  case (sends s t r session ws)
  note fin = accounted_finite [OF sends(4)]
  show ?case
  proof (cases ws)
    case Nil
    then show ?thesis
      by (intro accounted_move [OF sends(4), of t _ Finished]) (simp_all add: sends(1) due_def answers_def in_flight_same fin)
  next
    case (Cons w ws')
    have "due req (finish_send t r session ws s) u = due req s u" for u
      using in_flight_upd [OF fin, of "Sending r session ws'" t u] sends(1) Cons
      by (cases "wt_tx w = u") (simp_all add: due_def answers_def)
    then show ?thesis
      by (intro accounted_move [OF sends(4), of t _ "Sending r session ws'"]) (simp_all add: sends(1) Cons)
  qed
qed (auto simp: accounted_def due_def answers_def)

lemma accounted_run: "mutation_run reliable req s \<Longrightarrow> accounted req s"
  by (induction rule: mutation_run_induct)
    (simp add: accounted_def due_def begun_def in_flight_def answers_def, blast intro: accounted_step keyed_run own_waiters_run)

section \<open>Answers come from executions\<close>

text \<open>\<open>(k, r)\<close>: some execution of the key \<open>k\<close> came to \<open>r\<close>.\<close>

definition concluded :: "server \<Rightarrow> string \<Rightarrow> response \<Rightarrow> bool" where
  "concluded s k r \<longleftrightarrow> (\<exists>st. (k, st) \<in> set (sv_runs s) \<and> ms_final st = Some r)"

definition proper_answer ::
  "(nat \<Rightarrow> mutation_request) \<Rightarrow> (string \<Rightarrow> response \<Rightarrow> bool) \<Rightarrow> nat \<Rightarrow> server_event \<Rightarrow> bool" where
  "proper_answer req C t ev \<longleftrightarrow>
     (\<exists>r session. C (rq_key (req t)) r \<and> ev = into_server_event r (rq_id (req t)) session)"

fun will_answer :: "(nat \<Rightarrow> mutation_request) \<Rightarrow> (string \<Rightarrow> response \<Rightarrow> bool) \<Rightarrow> call_pc \<Rightarrow> string \<Rightarrow> bool" where
  "will_answer req C (Persisted st r) k \<longleftrightarrow> C k r"
| "will_answer req C (Sending r session ws) k \<longleftrightarrow>
     (\<forall>w \<in> set ws. proper_answer req C (wt_tx w) (into_server_event r (wt_request w) session))"
| "will_answer req C _ k \<longleftrightarrow> True"

definition truthful :: "(nat \<Rightarrow> mutation_request) \<Rightarrow> (string \<Rightarrow> response \<Rightarrow> bool) \<Rightarrow> server \<Rightarrow> bool" where
  "truthful req C s \<longleftrightarrow> (\<forall>k st r. sv_store s k = Some st \<longrightarrow> ms_final st = Some r \<longrightarrow> C k r) \<and>
     (\<forall>t. will_answer req C (sv_pc s t) (rq_key (req t))) \<and>
     (\<forall>x \<in> set (sv_sent s). proper_answer req C (fst x) (snd x))"

lemma proper_answer_mono: "(\<And>k r. C k r \<Longrightarrow> C' k r) \<Longrightarrow> proper_answer req C t ev \<Longrightarrow> proper_answer req C' t ev"
  by (auto simp: proper_answer_def)

lemma will_answer_mono:
  assumes "\<And>k r. C k r \<Longrightarrow> C' k r" and "will_answer req C p k"
  shows "will_answer req C' p k"
  using assms(2) by (cases p) (auto intro: assms(1) proper_answer_mono [of C C', OF assms(1)])

lemma truthful_mono:
  assumes "\<And>k r. C k r \<Longrightarrow> C' k r" and "truthful req C s"
  shows "truthful req C' s"
  using assms(2) unfolding truthful_def
  by (blast intro: assms(1) proper_answer_mono [of C C', OF assms(1)] will_answer_mono [of C C', OF assms(1)])

lemma concluded_step: "mutation_step reliable req s s' \<Longrightarrow> concluded s k r \<Longrightarrow> concluded s' k r"
proof (induction rule: mutation_step.induct)
  case (begins s t)
  then show ?case by (cases t "req t" s rule: begin_locked_cases) (auto simp: concluded_def)
next
  case (prepares s t ok)
  then show ?case
    by (auto simp: concluded_def begin_prepare_def ensure_pending_state_def load_state_def split: option.splits)
next
  case (sends s t r session ws)
  then show ?case by (cases ws) (auto simp: concluded_def)
qed (auto simp: concluded_def finish_persist_effect finish_release_def Let_def)

text \<open>The effect of a step on what is promised, for conclusions that already include the step's own.\<close>

lemma truthful_effect:
  assumes "mutation_step reliable req s s'" and "keyed req s" and "own_waiters req s" and "truthful req C s"
    and "\<And>k r. concluded s' k r \<Longrightarrow> C k r"
  shows "truthful req C s'"
  using assms
proof (induction rule: mutation_step.induct)
  case (begins s t)
  show ?case
  proof (cases t "req t" s rule: begin_locked_cases)
    case (replay r st)
    then have "C (rq_key (req t)) r" using begins(4) by (auto simp: truthful_def)
    then show ?thesis unfolding replay(4) using begins(4)
      by (auto simp: truthful_def proper_answer_def dest: swept_keeps)
  next
    case join
    then show ?thesis using begins(4) by (auto simp: truthful_def dest: swept_keeps)
  next
    case claim
    show ?thesis unfolding claim(3) using begins(4) by (auto simp: truthful_def dest: swept_keeps)
  qed
next
  case (prepares s t ok)
  from prepares(3) show ?case
  proof (rule keyed_prepares [of req s ok t])
    fix st m
    assume e: "begin_prepare ok t (req t) s = at_pc t (Executing st) (s\<lparr>sv_store := m\<rparr>)"
      and m: "refreshed (rq_key (req t)) (sv_store s) m"
    show ?thesis unfolding e using prepares(5) m
      by (simp add: truthful_def refreshed_def) (metis option.distinct(1))
  qed
next
  case (persists s t st ok r)
  have key: "ms_key st = rq_key (req t)" using keyed_held [of req s t st] persists(1,3) by simp
  have "C (rq_key (req t)) r"
    by (rule persists(6)) (auto simp: finish_persist_effect concluded_def key intro!: exI [of _ "st\<lparr>ms_final := Some r\<rparr>"])
  then show ?case using persists(5) key by (auto simp: truthful_def finish_persist_effect)
next
  case (releases s t st r)
  have key: "ms_key st = rq_key (req t)" using keyed_held [of req s t st] releases by simp
  have "C (rq_key (req t)) r" using releases(1,4) by (auto simp: truthful_def dest: spec [of _ t])
  then have "proper_answer req C (wt_tx w) (into_server_event r (wt_request w) session)"
    if "w \<in> set (waiting (ms_key st) s)" for w session
    using that releases(3) key by (auto simp: own_waiters_def proper_answer_def)
  then show ?case using releases(4) by (auto simp: truthful_def finish_release_def Let_def)
next
  case (sends s t r session ws)
  have "will_answer req C (Sending r session ws) (rq_key (req t))"
    using sends(1,4) by (metis truthful_def)
  then show ?case using sends(4) by (cases ws) (auto simp: truthful_def)
qed (auto simp: truthful_def)

lemma truthful_run: "mutation_run reliable req s \<Longrightarrow> truthful req (concluded s) s"
proof (induction rule: mutation_run_induct)
  case (step s s')
  have "truthful req (concluded s') s"
    by (rule truthful_mono [OF _ step(3)]) (rule concluded_step [OF step(2)])
  then show ?case
    by (intro truthful_effect [OF step(2)] keyed_run [OF step(1)] own_waiters_run [OF step(1)]) auto
qed (simp add: truthful_def)

section \<open>No execution while the last one can be replayed\<close>

text \<open>The last finished execution of a key: its state is on disk unless it is stale, except while the key is
  claimed; a claimant that has persisted is the last one.\<close>

definition last_run :: "server \<Rightarrow> string \<Rightarrow> mutation_state option" where
  "last_run s k = map_of (sv_runs s) k"




lemma last_run_data [simp]:
  "last_run (at_pc t p s) k = last_run s k" "last_run (send t ev s) k = last_run s k"
  "last_run (push_waiter j w s) k = last_run s k" "last_run (s\<lparr>sv_store := m\<rparr>) k = last_run s k"
  "last_run (s\<lparr>sv_active := a\<rparr>) k = last_run s k" "last_run (s\<lparr>sv_waiters := ws\<rparr>) k = last_run s k"
  "last_run (s\<lparr>sv_now := n\<rparr>) k = last_run s k"
  by (simp_all add: last_run_def)



lemma claimed_alone:
  assumes "locked req s" and "claiming (sv_pc s t)" and "claiming (sv_pc s u)" and "rq_key (req u) = rq_key (req t)"
  shows "u = t"
  using assms by (auto simp: locked_def inj_on_def holders_iff)




section \<open>The properties\<close>

text \<open>C24. One executor for each key: in every run two calls that have claimed the same key and not released it
  are the same call, and the keys held by such calls are exactly the active ones.\<close>

theorem one_executor_per_key:
  assumes "mutation_run reliable req s"
  shows "sv_active s = {rq_key (req t) |t. claiming (sv_pc s t)} \<and>
    (claiming (sv_pc s t) \<and> claiming (sv_pc s u) \<and> rq_key (req t) = rq_key (req u) \<longrightarrow> t = u)"
  using locked_run [OF assms] claimed_alone [OF locked_run [OF assms], of u t]
  by (auto simp: locked_def holders_def)

text \<open>C25. One answer for each call: in every run no call is answered twice, and once all calls that have begun
  have returned, each has been answered exactly once, with its own request id, by a response that some
  execution of its key came to; this holds whether or not state files can be written.\<close>

theorem one_answer_per_call:
  assumes "mutation_run reliable req s"
  shows "length (filter (\<lambda>x. fst x = t) (sv_sent s)) \<le> 1 \<and>
    ((\<forall>u. sv_pc s u = Before \<or> sv_pc s u = Finished) \<and> sv_pc s t = Finished \<longrightarrow>
      (\<exists>r session. concluded s (rq_key (req t)) r \<and>
        filter (\<lambda>x. fst x = t) (sv_sent s) = [(t, into_server_event r (rq_id (req t)) session)]))"
proof -
  have count: "answers s t = length (filter (\<lambda>x. fst x = t) (sv_sent s))"
    unfolding answers_def by (induction "sv_sent s" arbitrary: s) (auto simp: count_list_eq_length_filter filter_map o_def eq_commute)
  have due: "due req s t = (if sv_pc s t = Before then 0 else 1)"
    using accounted_run [OF assms] by (simp add: accounted_def)
  then have le: "length (filter (\<lambda>x. fst x = t) (sv_sent s)) \<le> 1"
    using count by (auto simp: due_def split: if_splits)
  have "\<exists>r session. concluded s (rq_key (req t)) r \<and>
      filter (\<lambda>x. fst x = t) (sv_sent s) = [(t, into_server_event r (rq_id (req t)) session)]"
    if rest: "\<forall>u. sv_pc s u = Before \<or> sv_pc s u = Finished" and fin: "sv_pc s t = Finished"
  proof -
    have "\<not> claiming (sv_pc s u)" "drained (sv_pc s u) = []" for u using rest [rule_format, of u] by auto
    then have "waiting k s = []" "in_flight (sv_pc s) t = 0" for k
      using locked_run [OF assms] by (auto simp: locked_def holders_def in_flight_def)
    then have "length (filter (\<lambda>x. fst x = t) (sv_sent s)) = 1"
      using due fin count by (simp add: due_def)
    then obtain x where x: "filter (\<lambda>x. fst x = t) (sv_sent s) = [x]"
      by (metis One_nat_def length_0_conv length_Suc_conv)
    then have "x \<in> set (filter (\<lambda>x. fst x = t) (sv_sent s))" by simp
    then have "x \<in> set (sv_sent s)" and t: "fst x = t" by simp_all
    then have "proper_answer req (concluded s) t (snd x)"
      using truthful_run [OF assms] by (auto simp: truthful_def)
    then obtain r session where r: "concluded s (rq_key (req t)) r" "snd x = into_server_event r (rq_id (req t)) session"
      by (auto simp: proper_answer_def)
    then have "x = (t, into_server_event r (rq_id (req t)) session)" using t by (cases x) simp
    then show ?thesis using r(1) x by blast
  qed
  then show ?thesis using le by blast
qed


text \<open>A mutation that takes 31 seconds, requested twice by replaying calls.\<close>

definition twice :: "nat \<Rightarrow> mutation_request" where
  "twice t = \<lparr>rq_key = ''k'', rq_action = ''spawn'', rq_session = ''s'', rq_id = of_nat t, rq_replay = True\<rparr>"

definition held_state :: mutation_state where
  "held_state = \<lparr>ms_key = ''k'', ms_action = ''spawn'', ms_session = ''s'', ms_created = 0, ms_final = None\<rparr>"

definition claimed_once :: server where
  "claimed_once = begin_locked 0 (twice 0) server_new"

definition slow :: server where
  "slow = (begin_prepare True 0 (twice 0) claimed_once)\<lparr>sv_now := 31000\<rparr>"

definition slow_done :: server where
  "slow_done = finish_persist True 0 held_state (Spawn ''c'') slow"

definition slow_returned :: server where
  "slow_returned = finish_send 0 (Spawn ''c'') ''s'' [] (finish_send 0 (Spawn ''c'') ''s'' [\<lparr>wt_request = 0, wt_tx = 0\<rparr>]
     (finish_release 0 (held_state\<lparr>ms_final := Some (Spawn ''c'')\<rparr>) (Spawn ''c'') slow_done))"

lemma claimed_once_eq:
  "claimed_once = server_new\<lparr>sv_active := {''k''}, sv_waiters := [''k'' \<mapsto> [\<lparr>wt_request = 0, wt_tx = 0\<rparr>]],
     sv_pc := (\<lambda>_. Before)(0 := Claimed)\<rparr>"
  by (simp add: claimed_once_def begin_locked_def persisted_final_def load_state_def twice_def server_new_def
      push_waiter_def waiting_def at_pc_def)

lemma slow_eq:
  "slow = claimed_once\<lparr>sv_now := 31000, sv_store := [''k'' \<mapsto> held_state], sv_pc := (\<lambda>_. Before)(0 := Executing held_state)\<rparr>"
  by (simp add: slow_def claimed_once_eq begin_prepare_def ensure_pending_state_def load_state_def twice_def server_new_def
      pending_state_def save_state_def held_state_def at_pc_def)

lemma slow_done_eq:
  "slow_done = slow\<lparr>sv_store := [''k'' \<mapsto> held_state\<lparr>ms_final := Some (Spawn ''c'')\<rparr>],
     sv_runs := [(''k'', held_state\<lparr>ms_final := Some (Spawn ''c'')\<rparr>)],
     sv_pc := (\<lambda>_. Before)(0 := Persisted (held_state\<lparr>ms_final := Some (Spawn ''c'')\<rparr>) (Spawn ''c''))\<rparr>"
  by (simp add: slow_done_def finish_persist_effect slow_eq claimed_once_eq server_new_def save_state_def held_state_def at_pc_def)

lemma slow_returned_eq:
  "slow_returned = slow_done\<lparr>sv_active := {}, sv_waiters := (\<lambda>_. None), sv_sent := [(0, Event_Spawn 0 ''s'' ''c'')],
     sv_pc := (\<lambda>_. Before)(0 := Finished)\<rparr>"
  by (simp add: slow_returned_def finish_release_def Let_def slow_done_eq slow_eq claimed_once_eq server_new_def
      held_state_def at_pc_def send_def fun_eq_iff)

lemma claimed_once_run: "mutation_run True twice claimed_once"
  unfolding claimed_once_def by (rule mutation_run_step [OF mutation_run_start begins]) simp

lemma slow_run: "mutation_run True twice slow"
proof -
  have "mutation_run True twice (begin_prepare True 0 (twice 0) claimed_once)"
    by (rule mutation_run_step [OF claimed_once_run prepares]) (simp_all add: claimed_once_eq)
  from mutation_run_step [OF this ticks [of _ _ _ 31000]] show ?thesis
    by (simp add: slow_def begin_prepare_def ensure_pending_state_def load_state_def claimed_once_eq server_new_def twice_def
        save_state_def pending_state_def at_pc_def)
qed

lemma slow_finishes: "(mutation_step True twice)\<^sup>*\<^sup>* slow_done slow_returned"
proof -
  let ?st = "held_state\<lparr>ms_final := Some (Spawn ''c'')\<rparr>"
  let ?a = "finish_release 0 ?st (Spawn ''c'') slow_done"
  let ?b = "finish_send 0 (Spawn ''c'') ''s'' [\<lparr>wt_request = 0, wt_tx = 0\<rparr>] ?a"
  have "mutation_step True twice slow_done ?a" by (rule releases) (simp add: slow_done_eq)
  moreover have "mutation_step True twice ?a ?b"
    by (rule sends) (simp add: finish_release_def Let_def slow_done_eq slow_eq claimed_once_eq held_state_def waiting_def)
  moreover have "mutation_step True twice ?b slow_returned"
    unfolding slow_returned_def by (rule sends) simp
  ultimately show ?thesis by (meson converse_rtranclp_into_rtranclp rtranclp.rtrancl_refl)
qed

lemma slow_done_step: "mutation_step True twice slow slow_done"
  unfolding slow_done_def by (rule persists) (simp_all add: slow_eq)

lemma slow_returned_run: "mutation_run True twice slow_returned"
  using mutation_run_step [OF slow_run slow_done_step] slow_finishes unfolding mutation_run_def by (rule rtranclp_trans)

text \<open>The repeated call finds the final state stale and claims.\<close>

lemma repeat_claims:
  "sv_now (begin_locked 1 (twice 1) slow_returned) = 31000"
  "sv_pc (begin_locked 1 (twice 1) slow_returned) = (sv_pc slow_returned)(1 := Claimed)"
  by (simp_all add: begin_locked_def persisted_final_def load_state_def slow_returned_eq slow_done_eq slow_eq claimed_once_eq
      twice_def held_state_def is_stale_def elapsed_exceeds_def final_state_ttl_def Let_def push_waiter_def)

theorem one_executor_per_key_witness:
  "sv_active claimed_once = {rq_key (twice t) |t. claiming (sv_pc claimed_once t)} \<and> sv_active claimed_once = {''k''}"
proof
  show "sv_active claimed_once = {rq_key (twice t) |t. claiming (sv_pc claimed_once t)}"
    by (rule conjunct1 [OF one_executor_per_key [OF claimed_once_run]])
qed (simp add: claimed_once_eq)

theorem one_answer_per_call_witness:
  "\<exists>r session. concluded slow_returned (rq_key (twice 0)) r \<and>
     filter (\<lambda>x. fst x = 0) (sv_sent slow_returned) = [(0, into_server_event r (rq_id (twice 0)) session)]"
  using one_answer_per_call [OF slow_returned_run, of 0] by (simp add: slow_returned_eq)


text \<open>But the age of a final answer is counted from the beginning of its execution: in some run with
  reliable files an execution comes to its answer, every waiter is answered, and a repeated request at
  that same moment executes the mutation a second time.\<close>

theorem slow_mutation_runs_twice:
  "\<exists>s st r s'. mutation_run True twice s \<and> sv_pc s 0 = Executing st \<and>
     (mutation_step True twice)\<^sup>*\<^sup>* (finish_persist True 0 st r s) s' \<and> sv_now s' = sv_now s \<and>
     sv_pc s' 0 = Finished \<and> sv_pc s' 1 = Claimed \<and> rq_replay (twice 1) \<and> rq_key (twice 1) = rq_key (twice 0)"
proof (intro exI conjI)
  let ?s' = "begin_locked 1 (twice 1) slow_returned"
  show "mutation_run True twice slow" by (rule slow_run)
  show "sv_pc slow 0 = Executing held_state" by (simp add: slow_eq)
  have "mutation_step True twice slow_returned ?s'" by (rule begins) (simp add: slow_returned_eq)
  with slow_finishes show "(mutation_step True twice)\<^sup>*\<^sup>* (finish_persist True 0 held_state (Spawn ''c'') slow) ?s'"
    unfolding slow_done_def by (rule rtranclp.rtrancl_into_rtrancl)
  show "sv_now ?s' = sv_now slow" "sv_pc ?s' 0 = Finished" "sv_pc ?s' 1 = Claimed"
    unfolding repeat_claims by (simp_all add: slow_returned_eq slow_eq)
  show "rq_replay (twice 1)" "rq_key (twice 1) = rq_key (twice 0)" by (simp_all add: twice_def)
qed

end
